(* ===== verification/Prelude.thy ===== *)
theory Prelude
  imports
    Main
    "HOL-Library.Signed_Division"
    "HOL-Library.List_Lexorder"
    "HOL-Library.Char_ord"
    "HOL-Library.Product_Lexorder"
    "HOL-Library.Multiset"
begin

text \<open>
  Shared vocabulary of the development: SQL tables as lists of rows with their
  \<open>UPDATE\<close>, \<open>count\<close> and \<open>sum\<close>, the errors of the Go packages, results and
  transactions, loops that stop at the first error, Go's 64-bit arithmetic and
  durations, and the lemmas about them that every component uses.
\<close>

named_theorems op_defs \<open>definitions of the modelled operations\<close>
named_theorems frame_simps \<open>which tables an operation leaves alone\<close>
named_theorems wf_intros \<open>preservation of well-formedness\<close>
named_theorems time_defs \<open>the durations of the code, unfolded to nanoseconds\<close>

section \<open>Errors, results, transactions\<close>

text \<open>
  The error values of the packages, one constructor per Go variable.
  \<open>DB_CheckViolation\<close> and \<open>DB_UniqueViolation\<close> are the constraint errors of the
  schema under \<^verbatim>\<open>migrations/\<close> that a statement of the model can raise;
  \<open>DB_NoRows\<close> is \<open>pgx.ErrNoRows\<close> where the code passes it on unchanged;
  \<open>Gateway_Error\<close> is an error of the payment gateway's client.
\<close>

datatype auth_error = AuthInvalidInput | AuthUserInactive | AuthOAuthTokenInvalid | AuthProviderUnavailable
  | AuthUserNotFound | AuthRefreshTokenInvalid | AuthRecoveryCodeInvalid | AuthEmailAlreadyUsed
datatype promotions_error = PromoInvalidInput | PromoForbidden | PromoListingNotFound
datatype chat_error = ChatInvalidInput | ChatRoomNotFound | ChatNotAMember | ChatMessageNotFound | ChatNotHost
  | ChatPollNotFound | ChatContentRejected | ChatNotConnected | ChatMediaUnavailable
datatype referral_error = RefInvalidInput | RefCodeNotFound | RefSelfReferral | RefAlreadyReferred
  | RefWindowClosed | RefCapReached | RefNoCode
datatype connections_error = ConnInvalidInput | ConnForbidden | ConnNotFound | ConnNotAttendee | ConnInviteeRules
  | ConnAlreadyDecided | ConnUserNotFound | ConnBadOriginPlan
datatype communities_error = CommInvalidInput | CommForbidden | CommEntitlementRequired | CommAlreadyDecided
  | CommOwnerCannotLeave | CommJoinDeclined | CommNotFound | CommRequestNotFound

datatype reviews_error = ReviewsInvalidInput | ReviewsForbidden | ReviewsNotAttended
datatype safety_error = SafetyInvalidInput | SafetyNotConfirmed | SafetyPlanNotAllowed | SafetyNoContact
datatype users_error = UsersInvalidInput | UsersUnderage | UsersActiveCommitments | UsersBirthdayLocked
datatype availability_error = AvailInvalidInput | AvailForbidden | AvailWindowNotFound | AvailNotOpen
datatype meet_error = MeetInvalidInput | MeetTargetNotFound | MeetRateLimited | MeetAlreadyBoosted
  | MeetInsufficientCredits
datatype media_error = MediaNotFound
datatype groups_error = GroupsInvalidInput | GroupsForbidden | GroupsTooManyPeople
datatype stories_error = StoriesInvalidInput | StoriesContentRejected | StoriesNotMember | StoriesNotFound
  | StoriesForbidden | StoriesMediaUnavailable
datatype social_error = SocialInvalidInput | SocialContentRejected | SocialNotAttendee | SocialNotMember
  | SocialMediaUnavailable | SocialPostNotFound
datatype host_error = HostInvalidInput | HostNotApproved | HostNoPayoutBalance | HostPayoutAccountNotFound
  | HostPayoutNotFound

datatype go_error =
    Bookings_InvalidInput | Bookings_Forbidden | Bookings_PlanFull
  | Bookings_AlreadyBooked | Bookings_PlanNotFound | Bookings_BookingNotFound
  | Bookings_NotFull | Bookings_InviteOnly | Bookings_ApprovalRequired
  | Bookings_NotCommunityMember | Bookings_EntitlementRequired
  | Bookings_PassUnavailable | Bookings_PassDisabled | Bookings_OutsideWindow
  | Bookings_InvalidPass
  | Payments_InvalidInput | Payments_Forbidden | Payments_NotPayable
  | Payments_GatewayUnavailable | Payments_PlanFullAfterPay | Payments_SeatGone
  | Payments_PaymentNotFound | Payments_PaymentNotRefundable | Payments_CouponInvalid
  | Plans_InvalidInput | Plans_Forbidden | Plans_PlanNotFound
  | Plans_RequestNotFound | Plans_AlreadyDecided | Plans_BadRecurrence | Plans_MediaUnavailable
  | Subscriptions_InvalidInput | Subscriptions_Forbidden | Subscriptions_NotFound
  | Idempotency_DuplicateRequest
  | Notifications_InvalidInput
  | Security_InvalidPass | Security_ExpiredPass
  | DB_NoRows | DB_CheckViolation | DB_UniqueViolation
  | Gateway_Error string
  | Auth auth_error | Promotions promotions_error | Chat chat_error | Referral referral_error
  | Connections connections_error | Communities communities_error | Reviews reviews_error
  | Safety safety_error | Users users_error | Availability availability_error | Meet meet_error
  | Media media_error | Smart_Groups groups_error | Stories stories_error | Social social_error
  | Hosts host_error

text \<open>
  A Go function that returns a value and an \<open>error\<close> returns \<open>go_error + 'a\<close>;
  one that also writes the database returns the new state beside it.
\<close>

type_synonym ('s, 'a) outcome = "'s \<times> (go_error + 'a)"

definition and_then ::
  "('s, 'a) outcome \<Rightarrow> ('a \<Rightarrow> 's \<Rightarrow> ('s, 'b) outcome) \<Rightarrow> ('s, 'b) outcome" where
  "and_then r k = (case snd r of Inl e \<Rightarrow> (fst r, Inl e) | Inr a \<Rightarrow> k a (fst r))"

text \<open>\<open>defer tx.Rollback(ctx)\<close>: a transaction that returns an error leaves the state it started from.\<close>

definition in_tx :: "'s \<Rightarrow> ('s, 'a) outcome \<Rightarrow> ('s, 'a) outcome" where
  "in_tx s r = (case snd r of Inl e \<Rightarrow> (s, Inl e) | Inr a \<Rightarrow> r)"

lemma and_then_simps [simp]:
  "and_then (s, Inl e) k = (s, Inl e)"
  "and_then (s, Inr a) k = k a s"
  by (simp_all add: and_then_def)

lemma in_tx_simps [simp]:
  "in_tx s (s', Inl e) = (s, Inl e)"
  "in_tx s (s', Inr a) = (s', Inr a)"
  by (simp_all add: in_tx_def)

lemma in_tx_error: "in_tx s r = (s', Inl e) \<Longrightarrow> s' = s"
  by (cases r) (auto simp: in_tx_def split: sum.splits)

lemma in_tx_cases:
  "in_tx s r = (s', Inr a) \<Longrightarrow> r = (s', Inr a)"
  by (cases r) (auto simp: in_tx_def split: sum.splits)

lemma in_tx_eq_Inr: "in_tx s r = (s', Inr a) \<longleftrightarrow> r = (s', Inr a)"
  by (cases r) (auto simp: in_tx_def split: sum.splits)

lemma and_then_eq_Inr:
  "and_then r k = (s', Inr b) \<longleftrightarrow> (\<exists>s1 a. r = (s1, Inr a) \<and> k a s1 = (s', Inr b))"
  by (cases r) (auto simp: and_then_def split: sum.splits)

lemma in_tx_keeps:
  assumes "I s" "I (fst r)"
  shows "I (fst (in_tx s r))"
  using assms by (cases r) (auto simp: in_tx_def split: sum.splits)

lemma and_then_keeps:
  assumes "I (fst r)" "\<And>a. snd r = Inr a \<Longrightarrow> I (fst (k a (fst r)))"
  shows "I (fst (and_then r k))"
  using assms by (auto simp: and_then_def split: sum.splits)

text \<open>\<open>for _, x := range xs { if err := op(x); err != nil { return err } }\<close>\<close>

fun for_each :: "('x \<Rightarrow> 's \<Rightarrow> ('s, 'a) outcome) \<Rightarrow> 'x list \<Rightarrow> 's \<Rightarrow> ('s, unit) outcome" where
  "for_each op [] s = (s, Inr ())"
| "for_each op (x # xs) s = and_then (op x s) (\<lambda>_ s'. for_each op xs s')"

text \<open>
  The contract of an operation run in such a loop: it keeps an invariant of the
  state. The loop then keeps it too, whether or not it stops early.
\<close>

locale keeps_invariant =
  fixes op :: "'x \<Rightarrow> 's \<Rightarrow> ('s, 'a) outcome"
    and inv :: "'s \<Rightarrow> bool"
  assumes keeps: "inv s \<Longrightarrow> inv (fst (op x s))"
begin

lemma for_each_keeps: "inv s \<Longrightarrow> inv (fst (for_each op xs s))"
proof (induction xs arbitrary: s)
  case Nil
  then show ?case by simp
next
  case (Cons x xs)
  show ?case
    by (auto intro!: and_then_keeps Cons.IH keeps Cons.prems)
qed

end

section \<open>Tables\<close>

text \<open>
  A table is the list of its rows in insertion order. \<open>upd P f\<close> is
  \<^verbatim>\<open>UPDATE .. SET f WHERE P\<close>; \<open>cnt\<close> and \<open>tot\<close> are \<^verbatim>\<open>count(*)\<close> and
  \<^verbatim>\<open>COALESCE(sum(..),0)\<close>; \<open>find\<close> is \<open>QueryRow\<close> (the first row, or no row).
\<close>

definition upd :: "('r \<Rightarrow> bool) \<Rightarrow> ('r \<Rightarrow> 'r) \<Rightarrow> 'r list \<Rightarrow> 'r list" where
  "upd P f rs = map (\<lambda>r. if P r then f r else r) rs"

definition tot :: "('r \<Rightarrow> bool) \<Rightarrow> ('r \<Rightarrow> int) \<Rightarrow> 'r list \<Rightarrow> int" where
  "tot P amt rs = (\<Sum>r\<leftarrow>filter P rs. amt r)"

definition cnt :: "('r \<Rightarrow> bool) \<Rightarrow> 'r list \<Rightarrow> int" where
  "cnt P rs = int (length (filter P rs))"

lemma upd_simps [simp]:
  "upd P f [] = []"
  "upd P f (r # rs) = (if P r then f r else r) # upd P f rs"
  "upd P f (rs @ rs') = upd P f rs @ upd P f rs'"
  by (simp_all add: upd_def)

lemma tot_simps [simp]:
  "tot P amt [] = 0"
  "tot P amt (r # rs) = (if P r then amt r else 0) + tot P amt rs"
  "tot P amt (rs @ rs') = tot P amt rs + tot P amt rs'"
  by (simp_all add: tot_def)

lemma cnt_tot: "cnt P rs = tot P (\<lambda>_. 1) rs"
  by (induction rs) (auto simp: cnt_def)

lemma cnt_simps [simp]:
  "cnt P [] = 0"
  "cnt P (r # rs) = (if P r then 1 else 0) + cnt P rs"
  "cnt P (rs @ rs') = cnt P rs + cnt P rs'"
  by (simp_all add: cnt_def)

lemma length_upd [simp]: "length (upd P f rs) = length rs"
  by (simp add: upd_def)

lemma set_upd: "set (upd P f rs) = {if P r then f r else r | r. r \<in> set rs}"
  by (auto simp: upd_def)

lemma upd_memE:
  assumes "x \<in> set (upd P f rs)"
  obtains r where "r \<in> set rs" "P r" "x = f r" | "x \<in> set rs" "\<not> P x"
  using assms by (auto simp: upd_def)

lemma cnt_nonneg [simp]: "0 \<le> cnt P rs"
  by (simp add: cnt_def)

lemma cnt_pos_iff: "0 < cnt P rs \<longleftrightarrow> (\<exists>r\<in>set rs. P r)"
  by (induction rs) (auto simp: add_pos_nonneg)

lemma cnt_zero_iff: "cnt P rs = 0 \<longleftrightarrow> (\<forall>r\<in>set rs. \<not> P r)"
  using cnt_pos_iff[of P rs] cnt_nonneg[of P rs] by (auto simp: order.strict_iff_order)

lemma tot_cong:
  "(\<And>r. r \<in> set rs \<Longrightarrow> P r = Q r) \<Longrightarrow> (\<And>r. r \<in> set rs \<Longrightarrow> P r \<Longrightarrow> f r = g r) \<Longrightarrow> tot P f rs = tot Q g rs"
  by (induction rs) auto

lemma cnt_cong: "(\<And>r. r \<in> set rs \<Longrightarrow> P r = Q r) \<Longrightarrow> cnt P rs = cnt Q rs"
  by (induction rs) auto

lemma cnt_mono: "(\<And>r. r \<in> set rs \<Longrightarrow> P r \<Longrightarrow> Q r) \<Longrightarrow> cnt P rs \<le> cnt Q rs"
proof (induction rs)
  case (Cons r rs)
  then have "cnt P rs \<le> cnt Q rs" by simp
  with Cons.prems[of r] show ?case by auto
qed simp

lemma tot_nonneg: "(\<And>r. r \<in> set rs \<Longrightarrow> P r \<Longrightarrow> 0 \<le> f r) \<Longrightarrow> 0 \<le> tot P f rs"
  by (induction rs) (auto intro: add_nonneg_nonneg)

lemma tot_upd_same:
  assumes "\<And>r. r \<in> set rs \<Longrightarrow> P r \<Longrightarrow> Q (f r) = Q r \<and> (Q r \<longrightarrow> amt (f r) = amt r)"
  shows "tot Q amt (upd P f rs) = tot Q amt rs"
  using assms by (induction rs) auto

lemma cnt_upd_same:
  assumes "\<And>r. r \<in> set rs \<Longrightarrow> P r \<Longrightarrow> Q (f r) = Q r"
  shows "cnt Q (upd P f rs) = cnt Q rs"
  using assms by (induction rs) auto

lemma map_upd:
  assumes "\<And>r. P r \<Longrightarrow> key (f r) = key r"
  shows "map key (upd P f rs) = map key rs"
  using assms by (simp add: upd_def)

lemma find_key:
  assumes "find (\<lambda>r. key r = k) rs = Some r0"
  shows "r0 \<in> set rs" "key r0 = k"
  using assms by (auto simp: find_Some_iff)

lemma find_None: "find P rs = None \<longleftrightarrow> (\<forall>r\<in>set rs. \<not> P r)"
  by (auto simp: find_None_iff)

lemma find_append_skip: "(\<And>r. r \<in> set rs \<Longrightarrow> \<not> P r) \<Longrightarrow> find P (rs @ rs') = find P rs'"
  by (induction rs) auto

lemma find_upd_key:
  assumes "\<And>r. P r \<Longrightarrow> key (f r) = key r"
  shows "find (\<lambda>r. key r = k) (upd P f rs) = map_option (\<lambda>r. if P r then f r else r) (find (\<lambda>r. key r = k) rs)"
  using assms by (induction rs) auto

lemma find_key_unique:
  assumes "distinct (map key rs)" "r0 \<in> set rs" "key r0 = k"
  shows "find (\<lambda>r. key r = k) rs = Some r0"
  using assms by (induction rs) (auto simp: rev_image_eqI)

lemma key_inj:
  assumes "distinct (map key rs)" "r \<in> set rs" "r' \<in> set rs" "key r = key r'"
  shows "r = r'"
  using assms by (meson distinct_map inj_onD)

text \<open>
  The effect of updating the one row with a given key on a sum or a count:
  take the old row's contribution away, add the new one's.
\<close>

lemma tot_upd_key:
  assumes "distinct (map key rs)" "r0 \<in> set rs" "key r0 = k"
  shows "tot Q amt (upd (\<lambda>r. key r = k) f rs)
       = tot Q amt rs - (if Q r0 then amt r0 else 0) + (if Q (f r0) then amt (f r0) else 0)"
  using assms
proof (induction rs)
  case (Cons r rs)
  show ?case
  proof (cases "r = r0")
    case True
    with Cons.prems have "\<forall>x\<in>set rs. key x \<noteq> k" by (auto simp: image_iff)
    then have "upd (\<lambda>r. key r = k) f rs = rs" by (auto simp: upd_def intro: map_idI)
    with True Cons.prems show ?thesis by simp
  next
    case False
    with Cons.prems have "r0 \<in> set rs" "key r \<noteq> k" by (auto simp: rev_image_eqI)
    with False Cons show ?thesis by simp
  qed
qed simp

lemma cnt_upd_key:
  assumes "distinct (map key rs)" "r0 \<in> set rs" "key r0 = k"
  shows "cnt Q (upd (\<lambda>r. key r = k) f rs)
       = cnt Q rs - (if Q r0 then 1 else 0) + (if Q (f r0) then 1 else 0)"
  using tot_upd_key[OF assms, of Q "\<lambda>_. 1" f] by (simp add: cnt_tot)

lemma tot_key:
  assumes "distinct (map key rs)" "r0 \<in> set rs" "key r0 = k"
  shows "tot (\<lambda>r. key r = k) amt rs = amt r0"
proof -
  have "filter (\<lambda>r. key r = k) rs = [r0]"
    using assms
  proof (induction rs)
    case (Cons r rs)
    show ?case
    proof (cases "r = r0")
      case True
      with Cons.prems have "\<forall>x\<in>set rs. key x \<noteq> k" by (auto simp: image_iff)
      with True Cons.prems show ?thesis by (simp add: filter_empty_conv)
    next
      case False
      with Cons.prems have "r0 \<in> set rs" "key r \<noteq> k" by (auto simp: rev_image_eqI)
      with Cons show ?thesis by simp
    qed
  qed simp
  then show ?thesis by (simp add: tot_def)
qed

lemma upd_no_match: "(\<And>r. r \<in> set rs \<Longrightarrow> \<not> P r) \<Longrightarrow> upd P f rs = rs"
  by (auto simp: upd_def intro: map_idI)

text \<open>Rows that did not count and now do: the count grows by their number.\<close>

lemma cnt_upd_flip:
  assumes "\<And>r. r \<in> set rs \<Longrightarrow> P r \<Longrightarrow> \<not> Q r \<and> Q (f r)"
  shows "cnt Q (upd P f rs) = cnt Q rs + cnt P rs"
  using assms by (induction rs) auto

lemma cnt_upd_flip_le:
  assumes "\<And>r. r \<in> set rs \<Longrightarrow> P r \<Longrightarrow> \<not> Q r"
  shows "cnt Q (upd P f rs) \<le> cnt Q rs + cnt P rs"
  using assms by (induction rs) auto

lemma cnt_key_set:
  assumes "distinct (map key rs)" "set xs \<subseteq> set rs" "distinct xs"
  shows "cnt (\<lambda>r. key r \<in> set (map key xs)) rs = int (length xs)"
proof -
  have "set (filter (\<lambda>r. key r \<in> set (map key xs)) rs) = set xs"
    using assms(1,2) by (auto dest: key_inj)
  moreover have "distinct rs" using assms(1) by (simp add: distinct_map)
  ultimately have "length (filter (\<lambda>r. key r \<in> set (map key xs)) rs) = length xs"
    using assms(3) by (metis distinct_card distinct_filter)
  then show ?thesis by (simp add: cnt_def)
qed

text \<open>In a list sorted by distinct keys, element \<open>i\<close> has exactly \<open>i + 1\<close> elements up to it.\<close>

lemma cnt_le_sorted:
  fixes key :: "'r \<Rightarrow> 'k::linorder"
  assumes "sorted (map key xs)" "distinct (map key xs)" "i < length xs"
  shows "cnt (\<lambda>r. key r \<le> key (xs ! i)) xs = int (Suc i)"
proof -
  have "filter (\<lambda>r. key r \<le> key (xs ! i)) (take (Suc i) xs) = take (Suc i) xs"
    using assms by (intro filter_True) (auto simp: in_set_conv_nth sorted_iff_nth_mono)
  moreover have "filter (\<lambda>r. key r \<le> key (xs ! i)) (drop (Suc i) xs) = []"
  proof (rule filter_False, intro ballI)
    fix r assume "r \<in> set (drop (Suc i) xs)"
    then obtain j where j: "i < j" "j < length xs" "r = xs ! j"
      by (auto simp: in_set_conv_nth) (metis add_Suc_right add_Suc less_add_Suc1 less_diff_conv add.commute)
    then have "key (xs ! i) \<le> key r" using assms by (simp add: sorted_iff_nth_mono)
    moreover have "key (xs ! i) \<noteq> key r" using j assms(2,3) by (auto simp: distinct_conv_nth)
    ultimately show "\<not> key r \<le> key (xs ! i)" by simp
  qed
  moreover have "filter P xs = filter P (take (Suc i) xs) @ filter P (drop (Suc i) xs)" for P
    by (metis append_take_drop_id filter_append)
  ultimately have "length (filter (\<lambda>r. key r \<le> key (xs ! i)) xs) = Suc i"
    using assms(3) by simp
  then show ?thesis by (simp add: cnt_def)
qed

lemma cnt_filter: "cnt P (filter Q rs) = cnt (\<lambda>r. Q r \<and> P r) rs"
  by (induction rs) auto

lemma cnt_sort_key [simp]: "cnt P (sort_key f rs) = cnt P rs"
proof -
  have "mset (filter P (sort_key f rs)) = mset (filter P rs)" by simp
  then have "length (filter P (sort_key f rs)) = length (filter P rs)" by (metis size_mset)
  then show ?thesis by (simp add: cnt_def)
qed

section \<open>Numbers and time\<close>

text \<open>
  Go's \<open>int64\<close>: results wrap around in two's complement; \<open>/\<close> truncates towards
  zero (\<open>sdiv\<close>). Quantities that the code only compares or adds far from the limits
  are plain integers.
\<close>

definition int64 :: "int \<Rightarrow> int" where
  "int64 x = signed_take_bit 63 x"

lemma int64_id: "- (2 ^ 63) \<le> x \<Longrightarrow> x < 2 ^ 63 \<Longrightarrow> int64 x = x"
  by (simp add: int64_def signed_take_bit_int_eq_self)

lemma int64_range: "- (2 ^ 63) \<le> int64 x" "int64 x < 2 ^ 63"
  using signed_take_bit_int_greater_eq_minus_exp[of 63 x] signed_take_bit_int_less_exp[of 63 x]
  by (simp_all add: int64_def)

lemma sdiv_nonneg: "0 \<le> a \<Longrightarrow> 0 < b \<Longrightarrow> a sdiv b = a div (b::int)"
  by (cases "a = 0") (simp_all add: signed_divide_int_def)

text \<open>\<open>time.Duration\<close> and \<open>time.Time\<close>: nanoseconds, instants counted from the Unix epoch.\<close>

definition second :: int where [time_defs]: "second = 1000000000"
definition minute :: int where [time_defs]: "minute = 60 * second"
definition hour :: int where [time_defs]: "hour = 60 * minute"
definition day :: int where [time_defs]: "day = 24 * hour"

end
