(* ===== verification/Store.thy ===== *)
theory Store
  imports Prelude
begin

text \<open>
  The data model: the status enums of the schema, one record per table row with
  the columns the modelled code reads or writes, the payloads of the outbox
  events, and the database as one record of tables. A nullable column is an
  \<open>option\<close>; ids are the text of the uuid (\<open>''''\<close> is Go's empty string, never the id
  of a row). The id an \<^verbatim>\<open>INSERT\<close> gets from \<open>gen_random_uuid()\<close> is an argument of
  the operation that inserts.
\<close>

section \<open>Status enums (migrations 0014, 0031, 0033)\<close>

datatype plan_status = Draft | Published | Full | PlanCancelled | Completed
datatype booking_status =
  Initiated | PaymentPending | Confirmed | Cancelled | Refunded | NoShow | Attended
datatype waitlist_status = Waiting | Offered | Accepted | Expired | Left
datatype participant_status = PartConfirmed | PartCancelled | PartWaitlisted
datatype order_status = OrderCreated | OrderPaid | OrderFailed | OrderCancelled
datatype payment_status = PayPending | PayCaptured | PayFailed
datatype refund_status = RefundPending | RefundProcessed | RefundFailed
datatype join_mode = JoinOpen | JoinApproval | JoinInviteOnly
datatype visibility = VisPublic | VisPrivate | VisCommunity
datatype request_status = ReqPending | ReqApproved | ReqRejected | ReqCancelled
datatype user_status = UserActive | UserSuspended | UserDeleted

section \<open>Rows\<close>

record plan_row =
  pl_id :: string
  pl_host :: string
  pl_title :: string
  pl_desc :: string
  pl_starts :: int
  pl_ends :: int
  pl_capacity :: int
  pl_confirmed :: int
  pl_price :: int
  pl_currency :: string
  pl_status :: plan_status
  pl_join_mode :: join_mode
  pl_visibility :: visibility
  pl_community :: "string option"
  pl_entitlement :: "string option"
  pl_series :: "string option"
  pl_venue :: "string option"
  pl_category :: "string option"
  pl_city :: "string option"
  pl_cover :: string

record booking_row =
  bk_id :: string
  bk_plan :: string
  bk_user :: string
  bk_status :: booking_status
  bk_price :: int
  bk_currency :: string
  bk_idem :: "string option"
  bk_created :: int
  bk_updated :: int
  bk_expires :: "int option"
  bk_checked_in :: "int option"

record participant_row =
  pp_plan :: string
  pp_user :: string
  pp_booking :: "string option"
  pp_status :: participant_status
  pp_joined :: int
  pp_checked_in :: "int option"

record waitlist_row =
  wl_id :: string
  wl_plan :: string
  wl_user :: string
  wl_status :: waitlist_status
  wl_created :: int
  wl_offered_at :: "int option"
  wl_expires :: "int option"
  wl_updated :: int

record checkin_row =
  ci_booking :: string
  ci_by :: "string option"
  ci_at :: int

record join_request_row =
  jr_id :: string
  jr_plan :: string
  jr_user :: string
  jr_status :: request_status
  jr_message :: string
  jr_decided_by :: "string option"
  jr_created :: int

record order_row =
  or_id :: string
  or_booking :: string
  or_amount :: int
  or_currency :: string
  or_gateway :: "string option"
  or_status :: order_status
  or_created :: int

record payment_row =
  py_id :: string
  py_order :: string
  py_amount :: int
  py_currency :: string
  py_status :: payment_status
  py_gateway :: "string option"
  py_created :: int

record refund_row =
  rf_id :: string
  rf_payment :: string
  rf_amount :: int
  rf_reason :: string
  rf_status :: refund_status
  rf_gateway :: "string option"

record ledger_row =
  cl_user :: string
  cl_amount :: int
  cl_reason :: string
  cl_order :: "string option"

record promo_row =
  pc_id :: string
  pc_code :: string
  pc_type :: string
  pc_value :: int
  pc_max :: int
  pc_uses :: int
  pc_expires :: "int option"
  pc_active :: bool

record receipt_row =
  rp_payment :: string
  rp_number :: string
  rp_issued :: int
  rp_price :: int
  rp_fee :: int
  rp_base :: int
  rp_gst :: int
  rp_percent :: int
  rp_paid :: int

record recurrence_row =
  rc_plan :: string
  rc_rule :: string
  rc_active :: bool
  rc_ended :: "int option"

record product_row =
  pr_id :: string
  pr_name :: string
  pr_price :: int
  pr_currency :: string
  pr_interval :: string

record subscription_row =
  sb_id :: string
  sb_user :: string
  sb_product :: string
  sb_status :: string
  sb_receipt :: "string option"

record user_row =
  us_id :: string
  us_email :: string
  us_status :: user_status
  us_city :: "string option"
  us_created :: int

datatype connection_status = ConnectionPending | ConnectionAccepted | ConnectionRejected

record connection_row =
  cn_id :: string
  cn_requester :: string
  cn_recipient :: string
  cn_origin :: string
  cn_status :: connection_status
  cn_created :: int

record referral_row =
  rr_referrer :: string
  rr_referee :: string
  rr_code :: string
  rr_reward :: int

datatype delivery_status = DelPending | DelSent | DelFailed

record pref_row =
  np_user :: string
  np_push :: bool
  np_email :: bool
  np_muted :: "string list"
  np_quiet_start :: "string option"
  np_quiet_end :: "string option"

text \<open>A notification's id is its position in the table: rows are only ever appended.\<close>

record notification_row =
  nt_id :: nat
  nt_user :: string
  nt_channel :: string
  nt_type :: "string option"
  nt_actor :: "string option"
  nt_target :: "string option"
  nt_title :: string
  nt_body :: string
  nt_link :: "string option"
  nt_dedupe :: "string option"
  nt_read :: bool
  nt_created :: int
  nt_delivery :: delivery_status
  nt_sent :: "int option"
  nt_error :: "string option"

section \<open>Outbox events\<close>

text \<open>
  What the producers marshal to JSON and the worker unmarshals, one constructor
  per Go payload struct. \<open>CancelPayload\<close> carries \<open>refund_percent\<close>, absent (\<open>None\<close>)
  in events written before the cancellation policy existed.
\<close>

datatype payload =
    BookingPayload string string string
  | CancelPayload string string string string "int option"
  | PlanPayload string
  | PlanCancelPayload string string
  | NotifyPayload string string string string string

record outbox_row =
  ob_type :: string
  ob_subject :: string
  ob_payload :: payload
  ob_created :: int
  ob_published :: "int option"

section \<open>The database\<close>

record db =
  t_plans :: "plan_row list"
  t_bookings :: "booking_row list"
  t_participants :: "participant_row list"
  t_waitlist :: "waitlist_row list"
  t_checkins :: "checkin_row list"
  t_outbox :: "outbox_row list"
  t_invites :: "(string \<times> string) list"
  t_join_requests :: "join_request_row list"
  t_members :: "(string \<times> string) list"
  t_reviews :: "string list"
  t_venues :: "(string \<times> string \<times> string) list"
  t_users :: "user_row list"
  t_profiles :: "(string \<times> string) list"
  t_blocks :: "(string \<times> string) list"
  t_prefs :: "pref_row list"
  t_devices :: "(string \<times> string option) list"
  t_notifications :: "notification_row list"
  t_products :: "product_row list"
  t_subscriptions :: "subscription_row list"
  t_entitlements :: "(string \<times> string) list"
  t_orders :: "order_row list"
  t_payments :: "payment_row list"
  t_refunds :: "refund_row list"
  t_recon :: "(string \<times> string \<times> int) list"
  t_ledger :: "ledger_row list"
  t_promos :: "promo_row list"
  t_recurrences :: "recurrence_row list"
  t_saves :: "(string \<times> string) list"
  t_events :: "(string \<times> string) list"
  t_cities :: "(string \<times> string) list"
  t_reminders :: "(string \<times> string) list"
  t_receipts :: "receipt_row list"
  t_receipt_seq :: int
  t_connections :: "connection_row list"
  t_ref_codes :: "(string \<times> string) list"
  t_referrals :: "referral_row list"
  t_redis :: "(string \<times> int) list"

definition empty_db :: db where
  "empty_db = \<lparr>t_plans = [], t_bookings = [], t_participants = [], t_waitlist = [],
     t_checkins = [], t_outbox = [], t_invites = [], t_join_requests = [], t_members = [],
     t_reviews = [], t_venues = [], t_users = [], t_profiles = [], t_blocks = [], t_prefs = [], t_devices = [],
     t_notifications = [], t_products = [], t_subscriptions = [], t_entitlements = [], t_orders = [], t_payments = [], t_refunds = [],
     t_recon = [], t_ledger = [], t_promos = [], t_recurrences = [], t_saves = [], t_events = [], t_cities = [],
     t_reminders = [], t_receipts = [], t_receipt_seq = 1,
     t_connections = [], t_ref_codes = [], t_referrals = [], t_redis = []\<rparr>"

text \<open>\<^verbatim>\<open>COALESCE(c, '')\<close> and \<^verbatim>\<open>NULLIF(v, '')\<close> on text columns.\<close>

definition coalesce :: "string option \<Rightarrow> string" where
  "coalesce c = (case c of None \<Rightarrow> '''' | Some v \<Rightarrow> v)"

definition nullif :: "string \<Rightarrow> string option" where
  "nullif v = (if v = '''' then None else Some v)"

lemma coalesce_nullif [simp]: "coalesce (nullif v) = v"
  by (simp add: coalesce_def nullif_def)

abbreviation plan_by_id :: "db \<Rightarrow> string \<Rightarrow> plan_row option" where
  "plan_by_id s k \<equiv> find (\<lambda>p. pl_id p = k) (t_plans s)"

abbreviation booking_by_id :: "db \<Rightarrow> string \<Rightarrow> booking_row option" where
  "booking_by_id s k \<equiv> find (\<lambda>b. bk_id b = k) (t_bookings s)"

abbreviation order_by_id :: "db \<Rightarrow> string \<Rightarrow> order_row option" where
  "order_by_id s k \<equiv> find (\<lambda>r. or_id r = k) (t_orders s)"

abbreviation payment_by_id :: "db \<Rightarrow> string \<Rightarrow> payment_row option" where
  "payment_by_id s k \<equiv> find (\<lambda>r. py_id r = k) (t_payments s)"

abbreviation refund_by_id :: "db \<Rightarrow> string \<Rightarrow> refund_row option" where
  "refund_by_id s k \<equiv> find (\<lambda>r. rf_id r = k) (t_refunds s)"

section \<open>Well-formed tables\<close>

text \<open>The primary keys and unique constraints of the schema.\<close>

definition wf_db :: "db \<Rightarrow> bool" where
  "wf_db s \<longleftrightarrow>
     distinct (map pl_id (t_plans s)) \<and>
     distinct (map bk_id (t_bookings s)) \<and>
     distinct (map (\<lambda>r. (pp_plan r, pp_user r)) (t_participants s)) \<and>
     distinct (map wl_id (t_waitlist s)) \<and>
     distinct (map (\<lambda>r. (wl_plan r, wl_user r)) (t_waitlist s)) \<and>
     distinct (map or_id (t_orders s)) \<and>
     distinct (map py_id (t_payments s)) \<and>
     distinct (map rf_id (t_refunds s))"

lemma wf_dbD:
  assumes "wf_db s"
  shows "distinct (map pl_id (t_plans s))" "distinct (map bk_id (t_bookings s))"
    "distinct (map (\<lambda>r. (pp_plan r, pp_user r)) (t_participants s))"
    "distinct (map wl_id (t_waitlist s))"
    "distinct (map (\<lambda>r. (wl_plan r, wl_user r)) (t_waitlist s))"
    "distinct (map or_id (t_orders s))" "distinct (map py_id (t_payments s))"
    "distinct (map rf_id (t_refunds s))"
  using assms by (simp_all add: wf_db_def)

lemma wf_db_empty: "wf_db empty_db"
  by (simp add: wf_db_def empty_db_def)

text \<open>
  An operation that changes none of the keys keeps the tables well formed; the
  hypotheses are discharged by \<open>map_upd\<close> on each table it updates.
\<close>

lemma wf_db_cong:
  assumes "wf_db s"
    and "map pl_id (t_plans s') = map pl_id (t_plans s)"
    and "map bk_id (t_bookings s') = map bk_id (t_bookings s)"
    and "map (\<lambda>r. (pp_plan r, pp_user r)) (t_participants s') = map (\<lambda>r. (pp_plan r, pp_user r)) (t_participants s)"
    and "map wl_id (t_waitlist s') = map wl_id (t_waitlist s)"
    and "map (\<lambda>r. (wl_plan r, wl_user r)) (t_waitlist s') = map (\<lambda>r. (wl_plan r, wl_user r)) (t_waitlist s)"
    and "map or_id (t_orders s') = map or_id (t_orders s)"
    and "map py_id (t_payments s') = map py_id (t_payments s)"
    and "map rf_id (t_refunds s') = map rf_id (t_refunds s)"
  shows "wf_db s'"
  using assms by (simp add: wf_db_def)

section \<open>Sample rows\<close>

text \<open>The concrete rows at which the theorems with hypotheses are applied.\<close>

definition sample_plan :: plan_row where
  "sample_plan = \<lparr>pl_id = ''p'', pl_host = ''h'', pl_title = ''Hike'', pl_desc = '''', pl_starts = 1000000000000000,
     pl_ends = 1010000000000000, pl_capacity = 2, pl_confirmed = 0, pl_price = 0, pl_currency = ''INR'',
     pl_status = Published, pl_join_mode = JoinOpen, pl_visibility = VisPublic, pl_community = None,
     pl_entitlement = None, pl_series = None, pl_venue = None,
     pl_category = None, pl_city = None, pl_cover = ''''\<rparr>"

definition sample_booking :: booking_row where
  "sample_booking = \<lparr>bk_id = ''b'', bk_plan = ''p'', bk_user = ''u'', bk_status = Confirmed, bk_price = 1000,
     bk_currency = ''INR'', bk_idem = None, bk_created = 0, bk_updated = 0, bk_expires = None,
     bk_checked_in = None\<rparr>"

definition sample_waiting :: waitlist_row where
  "sample_waiting = \<lparr>wl_id = ''w'', wl_plan = ''p'', wl_user = ''v'', wl_status = Waiting, wl_created = 5,
     wl_offered_at = None, wl_expires = None, wl_updated = 5\<rparr>"

lemmas samples = sample_plan_def sample_booking_def sample_waiting_def empty_db_def

end
