(* ===== verification/Outbox.thy ===== *)
theory Outbox
  imports Store
begin

text \<open>
  The transactional outbox (\<^verbatim>\<open>pkg/eventbus\<close>): \<open>enqueue\<close> appends an event row in the
  caller's transaction; \<open>drain\<close> publishes the unpublished rows in the order they were
  created and marks each one after it was published. The NATS publisher is a
  parameter: a function that says which publish calls succeed. The events it
  accepted are returned in order, so that delivery can be stated.
\<close>

section \<open>Enqueue\<close>

definition enqueue :: "db \<Rightarrow> int \<Rightarrow> string \<Rightarrow> string \<Rightarrow> payload \<Rightarrow> db" where
  "enqueue s now ev subject p =
     s\<lparr>t_outbox := t_outbox s @
        [\<lparr>ob_type = ev, ob_subject = subject, ob_payload = p, ob_created = now, ob_published = None\<rparr>]\<rparr>"

definition enqueue_notify_user ::
  "db \<Rightarrow> int \<Rightarrow> string \<Rightarrow> string \<Rightarrow> string \<Rightarrow> string \<Rightarrow> string \<Rightarrow> db" where
  "enqueue_notify_user s now user title body link channel =
     enqueue s now ''NOTIFY_USER'' user (NotifyPayload user title body link channel)"

lemmas enqueue_defs [op_defs] = enqueue_def enqueue_notify_user_def

section \<open>Drain\<close>

text \<open>
  The select: positions of at most 100 unpublished rows, oldest first. The loop
  publishes and marks them one by one; a publish error ends it, leaving that row
  and the later ones unpublished for the next poll.
\<close>

definition drain_limit :: nat where "drain_limit = 100"

definition drain_pending :: "outbox_row list \<Rightarrow> nat list" where
  "drain_pending rows =
     take drain_limit
       (sort_key (\<lambda>i. ob_created (rows ! i))
         (filter (\<lambda>i. ob_published (rows ! i) = None) [0..<length rows]))"

fun drain_loop ::
  "(string \<Rightarrow> payload \<Rightarrow> bool) \<Rightarrow> int \<Rightarrow> nat list \<Rightarrow> outbox_row list \<Rightarrow> outbox_row list \<times> (string \<times> payload) list \<times> bool" where
  "drain_loop publish now [] rows = (rows, [], True)"
| "drain_loop publish now (i # is) rows =
     (let r = rows ! i in
      if publish (ob_type r) (ob_payload r)
      then (case drain_loop publish now is (rows[i := r\<lparr>ob_published := Some now\<rparr>]) of
              (rows', sent, ok) \<Rightarrow> (rows', (ob_type r, ob_payload r) # sent, ok))
      else (rows, [], False))"

definition drain ::
  "(string \<Rightarrow> payload \<Rightarrow> bool) \<Rightarrow> int \<Rightarrow> db \<Rightarrow> db \<times> (string \<times> payload) list \<times> bool" where
  "drain publish now s =
     (case drain_loop publish now (drain_pending (t_outbox s)) (t_outbox s) of
        (rows, sent, ok) \<Rightarrow> (s\<lparr>t_outbox := rows\<rparr>, sent, ok))"

section \<open>Facts about draining\<close>

abbreviation unpublished :: "outbox_row list \<Rightarrow> nat \<Rightarrow> bool" where
  "unpublished rows i \<equiv> i < length rows \<and> ob_published (rows ! i) = None"

lemma drain_pending_distinct: "distinct (drain_pending rows)"
  by (simp add: drain_pending_def distinct_take)

lemma drain_pending_unpublished: "i \<in> set (drain_pending rows) \<Longrightarrow> unpublished rows i"
  by (auto simp: drain_pending_def dest: in_set_takeD)

lemma drain_pending_all:
  assumes "length (filter (\<lambda>i. ob_published (rows ! i) = None) [0..<length rows]) \<le> drain_limit"
    and "unpublished rows i"
  shows "i \<in> set (drain_pending rows)"
  using assms by (simp add: drain_pending_def)

lemma drain_loop_length: "length (fst (drain_loop publish now is rows)) = length rows"
proof (induction "is" arbitrary: rows)
  case (Cons i js)
  show ?case
    using Cons.IH[of "rows[i := (rows ! i)\<lparr>ob_published := Some now\<rparr>]"]
    by (auto simp: Let_def split: prod.splits)
qed simp

text \<open>
  One induction carries the whole account of a drain: which rows change, that a row
  is marked exactly when its event was accepted, and in which order.
\<close>

lemma drain_loop_marks:
  assumes "drain_loop publish now is rows = (rows', sent, ok)"
    and "distinct is" "\<forall>i\<in>set is. i < length rows"
  shows "\<exists>k\<le>length is.
      sent = map (\<lambda>i. (ob_type (rows ! i), ob_payload (rows ! i))) (take k is)
      \<and> ok = (k = length is)
      \<and> (k < length is \<longrightarrow> \<not> publish (ob_type (rows ! (is ! k))) (ob_payload (rows ! (is ! k))))
      \<and> (\<forall>i<length rows. rows' ! i =
            (if i \<in> set (take k is) then (rows ! i)\<lparr>ob_published := Some now\<rparr> else rows ! i))"
  using assms
proof (induction "is" arbitrary: rows rows' sent ok)
  case Nil
  then show ?case by simp
next
  case (Cons j js)
  let ?r = "rows ! j"
  show ?case
  proof (cases "publish (ob_type ?r) (ob_payload ?r)")
    case False
    with Cons.prems show ?thesis by (intro exI[of _ 0]) simp
  next
    case True
    let ?rows1 = "rows[j := ?r\<lparr>ob_published := Some now\<rparr>]"
    obtain sent1 where d: "drain_loop publish now js ?rows1 = (rows', sent1, ok)"
      and sent: "sent = (ob_type ?r, ob_payload ?r) # sent1"
      using Cons.prems(1) True by (auto simp: Let_def split: prod.splits)
    have js: "\<And>i. i \<in> set js \<Longrightarrow> ?rows1 ! i = rows ! i" "j < length rows"
      using Cons.prems(2,3) by (auto simp: nth_list_update)
    obtain k where k: "k \<le> length js"
        "sent1 = map (\<lambda>i. (ob_type (?rows1 ! i), ob_payload (?rows1 ! i))) (take k js)"
        "ok = (k = length js)"
        "k < length js \<longrightarrow> \<not> publish (ob_type (?rows1 ! (js ! k))) (ob_payload (?rows1 ! (js ! k)))"
        "\<forall>i<length ?rows1. rows' ! i =
          (if i \<in> set (take k js) then (?rows1 ! i)\<lparr>ob_published := Some now\<rparr> else ?rows1 ! i)"
      using Cons.IH[OF d] Cons.prems by auto
    have "j \<notin> set (take k js)" using Cons.prems by (auto dest: in_set_takeD)
    then have rows': "\<forall>i<length rows. rows' ! i =
        (if i \<in> set (take (Suc k) (j # js)) then (rows ! i)\<lparr>ob_published := Some now\<rparr> else rows ! i)"
      using k(5) js by (auto simp: nth_list_update dest: in_set_takeD)
    have "sent = map (\<lambda>i. (ob_type (rows ! i), ob_payload (rows ! i))) (take (Suc k) (j # js))"
      using sent k(2) js by (auto dest: in_set_takeD)
    moreover have "k < length js \<longrightarrow> ?rows1 ! (js ! k) = rows ! (js ! k)" using js(1) by auto
    ultimately show ?thesis
      using k rows' by (intro exI[of _ "Suc k"]) auto
  qed
qed

end
