(* ===== verification/Notifications.thy ===== *)
theory Notifications
  imports Outbox
begin

text \<open>
  In-app notifications (\<^verbatim>\<open>internal/notifications\<close>): \<open>emit\<close>, the one place that
  decides whether a social event becomes a notification, and the service that
  stores a notification and hands it to its channel. The e-mail and push clients
  are parameters (\<open>None\<close>: not configured).
\<close>

section \<open>Events and categories (emit.go)\<close>

record event =
  ev_user :: string
  ev_actor :: string
  ev_type :: string
  ev_target :: string
  ev_title :: string
  ev_body :: string
  ev_link :: string
  ev_dedupe :: string

definition category_of :: "string \<Rightarrow> string" where
  "category_of t =
    (if t \<in> {''post_like'', ''post_comment'', ''community_join_request'', ''community_declined'',
             ''community_approved'', ''community_member_joined'', ''plan_attendee_joined'',
             ''review_received''} then ''social''
     else if t \<in> {''story_view'', ''story_like''} then ''stories''
     else if t = ''profile_view'' then ''profile_views''
     else if t = ''chat_message'' then ''messages''
     else if t \<in> {''connection_request'', ''connection_accepted''} then ''connections''
     else '''')"

definition categories :: "string list" where
  "categories = [''social'', ''stories'', ''profile_views'', ''messages'', ''connections'']"

text \<open>SQL's \<^verbatim>\<open>replace(text, pattern, by)\<close>, for a non-empty pattern.\<close>

function sql_replace :: "string \<Rightarrow> string \<Rightarrow> string \<Rightarrow> string" where
  "sql_replace pat by_s txt =
     (if pat = [] \<or> txt = [] then txt
      else if take (length pat) txt = pat then by_s @ sql_replace pat by_s (drop (length pat) txt)
      else hd txt # sql_replace pat by_s (tl txt))"
  by pat_completeness auto
termination
  by (relation "measure (\<lambda>(pat, by_s, txt). length txt)") auto

declare sql_replace.simps [simp del]

definition actor_name :: "db \<Rightarrow> string \<Rightarrow> string" where
  "actor_name s actor =
     (case find (\<lambda>p. fst p = actor) (t_profiles s) of None \<Rightarrow> ''Someone'' | Some p \<Rightarrow> snd p)"

definition blocked :: "db \<Rightarrow> string \<Rightarrow> string \<Rightarrow> bool" where
  "blocked s a b \<longleftrightarrow> (a, b) \<in> set (t_blocks s) \<or> (b, a) \<in> set (t_blocks s)"

definition emit_allowed :: "db \<Rightarrow> event \<Rightarrow> bool" where
  "emit_allowed s e \<longleftrightarrow>
     ev_user e \<noteq> ev_actor e \<and>
     (\<exists>u\<in>set (t_users s). us_id u = ev_user e \<and> us_status u = UserActive) \<and>
     (ev_actor e = '''' \<or> \<not> blocked s (ev_user e) (ev_actor e)) \<and>
     \<not> (\<exists>p\<in>set (t_prefs s). np_user p = ev_user e \<and> category_of (ev_type e) \<in> set (np_muted p))"

text \<open>The partial unique index \<open>notifications_dedupe_idx\<close>.\<close>

definition dedupe_conflict :: "db \<Rightarrow> string \<Rightarrow> string option \<Rightarrow> bool" where
  "dedupe_conflict s user key \<longleftrightarrow> key \<noteq> None \<and>
     (\<exists>n\<in>set (t_notifications s). nt_user n = user \<and> nt_dedupe n = key \<and> \<not> nt_read n)"

definition emit :: "db \<Rightarrow> int \<Rightarrow> event \<Rightarrow> (db, bool) outcome" where
  "emit s now e =
    (if ev_user e = '''' \<or> ev_type e = '''' \<or> ev_title e = '''' then (s, Inl Notifications_InvalidInput)
     else if emit_allowed s e \<and> \<not> dedupe_conflict s (ev_user e) (nullif (ev_dedupe e))
     then (s\<lparr>t_notifications := t_notifications s @
            [\<lparr>nt_id = length (t_notifications s), nt_user = ev_user e, nt_channel = ''in_app'',
              nt_type = Some (ev_type e), nt_actor = nullif (ev_actor e), nt_target = nullif (ev_target e),
              nt_title = sql_replace ''{actor}'' (actor_name s (ev_actor e)) (ev_title e),
              nt_body = sql_replace ''{actor}'' (actor_name s (ev_actor e)) (ev_body e),
              nt_link = nullif (ev_link e), nt_dedupe = nullif (ev_dedupe e), nt_read = False,
              nt_created = now, nt_delivery = DelPending, nt_sent = None, nt_error = None\<rparr>]\<rparr>, Inr True)
     else (s, Inr False))"

section \<open>Storing and dispatching (repository.go, service.go)\<close>

definition create_notification ::
  "db \<Rightarrow> int \<Rightarrow> string \<Rightarrow> string \<Rightarrow> string \<Rightarrow> string \<Rightarrow> string \<Rightarrow> db \<times> nat" where
  "create_notification s now user channel title body link =
     (s\<lparr>t_notifications := t_notifications s @
         [\<lparr>nt_id = length (t_notifications s), nt_user = user, nt_channel = channel, nt_type = None,
           nt_actor = None, nt_target = None, nt_title = title, nt_body = body, nt_link = Some link,
           nt_dedupe = None, nt_read = False, nt_created = now, nt_delivery = DelPending,
           nt_sent = None, nt_error = None\<rparr>]\<rparr>,
      length (t_notifications s))"

definition mark_delivery :: "db \<Rightarrow> int \<Rightarrow> nat \<Rightarrow> delivery_status \<Rightarrow> string \<Rightarrow> db" where
  "mark_delivery s now i st msg =
     s\<lparr>t_notifications :=
        upd (\<lambda>n. nt_id n = i) (\<lambda>n. n\<lparr>nt_delivery := st, nt_sent := Some now, nt_error := nullif msg\<rparr>) (t_notifications s)\<rparr>"

definition get_preferences :: "db \<Rightarrow> string \<Rightarrow> bool \<times> bool" where
  "get_preferences s user =
     (case find (\<lambda>p. np_user p = user) (t_prefs s) of
        None \<Rightarrow> (True, True) | Some p \<Rightarrow> (np_push p, np_email p))"

definition get_user_email :: "db \<Rightarrow> string \<Rightarrow> string option" where
  "get_user_email s user = map_option us_email (find (\<lambda>u. us_id u = user) (t_users s))"

definition list_device_push_tokens :: "db \<Rightarrow> string \<Rightarrow> string list" where
  "list_device_push_tokens s user =
     map (\<lambda>d. the (snd d)) (filter (\<lambda>d. fst d = user \<and> snd d \<noteq> None) (t_devices s))"

text \<open>
  The senders answer \<open>None\<close> on success, \<open>Some\<close> error text otherwise:
  e-mail by address, title, body; push by token, title, body, deep link.
\<close>

record senders =
  email_send :: "(string \<Rightarrow> string \<Rightarrow> string \<Rightarrow> string option) option"
  push_send :: "(string \<Rightarrow> string \<Rightarrow> string \<Rightarrow> string \<Rightarrow> string option) option"

definition dispatch_email :: "senders \<Rightarrow> db \<Rightarrow> int \<Rightarrow> nat \<Rightarrow> string \<Rightarrow> string \<Rightarrow> string \<Rightarrow> db" where
  "dispatch_email snd_cfg s now i user title body =
    (case email_send snd_cfg of
       None \<Rightarrow> s
     | Some send \<Rightarrow>
         if \<not> snd (get_preferences s user) then s
         else (case get_user_email s user of
                 None \<Rightarrow> mark_delivery s now i DelFailed ''no email address on file''
               | Some to \<Rightarrow>
                   if to = '''' then mark_delivery s now i DelFailed ''no email address on file''
                   else (case send to title body of
                           Some msg \<Rightarrow> mark_delivery s now i DelFailed msg
                         | None \<Rightarrow> mark_delivery s now i DelSent '''')))"

text \<open>The loop over the devices: whether any send succeeded, and the last error.\<close>

fun push_loop :: "(string \<Rightarrow> string option) \<Rightarrow> string list \<Rightarrow> bool \<Rightarrow> string option \<Rightarrow> bool \<times> string option" where
  "push_loop send [] sent_any last_err = (sent_any, last_err)"
| "push_loop send (t # ts) sent_any last_err =
     (case send t of
        Some e \<Rightarrow> push_loop send ts sent_any (Some e)
      | None \<Rightarrow> push_loop send ts True last_err)"

definition dispatch_push :: "senders \<Rightarrow> db \<Rightarrow> int \<Rightarrow> nat \<Rightarrow> string \<Rightarrow> string \<Rightarrow> string \<Rightarrow> string \<Rightarrow> db" where
  "dispatch_push snd_cfg s now i user title body link =
    (case push_send snd_cfg of
       None \<Rightarrow> s
     | Some send \<Rightarrow>
         if \<not> fst (get_preferences s user) then s
         else let tokens = list_device_push_tokens s user in
              if tokens = [] then mark_delivery s now i DelFailed ''no registered device''
              else (case push_loop (\<lambda>t. send t title body link) tokens False None of
                      (True, _) \<Rightarrow> mark_delivery s now i DelSent ''''
                    | (False, last_err) \<Rightarrow>
                        mark_delivery s now i DelFailed (coalesce last_err)))"

definition send_notification ::
  "senders \<Rightarrow> db \<Rightarrow> int \<Rightarrow> string \<Rightarrow> string \<Rightarrow> string \<Rightarrow> string \<Rightarrow> string \<Rightarrow> (db, nat) outcome" where
  "send_notification snd_cfg s now user channel title body link =
    (if user = '''' \<or> title = '''' then (s, Inl Notifications_InvalidInput)
     else (case create_notification s now user channel title body link of
             (s1, i) \<Rightarrow>
               if channel = ''email'' then (dispatch_email snd_cfg s1 now i user title body, Inr i)
               else if channel = ''push'' then (dispatch_push snd_cfg s1 now i user title body link, Inr i)
               else (s1, Inr i)))"

section \<open>Reading and settings\<close>

definition unread_count :: "db \<Rightarrow> string \<Rightarrow> int" where
  "unread_count s user = cnt (\<lambda>n. nt_user n = user \<and> \<not> nt_read n) (t_notifications s)"

definition mark_read :: "db \<Rightarrow> string \<Rightarrow> nat list \<Rightarrow> bool \<Rightarrow> db \<times> int" where
  "mark_read s user ids all =
    (let s' = (if all then
                 s\<lparr>t_notifications := upd (\<lambda>n. nt_user n = user \<and> \<not> nt_read n)
                     (\<lambda>n. n\<lparr>nt_read := True\<rparr>) (t_notifications s)\<rparr>
               else if ids \<noteq> [] then
                 s\<lparr>t_notifications := upd (\<lambda>n. nt_user n = user \<and> nt_id n \<in> set ids \<and> \<not> nt_read n)
                     (\<lambda>n. n\<lparr>nt_read := True\<rparr>) (t_notifications s)\<rparr>
               else s)
     in (s', unread_count s' user))"

definition set_muted_categories :: "db \<Rightarrow> string \<Rightarrow> string list \<Rightarrow> db" where
  "set_muted_categories s user muted =
    (if \<exists>p\<in>set (t_prefs s). np_user p = user
     then s\<lparr>t_prefs := upd (\<lambda>p. np_user p = user) (\<lambda>p. p\<lparr>np_muted := muted\<rparr>) (t_prefs s)\<rparr>
     else s\<lparr>t_prefs := t_prefs s @ [\<lparr>np_user = user, np_push = True, np_email = True, np_muted = muted,
              np_quiet_start = None, np_quiet_end = None\<rparr>]\<rparr>)"

definition set_muted :: "db \<Rightarrow> string \<Rightarrow> string list \<Rightarrow> (db, unit) outcome" where
  "set_muted s user muted =
    (if user = '''' then (s, Inl Notifications_InvalidInput)
     else if \<not> list_all (\<lambda>m. m \<in> set categories) muted then (s, Inl Notifications_InvalidInput)
     else (set_muted_categories s user muted, Inr ()))"

definition upsert_preferences :: "db \<Rightarrow> string \<Rightarrow> bool \<Rightarrow> bool \<Rightarrow> string \<Rightarrow> string \<Rightarrow> db" where
  "upsert_preferences s user push email qs qe =
    (if \<exists>p\<in>set (t_prefs s). np_user p = user
     then s\<lparr>t_prefs := upd (\<lambda>p. np_user p = user)
            (\<lambda>p. p\<lparr>np_push := push, np_email := email, np_quiet_start := nullif qs,
                   np_quiet_end := nullif qe\<rparr>) (t_prefs s)\<rparr>
     else s\<lparr>t_prefs := t_prefs s @ [\<lparr>np_user = user, np_push = push, np_email = email, np_muted = [],
              np_quiet_start = nullif qs, np_quiet_end = nullif qe\<rparr>]\<rparr>)"

lemmas notification_defs =
  emit_def create_notification_def mark_delivery_def dispatch_email_def dispatch_push_def
  send_notification_def mark_read_def set_muted_categories_def set_muted_def upsert_preferences_def

section \<open>What notifying changes\<close>

text \<open>
  Every operation here writes only the notification tables: the other components
  see it as the identity on theirs. \<open>business_tables\<close> forgets the notification
  tables; an operation that leaves it alone is invisible to them.
\<close>

definition business_tables :: "db \<Rightarrow> db" where
  "business_tables s = s\<lparr>t_notifications := [], t_prefs := []\<rparr>"

lemma business_tables_emit [frame_simps]: "business_tables (fst (emit s now e)) = business_tables s"
  by (simp add: emit_def business_tables_def)

lemma business_tables_mark_delivery [frame_simps]:
  "business_tables (mark_delivery s now i st msg) = business_tables s"
  by (simp add: mark_delivery_def business_tables_def)

lemma business_tables_send [frame_simps]:
  "business_tables (fst (send_notification cfg s now user channel title body link)) = business_tables s"
proof -
  have "business_tables (fst (create_notification s now user channel title body link)) = business_tables s"
    by (simp add: create_notification_def business_tables_def)
  moreover have "business_tables (dispatch_email cfg s now i user title body) = business_tables s" for s i
    by (simp add: dispatch_email_def frame_simps split: option.splits)
  moreover have "business_tables (dispatch_push cfg s now i user title body link) = business_tables s" for s i
    by (simp add: dispatch_push_def Let_def frame_simps split: option.splits prod.splits bool.splits)
  ultimately show ?thesis
    by (auto simp: send_notification_def split: prod.splits)
qed

lemma business_tables_eqD:
  assumes "business_tables s = business_tables s'"
  shows "t_plans s = t_plans s'" "t_bookings s = t_bookings s'"
    "t_participants s = t_participants s'" "t_waitlist s = t_waitlist s'"
    "t_checkins s = t_checkins s'" "t_outbox s = t_outbox s'" "t_orders s = t_orders s'"
    "t_payments s = t_payments s'" "t_refunds s = t_refunds s'" "t_recon s = t_recon s'"
    "t_ledger s = t_ledger s'" "t_promos s = t_promos s'"
  using assms by (cases s; cases s'; simp add: business_tables_def)+

lemma emit_tables [simp]:
  "t_plans (fst (emit s now e)) = t_plans s" "t_bookings (fst (emit s now e)) = t_bookings s"
  "t_participants (fst (emit s now e)) = t_participants s" "t_waitlist (fst (emit s now e)) = t_waitlist s"
  "t_checkins (fst (emit s now e)) = t_checkins s" "t_outbox (fst (emit s now e)) = t_outbox s"
  "t_orders (fst (emit s now e)) = t_orders s" "t_payments (fst (emit s now e)) = t_payments s"
  "t_refunds (fst (emit s now e)) = t_refunds s" "t_recon (fst (emit s now e)) = t_recon s"
  "t_ledger (fst (emit s now e)) = t_ledger s" "t_promos (fst (emit s now e)) = t_promos s"
  by (simp_all add: emit_def)

end
