(* ===== verification/Waitlist.thy ===== *)
theory Waitlist
  imports Notifications
begin

text \<open>
  The waitlist of a full plan (\<^verbatim>\<open>internal/bookings/waitlist.go\<close>): seats held by
  offers and by people who are paying, offers to the head of the queue, joining,
  leaving, the status a caller sees, and the sweeper. \<open>now\<close> is SQL's \<^verbatim>\<open>now()\<close> of the
  transaction, \<open>tnow\<close> the Go process's \<open>time.Now()\<close>. Every operation that checks or
  frees seats runs under the plan's row lock, so each is one atomic step here.
\<close>

section \<open>Seats held\<close>

definition waitlist_offer_ttl :: int where [time_defs]: "waitlist_offer_ttl = 30 * minute"

definition later :: "int option \<Rightarrow> int \<Rightarrow> bool" where
  "later t now = (case t of None \<Rightarrow> False | Some e \<Rightarrow> now < e)"

definition offer_holds :: "int \<Rightarrow> string \<Rightarrow> string \<Rightarrow> waitlist_row \<Rightarrow> bool" where
  "offer_holds now plan except w \<longleftrightarrow>
     wl_plan w = plan \<and> wl_status w = Offered \<and> later (wl_expires w) now \<and> wl_user w \<noteq> except"

definition payment_holds :: "int \<Rightarrow> string \<Rightarrow> string \<Rightarrow> booking_row \<Rightarrow> bool" where
  "payment_holds now plan except b \<longleftrightarrow>
     bk_plan b = plan \<and> bk_status b = PaymentPending \<and> later (bk_expires b) now \<and> bk_user b \<noteq> except"

definition active_holds :: "db \<Rightarrow> int \<Rightarrow> string \<Rightarrow> string \<Rightarrow> int" where
  "active_holds s now plan except =
     cnt (offer_holds now plan except) (t_waitlist s) + cnt (payment_holds now plan except) (t_bookings s)"

section \<open>Offering freed seats\<close>

definition wl_key :: "waitlist_row \<Rightarrow> int \<times> string" where
  "wl_key w = (wl_created w, wl_id w)"

text \<open>\<^verbatim>\<open>WHERE plan_id = $1 AND status = 'waiting' ORDER BY created_at, id LIMIT $2\<close>\<close>

definition queue_of :: "db \<Rightarrow> string \<Rightarrow> waitlist_row list" where
  "queue_of s plan =
     sort_key wl_key (filter (\<lambda>w. wl_plan w = plan \<and> wl_status w = Waiting) (t_waitlist s))"

definition head_ids :: "db \<Rightarrow> string \<Rightarrow> int \<Rightarrow> string list" where
  "head_ids s plan n = map wl_id (take (nat n) (queue_of s plan))"

definition offer_row :: "int \<Rightarrow> waitlist_row \<Rightarrow> waitlist_row" where
  "offer_row tnow w = w\<lparr>wl_status := Offered, wl_offered_at := Some tnow,
     wl_expires := Some (tnow + waitlist_offer_ttl), wl_updated := tnow\<rparr>"

fun notify_offered :: "int \<Rightarrow> string \<Rightarrow> string list \<Rightarrow> db \<Rightarrow> db" where
  "notify_offered now plan [] s = s"
| "notify_offered now plan (u # us) s =
     notify_offered now plan us
       (enqueue_notify_user s now u ''A seat opened up''
          ''Claim your seat within 30 minutes before it goes to the next person.''
          (''hivemind://plans/'' @ plan) ''push'')"

definition make_offers :: "db \<Rightarrow> int \<Rightarrow> int \<Rightarrow> string \<Rightarrow> int \<Rightarrow> db" where
  "make_offers s now tnow plan free =
     (let ids = head_ids s plan free;
          users = map wl_user (filter (\<lambda>w. wl_id w \<in> set ids) (t_waitlist s));
          s1 = s\<lparr>t_waitlist := upd (\<lambda>w. wl_id w \<in> set ids) (offer_row tnow) (t_waitlist s)\<rparr>
      in notify_offered now plan users s1)"

definition offer_freed_seats :: "db \<Rightarrow> int \<Rightarrow> int \<Rightarrow> string \<Rightarrow> (db, unit) outcome" where
  "offer_freed_seats s now tnow plan =
    (case plan_by_id s plan of
       None \<Rightarrow> (s, Inl DB_NoRows)
     | Some p \<Rightarrow>
         if pl_status p \<noteq> Published \<or> \<not> tnow < pl_starts p then (s, Inr ())
         else let free = pl_capacity p - pl_confirmed p - active_holds s now plan ''''
              in if free \<le> 0 then (s, Inr ())
                 else (make_offers s now tnow plan free, Inr ()))"

section \<open>The status a caller sees\<close>

datatype wl_state = WaitlistNone | WaitlistWaiting | WaitlistOffered

record waitlist_view =
  wv_plan :: string
  wv_state :: wl_state
  wv_position :: int
  wv_total :: int
  wv_expires :: "int option"

definition waitlist_view_of :: "db \<Rightarrow> int \<Rightarrow> string \<Rightarrow> string \<Rightarrow> waitlist_view" where
  "waitlist_view_of s tnow plan user =
    (let st = \<lparr>wv_plan = plan, wv_state = WaitlistNone, wv_position = 0, wv_total = 0, wv_expires = None\<rparr>
     in case find (\<lambda>w. wl_plan w = plan \<and> wl_user w = user) (t_waitlist s) of
          None \<Rightarrow> st
        | Some w \<Rightarrow>
            if wl_status w = Offered \<and> later (wl_expires w) tnow
            then st\<lparr>wv_state := WaitlistOffered, wv_expires := wl_expires w\<rparr>
            else if wl_status w = Waiting
            then st\<lparr>wv_state := WaitlistWaiting,
                    wv_position := cnt (\<lambda>v. wl_plan v = plan \<and> wl_status v = Waiting \<and> wl_key v \<le> wl_key w)
                                     (t_waitlist s),
                    wv_total := cnt (\<lambda>v. wl_plan v = plan \<and> wl_status v = Waiting) (t_waitlist s)\<rparr>
            else st)"

section \<open>Joining and leaving\<close>

definition rejoin_row :: "int \<Rightarrow> waitlist_row \<Rightarrow> waitlist_row" where
  "rejoin_row now w = w\<lparr>wl_status := Waiting, wl_created := now, wl_offered_at := None,
     wl_expires := None, wl_updated := now\<rparr>"

definition upsert_waitlist :: "db \<Rightarrow> int \<Rightarrow> string \<Rightarrow> string \<Rightarrow> string \<Rightarrow> db" where
  "upsert_waitlist s now new_id plan user =
    (if \<exists>w\<in>set (t_waitlist s). wl_plan w = plan \<and> wl_user w = user
     then s\<lparr>t_waitlist := upd (\<lambda>w. wl_plan w = plan \<and> wl_user w = user \<and> wl_status w \<in> {Left, Expired, Accepted})
              (rejoin_row now) (t_waitlist s)\<rparr>
     else s\<lparr>t_waitlist := t_waitlist s @
              [\<lparr>wl_id = new_id, wl_plan = plan, wl_user = user, wl_status = Waiting, wl_created = now,
                wl_offered_at = None, wl_expires = None, wl_updated = now\<rparr>]\<rparr>)"

definition join_waitlist ::
  "db \<Rightarrow> int \<Rightarrow> int \<Rightarrow> string \<Rightarrow> string \<Rightarrow> string \<Rightarrow> (db, waitlist_view) outcome" where
  "join_waitlist s now tnow new_id plan user =
    (case plan_by_id s plan of
       None \<Rightarrow> (s, Inl Bookings_PlanNotFound)
     | Some p \<Rightarrow>
         if pl_status p \<noteq> Published \<or> \<not> tnow < pl_starts p then (s, Inl Bookings_PlanNotFound)
         else if 0 < cnt (\<lambda>b. bk_plan b = plan \<and> bk_user b = user \<and> bk_status b = Confirmed) (t_bookings s)
         then (s, Inl Bookings_AlreadyBooked)
         else if wv_state (waitlist_view_of s tnow plan user) = WaitlistOffered
         then (s, Inr (waitlist_view_of s tnow plan user))
         else if pl_confirmed p + active_holds s now plan user < pl_capacity p
         then (s, Inl Bookings_NotFull)
         else let s' = upsert_waitlist s now new_id plan user
              in (s', Inr (waitlist_view_of s' tnow plan user)))"

definition leave_waitlist :: "db \<Rightarrow> int \<Rightarrow> int \<Rightarrow> string \<Rightarrow> string \<Rightarrow> (db, unit) outcome" where
  "leave_waitlist s now tnow plan user =
    (case plan_by_id s plan of
       None \<Rightarrow> (s, Inl Bookings_PlanNotFound)
     | Some p \<Rightarrow>
         in_tx s (offer_freed_seats
           (s\<lparr>t_waitlist := upd (\<lambda>w. wl_plan w = plan \<and> wl_user w = user \<and> wl_status w \<in> {Waiting, Offered})
                (\<lambda>w. w\<lparr>wl_status := Left, wl_updated := now\<rparr>) (t_waitlist s)\<rparr>)
           now tnow plan))"

section \<open>Listing, sweeping, expiring\<close>

definition list_my_waitlist :: "db \<Rightarrow> int \<Rightarrow> int \<Rightarrow> string \<Rightarrow> waitlist_view list" where
  "list_my_waitlist s now tnow user =
    (let rows = filter (\<lambda>w. wl_user w = user \<and>
                    (wl_status w = Waiting \<or> (wl_status w = Offered \<and> later (wl_expires w) now)))
                  (t_waitlist s);
         plans = map wl_plan (take 50 (sort_key (\<lambda>w. - wl_updated w) rows))
     in filter (\<lambda>v. wv_state v \<noteq> WaitlistNone) (map (\<lambda>p. waitlist_view_of s tnow p user) plans))"

definition offer_for_plan :: "int \<Rightarrow> int \<Rightarrow> string \<Rightarrow> db \<Rightarrow> (db, unit) outcome" where
  "offer_for_plan now tnow plan s =
    (case plan_by_id s plan of
       None \<Rightarrow> (s, Inl Bookings_PlanNotFound)
     | Some p \<Rightarrow> in_tx s (offer_freed_seats s now tnow plan))"

definition stale_offer :: "int \<Rightarrow> waitlist_row \<Rightarrow> bool" where
  "stale_offer tnow w \<longleftrightarrow> wl_status w = Offered \<and> (case wl_expires w of None \<Rightarrow> False | Some e \<Rightarrow> e \<le> tnow)"

definition expire_offer :: "int \<Rightarrow> waitlist_row \<Rightarrow> waitlist_row" where
  "expire_offer tnow w = w\<lparr>wl_status := Expired, wl_updated := tnow\<rparr>"

text \<open>
  The sweep expires the stale offers in one statement, then offers the freed seats
  of each plan it touched, once per plan in the order seen; it returns how many
  offers expired. The first plan that fails ends the loop.
\<close>

definition sweep_waitlist :: "db \<Rightarrow> int \<Rightarrow> int \<Rightarrow> (db, nat) outcome" where
  "sweep_waitlist s now tnow =
    (let stale = filter (stale_offer tnow) (t_waitlist s);
         s1 = s\<lparr>t_waitlist := upd (stale_offer tnow) (expire_offer tnow) (t_waitlist s)\<rparr>;
         plans = rev (remdups (rev (map wl_plan stale)))
     in and_then (for_each (offer_for_plan now tnow) plans s1) (\<lambda>_ s2. (s2, Inr (length stale))))"

definition expire_waitlist_for_plan :: "db \<Rightarrow> int \<Rightarrow> string \<Rightarrow> db" where
  "expire_waitlist_for_plan s now plan =
     s\<lparr>t_waitlist := upd (\<lambda>w. wl_plan w = plan \<and> wl_status w \<in> {Waiting, Offered})
         (\<lambda>w. w\<lparr>wl_status := Expired, wl_updated := now\<rparr>) (t_waitlist s)\<rparr>"

lemmas waitlist_defs =
  offer_freed_seats_def join_waitlist_def leave_waitlist_def sweep_waitlist_def
  offer_for_plan_def expire_waitlist_for_plan_def upsert_waitlist_def

section \<open>Frame\<close>

text \<open>The waitlist operations write only \<open>t_waitlist\<close> and the outbox.\<close>

definition outside_waitlist :: "db \<Rightarrow> db" where
  "outside_waitlist s = s\<lparr>t_waitlist := [], t_outbox := []\<rparr>"

lemma notify_offered_frame [simp]:
  "outside_waitlist (notify_offered now plan us s) = outside_waitlist s"
  "t_waitlist (notify_offered now plan us s) = t_waitlist s"
  by (induction us arbitrary: s) (simp_all add: outside_waitlist_def op_defs)

lemma make_offers_frame [simp]:
  "outside_waitlist (make_offers s now tnow plan free) = outside_waitlist s"
  by (simp add: make_offers_def Let_def) (simp add: outside_waitlist_def)

lemma outside_waitlist_eqD:
  assumes "outside_waitlist s = outside_waitlist s'"
  shows "t_plans s = t_plans s'" "t_bookings s = t_bookings s'"
    "t_participants s = t_participants s'" "t_checkins s = t_checkins s'" "t_orders s = t_orders s'"
    "t_payments s = t_payments s'" "t_refunds s = t_refunds s'" "t_recon s = t_recon s'"
    "t_ledger s = t_ledger s'" "t_promos s = t_promos s'"
  using assms by (cases s; cases s'; simp add: outside_waitlist_def)+

lemma offer_freed_seats_frame [simp]:
  "outside_waitlist (fst (offer_freed_seats s now tnow plan)) = outside_waitlist s"
  by (simp add: offer_freed_seats_def Let_def split: option.splits)

lemma offer_for_plan_frame [simp]:
  "outside_waitlist (fst (offer_for_plan now tnow plan s)) = outside_waitlist s"
  by (auto simp: offer_for_plan_def split: option.splits intro: in_tx_keeps)

lemma join_waitlist_frame [simp]:
  "outside_waitlist (fst (join_waitlist s now tnow nid plan user)) = outside_waitlist s"
  by (simp add: join_waitlist_def Let_def upsert_waitlist_def outside_waitlist_def split: option.splits)

lemma leave_waitlist_frame [simp]:
  "outside_waitlist (fst (leave_waitlist s now tnow plan user)) = outside_waitlist s"
proof -
  have "outside_waitlist (s\<lparr>t_waitlist := ws\<rparr>) = outside_waitlist s" for ws
    by (simp add: outside_waitlist_def)
  then show ?thesis
    by (auto simp: leave_waitlist_def split: option.splits intro: in_tx_keeps)
qed

interpretation offers_frame: keeps_invariant "offer_for_plan now tnow" "\<lambda>s. outside_waitlist s = fr"
  by unfold_locales simp

lemma sweep_waitlist_frame [simp]:
  "outside_waitlist (fst (sweep_waitlist s now tnow)) = outside_waitlist s"
proof -
  let ?s1 = "s\<lparr>t_waitlist := upd (stale_offer tnow) (expire_offer tnow) (t_waitlist s)\<rparr>"
  have "outside_waitlist ?s1 = outside_waitlist s" by (simp add: outside_waitlist_def)
  then have "outside_waitlist (fst (for_each (offer_for_plan now tnow) ps ?s1)) = outside_waitlist s" for ps
    by (rule offers_frame.for_each_keeps)
  then show ?thesis
    by (auto simp: sweep_waitlist_def Let_def intro: and_then_keeps)
qed

lemma expire_waitlist_frame [simp]:
  "outside_waitlist (expire_waitlist_for_plan s now plan) = outside_waitlist s"
  by (simp add: expire_waitlist_for_plan_def outside_waitlist_def)

section \<open>The queue\<close>

lemma queue_of_sorted: "sorted (map wl_key (queue_of s plan))"
  by (simp add: queue_of_def)

lemma set_queue_of:
  "set (queue_of s plan) = {w \<in> set (t_waitlist s). wl_plan w = plan \<and> wl_status w = Waiting}"
  by (auto simp: queue_of_def)

lemma queue_of_distinct_ids:
  assumes "wf_db s"
  shows "distinct (map wl_id (queue_of s plan))" "distinct (queue_of s plan)"
    "distinct (map wl_key (queue_of s plan))"
proof -
  have "distinct (filter P (t_waitlist s))" for P
    using wf_dbD(4)[OF assms] by (simp add: distinct_map)
  then show d: "distinct (queue_of s plan)" by (simp add: queue_of_def)
  have "inj_on wl_id (set (queue_of s plan))"
    using wf_dbD(4)[OF assms] by (auto simp: distinct_map set_queue_of inj_on_def)
  with d show "distinct (map wl_id (queue_of s plan))"
    and "distinct (map wl_key (queue_of s plan))"
    by (auto simp: distinct_map inj_on_def wl_key_def)
qed

lemma length_queue_of:
  "int (length (queue_of s plan)) = cnt (\<lambda>w. wl_plan w = plan \<and> wl_status w = Waiting) (t_waitlist s)"
  by (simp add: queue_of_def cnt_def)

lemma head_ids_cnt:
  assumes "wf_db s"
  shows "cnt (\<lambda>w. wl_id w \<in> set (head_ids s plan n)) (t_waitlist s)
       = int (min (nat n) (length (queue_of s plan)))"
proof -
  have "cnt (\<lambda>w. wl_id w \<in> set (map wl_id (take (nat n) (queue_of s plan)))) (t_waitlist s)
      = int (length (take (nat n) (queue_of s plan)))"
    using queue_of_distinct_ids[OF assms] wf_dbD(4)[OF assms]
    by (intro cnt_key_set) (auto dest!: in_set_takeD simp: set_queue_of)
  then show ?thesis by (simp add: head_ids_def min.commute)
qed

lemma head_ids_in:
  assumes "wf_db s" "w \<in> set (t_waitlist s)" "wl_id w \<in> set (head_ids s plan n)"
  shows "w \<in> set (take (nat n) (queue_of s plan))" "wl_plan w = plan" "wl_status w = Waiting"
proof -
  obtain v where v: "v \<in> set (take (nat n) (queue_of s plan))" "wl_id v = wl_id w"
    using assms(3) by (auto simp: head_ids_def)
  then have "v \<in> set (t_waitlist s)" "wl_plan v = plan" "wl_status v = Waiting"
    by (auto dest!: in_set_takeD simp: set_queue_of)
  moreover from this v assms(2) wf_dbD(4)[OF assms(1)] have "v = w" by (auto dest: key_inj)
  ultimately show "w \<in> set (take (nat n) (queue_of s plan))" "wl_plan w = plan" "wl_status w = Waiting"
    using v by simp_all
qed

section \<open>Offers: first come first served, never more than the free seats\<close>

lemma make_offers_tables:
  "t_waitlist (make_offers s now tnow plan free)
     = upd (\<lambda>w. wl_id w \<in> set (head_ids s plan free)) (offer_row tnow) (t_waitlist s)"
  by (simp add: make_offers_def Let_def)

lemma offer_row_simps [simp]:
  "wl_id (offer_row t w) = wl_id w" "wl_plan (offer_row t w) = wl_plan w"
  "wl_user (offer_row t w) = wl_user w" "wl_created (offer_row t w) = wl_created w"
  "wl_status (offer_row t w) = Offered" "wl_expires (offer_row t w) = Some (t + waitlist_offer_ttl)"
  by (simp_all add: offer_row_def)

lemma ttl_pos: "0 < waitlist_offer_ttl"
  by (simp add: time_defs)

lemma active_holds_make_offers:
  assumes wf: "wf_db s"
  shows "active_holds (make_offers s now tnow plan free) now plan except
       \<le> active_holds s now plan except + int (min (nat free) (length (queue_of s plan)))"
    and "now \<le> tnow \<Longrightarrow> \<forall>w\<in>set (t_waitlist s). wl_user w \<noteq> except \<Longrightarrow>
       active_holds (make_offers s now tnow plan free) now plan except
       = active_holds s now plan except + int (min (nat free) (length (queue_of s plan)))"
proof -
  let ?P = "\<lambda>w. wl_id w \<in> set (head_ids s plan free)"
  have b: "t_bookings (make_offers s now tnow plan free) = t_bookings s"
    by (rule outside_waitlist_eqD) simp
  have "cnt (offer_holds now plan except) (upd ?P (offer_row tnow) (t_waitlist s))
      \<le> cnt (offer_holds now plan except) (t_waitlist s) + cnt ?P (t_waitlist s)"
    by (intro cnt_upd_flip_le) (auto simp: offer_holds_def dest: head_ids_in[OF wf])
  then show "active_holds (make_offers s now tnow plan free) now plan except
       \<le> active_holds s now plan except + int (min (nat free) (length (queue_of s plan)))"
    using b by (simp add: active_holds_def make_offers_tables head_ids_cnt[OF wf])
  assume a: "now \<le> tnow" "\<forall>w\<in>set (t_waitlist s). wl_user w \<noteq> except"
  have "cnt (offer_holds now plan except) (upd ?P (offer_row tnow) (t_waitlist s))
      = cnt (offer_holds now plan except) (t_waitlist s) + cnt ?P (t_waitlist s)"
    using a ttl_pos
    by (intro cnt_upd_flip) (auto simp: offer_holds_def later_def dest: head_ids_in[OF wf])
  then show "active_holds (make_offers s now tnow plan free) now plan except
       = active_holds s now plan except + int (min (nat free) (length (queue_of s plan)))"
    using b by (simp add: active_holds_def make_offers_tables head_ids_cnt[OF wf])
qed

lemma queue_after_offers:
  assumes "wf_db s"
  shows "cnt (\<lambda>w. wl_plan w = plan \<and> wl_status w = Waiting) (t_waitlist (make_offers s now tnow plan free))
       = int (length (queue_of s plan) - nat free)"
proof -
  let ?P = "\<lambda>w. wl_id w \<in> set (head_ids s plan free)"
  let ?Q = "\<lambda>w. wl_plan w = plan \<and> wl_status w = Waiting"
  have "cnt ?Q (upd ?P (offer_row tnow) rows) = cnt ?Q rows - cnt (\<lambda>w. ?P w \<and> ?Q w) rows" for rows
    by (induction rows) auto
  moreover have "cnt (\<lambda>w. ?P w \<and> ?Q w) (t_waitlist s) = cnt ?P (t_waitlist s)"
    by (intro cnt_cong) (auto dest: head_ids_in[OF assms])
  ultimately have "cnt ?Q (upd ?P (offer_row tnow) (t_waitlist s))
      = int (length (queue_of s plan)) - int (min (nat free) (length (queue_of s plan)))"
    by (simp add: head_ids_cnt[OF assms] length_queue_of)
  then show ?thesis by (simp add: make_offers_tables)
qed

lemma offered_before_waiting:
  assumes "wf_db s"
    and "w \<in> set (t_waitlist s)" "wl_id w \<in> set (head_ids s plan n)"
    and "v \<in> set (t_waitlist s)" "wl_plan v = plan" "wl_status v = Waiting"
        "wl_id v \<notin> set (head_ids s plan n)"
  shows "wl_key w < wl_key v"
proof -
  let ?q = "queue_of s plan"
  have w: "w \<in> set (take (nat n) ?q)" using head_ids_in(1)[OF assms(1-3)] .
  have "v \<in> set ?q" using assms by (simp add: set_queue_of)
  moreover have "v \<notin> set (take (nat n) ?q)" using assms(7) by (auto simp: head_ids_def)
  ultimately have v: "v \<in> set (drop (nat n) ?q)"
    by (metis Un_iff append_take_drop_id set_append)
  have "sorted (map wl_key (take (nat n) ?q) @ map wl_key (drop (nat n) ?q))"
    using queue_of_sorted[of s plan] by (metis append_take_drop_id map_append)
  with w v have "wl_key w \<le> wl_key v" by (auto simp: sorted_append)
  moreover have "wl_key w \<noteq> wl_key v" using assms(3,7) by (auto simp: wl_key_def)
  ultimately show ?thesis by simp
qed

text \<open>
  C7. Offering freed seats never holds more seats than the plan has, wastes none while
  somebody waits, and serves the queue in order: after \<open>offerFreedSeats\<close> on a
  published plan that has not started, seats taken plus seats held stay within the
  capacity (or within what was already held), either no seat is free or nobody
  waits, and whoever got an offer joined before everybody still waiting.
\<close>

theorem offers_within_capacity_in_order:
  assumes "wf_db s" "plan_by_id s plan = Some p" "pl_status p = Published" "tnow < pl_starts p"
    and "now \<le> tnow" "\<forall>w\<in>set (t_waitlist s). wl_user w \<noteq> ''''"
    and "offer_freed_seats s now tnow plan = (s', r)"
  shows "r = Inr ()
    \<and> pl_confirmed p + active_holds s' now plan ''''
        \<le> max (pl_capacity p) (pl_confirmed p + active_holds s now plan '''')
    \<and> (pl_capacity p \<le> pl_confirmed p + active_holds s' now plan ''''
        \<or> queue_of s' plan = [])
    \<and> (\<forall>w\<in>set (t_waitlist s). \<forall>w'\<in>set (t_waitlist s'). \<forall>v\<in>set (queue_of s' plan).
        wl_id w = wl_id w' \<and> wl_status w = Waiting \<and> wl_status w' = Offered
        \<longrightarrow> wl_key w < wl_key v)"
proof (cases "pl_capacity p - pl_confirmed p - active_holds s now plan '''' \<le> 0")
  case True
  with assms have s': "s' = s" "r = Inr ()"
    by (auto simp: offer_freed_seats_def Let_def)
  have "\<And>w w'. w \<in> set (t_waitlist s) \<Longrightarrow> w' \<in> set (t_waitlist s) \<Longrightarrow> wl_id w = wl_id w' \<Longrightarrow> w = w'"
    using wf_dbD(4)[OF assms(1)] by (auto dest: key_inj)
  with True s' show ?thesis by fastforce
next
  case False
  let ?free = "pl_capacity p - pl_confirmed p - active_holds s now plan ''''"
  have s': "s' = make_offers s now tnow plan ?free" and r: "r = Inr ()"
    using False assms by (auto simp: offer_freed_seats_def Let_def)
  have holds: "active_holds s' now plan ''''
      = active_holds s now plan '''' + int (min (nat ?free) (length (queue_of s plan)))"
    unfolding s' using assms by (intro active_holds_make_offers(2)) auto
  have len: "int (length (queue_of s' plan)) = int (length (queue_of s plan) - nat ?free)"
    unfolding length_queue_of unfolding s' using assms by (intro queue_after_offers)
  have order: "wl_key w < wl_key v"
    if h: "w \<in> set (t_waitlist s)" "w' \<in> set (t_waitlist s')" "v \<in> set (queue_of s' plan)"
      "wl_id w = wl_id w'" "wl_status w = Waiting" "wl_status w' = Offered" for w w' v
  proof -
    let ?H = "set (head_ids s plan ?free)"
    obtain w0 where w0: "w0 \<in> set (t_waitlist s)" "w' = (if wl_id w0 \<in> ?H then offer_row tnow w0 else w0)"
      using h(2) by (auto simp: s' make_offers_tables set_upd)
    then have "wl_id w0 = wl_id w" using h(4) by (auto split: if_splits)
    with w0(1) h(1) have "w0 = w" using key_inj[OF wf_dbD(4)[OF assms(1)]] by blast
    with w0(2) h(5,6) have "wl_id w \<in> ?H" by (auto split: if_splits)
    moreover have "v \<noteq> offer_row tnow u" for u using h(3) by (auto simp: set_queue_of)
    then have "v \<in> set (t_waitlist s)" "wl_plan v = plan" "wl_status v = Waiting" "wl_id v \<notin> ?H"
      using h(3) by (auto simp: set_queue_of s' make_offers_tables set_upd split: if_splits)
    ultimately show ?thesis using offered_before_waiting[OF assms(1) h(1)] by blast
  qed
  have "pl_confirmed p + active_holds s' now plan '''' \<le> pl_capacity p"
    using False holds by linarith
  moreover have "pl_capacity p \<le> pl_confirmed p + active_holds s' now plan '''' \<or> queue_of s' plan = []"
  proof (cases "nat ?free \<le> length (queue_of s plan)")
    case True
    with False holds show ?thesis by simp
  next
    case False
    with len have "length (queue_of s' plan) = 0" by linarith
    then show ?thesis by simp
  qed
  moreover have "\<forall>w\<in>set (t_waitlist s). \<forall>w'\<in>set (t_waitlist s'). \<forall>v\<in>set (queue_of s' plan).
      wl_id w = wl_id w' \<and> wl_status w = Waiting \<and> wl_status w' = Offered \<longrightarrow> wl_key w < wl_key v"
    using order by blast
  ultimately show ?thesis using r by linarith
qed

lemma offers_within_capacity_in_order_witness:
  "\<exists>s' r. offer_freed_seats (empty_db\<lparr>t_plans := [sample_plan], t_waitlist := [sample_waiting]\<rparr>) 10 10 ''p'' = (s', r)
     \<and> r = Inr () \<and> (2 \<le> active_holds s' 10 ''p'' '''' \<or> queue_of s' ''p'' = [])"
proof -
  let ?s = "empty_db\<lparr>t_plans := [sample_plan], t_waitlist := [sample_waiting]\<rparr>"
  obtain s' r where o: "offer_freed_seats ?s 10 10 ''p'' = (s', r)" by fastforce
  have "wf_db ?s" by (simp add: wf_db_def samples)
  from offers_within_capacity_in_order[OF this _ _ _ _ _ o, of sample_plan] o show ?thesis
    by (intro exI[of _ s'] exI[of _ r]) (simp add: samples)
qed

section \<open>Positions\<close>

text \<open>
  The position shown to a waiting caller is their place in the very queue offers
  are made from, counted from 1, and the total is its length.
\<close>

theorem waitlist_position_is_queue_index:
  assumes "wf_db s" "wv_state (waitlist_view_of s tnow plan user) = WaitlistWaiting"
  shows "\<exists>i < length (queue_of s plan).
      wl_user (queue_of s plan ! i) = user
      \<and> wv_position (waitlist_view_of s tnow plan user) = int (Suc i)
      \<and> wv_total (waitlist_view_of s tnow plan user) = int (length (queue_of s plan))"
proof -
  let ?q = "queue_of s plan"
  obtain w where f: "find (\<lambda>w. wl_plan w = plan \<and> wl_user w = user) (t_waitlist s) = Some w"
      and st: "wl_status w = Waiting"
    using assms(2) by (auto simp: waitlist_view_of_def Let_def split: option.splits if_splits)
  then have w: "w \<in> set (t_waitlist s)" "wl_plan w = plan" "wl_user w = user"
    by (auto simp: find_Some_iff)
  then have "w \<in> set ?q" using st by (simp add: set_queue_of)
  then obtain i where i: "i < length ?q" "?q ! i = w" by (auto simp: in_set_conv_nth)
  have "cnt (\<lambda>v. wl_key v \<le> wl_key (?q ! i)) ?q = int (Suc i)"
    using i queue_of_sorted queue_of_distinct_ids(3)[OF assms(1)] by (intro cnt_le_sorted) auto
  then have "cnt (\<lambda>v. wl_plan v = plan \<and> wl_status v = Waiting \<and> wl_key v \<le> wl_key w) (t_waitlist s)
      = int (Suc i)"
    using i(2) by (simp add: queue_of_def cnt_filter conj_assoc)
  with f st i w show ?thesis
    by (intro exI[of _ i]) (auto simp: waitlist_view_of_def Let_def length_queue_of)
qed

lemma waitlist_position_is_queue_index_witness:
  "wv_position (waitlist_view_of (empty_db\<lparr>t_waitlist := [sample_waiting\<lparr>wl_id := ''w2'', wl_user := ''x'', wl_created := 3\<rparr>,
     sample_waiting]\<rparr>) 10 ''p'' ''v'') = 2"
proof -
  let ?s = "empty_db\<lparr>t_waitlist := [sample_waiting\<lparr>wl_id := ''w2'', wl_user := ''x'', wl_created := 3\<rparr>, sample_waiting]\<rparr>"
  have "wf_db ?s" "wv_state (waitlist_view_of ?s 10 ''p'' ''v'') = WaitlistWaiting"
    by (simp_all add: wf_db_def samples waitlist_view_of_def)
  from waitlist_position_is_queue_index[OF this] obtain i where
    "i < length (queue_of ?s ''p'')" "wl_user (queue_of ?s ''p'' ! i) = ''v''"
    "wv_position (waitlist_view_of ?s 10 ''p'' ''v'') = int (Suc i)" by blast
  moreover have "queue_of ?s ''p'' = [sample_waiting\<lparr>wl_id := ''w2'', wl_user := ''x'', wl_created := 3\<rparr>, sample_waiting]"
    by (simp add: queue_of_def samples wl_key_def less_eq_prod_def)
  ultimately show ?thesis by (cases i) (auto simp: samples less_Suc_eq)
qed

end
