(* ===== verification/Bookings.thy ===== *)
theory Bookings
  imports Waitlist
begin

text \<open>
  Bookings (\<^verbatim>\<open>internal/bookings/repository.go\<close>): booking a seat, paying for it,
  releasing it, cancelling, checking in. Each repository method is one database
  transaction holding the plan's row lock, so it is one function on the database;
  an error rolls it back. The service, access rules and passes are in
  \<open>Booking_Service\<close>, the jobs and the whole life cycle in \<open>Lifecycle\<close>.
\<close>

section \<open>The Go struct\<close>

record booking =
  b_id :: string
  b_plan :: string
  b_user :: string
  b_status :: booking_status
  b_price :: int
  b_currency :: string
  b_idem :: string
  b_created :: int
  b_updated :: int
  b_hold :: "int option"

definition payment_hold :: int where [time_defs]: "payment_hold = 15 * minute"

text \<open>
  The columns the selects scan. \<open>Get\<close> and the resumed hold read the expiry; the
  \<^verbatim>\<open>RETURNING\<close> clauses of \<open>Cancel\<close> and \<open>CheckIn\<close> do not. None reads the idempotency key.
\<close>

definition scan_booking :: "booking_row \<Rightarrow> booking" where
  "scan_booking r = \<lparr>b_id = bk_id r, b_plan = bk_plan r, b_user = bk_user r, b_status = bk_status r,
     b_price = bk_price r, b_currency = bk_currency r, b_idem = '''', b_created = bk_created r,
     b_updated = bk_updated r, b_hold = bk_expires r\<rparr>"

definition scan_returning :: "booking_row \<Rightarrow> booking" where
  "scan_returning r = (scan_booking r)\<lparr>b_hold := None\<rparr>"

section \<open>Seating a confirmed booking\<close>

definition upsert_participant :: "db \<Rightarrow> int \<Rightarrow> string \<Rightarrow> string \<Rightarrow> string \<Rightarrow> db" where
  "upsert_participant s now plan user bid =
    (if \<exists>r\<in>set (t_participants s). pp_plan r = plan \<and> pp_user r = user
     then s\<lparr>t_participants := upd (\<lambda>r. pp_plan r = plan \<and> pp_user r = user)
              (\<lambda>r. r\<lparr>pp_status := PartConfirmed, pp_booking := Some bid, pp_joined := now,
                     pp_checked_in := None\<rparr>) (t_participants s)\<rparr>
     else s\<lparr>t_participants := t_participants s @
              [\<lparr>pp_plan = plan, pp_user = user, pp_booking = Some bid, pp_status = PartConfirmed,
                pp_joined = now, pp_checked_in = None\<rparr>]\<rparr>)"

text \<open>
  \<^verbatim>\<open>UPDATE plans SET confirmed_count = confirmed_count + d\<close>, under the schema's
  \<^verbatim>\<open>CHECK (confirmed_count <= capacity)\<close>.
\<close>

definition bump_confirmed :: "db \<Rightarrow> string \<Rightarrow> int \<Rightarrow> (db, unit) outcome" where
  "bump_confirmed s plan d =
    (case plan_by_id s plan of
       None \<Rightarrow> (s, Inr ())
     | Some p \<Rightarrow>
         if pl_confirmed p + d > pl_capacity p then (s, Inl DB_CheckViolation)
         else (s\<lparr>t_plans := upd (\<lambda>p. pl_id p = plan) (\<lambda>p. p\<lparr>pl_confirmed := pl_confirmed p + d\<rparr>)
                   (t_plans s)\<rparr>, Inr ()))"

definition accept_waitlist :: "db \<Rightarrow> int \<Rightarrow> string \<Rightarrow> string \<Rightarrow> db" where
  "accept_waitlist s now plan user =
     s\<lparr>t_waitlist := upd (\<lambda>w. wl_plan w = plan \<and> wl_user w = user \<and> wl_status w \<in> {Waiting, Offered})
         (\<lambda>w. w\<lparr>wl_status := Accepted, wl_updated := now\<rparr>) (t_waitlist s)\<rparr>"

definition seat_confirmed_booking ::
  "db \<Rightarrow> int \<Rightarrow> string \<Rightarrow> string \<Rightarrow> string \<Rightarrow> (db, unit) outcome" where
  "seat_confirmed_booking s now bid plan user =
     and_then (bump_confirmed (upsert_participant s now plan user bid) plan 1)
       (\<lambda>_ s1. (enqueue (accept_waitlist s1 now plan user) now ''BOOKING_CONFIRMED'' bid
                  (BookingPayload bid plan user), Inr ()))"

text \<open>\<open>notifyHost\<close> runs after the commit and ignores every failure.\<close>

definition notify_host :: "db \<Rightarrow> int \<Rightarrow> string \<Rightarrow> string \<Rightarrow> db" where
  "notify_host s now plan attendee =
    (case plan_by_id s plan of
       None \<Rightarrow> s
     | Some p \<Rightarrow>
         fst (emit s now \<lparr>ev_user = pl_host p, ev_actor = attendee, ev_type = ''plan_attendee_joined'',
                ev_target = plan, ev_title = ''{actor} joined your plan'', ev_body = pl_title p,
                ev_link = ''hivemind://plans/'' @ plan,
                ev_dedupe = ''attendee:'' @ plan @ '':'' @ attendee\<rparr>))"

section \<open>Creating a booking\<close>

definition idem_taken :: "db \<Rightarrow> string \<Rightarrow> bool" where
  "idem_taken s key \<longleftrightarrow> key \<noteq> '''' \<and> (\<exists>b\<in>set (t_bookings s). bk_idem b = Some key)"

definition insert_booking :: "db \<Rightarrow> booking_row \<Rightarrow> (db, booking_row) outcome" where
  "insert_booking s r =
     (if idem_taken s (coalesce (bk_idem r)) then (s, Inl DB_UniqueViolation)
      else (s\<lparr>t_bookings := t_bookings s @ [r]\<rparr>, Inr r))"

definition own_pending :: "string \<Rightarrow> string \<Rightarrow> booking_row \<Rightarrow> bool" where
  "own_pending plan user b \<longleftrightarrow> bk_plan b = plan \<and> bk_user b = user \<and> bk_status b = PaymentPending"

definition set_status :: "booking_status \<Rightarrow> int \<Rightarrow> booking_row \<Rightarrow> booking_row" where
  "set_status st now b = b\<lparr>bk_status := st, bk_updated := now\<rparr>"

text \<open>The row both \<^verbatim>\<open>INSERT\<close>s of \<open>Create\<close> write: price and currency are the plan's, never the client's.\<close>

definition new_booking ::
  "int \<Rightarrow> string \<Rightarrow> plan_row \<Rightarrow> string \<Rightarrow> string \<Rightarrow> booking_status \<Rightarrow> int option \<Rightarrow> booking_row" where
  "new_booking now new_id p user idem st hold =
     \<lparr>bk_id = new_id, bk_plan = pl_id p, bk_user = user, bk_status = st,
      bk_price = pl_price p, bk_currency = pl_currency p, bk_idem = nullif idem,
      bk_created = now, bk_updated = now, bk_expires = hold, bk_checked_in = None\<rparr>"

definition hold_seat ::
  "db \<Rightarrow> int \<Rightarrow> int \<Rightarrow> string \<Rightarrow> plan_row \<Rightarrow> string \<Rightarrow> string \<Rightarrow> (db, booking) outcome" where
  "hold_seat s now tnow new_id p user idem =
    (case find (\<lambda>b. own_pending (pl_id p) user b \<and> later (bk_expires b) now) (t_bookings s) of
       Some r \<Rightarrow> (s, Inr (scan_booking r))
     | None \<Rightarrow>
         and_then (insert_booking
             (s\<lparr>t_bookings := upd (own_pending (pl_id p) user) (set_status Cancelled now) (t_bookings s)\<rparr>)
             (new_booking now new_id p user idem PaymentPending (Some (tnow + payment_hold))))
           (\<lambda>r s'. (s', Inr ((scan_booking r)\<lparr>b_idem := idem\<rparr>))))"

definition book_free_seat ::
  "db \<Rightarrow> int \<Rightarrow> string \<Rightarrow> plan_row \<Rightarrow> string \<Rightarrow> string \<Rightarrow> (db, booking) outcome" where
  "book_free_seat s now new_id p user idem =
     and_then (insert_booking s (new_booking now new_id p user idem Confirmed None))
       (\<lambda>r s1. and_then (seat_confirmed_booking s1 now new_id (pl_id p) user)
         (\<lambda>_ s2. (notify_host s2 now (pl_id p) user, Inr ((scan_booking r)\<lparr>b_idem := idem\<rparr>))))"

definition create ::
  "db \<Rightarrow> int \<Rightarrow> int \<Rightarrow> string \<Rightarrow> string \<Rightarrow> string \<Rightarrow> string \<Rightarrow> (db, booking) outcome" where
  "create s now tnow new_id plan user idem =
    (case plan_by_id s plan of
       None \<Rightarrow> (s, Inl Bookings_PlanNotFound)
     | Some p \<Rightarrow>
         if pl_status p \<noteq> Published then (s, Inl Bookings_PlanNotFound)
         else if pl_capacity p \<le> pl_confirmed p + active_holds s now plan user
         then (s, Inl Bookings_PlanFull)
         else if 0 < cnt (\<lambda>b. bk_plan b = plan \<and> bk_user b = user \<and> bk_status b = Confirmed) (t_bookings s)
         then (s, Inl Bookings_AlreadyBooked)
         else in_tx s (if 0 < pl_price p then hold_seat s now tnow new_id p user idem
                       else book_free_seat s now new_id p user idem))"

section \<open>Confirming a paid booking\<close>

definition confirm_paid :: "db \<Rightarrow> int \<Rightarrow> string \<Rightarrow> (db, unit) outcome" where
  "confirm_paid s now bid =
    (case booking_by_id s bid of
       None \<Rightarrow> (s, Inl Bookings_BookingNotFound)
     | Some b \<Rightarrow>
         if bk_status b = Confirmed \<or> bk_status b = Attended then (s, Inr ())
         else if bk_status b \<noteq> PaymentPending \<and> bk_status b \<noteq> Cancelled
         then (s, Inl Bookings_BookingNotFound)
         else (case plan_by_id s (bk_plan b) of
                 None \<Rightarrow> (s, Inl DB_NoRows)
               | Some p \<Rightarrow>
                   if pl_status p \<noteq> Published
                      \<or> pl_capacity p \<le> pl_confirmed p + active_holds s now (bk_plan b) (bk_user b)
                   then (s, Inl Bookings_PlanFull)
                   else in_tx s (and_then
                     (seat_confirmed_booking
                       (s\<lparr>t_bookings := upd (\<lambda>r. bk_id r = bid)
                            (\<lambda>r. r\<lparr>bk_status := Confirmed, bk_expires := None, bk_updated := now\<rparr>)
                            (t_bookings s)\<rparr>)
                       now bid (bk_plan b) (bk_user b))
                     (\<lambda>_ s1. (notify_host s1 now (bk_plan b) (bk_user b), Inr ())))))"

definition pending_expired :: "int \<Rightarrow> booking_row \<Rightarrow> bool" where
  "pending_expired tnow b \<longleftrightarrow> bk_status b = PaymentPending \<and>
     (case bk_expires b of None \<Rightarrow> False | Some e \<Rightarrow> e \<le> tnow)"

definition expire_pending :: "db \<Rightarrow> int \<Rightarrow> int \<Rightarrow> db \<times> int" where
  "expire_pending s now tnow =
     (s\<lparr>t_bookings := upd (pending_expired tnow) (set_status Cancelled now) (t_bookings s)\<rparr>,
      cnt (pending_expired tnow) (t_bookings s))"

section \<open>Reads\<close>

definition get_booking :: "db \<Rightarrow> string \<Rightarrow> go_error + booking" where
  "get_booking s bid =
    (case booking_by_id s bid of None \<Rightarrow> Inl Bookings_BookingNotFound | Some r \<Rightarrow> Inr (scan_booking r))"

definition get_plan_pricing :: "db \<Rightarrow> string \<Rightarrow> go_error + plan_row" where
  "get_plan_pricing s plan =
    (case plan_by_id s plan of None \<Rightarrow> Inl Bookings_PlanNotFound | Some p \<Rightarrow> Inr p)"

definition get_plan_host_id :: "db \<Rightarrow> string \<Rightarrow> go_error + string" where
  "get_plan_host_id s plan =
    (case plan_by_id s plan of None \<Rightarrow> Inl Bookings_PlanNotFound | Some p \<Rightarrow> Inr (pl_host p))"

definition find_active_booking_id :: "db \<Rightarrow> string \<Rightarrow> string \<Rightarrow> go_error + string" where
  "find_active_booking_id s plan user =
    (case find (\<lambda>b. bk_plan b = plan \<and> bk_user b = user \<and> bk_status b = Confirmed) (t_bookings s) of
       None \<Rightarrow> Inl Bookings_BookingNotFound | Some r \<Rightarrow> Inr (bk_id r))"

definition list_confirmed_booking_ids :: "db \<Rightarrow> string \<Rightarrow> string list" where
  "list_confirmed_booking_ids s plan =
     map bk_id (filter (\<lambda>b. bk_plan b = plan \<and> bk_status b = Confirmed) (t_bookings s))"

record booking_summary =
  bs_booking :: booking
  bs_title :: string
  bs_starts :: int
  bs_ends :: int
  bs_reviewed :: bool

definition my_bookings_where :: "int \<Rightarrow> string \<Rightarrow> booking_row \<Rightarrow> plan_row \<Rightarrow> bool" where
  "my_bookings_where now tab b p =
    (if tab = ''past'' then bk_status b \<in> {Attended, NoShow} \<or>
          (bk_status b = Confirmed \<and> max (pl_ends p) (pl_starts p) < now)
     else if tab = ''cancelled'' then bk_status b \<in> {Cancelled, Refunded}
     else bk_status b = Confirmed \<and> now \<le> max (pl_ends p) (pl_starts p))"

definition my_bookings_order :: "string \<Rightarrow> booking_row \<times> plan_row \<Rightarrow> int" where
  "my_bookings_order tab = (\<lambda>(b, p).
     if tab = ''past'' then - pl_starts p
     else if tab = ''cancelled'' then - bk_updated b
     else pl_starts p)"

definition list_my_bookings :: "db \<Rightarrow> int \<Rightarrow> string \<Rightarrow> string \<Rightarrow> booking_summary list" where
  "list_my_bookings s now user tab =
     map (\<lambda>(b, p). \<lparr>bs_booking = scan_returning b, bs_title = pl_title p, bs_starts = pl_starts p,
                      bs_ends = pl_ends p, bs_reviewed = (bk_id b \<in> set (t_reviews s))\<rparr>)
       (take 100 (sort_key (my_bookings_order tab)
         (filter (\<lambda>(b, p). bk_user b = user \<and> my_bookings_where now tab b p)
           (concat (map (\<lambda>b. map (\<lambda>p. (b, p)) (filter (\<lambda>p. pl_id p = bk_plan b) (t_plans s)))
             (t_bookings s))))))"

section \<open>Cancelling\<close>

definition refund_full_hours :: int where [time_defs]: "refund_full_hours = 24"

definition refund_percent :: "int \<Rightarrow> int \<Rightarrow> bool \<Rightarrow> int" where
  "refund_percent starts now by_host =
     (if by_host \<or> refund_full_hours * hour \<le> starts - now then 100 else 0)"

text \<open>The part of \<open>Cancel\<close> after the status update, for a booking that had a seat.\<close>

definition free_seat ::
  "db \<Rightarrow> int \<Rightarrow> int \<Rightarrow> booking_row \<Rightarrow> string \<Rightarrow> bool \<Rightarrow> (db, unit) outcome" where
  "free_seat s now tnow b reason by_host =
    (case plan_by_id s (bk_plan b) of
       None \<Rightarrow> (s, Inl DB_NoRows)
     | Some p \<Rightarrow>
         and_then (bump_confirmed s (bk_plan b) (- 1)) (\<lambda>_ s1.
         and_then (offer_freed_seats
             (s1\<lparr>t_participants := upd (\<lambda>r. pp_booking r = Some (bk_id b))
                  (\<lambda>r. r\<lparr>pp_status := PartCancelled\<rparr>) (t_participants s1)\<rparr>)
             now tnow (bk_plan b)) (\<lambda>_ s2.
         (enqueue s2 now ''BOOKING_CANCELLED'' (bk_id b)
            (CancelPayload (bk_id b) (bk_plan b) (bk_user b) reason
               (Some (refund_percent (pl_starts p) tnow by_host))), Inr ()))))"

definition cancel :: "db \<Rightarrow> int \<Rightarrow> int \<Rightarrow> string \<Rightarrow> string \<Rightarrow> bool \<Rightarrow> (db, booking) outcome" where
  "cancel s now tnow bid reason by_host =
    (case booking_by_id s bid of
       None \<Rightarrow> (s, Inl Bookings_BookingNotFound)
     | Some b \<Rightarrow>
         if bk_status b \<noteq> Confirmed \<and> bk_status b \<noteq> PaymentPending
         then (s, Inl Bookings_BookingNotFound)
         else let s1 = s\<lparr>t_bookings := upd (\<lambda>r. bk_id r = bid) (set_status Cancelled now) (t_bookings s)\<rparr>;
                  out = scan_returning (set_status Cancelled now b)
              in if bk_status b = PaymentPending then (s1, Inr out)
                 else in_tx s (and_then (free_seat s1 now tnow (set_status Cancelled now b) reason by_host)
                        (\<lambda>_ s2. (s2, Inr out))))"

section \<open>Checking in\<close>

definition check_in :: "db \<Rightarrow> int \<Rightarrow> string \<Rightarrow> string \<Rightarrow> (db, booking) outcome" where
  "check_in s now bid by_user =
    (case booking_by_id s bid of
       None \<Rightarrow> (s, Inl Bookings_BookingNotFound)
     | Some b \<Rightarrow>
         if bk_status b \<noteq> Confirmed then (s, Inl Bookings_BookingNotFound)
         else let f = (\<lambda>r. r\<lparr>bk_status := Attended, bk_checked_in := Some now, bk_updated := now\<rparr>)
              in (s\<lparr>t_bookings := upd (\<lambda>r. bk_id r = bid) f (t_bookings s),
                    t_checkins := t_checkins s @ [\<lparr>ci_booking = bid, ci_by = nullif by_user, ci_at = now\<rparr>],
                    t_participants := upd (\<lambda>r. pp_booking r = Some bid)
                      (\<lambda>r. r\<lparr>pp_checked_in := Some now\<rparr>) (t_participants s)\<rparr>,
                  Inr (scan_returning (f b))))"

lemmas booking_op_defs [op_defs] =
  seat_confirmed_booking_def insert_booking_def hold_seat_def book_free_seat_def create_def
  confirm_paid_def expire_pending_def free_seat_def cancel_def check_in_def

end
