(* ===== verification/Seats.thy ===== *)
theory Seats
  imports Bookings
begin

text \<open>
  Seat accounting. \<open>seats_ok\<close> says that a plan's stored \<open>confirmed_count\<close> is the
  number of its bookings that occupy a seat and stays within the capacity; every
  repository operation keeps it and keeps the tables well formed.
\<close>

section \<open>The invariant\<close>

definition seated :: "booking_status \<Rightarrow> bool" where
  "seated st \<longleftrightarrow> st \<in> {Confirmed, Attended, NoShow}"

definition seat_count :: "db \<Rightarrow> string \<Rightarrow> int" where
  "seat_count s plan = cnt (\<lambda>b. bk_plan b = plan \<and> seated (bk_status b)) (t_bookings s)"

text \<open>\<open>seats_off s k d\<close>: the accounts are right except that plan \<open>k\<close> still has to be moved by \<open>d\<close>.\<close>

definition seats_off :: "db \<Rightarrow> string \<Rightarrow> int \<Rightarrow> bool" where
  "seats_off s k d \<longleftrightarrow> (\<forall>p\<in>set (t_plans s).
     pl_confirmed p + (if pl_id p = k then d else 0) = seat_count s (pl_id p)
     \<and> pl_confirmed p \<le> pl_capacity p)"

definition seats_ok :: "db \<Rightarrow> bool" where
  "seats_ok s \<longleftrightarrow> (\<forall>p\<in>set (t_plans s).
     pl_confirmed p = seat_count s (pl_id p) \<and> pl_confirmed p \<le> pl_capacity p)"

definition bookings_inv :: "db \<Rightarrow> bool" where
  "bookings_inv s \<longleftrightarrow> wf_db s \<and> seats_ok s"

lemma seated_simps [simp]:
  "seated Confirmed" "seated Attended" "seated NoShow"
  "\<not> seated PaymentPending" "\<not> seated Cancelled" "\<not> seated Initiated" "\<not> seated Refunded"
  by (simp_all add: seated_def)

lemma seats_ok_off: "seats_ok s = seats_off s k 0"
  by (simp add: seats_ok_def seats_off_def)

lemma seats_off_cong:
  assumes "t_plans s = t_plans s'" "t_bookings s = t_bookings s'"
  shows "seats_off s k d = seats_off s' k d"
  using assms by (simp add: seats_off_def seat_count_def)

lemma seats_ok_cong:
  assumes "t_plans s = t_plans s'" "t_bookings s = t_bookings s'"
  shows "seats_ok s = seats_ok s'"
  using assms by (simp add: seats_ok_def seat_count_def)

lemma seats_ok_same:
  assumes "seats_ok s" "t_plans s' = t_plans s" "\<And>j. seat_count s' j = seat_count s j"
  shows "seats_ok s'"
  using assms(1) unfolding seats_ok_def assms(2,3) .

text \<open>Changing bookings: the accounts move by what happened to the plan's seated bookings.\<close>

lemma seats_off_bookings:
  assumes "seats_ok s" "t_plans s' = t_plans s"
    and "\<And>j. seat_count s' j = seat_count s j + (if j = k then d else 0)"
  shows "seats_off s' k d"
  using assms by (auto simp: seats_off_def seats_ok_def)

lemma bump_confirmed_seats:
  assumes "distinct (map pl_id (t_plans s))" "seats_off s k d" "bump_confirmed s k d = (s', Inr u)"
  shows "seats_ok s'"
proof (cases "plan_by_id s k")
  case None
  with assms(3) have "s' = s" "\<forall>p\<in>set (t_plans s). pl_id p \<noteq> k"
    by (auto simp: bump_confirmed_def find_None)
  have "pl_confirmed p = seat_count s (pl_id p)" "pl_confirmed p \<le> pl_capacity p"
    if "p \<in> set (t_plans s)" for p
    using assms(2) that \<open>\<forall>p\<in>set (t_plans s). pl_id p \<noteq> k\<close> by (auto simp: seats_off_def)
  with \<open>s' = s\<close> show ?thesis unfolding seats_ok_def by blast
next
  case (Some p)
  with assms(3) have s': "s' = s\<lparr>t_plans := upd (\<lambda>p. pl_id p = k)
      (\<lambda>p. p\<lparr>pl_confirmed := pl_confirmed p + d\<rparr>) (t_plans s)\<rparr>"
    and cap: "pl_confirmed p + d \<le> pl_capacity p"
    by (auto simp: bump_confirmed_def split: if_splits)
  have "q = p" if "q \<in> set (t_plans s)" "pl_id q = k" for q
    using key_inj[OF assms(1) that(1) find_key(1)[OF Some]] that find_key(2)[OF Some] by simp
  moreover have "seat_count s' j = seat_count s j" for j by (simp add: s' seat_count_def)
  moreover have "t_plans s' = map (\<lambda>p. if pl_id p = k
      then p\<lparr>pl_confirmed := pl_confirmed p + d\<rparr> else p) (t_plans s)" by (simp add: s' upd_def)
  ultimately show ?thesis using assms(2) cap by (auto simp: seats_off_def seats_ok_def)
qed

section \<open>Table frames of the seat operations\<close>

lemma enqueue_frame [simp]:
  "t_plans (enqueue s now ev k p) = t_plans s" "t_bookings (enqueue s now ev k p) = t_bookings s"
  "t_participants (enqueue s now ev k p) = t_participants s" "t_waitlist (enqueue s now ev k p) = t_waitlist s"
  "t_checkins (enqueue s now ev k p) = t_checkins s" "t_orders (enqueue s now ev k p) = t_orders s"
  "t_payments (enqueue s now ev k p) = t_payments s" "t_refunds (enqueue s now ev k p) = t_refunds s"
  "t_recon (enqueue s now ev k p) = t_recon s" "t_ledger (enqueue s now ev k p) = t_ledger s"
  "t_promos (enqueue s now ev k p) = t_promos s" "t_redis (enqueue s now ev k p) = t_redis s"
  by (simp_all add: enqueue_def)

lemma upsert_participant_frame [simp]:
  "t_plans (upsert_participant s now k u i) = t_plans s"
  "t_bookings (upsert_participant s now k u i) = t_bookings s"
  "t_waitlist (upsert_participant s now k u i) = t_waitlist s"
  "t_orders (upsert_participant s now k u i) = t_orders s"
  "t_payments (upsert_participant s now k u i) = t_payments s"
  "t_refunds (upsert_participant s now k u i) = t_refunds s"
  by (simp_all add: upsert_participant_def)

lemma accept_waitlist_frame [simp]:
  "t_plans (accept_waitlist s now k u) = t_plans s" "t_bookings (accept_waitlist s now k u) = t_bookings s"
  "t_participants (accept_waitlist s now k u) = t_participants s"
  "t_orders (accept_waitlist s now k u) = t_orders s" "t_payments (accept_waitlist s now k u) = t_payments s"
  "t_refunds (accept_waitlist s now k u) = t_refunds s"
  by (simp_all add: accept_waitlist_def)

lemma notify_host_frame [simp]:
  "t_plans (notify_host s now k u) = t_plans s" "t_bookings (notify_host s now k u) = t_bookings s"
  "t_participants (notify_host s now k u) = t_participants s" "t_waitlist (notify_host s now k u) = t_waitlist s"
  "t_outbox (notify_host s now k u) = t_outbox s" "t_orders (notify_host s now k u) = t_orders s"
  "t_payments (notify_host s now k u) = t_payments s" "t_refunds (notify_host s now k u) = t_refunds s"
  by (simp_all add: notify_host_def split: option.splits)

lemma bump_confirmed_frame:
  assumes "bump_confirmed s k d = (s', r)"
  shows "t_bookings s' = t_bookings s" "t_participants s' = t_participants s"
    "t_waitlist s' = t_waitlist s" "t_orders s' = t_orders s" "t_payments s' = t_payments s"
    "t_refunds s' = t_refunds s" "map pl_id (t_plans s') = map pl_id (t_plans s)"
  using assms by (auto simp: bump_confirmed_def map_upd split: option.splits if_splits)

lemma set_status_simps [simp]:
  "bk_id (set_status st now b) = bk_id b" "bk_plan (set_status st now b) = bk_plan b"
  "bk_user (set_status st now b) = bk_user b" "bk_status (set_status st now b) = st"
  "bk_price (set_status st now b) = bk_price b" "bk_expires (set_status st now b) = bk_expires b"
  by (simp_all add: set_status_def)

section \<open>Well-formedness\<close>

lemma wf_upsert_participant:
  assumes "wf_db s" shows "wf_db (upsert_participant s now k u i)"
proof -
  let ?key = "\<lambda>r. (pp_plan r, pp_user r)"
  have m: "map ?key (upd P (\<lambda>r. r\<lparr>pp_status := PartConfirmed, pp_booking := Some i, pp_joined := now,
     pp_checked_in := None\<rparr>) rs) = map ?key rs" for P rs
    by (rule map_upd) simp
  show ?thesis using assms by (auto simp: upsert_participant_def wf_db_def m)
qed

lemma wf_accept_waitlist: "wf_db s \<Longrightarrow> wf_db (accept_waitlist s now k u)"
  by (erule wf_db_cong) (auto simp: accept_waitlist_def intro!: map_upd)

lemma wf_enqueue: "wf_db s \<Longrightarrow> wf_db (enqueue s now ev k p)"
  by (erule wf_db_cong) simp_all

lemma wf_notify_host: "wf_db s \<Longrightarrow> wf_db (notify_host s now k u)"
  by (erule wf_db_cong) simp_all

lemma wf_bump_confirmed: "wf_db s \<Longrightarrow> bump_confirmed s k d = (s', r) \<Longrightarrow> wf_db s'"
  by (erule wf_db_cong) (simp_all add: bump_confirmed_frame)

lemma wf_upd_bookings:
  assumes "wf_db s" "\<And>r. P r \<Longrightarrow> bk_id (f r) = bk_id r"
  shows "wf_db (s\<lparr>t_bookings := upd P f (t_bookings s)\<rparr>)"
  using assms by (auto simp: wf_db_def map_upd)

lemma wf_make_offers: "wf_db s \<Longrightarrow> wf_db (make_offers s now tnow k n)"
  by (erule wf_db_cong)
    (auto simp: make_offers_tables map_upd intro!: arg_cong[where f = "map _"] outside_waitlist_eqD)

lemma wf_offer_freed_seats: "wf_db s \<Longrightarrow> wf_db (fst (offer_freed_seats s now tnow k))"
  by (auto simp: offer_freed_seats_def Let_def wf_make_offers split: option.splits)

lemma wf_upd_waitlist:
  assumes "wf_db s" "\<And>w. P w \<Longrightarrow> wl_id (f w) = wl_id w \<and> wl_plan (f w) = wl_plan w \<and> wl_user (f w) = wl_user w"
  shows "wf_db (s\<lparr>t_waitlist := upd P f (t_waitlist s)\<rparr>)"
  using assms by (auto simp: wf_db_def map_upd)

lemma wf_offer_for_plan: "wf_db s \<Longrightarrow> wf_db (fst (offer_for_plan now tnow k s))"
  by (auto simp: offer_for_plan_def wf_offer_freed_seats split: option.splits intro: in_tx_keeps)

interpretation offers_wf: keeps_invariant "offer_for_plan now tnow" wf_db
  by unfold_locales (rule wf_offer_for_plan)

lemma wf_leave_waitlist: "wf_db s \<Longrightarrow> wf_db (fst (leave_waitlist s now tnow k u))"
  by (auto simp: leave_waitlist_def split: option.splits
      intro!: in_tx_keeps[where I = wf_db] wf_offer_freed_seats wf_upd_waitlist)

lemma wf_sweep_waitlist: "wf_db s \<Longrightarrow> wf_db (fst (sweep_waitlist s now tnow))"
  by (auto simp: sweep_waitlist_def Let_def expire_offer_def
      intro!: and_then_keeps[where I = wf_db] offers_wf.for_each_keeps wf_upd_waitlist)

lemma wf_expire_waitlist: "wf_db s \<Longrightarrow> wf_db (expire_waitlist_for_plan s now k)"
  by (auto simp: expire_waitlist_for_plan_def intro!: wf_upd_waitlist)

lemma wf_join_waitlist:
  assumes "wf_db s" "nid \<notin> wl_id ` set (t_waitlist s)"
  shows "wf_db (fst (join_waitlist s now tnow nid k u))"
proof -
  have "wf_db (upsert_waitlist s now nid k u)"
  proof (cases "\<exists>w\<in>set (t_waitlist s). wl_plan w = k \<and> wl_user w = u")
    case True
    with assms(1) show ?thesis
      by (auto simp: upsert_waitlist_def rejoin_row_def intro!: wf_upd_waitlist)
  next
    case False
    with assms show ?thesis by (auto simp: upsert_waitlist_def wf_db_def)
  qed
  with assms show ?thesis
    by (auto simp: join_waitlist_def Let_def split: option.splits)
qed

section \<open>Every operation keeps the seat accounts\<close>

lemma bookings_inv_cong:
  assumes "bookings_inv s" "wf_db s'" "t_plans s' = t_plans s" "t_bookings s' = t_bookings s"
  shows "bookings_inv s'"
  using assms seats_ok_cong[of s' s] by (simp add: bookings_inv_def)

lemma bookings_inv_waitlist:
  assumes "bookings_inv s" "wf_db s'" "outside_waitlist s' = outside_waitlist s"
  shows "bookings_inv s'"
  using assms outside_waitlist_eqD[OF assms(3)] by (intro bookings_inv_cong[OF assms(1)]) auto

lemma inv_wf: "bookings_inv s \<Longrightarrow> wf_db s" and inv_seats: "bookings_inv s \<Longrightarrow> seats_ok s"
  by (simp_all add: bookings_inv_def)

lemma in_tx_inv:
  assumes "I s" "\<And>s' a. r = (s', Inr a) \<Longrightarrow> I s'"
  shows "I (fst (in_tx s r))"
  using assms by (cases r) (auto simp: in_tx_def split: sum.splits)

text \<open>
  \<open>seatConfirmedBooking\<close>, the shared step of booking a free seat and of confirming a
  paid one: if one booking of the plan has just become seated, it restores the
  accounts or fails the transaction.
\<close>

lemma seat_confirmed_booking_inv:
  assumes "wf_db s" "seats_off s plan 1"
    and "seat_confirmed_booking s now bid plan user = (s', Inr u)"
  shows "bookings_inv s'"
proof -
  obtain s1 where s1: "bump_confirmed (upsert_participant s now plan user bid) plan 1 = (s1, Inr ())"
    and s': "s' = enqueue (accept_waitlist s1 now plan user) now ''BOOKING_CONFIRMED'' bid
                  (BookingPayload bid plan user)"
    using assms(3) by (auto simp: seat_confirmed_booking_def and_then_eq_Inr)
  have wf: "wf_db (upsert_participant s now plan user bid)" by (rule wf_upsert_participant) fact
  have "seats_off (upsert_participant s now plan user bid) plan 1"
    using assms(2) by (rule seats_off_cong[THEN iffD1, rotated 2]) simp_all
  then have "seats_ok s1" by (rule bump_confirmed_seats[OF wf_dbD(1)[OF wf] _ s1])
  then have "seats_ok s'" by (rule seats_ok_cong[THEN iffD1, rotated 2]) (simp_all add: s')
  moreover have "wf_db s'" unfolding s'
    by (intro wf_enqueue wf_accept_waitlist wf_bump_confirmed[OF wf s1])
  ultimately show ?thesis by (simp add: bookings_inv_def)
qed

lemma notify_host_inv: "bookings_inv s \<Longrightarrow> bookings_inv (notify_host s now k u)"
  by (rule bookings_inv_cong) (simp_all add: wf_notify_host inv_wf)

text \<open>Updating the one booking with a given id: how the seat counts move.\<close>

lemma seat_count_upd:
  assumes "wf_db s" "b \<in> set (t_bookings s)" "bk_id b = bid" "bk_plan (f b) = bk_plan b"
  shows "seat_count (s\<lparr>t_bookings := upd (\<lambda>r. bk_id r = bid) f (t_bookings s)\<rparr>) j
       = seat_count s j + (if j = bk_plan b
           then (if seated (bk_status (f b)) then 1 else 0) - (if seated (bk_status b) then 1 else 0)
           else 0)"
  using cnt_upd_key[OF wf_dbD(2)[OF assms(1)] assms(2,3), of "\<lambda>b. bk_plan b = j \<and> seated (bk_status b)" f] assms(4)
  by (auto simp: seat_count_def)

lemma booking_by_idD:
  assumes "booking_by_id s bid = Some b" shows "b \<in> set (t_bookings s)" "bk_id b = bid"
  using find_key[OF assms] by auto

lemma plan_by_idD:
  assumes "plan_by_id s k = Some p" shows "p \<in> set (t_plans s)" "pl_id p = k"
  using find_key[OF assms] by auto

text \<open>Changes of bookings that move nobody in or out of a seat.\<close>

lemma seats_ok_unseated:
  assumes "seats_ok s" "\<And>r. r \<in> set (t_bookings s) \<Longrightarrow> P r \<Longrightarrow>
      bk_plan (f r) = bk_plan r \<and> seated (bk_status (f r)) = seated (bk_status r)"
  shows "seats_ok (s\<lparr>t_bookings := upd P f (t_bookings s)\<rparr>)"
proof -
  have "seat_count (s\<lparr>t_bookings := upd P f (t_bookings s)\<rparr>) j = seat_count s j" for j
    using assms(2) by (auto simp: seat_count_def intro!: cnt_upd_same)
  then show ?thesis by (intro seats_ok_same[OF assms(1)]) simp_all
qed

lemma insert_booking_Inr:
  "insert_booking s r = (s', Inr r') \<longleftrightarrow>
     \<not> idem_taken s (coalesce (bk_idem r)) \<and> s' = s\<lparr>t_bookings := t_bookings s @ [r]\<rparr> \<and> r' = r"
  by (auto simp: insert_booking_def)

lemma wf_insert_booking:
  assumes "wf_db s" "bk_id r \<notin> bk_id ` set (t_bookings s)"
  shows "wf_db (s\<lparr>t_bookings := t_bookings s @ [r]\<rparr>)"
  using assms by (simp add: wf_db_def)

lemma new_booking_simps [simp]:
  "bk_id (new_booking now i p u m st h) = i" "bk_plan (new_booking now i p u m st h) = pl_id p"
  "bk_user (new_booking now i p u m st h) = u" "bk_status (new_booking now i p u m st h) = st"
  "bk_price (new_booking now i p u m st h) = pl_price p" "bk_currency (new_booking now i p u m st h) = pl_currency p"
  "bk_idem (new_booking now i p u m st h) = nullif m" "bk_expires (new_booking now i p u m st h) = h"
  by (simp_all add: new_booking_def)

text \<open>What the two branches of \<open>Create\<close> write, when they succeed.\<close>

lemma hold_seat_cases:
  assumes "hold_seat s now tnow new_id p user idem = (s', Inr b)"
  obtains r where "find (\<lambda>b. own_pending (pl_id p) user b \<and> later (bk_expires b) now) (t_bookings s) = Some r"
      "s' = s" "b = scan_booking r"
  | r where "find (\<lambda>b. own_pending (pl_id p) user b \<and> later (bk_expires b) now) (t_bookings s) = None"
      "r = new_booking now new_id p user idem PaymentPending (Some (tnow + payment_hold))"
      "s' = s\<lparr>t_bookings := upd (own_pending (pl_id p) user) (set_status Cancelled now) (t_bookings s) @ [r]\<rparr>"
      "b = (scan_booking r)\<lparr>b_idem := idem\<rparr>"
  using assms by (auto simp: hold_seat_def and_then_eq_Inr insert_booking_Inr split: option.splits)

lemma book_free_seat_cases:
  assumes "book_free_seat s now new_id p user idem = (s', Inr b)"
  obtains r s2 where "r = new_booking now new_id p user idem Confirmed None"
      "seat_confirmed_booking (s\<lparr>t_bookings := t_bookings s @ [r]\<rparr>) now new_id (pl_id p) user = (s2, Inr ())"
      "s' = notify_host s2 now (pl_id p) user" "b = (scan_booking r)\<lparr>b_idem := idem\<rparr>"
  using assms by (auto simp: book_free_seat_def and_then_eq_Inr insert_booking_Inr)

lemma hold_seat_inv:
  assumes inv: "bookings_inv s" and fresh: "new_id \<notin> bk_id ` set (t_bookings s)"
    and "hold_seat s now tnow new_id p user idem = (s', Inr b)"
  shows "bookings_inv s'"
  using assms(3)
proof (cases rule: hold_seat_cases)
  case (2 r)
  let ?s1 = "s\<lparr>t_bookings := upd (own_pending (pl_id p) user) (set_status Cancelled now) (t_bookings s)\<rparr>"
  have s': "s' = ?s1\<lparr>t_bookings := t_bookings ?s1 @ [r]\<rparr>" using 2 by simp
  have "seats_ok ?s1" by (intro seats_ok_unseated inv_seats inv) (auto simp: own_pending_def)
  then have "seats_ok s'" by (rule seats_ok_same) (simp_all add: s' seat_count_def 2)
  moreover have "wf_db ?s1" by (intro wf_upd_bookings inv_wf inv) simp
  moreover have "new_id \<notin> bk_id ` set (t_bookings ?s1)" using fresh by (auto simp: set_upd)
  ultimately show ?thesis using wf_insert_booking[of ?s1 r] 2(2) by (simp add: bookings_inv_def s')
qed (use inv in simp)

lemma book_free_seat_inv:
  assumes inv: "bookings_inv s" and fresh: "new_id \<notin> bk_id ` set (t_bookings s)"
    and "book_free_seat s now new_id p user idem = (s', Inr b)"
  shows "bookings_inv s'"
  using assms(3)
proof (cases rule: book_free_seat_cases)
  case (1 r s2)
  have "wf_db (s\<lparr>t_bookings := t_bookings s @ [r]\<rparr>)"
    using fresh 1 by (intro wf_insert_booking inv_wf inv) auto
  moreover have "seats_off (s\<lparr>t_bookings := t_bookings s @ [r]\<rparr>) (pl_id p) 1"
    using 1 by (intro seats_off_bookings[OF inv_seats[OF inv]]) (auto simp: seat_count_def)
  ultimately have "bookings_inv s2" using 1(2) by (rule seat_confirmed_booking_inv)
  then show ?thesis unfolding 1 by (rule notify_host_inv)
qed

lemma create_inv:
  assumes "bookings_inv s" "new_id \<notin> bk_id ` set (t_bookings s)"
  shows "bookings_inv (fst (create s now tnow new_id plan user idem))"
  using assms hold_seat_inv[OF assms] book_free_seat_inv[OF assms]
  by (auto simp: create_def split: option.splits intro!: in_tx_inv[where I = bookings_inv])

lemma confirm_paid_inv:
  assumes inv: "bookings_inv s"
  shows "bookings_inv (fst (confirm_paid s now bid))"
proof (cases "booking_by_id s bid")
  case None
  with inv show ?thesis by (simp add: confirm_paid_def)
next
  case (Some b)
  note wf = inv_wf[OF inv] and ok = inv_seats[OF inv] and b = booking_by_idD[OF Some]
  let ?f = "\<lambda>r. r\<lparr>bk_status := Confirmed, bk_expires := None, bk_updated := now\<rparr>"
  let ?s1 = "s\<lparr>t_bookings := upd (\<lambda>r. bk_id r = bid) ?f (t_bookings s)\<rparr>"
  have main: "bookings_inv s'" if "bk_status b = PaymentPending \<or> bk_status b = Cancelled"
    and h: "seat_confirmed_booking ?s1 now bid (bk_plan b) (bk_user b) = (s2, Inr u)"
    and s': "s' = notify_host s2 now (bk_plan b) (bk_user b)" for s' s2 u
  proof -
    have "wf_db ?s1" by (intro wf_upd_bookings wf) simp
    moreover have "seats_off ?s1 (bk_plan b) 1"
      using that(1) seat_count_upd[OF wf b, of ?f]
      by (intro seats_off_bookings[OF ok]) auto
    ultimately have "bookings_inv s2" using h by (rule seat_confirmed_booking_inv)
    then show ?thesis unfolding s' by (rule notify_host_inv)
  qed
  show ?thesis
    using inv Some main
    by (auto simp: confirm_paid_def and_then_eq_Inr split: option.splits intro!: in_tx_inv[where I = bookings_inv])
qed

lemma expire_pending_inv:
  assumes "bookings_inv s" shows "bookings_inv (fst (expire_pending s now tnow))"
  using assms
  by (auto simp: bookings_inv_def expire_pending_def pending_expired_def
      intro!: wf_upd_bookings seats_ok_unseated)

lemma check_in_inv:
  assumes inv: "bookings_inv s" shows "bookings_inv (fst (check_in s now bid by_user))"
proof (cases "\<exists>b. booking_by_id s bid = Some b \<and> bk_status b = Confirmed")
  case False
  with inv show ?thesis by (auto simp: check_in_def split: option.splits)
next
  case True
  then obtain b where b0: "booking_by_id s bid = Some b" and st: "bk_status b = Confirmed" by blast
  note wf = inv_wf[OF inv] and ok = inv_seats[OF inv] and b = booking_by_idD[OF b0]
  let ?f = "\<lambda>r. r\<lparr>bk_status := Attended, bk_checked_in := Some now, bk_updated := now\<rparr>"
  let ?s' = "fst (check_in s now bid by_user)"
  have bookings: "t_bookings ?s' = upd (\<lambda>r. bk_id r = bid) ?f (t_bookings s)" "t_plans ?s' = t_plans s"
    using b0 st by (simp_all add: check_in_def Let_def)
  have "wf_db ?s'"
    by (rule wf_db_cong[OF wf]) (use b0 st in \<open>simp_all add: check_in_def Let_def map_upd\<close>)
  moreover have "seat_count ?s' j = seat_count s j" for j
    using seat_count_upd[OF wf b, of ?f j] st bookings by (simp add: seat_count_def)
  then have "seats_ok ?s'" using bookings by (intro seats_ok_same[OF ok]) simp_all
  ultimately show ?thesis by (simp add: bookings_inv_def)
qed

text \<open>Cancelling: the seat of a confirmed booking is given back and offered on; a hold just ends.\<close>

lemma bump_confirmed_outside:
  assumes "bump_confirmed s k d = (s', r)"
  shows "outside_waitlist (s'\<lparr>t_plans := []\<rparr>) = outside_waitlist (s\<lparr>t_plans := []\<rparr>)"
  using assms by (auto simp: bump_confirmed_def outside_waitlist_def split: option.splits if_splits)

lemma wf_cancel_participants:
  assumes "wf_db s"
  shows "wf_db (s\<lparr>t_participants := upd P (\<lambda>r. r\<lparr>pp_status := PartCancelled\<rparr>) (t_participants s)\<rparr>)"
  by (rule wf_db_cong[OF assms]) (simp_all add: map_upd)

lemma free_seat_cases:
  assumes "free_seat s now tnow b reason by_host = (s', Inr u)"
  obtains p s1 s2 where "plan_by_id s (bk_plan b) = Some p"
    "bump_confirmed s (bk_plan b) (- 1) = (s1, Inr ())"
    "offer_freed_seats (s1\<lparr>t_participants := upd (\<lambda>r. pp_booking r = Some (bk_id b))
        (\<lambda>r. r\<lparr>pp_status := PartCancelled\<rparr>) (t_participants s1)\<rparr>) now tnow (bk_plan b) = (s2, Inr ())"
    "s' = enqueue s2 now ''BOOKING_CANCELLED'' (bk_id b) (CancelPayload (bk_id b) (bk_plan b) (bk_user b)
        reason (Some (refund_percent (pl_starts p) tnow by_host)))"
  using assms by (auto simp: free_seat_def and_then_eq_Inr split: option.splits)

lemma free_seat_inv:
  assumes "wf_db s" "seats_off s (bk_plan b) (- 1)"
    and "free_seat s now tnow b reason by_host = (s', Inr u)"
  shows "bookings_inv s'"
  using assms(3)
proof (cases rule: free_seat_cases)
  case (1 p s1 s2)
  let ?s1 = "s1\<lparr>t_participants := upd (\<lambda>r. pp_booking r = Some (bk_id b))
        (\<lambda>r. r\<lparr>pp_status := PartCancelled\<rparr>) (t_participants s1)\<rparr>"
  have "seats_ok s1" by (rule bump_confirmed_seats[OF wf_dbD(1)[OF assms(1)] assms(2) 1(2)])
  then have "seats_ok ?s1" by (rule seats_ok_cong[THEN iffD1, rotated 2]) simp_all
  then have inv1: "bookings_inv ?s1"
    using wf_cancel_participants[OF wf_bump_confirmed[OF assms(1) 1(2)]] by (simp add: bookings_inv_def)
  have "outside_waitlist (fst (offer_freed_seats ?s1 now tnow (bk_plan b))) = outside_waitlist ?s1"
    by (rule offer_freed_seats_frame)
  then have "bookings_inv s2"
    using bookings_inv_waitlist[OF inv1 wf_offer_freed_seats[OF inv_wf[OF inv1]]] 1(3)
    by (metis fst_conv)
  then show ?thesis unfolding 1(4) by (rule bookings_inv_cong) (simp_all add: wf_enqueue inv_wf \<open>bookings_inv s2\<close>)
qed

lemma cancel_inv:
  assumes inv: "bookings_inv s"
  shows "bookings_inv (fst (cancel s now tnow bid reason by_host))"
proof (cases "booking_by_id s bid")
  case None
  with inv show ?thesis by (simp add: cancel_def)
next
  case (Some b)
  note wf = inv_wf[OF inv] and ok = inv_seats[OF inv] and b = booking_by_idD[OF Some]
  let ?s1 = "s\<lparr>t_bookings := upd (\<lambda>r. bk_id r = bid) (set_status Cancelled now) (t_bookings s)\<rparr>"
  have wf1: "wf_db ?s1" by (intro wf_upd_bookings wf) simp
  have count: "seat_count ?s1 j = seat_count s j - (if j = bk_plan b \<and> seated (bk_status b) then 1 else 0)" for j
    using seat_count_upd[OF wf b, of "set_status Cancelled now" j] by simp
  show ?thesis
  proof (cases "bk_status b = Confirmed")
    case True
    have off: "seats_off ?s1 (bk_plan b) (- 1)"
      using count True by (intro seats_off_bookings[OF ok]) auto
    show ?thesis
      using inv True Some free_seat_inv[OF wf1, of "set_status Cancelled now b"] off
      by (auto simp: cancel_def Let_def and_then_eq_Inr intro!: in_tx_inv[where I = bookings_inv])
  next
    case False
    have "bookings_inv ?s1" if "bk_status b = PaymentPending"
      using wf1 count that by (auto simp: bookings_inv_def intro!: seats_ok_same[OF ok])
    with False inv Some show ?thesis by (simp add: cancel_def Let_def)
  qed
qed

text \<open>The waitlist operations.\<close>

lemma waitlist_ops_inv:
  assumes "bookings_inv s"
  shows "bookings_inv (fst (leave_waitlist s now tnow k u))"
    and "bookings_inv (fst (sweep_waitlist s now tnow))"
    and "bookings_inv (expire_waitlist_for_plan s now k)"
    and "nid \<notin> wl_id ` set (t_waitlist s) \<Longrightarrow> bookings_inv (fst (join_waitlist s now tnow nid k u))"
  using inv_wf[OF assms]
  by (auto intro!: bookings_inv_waitlist[OF assms] wf_leave_waitlist wf_sweep_waitlist
      wf_expire_waitlist wf_join_waitlist)


end
