(* ===== verification/Fee.thy ===== *)
theory Fee
  imports Prelude
begin

text \<open>
  The service fee (\<^verbatim>\<open>internal/bookings/service.go\<close>): the code computes
  \<^verbatim>\<open>int64(float64(price) * 0.05)\<close>, capped at 4900 paise. The IEEE double arithmetic
  is written out on integers: \<open>fl53\<close> rounds to 53 significant bits, ties to even,
  which is what converting an \<open>int64\<close> and multiplying two doubles do in the range
  of an \<open>int64\<close> (no overflow, no subnormals). The double nearest to 0.05 is
  \<open>7205759403792794 / 2 ^ 57\<close>.
\<close>

section \<open>Rounding to 53 bits\<close>

fun bits :: "nat \<Rightarrow> nat" where
  "bits n = (if n = 0 then 0 else Suc (bits (n div 2)))"

declare bits.simps [simp del]

definition round_half_even :: "int \<Rightarrow> int \<Rightarrow> int" where
  "round_half_even a d =
     (let q = a div d; r = a mod d in
      if 2 * r < d \<or> (2 * r = d \<and> even q) then q else q + 1)"

definition fl53 :: "int \<Rightarrow> int" where
  "fl53 x =
     (let m = \<bar>x\<bar>; b = bits (nat m) in
      if b \<le> 53 then x else sgn x * (round_half_even m (2 ^ (b - 53)) * 2 ^ (b - 53)))"

section \<open>The fee\<close>

definition service_fee_rate_mantissa :: int where
  "service_fee_rate_mantissa = 7205759403792794"

definition max_service_fee_minor :: int where
  "max_service_fee_minor = 4900"

text \<open>\<open>int64(..)\<close> of a double truncates towards zero (\<open>sdiv\<close>).\<close>

definition service_fee :: "int \<Rightarrow> int" where
  "service_fee price =
     (let fee = fl53 (fl53 price * service_fee_rate_mantissa) sdiv (2 ^ 57)
      in if fee > max_service_fee_minor then max_service_fee_minor else fee)"

section \<open>Bounds of the rounding\<close>

lemma bits_bounds:
  assumes "0 < n"
  shows "2 ^ (bits n - 1) \<le> n \<and> n < 2 ^ bits n \<and> 0 < bits n"
  using assms
proof (induction n rule: bits.induct)
  case (1 n)
  show ?case
  proof (cases "n div 2 = 0")
    case True
    with 1 have "n = 1" by auto
    then show ?thesis by (simp add: bits.simps)
  next
    case False
    with 1 have IH: "2 ^ (bits (n div 2) - 1) \<le> n div 2" "n div 2 < 2 ^ bits (n div 2)"
      "0 < bits (n div 2)" by auto
    obtain k where k: "bits (n div 2) = Suc k" using IH(3) gr0_conv_Suc by blast
    have "bits n = Suc (Suc k)" using 1 k by (simp add: bits.simps[of n])
    with IH k show ?thesis by auto
  qed
qed

lemma bits_le: "n < 2 ^ m \<Longrightarrow> bits n \<le> m"
proof (cases "n = 0")
  case False
  assume "n < 2 ^ m"
  with bits_bounds[of n] False have "2 ^ (bits n - 1) < (2::nat) ^ m" by linarith
  then have "bits n - 1 < m" by (rule power_less_imp_less_exp[rotated]) simp
  then show ?thesis by simp
qed (simp add: bits.simps)

text \<open>Rounding lands between the two neighbouring multiples of the last place \<open>d\<close>.\<close>

lemma fl53_bracket:
  assumes "0 < x" "x < 2 ^ (53 + m)"
  obtains d where "d dvd 2 ^ m" "0 < d" "d = 1 \<or> d * 2 ^ 52 \<le> x"
    "x div d * d \<le> fl53 x" "fl53 x \<le> x div d * d + d" "d = 1 \<longrightarrow> fl53 x = x"
proof (cases "bits (nat x) \<le> 53")
  case True
  then show ?thesis using assms by (intro that[of 1]) (simp_all add: fl53_def Let_def)
next
  case False
  let ?b = "bits (nat x)"
  let ?d = "2 ^ (?b - 53) :: int"
  have "nat x < 2 ^ (53 + m)" using assms by (simp add: nat_less_iff)
  then have b: "?b \<le> 53 + m" by (rule bits_le)
  have "2 ^ (?b - 1) \<le> nat x" using bits_bounds[of "nat x"] assms by simp
  then have "2 ^ (?b - 1) \<le> x" using assms by (simp add: le_nat_iff)
  moreover have "?b - 1 = (?b - 53) + 52" using False by simp
  ultimately have le: "?d * 2 ^ 52 \<le> x" by (metis power_add)
  have dv: "?d dvd 2 ^ m" using b by (simp add: le_imp_power_dvd)
  have fl: "fl53 x = round_half_even x ?d * ?d"
    using False assms by (simp add: fl53_def Let_def)
  have lo: "x div ?d * ?d \<le> fl53 x" and hi: "fl53 x \<le> x div ?d * ?d + ?d"
    unfolding fl by (auto simp: round_half_even_def Let_def distrib_right)
  have gt: "1 < ?d" using False by (intro one_less_power) auto
  show ?thesis
    by (rule that[OF dv _ disjI2[OF le] lo hi]) (use gt in auto)
qed

lemma fl53_ge_multiple:
  assumes "0 < x" "x < 2 ^ (53 + m)" "2 ^ m dvd y" "y \<le> x"
  shows "y \<le> fl53 x"
proof -
  obtain d where d: "d dvd 2 ^ m" "0 < d" "x div d * d \<le> fl53 x"
    using fl53_bracket[OF assms(1,2)] by metis
  from d(1) assms(3) have "d dvd y" by (rule dvd_trans)
  then have "y = y div d * d" by simp
  also have "\<dots> \<le> x div d * d" using d(2) assms(4) by (simp add: zdiv_mono1)
  finally show ?thesis using d(3) by simp
qed

lemma fl53_near:
  assumes "0 < x" "x < 2 ^ (53 + m)"
  shows "x * (2 ^ 52 - 1) \<le> fl53 x * 2 ^ 52" "fl53 x \<le> x + 2 ^ m"
proof -
  obtain d where d: "d dvd 2 ^ m" "0 < d" "d = 1 \<or> d * 2 ^ 52 \<le> x"
      "x div d * d \<le> fl53 x" "fl53 x \<le> x div d * d + d" "d = 1 \<longrightarrow> fl53 x = x"
    using fl53_bracket[OF assms] by metis
  have md: "x div d * d \<le> x" "x < x div d * d + d"
    using d(2) by (simp_all add: minus_mod_eq_div_mult[symmetric] pos_mod_bound pos_mod_sign)
  have "d \<le> 2 ^ m" using d(1) by (simp add: zdvd_imp_le)
  with md d(5) show "fl53 x \<le> x + 2 ^ m" by linarith
  show "x * (2 ^ 52 - 1) \<le> fl53 x * 2 ^ 52"
  proof (cases "d = 1")
    case True
    with d(6) assms(1) show ?thesis by simp
  next
    case False
    with d(3) have "d * 2 ^ 52 \<le> x" by simp
    moreover have "x - d \<le> fl53 x" using md(2) d(4) by linarith
    ultimately show ?thesis by (simp add: algebra_simps)
  qed
qed

section \<open>The fee is five percent, rounded down, at most 49 rupees\<close>

lemma fl53_exact: "0 \<le> x \<Longrightarrow> x < 2 ^ 53 \<Longrightarrow> fl53 x = x"
proof -
  assume "0 \<le> x" "x < 2 ^ 53"
  then have "nat x < 2 ^ 53" by (simp add: nat_less_iff)
  then have "bits (nat x) \<le> 53" by (rule bits_le)
  with \<open>0 \<le> x\<close> show ?thesis by (simp add: fl53_def Let_def)
qed

lemma fee_small:
  assumes "0 \<le> p" "p < 98020"
  shows "fl53 (fl53 p * service_fee_rate_mantissa) div 2 ^ 57 = p div 20"
proof (cases "p = 0")
  case True
  then show ?thesis by (simp add: fl53_def bits.simps Let_def)
next
  case False
  let ?x = "p * service_fee_rate_mantissa"
  let ?k = "p div 20"
  have p: "fl53 p = p" using assms by (intro fl53_exact) simp_all
  have x: "0 < ?x" "?x < 2 ^ (53 + 17)" using assms False
    by (simp_all add: service_fee_rate_mantissa_def)
  have k: "20 * ?k \<le> p" "p \<le> 20 * ?k + 19" "0 \<le> ?k" "?k < 4901" using assms by linarith+
  have "?k * 2 ^ 57 \<le> ?x" using k by (simp add: service_fee_rate_mantissa_def)
  then have "?k * 2 ^ 57 \<le> fl53 ?x"
    using x by (intro fl53_ge_multiple[where m = 17]) (simp_all add: dvd_mult)
  moreover have "fl53 ?x < (?k + 1) * 2 ^ 57"
    using fl53_near(2)[OF x] k by (simp add: service_fee_rate_mantissa_def)
  ultimately have "fl53 ?x div 2 ^ 57 = ?k"
    by (intro div_pos_pos_trivial int_div_pos_eq[where r = "fl53 ?x - ?k * 2 ^ 57"]) simp_all
  with p show ?thesis by simp
qed

lemma fee_large:
  assumes "98020 \<le> p" "p < 2 ^ 63"
  shows "4900 \<le> fl53 (fl53 p * service_fee_rate_mantissa) div 2 ^ 57"
proof -
  let ?f = "fl53 p"
  let ?x = "?f * service_fee_rate_mantissa"
  have f: "p * (2 ^ 52 - 1) \<le> ?f * 2 ^ 52" "?f \<le> p + 2 ^ 10"
    using fl53_near[of p 10] assms by simp_all
  from f(1) assms(1) have "98019 \<le> ?f" by simp
  moreover have "?f < 2 ^ 64" using f(2) assms(2) by simp
  ultimately have x: "0 < ?x" "?x < 2 ^ (53 + 64)" "98019 * service_fee_rate_mantissa \<le> ?x"
    by (simp_all add: service_fee_rate_mantissa_def)
  have "?x * (2 ^ 52 - 1) \<le> fl53 ?x * 2 ^ 52" using fl53_near(1)[OF x(1,2)] .
  with x(3) have "4900 * 2 ^ 57 \<le> fl53 ?x" by (simp add: service_fee_rate_mantissa_def)
  then show ?thesis by (simp add: int_div_le_self zdiv_mono1[of "4900 * 2 ^ 57" "fl53 ?x" "2 ^ 57", simplified])
qed

lemma fee_pos_arg: "0 \<le> p \<Longrightarrow> p < 2 ^ 63 \<Longrightarrow> 0 \<le> fl53 (fl53 p * service_fee_rate_mantissa)"
proof (cases "p < 98020")
  case True
  assume "0 \<le> p"
  with True have "fl53 (fl53 p * service_fee_rate_mantissa) div 2 ^ 57 = p div 20" using \<open>0 \<le> p\<close> by (intro fee_small)
  with \<open>0 \<le> p\<close> show ?thesis using pos_imp_zdiv_nonneg_iff[of "2 ^ 57 :: int"] by (metis
        pos_imp_zdiv_nonneg_iff zero_less_numeral zero_less_power)
next
  case False
  assume "p < 2 ^ 63"
  with False have "4900 \<le> fl53 (fl53 p * service_fee_rate_mantissa) div 2 ^ 57"
    by (intro fee_large) simp_all
  then show ?thesis
    by (metis (no_types, opaque_lifting) order_trans pos_imp_zdiv_nonneg_iff zero_le_numeral
        zero_less_numeral zero_less_power)
qed

lemma service_fee_is:
  assumes "0 \<le> price" "price < 2 ^ 63"
  shows "service_fee price = min (price div 20) 4900"
proof -
  let ?q = "fl53 (fl53 price * service_fee_rate_mantissa)"
  have q: "?q sdiv 144115188075855872 = ?q div 144115188075855872"
    using fee_pos_arg[OF assms] by (intro sdiv_nonneg) simp_all
  show ?thesis
  proof (cases "price < 98020")
    case True
    then show ?thesis using fee_small[of price] assms
      by (simp add: service_fee_def Let_def q max_service_fee_minor_def min_def)
  next
    case False
    then have "4900 \<le> ?q div 2 ^ 57" "4900 \<le> price div 20"
      using fee_large[of price] assms by simp_all
    then show ?thesis by (simp add: service_fee_def Let_def q max_service_fee_minor_def min_def)
  qed
qed



lemma service_fee_nonneg: "0 \<le> price \<Longrightarrow> price < 2 ^ 63 \<Longrightarrow> 0 \<le> service_fee price"
  by (cases "price < 98020") (auto simp: service_fee_def Let_def max_service_fee_minor_def
      fee_pos_arg sdiv_nonneg pos_imp_zdiv_nonneg_iff)

end
