(* ===== verification/Pass.thy ===== *)
theory Pass
  imports Text
begin

text \<open>
  Digital passes (\<^verbatim>\<open>pkg/security/pass.go\<close>): a signed text
  \<^verbatim>\<open>v1.<booking>.<expiry>.<mac>\<close>. The MAC (HMAC-SHA256 in unpadded base64url, from
  Go's crypto and encoding packages) is the parameter \<open>mac secret body\<close>; what the
  code relies on, that its alphabet has no dot, is the hypothesis \<open>dot_free\<close>.
\<close>

type_synonym mac_fun = "string \<Rightarrow> string \<Rightarrow> string"

definition dot_free :: "mac_fun \<Rightarrow> bool" where
  "dot_free mac \<longleftrightarrow> (\<forall>k b. CHR ''.'' \<notin> set (mac k b))"

text \<open>\<open>t.Unix()\<close>: whole seconds, rounded down.\<close>

definition unix :: "int \<Rightarrow> int" where "unix t = t div second"

definition pass_body :: "string \<Rightarrow> int \<Rightarrow> string" where
  "pass_body bid expiry = ''v1.'' @ bid @ ''.'' @ format_int (unix expiry)"

definition sign_pass :: "mac_fun \<Rightarrow> string \<Rightarrow> string \<Rightarrow> int \<Rightarrow> string" where
  "sign_pass mac secret bid expiry =
     pass_body bid expiry @ ''.'' @ mac secret (pass_body bid expiry)"

definition verify_pass :: "mac_fun \<Rightarrow> string \<Rightarrow> string \<Rightarrow> int \<Rightarrow> go_error + string" where
  "verify_pass mac secret pass now =
    (case split_last CHR ''.'' pass of
       None \<Rightarrow> Inl Security_InvalidPass
     | Some (body, sig) \<Rightarrow>
         if mac secret body \<noteq> sig then Inl Security_InvalidPass
         else (case split_on CHR ''.'' body of
             [v, bid, t] \<Rightarrow>
               if v \<noteq> ''v1'' \<or> bid = '''' then Inl Security_InvalidPass
               else (case parse_int t of
                   None \<Rightarrow> Inl Security_InvalidPass
                 | Some e \<Rightarrow> if e < unix now then Inl Security_ExpiredPass else Inr bid)
           | _ \<Rightarrow> Inl Security_InvalidPass))"

lemma split_pass_body:
  assumes "CHR ''.'' \<notin> set bid"
  shows "split_on CHR ''.'' (pass_body bid t) = [''v1'', bid, format_int (unix t)]"
proof -
  have "split_on CHR ''.'' (bid @ CHR ''.'' # format_int (unix t)) = [bid, format_int (unix t)]"
    using assms format_int_no_dot by (simp add: split_on_append split_on_no_sep)
  then show ?thesis by (simp add: pass_body_def)
qed

lemma verify_sign:
  assumes "dot_free mac" "CHR ''.'' \<notin> set bid" "bid \<noteq> ''''"
    and "- (2 ^ 63) \<le> unix t" "unix t < 2 ^ 63"
  shows "verify_pass mac secret (sign_pass mac secret bid t) now
       = (if unix t < unix now then Inl Security_ExpiredPass else Inr bid)"
proof -
  let ?body = "pass_body bid t"
  have "split_last CHR ''.'' (?body @ CHR ''.'' # mac secret ?body) = Some (?body, mac secret ?body)"
    using assms(1) by (intro split_last_append) (simp add: dot_free_def)
  then show ?thesis
    using assms by (simp add: verify_pass_def sign_pass_def split_pass_body parse_format_int)
qed

text \<open>
  Soundness, for every MAC: what is accepted carries the secret's MAC of a body that
  names the returned booking and an expiry that is not over.
\<close>

lemma verify_pass_sound:
  assumes "verify_pass mac secret pass now = Inr bid"
  obtains t e where "pass = ''v1.'' @ bid @ ''.'' @ t @ ''.'' @ mac secret (''v1.'' @ bid @ ''.'' @ t)"
    "parse_int t = Some e" "unix now \<le> e" "bid \<noteq> ''''" "CHR ''.'' \<notin> set bid"
proof -
  obtain body v b t e where body: "split_last CHR ''.'' pass = Some (body, mac secret body)"
    "split_on CHR ''.'' body = [v, b, t]" "v = ''v1''" "b = bid" "bid \<noteq> ''''"
    "parse_int t = Some e" "unix now \<le> e"
    using assms by (fastforce simp: verify_pass_def split: option.splits prod.splits if_splits list.splits)
  have "body = ''v1.'' @ bid @ ''.'' @ t"
    using join_split[of "CHR ''.''" body] body by simp
  moreover have "CHR ''.'' \<notin> set bid" using split_on_parts[of bid "CHR ''.''" body] body by simp
  ultimately show thesis
    using that[of t e] split_last_Some[OF body(1)] body by simp
qed

end
