(* ===== verification/Subscriptions.thy ===== *)
theory Subscriptions
  imports Store
begin

text \<open>
  Subscriptions and the entitlements they grant (\<^verbatim>\<open>internal/subscriptions\<close>), and the
  interface \<open>EntitlementChecker\<close> through which bookings asks for them.
\<close>

section \<open>Repository\<close>

text \<open>The entitlement is keyed by the product's name; a second grant of the same key is a no-op.\<close>

definition grant :: "db \<Rightarrow> string \<Rightarrow> string \<Rightarrow> db" where
  "grant s user key =
     (if (user, key) \<in> set (t_entitlements s) then s
      else s\<lparr>t_entitlements := t_entitlements s @ [(user, key)]\<rparr>)"

definition repo_subscribe ::
  "db \<Rightarrow> string \<Rightarrow> string \<Rightarrow> string \<Rightarrow> string \<Rightarrow> (db, subscription_row) outcome" where
  "repo_subscribe s new_id user product receipt =
    (case find (\<lambda>p. pr_id p = product) (t_products s) of
       None \<Rightarrow> (s, Inl Subscriptions_NotFound)
     | Some p \<Rightarrow>
         let r = \<lparr>sb_id = new_id, sb_user = user, sb_product = product, sb_status = ''active'',
                  sb_receipt = nullif receipt\<rparr>
         in (grant (s\<lparr>t_subscriptions := t_subscriptions s @ [r]\<rparr>) user (pr_name p), Inr r))"

definition repo_get_subscription :: "db \<Rightarrow> string \<Rightarrow> go_error + subscription_row" where
  "repo_get_subscription s i =
    (case find (\<lambda>r. sb_id r = i) (t_subscriptions s) of
       None \<Rightarrow> Inl Subscriptions_NotFound | Some r \<Rightarrow> Inr r)"

definition repo_cancel_subscription :: "db \<Rightarrow> string \<Rightarrow> (db, subscription_row) outcome" where
  "repo_cancel_subscription s i =
    (case find (\<lambda>r. sb_id r = i) (t_subscriptions s) of
       None \<Rightarrow> (s, Inl Subscriptions_NotFound)
     | Some r \<Rightarrow>
         (s\<lparr>t_subscriptions := upd (\<lambda>r. sb_id r = i) (\<lambda>r. r\<lparr>sb_status := ''cancelled''\<rparr>) (t_subscriptions s)\<rparr>,
          Inr (r\<lparr>sb_status := ''cancelled''\<rparr>)))"

definition list_entitlements :: "db \<Rightarrow> string \<Rightarrow> string list" where
  "list_entitlements s user = map snd (filter (\<lambda>e. fst e = user) (t_entitlements s))"

section \<open>Service\<close>

definition subscribe :: "db \<Rightarrow> string \<Rightarrow> string \<Rightarrow> string \<Rightarrow> string \<Rightarrow> (db, subscription_row) outcome" where
  "subscribe s new_id user product receipt =
     (if user = '''' \<or> product = '''' then (s, Inl Subscriptions_InvalidInput)
      else repo_subscribe s new_id user product receipt)"

definition cancel_subscription :: "db \<Rightarrow> string \<Rightarrow> string \<Rightarrow> (db, subscription_row) outcome" where
  "cancel_subscription s i caller =
     (if i = '''' \<or> caller = '''' then (s, Inl Subscriptions_InvalidInput)
      else case repo_get_subscription s i of
          Inl e \<Rightarrow> (s, Inl e)
        | Inr r \<Rightarrow> if sb_user r \<noteq> caller then (s, Inl Subscriptions_Forbidden)
                   else repo_cancel_subscription s i)"

definition get_entitlements :: "db \<Rightarrow> string \<Rightarrow> go_error + string list" where
  "get_entitlements s user =
     (if user = '''' then Inl Subscriptions_InvalidInput else Inr (list_entitlements s user))"

definition has_entitlement :: "db \<Rightarrow> string \<Rightarrow> string \<Rightarrow> go_error + bool" where
  "has_entitlement s user key =
     (if user = '''' \<or> key = '''' then Inr False else Inr ((user, key) \<in> set (t_entitlements s)))"

lemmas subscription_defs [op_defs] =
  repo_subscribe_def repo_cancel_subscription_def repo_get_subscription_def
  subscribe_def cancel_subscription_def

section \<open>The interface\<close>

text \<open>
  What a caller of \<open>EntitlementChecker\<close> may assume: nothing is held under an empty
  user or key, and what an entitlement query answers only depends on the entitlements.
\<close>

locale entitlement_checker =
  fixes check :: "db \<Rightarrow> string \<Rightarrow> string \<Rightarrow> go_error + bool"
  assumes check_empty: "check s '''' key = Inr False" "check s user '''' = Inr False"
    and check_local: "t_entitlements s = t_entitlements s' \<Longrightarrow> check s user key = check s' user key"
begin

lemma check_frame: "t_entitlements s' = t_entitlements s \<Longrightarrow> check s' user key = check s user key"
  by (rule check_local)

lemma check_key: "check s user key = Inr True \<Longrightarrow> user \<noteq> '''' \<and> key \<noteq> ''''"
  using check_empty by auto

end

interpretation subs: entitlement_checker has_entitlement
  by unfold_locales (auto simp: has_entitlement_def)

section \<open>What subscribing grants\<close>

lemma grant_set: "set (t_entitlements (grant s user key)) = insert (user, key) (set (t_entitlements s))"
  by (auto simp: grant_def)

lemma grant_distinct:
  "distinct (t_entitlements s) \<Longrightarrow> distinct (t_entitlements (grant s user key))"
  by (simp add: grant_def)

lemma subscribe_cases:
  assumes "subscribe s i user product receipt = (s', r)"
  obtains e where "s' = s" "r = Inl e"
  | p row where "find (\<lambda>p. pr_id p = product) (t_products s) = Some p" "user \<noteq> ''''"
      "set (t_entitlements s') = insert (user, pr_name p) (set (t_entitlements s))"
      "r = Inr row" "sb_user row = user" "sb_status row = ''active''"
  using assms by (auto simp: op_defs Let_def grant_set split: if_splits option.splits)

text \<open>Cancelling a subscription leaves every entitlement in place.\<close>

lemma cancel_subscription_keeps_entitlements:
  "t_entitlements (fst (cancel_subscription s i caller)) = t_entitlements s"
  by (auto simp: op_defs split: option.splits sum.splits)

end
