(* ===== verification/Booking_Service.thy ===== *)
theory Booking_Service
  imports Seats Fee Pass Subscriptions
begin

text \<open>
  The booking service (\<^verbatim>\<open>internal/bookings/service.go\<close>, \<^verbatim>\<open>access.go\<close>, \<^verbatim>\<open>pass.go\<close>): who may
  join which plan, idempotency keys (\<^verbatim>\<open>pkg/idempotency\<close>), authorization of reads,
  cancellations and check-ins, quotes and charges, digital passes.
\<close>

section \<open>Idempotency keys\<close>

definition lock_ttl :: int where [time_defs]: "lock_ttl = 24 * hour"

text \<open>\<open>SetNX\<close> with a time to live: it fails while the key is present.\<close>

definition redis_live :: "db \<Rightarrow> int \<Rightarrow> string \<Rightarrow> bool" where
  "redis_live s tnow key \<longleftrightarrow> (\<exists>(k, e)\<in>set (t_redis s). k = key \<and> tnow < e)"

definition reserve :: "db \<Rightarrow> int \<Rightarrow> string \<Rightarrow> (db, unit) outcome" where
  "reserve s tnow key =
    (if key = '''' then (s, Inr ())
     else if redis_live s tnow (''idempotency:'' @ key) then (s, Inl Idempotency_DuplicateRequest)
     else (s\<lparr>t_redis := (''idempotency:'' @ key, tnow + lock_ttl) # t_redis s\<rparr>, Inr ()))"

section \<open>Access to a plan\<close>

record plan_access =
  pa_join :: join_mode
  pa_visibility :: visibility
  pa_entitlement :: string
  pa_host :: string
  pa_invited :: bool
  pa_approved :: bool
  pa_member :: bool

definition get_plan_access :: "db \<Rightarrow> string \<Rightarrow> string \<Rightarrow> go_error + plan_access" where
  "get_plan_access s plan user =
    (case plan_by_id s plan of
       None \<Rightarrow> Inl Bookings_PlanNotFound
     | Some p \<Rightarrow> Inr
         \<lparr>pa_join = pl_join_mode p, pa_visibility = pl_visibility p,
          pa_entitlement = coalesce (pl_entitlement p), pa_host = pl_host p,
          pa_invited = ((plan, user) \<in> set (t_invites s)),
          pa_approved = (\<exists>r\<in>set (t_join_requests s). jr_plan r = plan \<and> jr_user r = user \<and> jr_status r = ReqApproved),
          pa_member = (case pl_community p of None \<Rightarrow> False | Some c \<Rightarrow> (c, user) \<in> set (t_members s))\<rparr>)"

type_synonym checker = "db \<Rightarrow> string \<Rightarrow> string \<Rightarrow> go_error + bool"

definition check_access :: "checker option \<Rightarrow> db \<Rightarrow> string \<Rightarrow> string \<Rightarrow> go_error + unit" where
  "check_access ent s plan user =
    (case get_plan_access s plan user of
       Inl e \<Rightarrow> Inl e
     | Inr a \<Rightarrow>
         if pa_host a = user then Inr ()
         else if pa_visibility a = VisCommunity \<and> \<not> pa_member a \<and> \<not> pa_invited a
         then Inl Bookings_NotCommunityMember
         else if pa_join a = JoinInviteOnly \<and> \<not> pa_invited a then Inl Bookings_InviteOnly
         else if pa_join a = JoinApproval \<and> \<not> pa_approved a \<and> \<not> pa_invited a
         then Inl Bookings_ApprovalRequired
         else if pa_entitlement a \<noteq> ''''
         then (case ent of
                 None \<Rightarrow> Inl Bookings_EntitlementRequired
               | Some has \<Rightarrow>
                   (case has s user (pa_entitlement a) of
                      Inl e \<Rightarrow> Inl e
                    | Inr ok \<Rightarrow> if ok then Inr () else Inl Bookings_EntitlementRequired))
         else Inr ())"

section \<open>Booking\<close>

definition create_booking ::
  "checker option \<Rightarrow> db \<Rightarrow> int \<Rightarrow> int \<Rightarrow> string \<Rightarrow> string \<Rightarrow> string \<Rightarrow> string \<Rightarrow> (db, booking) outcome" where
  "create_booking ent s now tnow new_id plan user key =
    (if plan = '''' \<or> user = '''' then (s, Inl Bookings_InvalidInput)
     else case check_access ent s plan user of
         Inl e \<Rightarrow> (s, Inl e)
       | Inr _ \<Rightarrow> and_then (reserve s tnow key) (\<lambda>_ s1. create s1 now tnow new_id plan user key))"

definition create_booking_for_plan ::
  "checker option \<Rightarrow> db \<Rightarrow> int \<Rightarrow> int \<Rightarrow> string \<Rightarrow> string \<Rightarrow> string \<Rightarrow> string \<Rightarrow> (db, string) outcome" where
  "create_booking_for_plan ent s now tnow new_id plan user key =
     and_then (create_booking ent s now tnow new_id plan user key) (\<lambda>b s1. (s1, Inr (b_id b)))"

text \<open>\<open>Service.cancel\<close>, in the argument order of the loops that run it.\<close>

definition cancel_core ::
  "int \<Rightarrow> int \<Rightarrow> string \<Rightarrow> bool \<Rightarrow> string \<Rightarrow> db \<Rightarrow> (db, booking) outcome" where
  "cancel_core now tnow reason by_host bid s =
     (if bid = '''' then (s, Inl Bookings_InvalidInput) else cancel s now tnow bid reason by_host)"

definition cancel_booking :: "db \<Rightarrow> int \<Rightarrow> int \<Rightarrow> string \<Rightarrow> string \<Rightarrow> (db, booking) outcome" where
  "cancel_booking s now tnow bid reason = cancel_core now tnow reason False bid s"

definition cancel_booking_for_plan :: "db \<Rightarrow> int \<Rightarrow> int \<Rightarrow> string \<Rightarrow> string \<Rightarrow> (db, unit) outcome" where
  "cancel_booking_for_plan s now tnow plan user =
    (case find_active_booking_id s plan user of
       Inl e \<Rightarrow> (s, Inl e)
     | Inr bid \<Rightarrow> and_then (cancel_booking s now tnow bid ''left plan'') (\<lambda>_ s1. (s1, Inr ())))"

definition cancel_all_for_plan :: "db \<Rightarrow> int \<Rightarrow> int \<Rightarrow> string \<Rightarrow> string \<Rightarrow> (db, unit) outcome" where
  "cancel_all_for_plan s now tnow plan reason =
     for_each (cancel_core now tnow reason True) (list_confirmed_booking_ids s plan) s"

section \<open>Authorization\<close>

definition is_admin_role :: "string \<Rightarrow> bool" where
  "is_admin_role role \<longleftrightarrow> role = ''admin'' \<or> role = ''super_admin''"

definition authorize_for_booking :: "db \<Rightarrow> booking \<Rightarrow> string \<Rightarrow> string \<Rightarrow> go_error + unit" where
  "authorize_for_booking s b caller role =
    (if b_user b = caller \<or> is_admin_role role then Inr ()
     else case get_plan_host_id s (b_plan b) of
         Inl e \<Rightarrow> Inl e
       | Inr h \<Rightarrow> if h = caller then Inr () else Inl Bookings_Forbidden)"

definition service_get_booking :: "db \<Rightarrow> string \<Rightarrow> go_error + booking" where
  "service_get_booking s bid = (if bid = '''' then Inl Bookings_InvalidInput else get_booking s bid)"

definition get_booking_for_review :: "db \<Rightarrow> string \<Rightarrow> go_error + (string \<times> string \<times> booking_status)" where
  "get_booking_for_review s bid =
    (case service_get_booking s bid of Inl e \<Rightarrow> Inl e | Inr b \<Rightarrow> Inr (b_plan b, b_user b, b_status b))"

definition get_booking_owner_id :: "db \<Rightarrow> string \<Rightarrow> go_error + string" where
  "get_booking_owner_id s bid =
    (case service_get_booking s bid of Inl e \<Rightarrow> Inl e | Inr b \<Rightarrow> Inr (b_user b))"

definition get_booking_as_user :: "db \<Rightarrow> string \<Rightarrow> string \<Rightarrow> string \<Rightarrow> go_error + booking" where
  "get_booking_as_user s bid caller role =
    (case service_get_booking s bid of
       Inl e \<Rightarrow> Inl e
     | Inr b \<Rightarrow> (case authorize_for_booking s b caller role of Inl e \<Rightarrow> Inl e | Inr _ \<Rightarrow> Inr b))"

definition cancel_booking_as_user ::
  "db \<Rightarrow> int \<Rightarrow> int \<Rightarrow> string \<Rightarrow> string \<Rightarrow> string \<Rightarrow> string \<Rightarrow> (db, booking) outcome" where
  "cancel_booking_as_user s now tnow bid caller role reason =
    (if bid = '''' \<or> caller = '''' then (s, Inl Bookings_InvalidInput)
     else case service_get_booking s bid of
         Inl e \<Rightarrow> (s, Inl e)
       | Inr b \<Rightarrow> (case authorize_for_booking s b caller role of
             Inl e \<Rightarrow> (s, Inl e)
           | Inr _ \<Rightarrow> cancel_booking s now tnow bid reason))"

definition service_check_in :: "db \<Rightarrow> int \<Rightarrow> string \<Rightarrow> string \<Rightarrow> string \<Rightarrow> (db, booking) outcome" where
  "service_check_in s now bid caller role =
    (if bid = '''' \<or> caller = '''' then (s, Inl Bookings_InvalidInput)
     else case service_get_booking s bid of
         Inl e \<Rightarrow> (s, Inl e)
       | Inr b \<Rightarrow>
           if is_admin_role role then check_in s now bid caller
           else (case get_plan_host_id s (b_plan b) of
               Inl e \<Rightarrow> (s, Inl e)
             | Inr h \<Rightarrow> if h \<noteq> caller then (s, Inl Bookings_Forbidden) else check_in s now bid caller))"

section \<open>Quotes and charges\<close>

record quote =
  q_price :: int
  q_fee :: int
  q_total :: int
  q_currency :: string
  q_eligible :: bool
  q_refund_until :: "int option"
  q_refund_hours :: int

definition quote_booking :: "db \<Rightarrow> int \<Rightarrow> string \<Rightarrow> string \<Rightarrow> go_error + quote" where
  "quote_booking s now plan user =
    (if plan = '''' \<or> user = '''' then Inl Bookings_InvalidInput
     else case get_plan_pricing s plan of
         Inl e \<Rightarrow> Inl e
       | Inr p \<Rightarrow>
           let fee = service_fee (pl_price p);
               eligible = (pl_status p = Published
                           \<and> pl_confirmed p + active_holds s now plan user < pl_capacity p
                           \<and> (case find_active_booking_id s plan user of Inl _ \<Rightarrow> True | Inr _ \<Rightarrow> False))
           in Inr \<lparr>q_price = pl_price p, q_fee = fee, q_total = int64 (pl_price p + fee),
                q_currency = pl_currency p, q_eligible = eligible,
                q_refund_until = (if 0 < pl_price p then Some (pl_starts p - refund_full_hours * hour) else None),
                q_refund_hours = (if 0 < pl_price p then refund_full_hours else 0)\<rparr>)"

definition get_booking_charge :: "db \<Rightarrow> string \<Rightarrow> go_error + (string \<times> int \<times> string \<times> booking_status)" where
  "get_booking_charge s bid =
    (case service_get_booking s bid of
       Inl e \<Rightarrow> Inl e
     | Inr b \<Rightarrow> Inr (b_user b, int64 (b_price b + service_fee (b_price b)), b_currency b, b_status b))"

definition confirm_paid_booking :: "db \<Rightarrow> int \<Rightarrow> string \<Rightarrow> (db, unit) outcome" where
  "confirm_paid_booking s now bid =
     (if bid = '''' then (s, Inl Bookings_InvalidInput) else confirm_paid s now bid)"

section \<open>The waitlist service\<close>

definition service_join_waitlist ::
  "checker option \<Rightarrow> db \<Rightarrow> int \<Rightarrow> int \<Rightarrow> string \<Rightarrow> string \<Rightarrow> string \<Rightarrow> (db, waitlist_view) outcome" where
  "service_join_waitlist ent s now tnow new_id plan user =
    (if plan = '''' \<or> user = '''' then (s, Inl Bookings_InvalidInput)
     else case check_access ent s plan user of
         Inl e \<Rightarrow> (s, Inl e)
       | Inr _ \<Rightarrow> join_waitlist s now tnow new_id plan user)"

definition service_leave_waitlist :: "db \<Rightarrow> int \<Rightarrow> int \<Rightarrow> string \<Rightarrow> string \<Rightarrow> (db, unit) outcome" where
  "service_leave_waitlist s now tnow plan user =
    (if plan = '''' \<or> user = '''' then (s, Inl Bookings_InvalidInput) else leave_waitlist s now tnow plan user)"

section \<open>Passes\<close>

definition check_in_opens_before :: int where [time_defs]: "check_in_opens_before = 2 * hour"
definition check_in_closes_after :: int where [time_defs]: "check_in_closes_after = 1 * hour"

record pass_info =
  pi_booking :: string
  pi_plan :: string
  pi_user :: string
  pi_status :: booking_status
  pi_title :: string
  pi_desc :: string
  pi_starts :: int
  pi_ends :: int
  pi_host :: string
  pi_venue :: string
  pi_address :: string
  pi_host_name :: string
  pi_attendee :: string

definition plan_end :: "int \<Rightarrow> int \<Rightarrow> int" where
  "plan_end starts ends = (if starts < ends then ends else starts + 6 * hour)"

definition profile_name :: "db \<Rightarrow> string \<Rightarrow> string" where
  "profile_name s user = (case find (\<lambda>p. fst p = user) (t_profiles s) of None \<Rightarrow> '''' | Some p \<Rightarrow> snd p)"

definition venue_of :: "db \<Rightarrow> string option \<Rightarrow> string \<times> string" where
  "venue_of s v =
    (case v of None \<Rightarrow> ('''', '''')
     | Some i \<Rightarrow> (case find (\<lambda>r. fst r = i) (t_venues s) of None \<Rightarrow> ('''', '''') | Some r \<Rightarrow> snd r))"

definition get_pass_info :: "db \<Rightarrow> string \<Rightarrow> go_error + pass_info" where
  "get_pass_info s bid =
    (case booking_by_id s bid of
       None \<Rightarrow> Inl Bookings_BookingNotFound
     | Some b \<Rightarrow> (case plan_by_id s (bk_plan b) of
         None \<Rightarrow> Inl Bookings_BookingNotFound
       | Some p \<Rightarrow> Inr
           \<lparr>pi_booking = bk_id b, pi_plan = bk_plan b, pi_user = bk_user b, pi_status = bk_status b,
            pi_title = pl_title p, pi_desc = pl_desc p, pi_starts = pl_starts p, pi_ends = pl_ends p,
            pi_host = pl_host p, pi_venue = fst (venue_of s (pl_venue p)),
            pi_address = snd (venue_of s (pl_venue p)), pi_host_name = profile_name s (pl_host p),
            pi_attendee = profile_name s (bk_user b)\<rparr>))"

definition get_pass ::
  "mac_fun \<Rightarrow> string \<Rightarrow> db \<Rightarrow> string \<Rightarrow> string \<Rightarrow> go_error + (pass_info \<times> string \<times> int)" where
  "get_pass mac secret s bid caller =
    (if secret = [] then Inl Bookings_PassDisabled
     else if bid = '''' \<or> caller = '''' then Inl Bookings_InvalidInput
     else case get_pass_info s bid of
         Inl e \<Rightarrow> Inl e
       | Inr i \<Rightarrow>
           if pi_user i \<noteq> caller then Inl Bookings_Forbidden
           else if pi_status i \<noteq> Confirmed \<and> pi_status i \<noteq> Attended then Inl Bookings_PassUnavailable
           else let valid_until = plan_end (pi_starts i) (pi_ends i) + check_in_closes_after
                in Inr (i, sign_pass mac secret (pi_booking i) valid_until, valid_until))"

definition scan_pass ::
  "mac_fun \<Rightarrow> string \<Rightarrow> db \<Rightarrow> int \<Rightarrow> int \<Rightarrow> string \<Rightarrow> string \<Rightarrow> string \<Rightarrow> (db, booking \<times> string) outcome" where
  "scan_pass mac secret s now tnow pass caller role =
    (if secret = [] then (s, Inl Bookings_PassDisabled)
     else if pass = '''' \<or> caller = '''' then (s, Inl Bookings_InvalidInput)
     else case verify_pass mac secret pass tnow of
         Inl _ \<Rightarrow> (s, Inl Bookings_InvalidPass)
       | Inr bid \<Rightarrow> (case get_pass_info s bid of
           Inl e \<Rightarrow> (s, Inl e)
         | Inr i \<Rightarrow>
             if pi_host i \<noteq> caller \<and> \<not> is_admin_role role then (s, Inl Bookings_Forbidden)
             else if tnow < pi_starts i - check_in_opens_before
                  \<or> plan_end (pi_starts i) (pi_ends i) + check_in_closes_after < tnow
             then (s, Inl Bookings_OutsideWindow)
             else and_then (check_in s now bid caller) (\<lambda>b s1. (s1, Inr (b, pi_attendee i)))))"

lemmas booking_service_defs [op_defs] =
  create_booking_def create_booking_for_plan_def cancel_core_def cancel_booking_def
  cancel_booking_for_plan_def cancel_booking_as_user_def service_check_in_def scan_pass_def

end
