(* ===== verification/Booking_Facts.thy ===== *)
theory Booking_Facts
  imports Booking_Service
begin

text \<open>
  What the booking operations promise: access, seats and holds, resumed holds,
  confirmation of paid bookings, cancellations and their refunds, passes.
\<close>

section \<open>Access\<close>

lemma get_plan_access_Inr:
  assumes "plan_by_id s plan = Some p"
  obtains a where "get_plan_access s plan user = Inr a" "pa_join a = pl_join_mode p"
    "pa_visibility a = pl_visibility p" "pa_entitlement a = coalesce (pl_entitlement p)" "pa_host a = pl_host p"
    "pa_invited a \<longleftrightarrow> (plan, user) \<in> set (t_invites s)"
    "pa_approved a \<longleftrightarrow> (\<exists>r\<in>set (t_join_requests s). jr_plan r = plan \<and> jr_user r = user \<and> jr_status r = ReqApproved)"
    "pa_member a \<longleftrightarrow> (\<exists>c. pl_community p = Some c \<and> (c, user) \<in> set (t_members s))"
proof -
  obtain a where a: "get_plan_access s plan user = Inr a"
    using assms by (simp add: get_plan_access_def)
  show thesis
    by (rule that[OF a]) (use a assms in \<open>auto simp: get_plan_access_def split: option.splits\<close>)
qed

definition may_join :: "db \<Rightarrow> plan_row \<Rightarrow> string \<Rightarrow> bool" where
  "may_join s p user \<longleftrightarrow>
     (pl_id p, user) \<in> set (t_invites s)
     \<or> (pl_visibility p = VisCommunity \<longrightarrow> (\<exists>c. pl_community p = Some c \<and> (c, user) \<in> set (t_members s)))
       \<and> (case pl_join_mode p of JoinOpen \<Rightarrow> True | JoinInviteOnly \<Rightarrow> False
          | JoinApproval \<Rightarrow> \<exists>r\<in>set (t_join_requests s). jr_plan r = pl_id p \<and> jr_user r = user \<and> jr_status r = ReqApproved)"

text \<open>
  Who may book a plan: its host always; otherwise whoever is invited, or passes the
  community and join-mode rules, and in both cases holds the entitlement of a premium
  plan. An invitation replaces membership and approval but never the entitlement, and
  a checker that is not configured refuses premium plans.
\<close>

theorem access_rule:
  assumes "plan_by_id s plan = Some p"
  shows "check_access ent s plan user = Inr () \<longleftrightarrow>
     pl_host p = user
     \<or> may_join s p user
       \<and> (coalesce (pl_entitlement p) \<noteq> '''' \<longrightarrow>
            (\<exists>has. ent = Some has \<and> has s user (coalesce (pl_entitlement p)) = Inr True))"
proof -
  obtain a where a: "get_plan_access s plan user = Inr a" "pa_join a = pl_join_mode p"
    "pa_visibility a = pl_visibility p" "pa_entitlement a = coalesce (pl_entitlement p)" "pa_host a = pl_host p"
    "pa_invited a \<longleftrightarrow> (plan, user) \<in> set (t_invites s)"
    "pa_approved a \<longleftrightarrow> (\<exists>r\<in>set (t_join_requests s). jr_plan r = plan \<and> jr_user r = user \<and> jr_status r = ReqApproved)"
    "pa_member a \<longleftrightarrow> (\<exists>c. pl_community p = Some c \<and> (c, user) \<in> set (t_members s))"
    using get_plan_access_Inr[OF assms] .
  have join: "may_join s p user \<longleftrightarrow> pa_invited a \<or> (pa_visibility a = VisCommunity \<longrightarrow> pa_member a)
      \<and> (pa_join a = JoinInviteOnly \<longrightarrow> False) \<and> (pa_join a = JoinApproval \<longrightarrow> pa_approved a)"
    using find_key(2)[OF assms] by (cases "pl_join_mode p") (auto simp: may_join_def a(2-))
  show ?thesis
    unfolding join check_access_def a(1)
    by (auto simp: a(4,5) split: option.splits sum.splits if_splits)
qed

lemma access_rule_witness:
  "check_access (Some has_entitlement)
     (empty_db\<lparr>t_plans := [sample_plan\<lparr>pl_join_mode := JoinInviteOnly, pl_visibility := VisPrivate,
        pl_entitlement := Some ''gold''\<rparr>],
        t_invites := [(''p'', ''u'')], t_entitlements := [(''u'', ''gold'')]\<rparr>) ''p'' ''u'' = Inr ()"
  by (subst access_rule) (auto simp: may_join_def has_entitlement_def samples coalesce_def)

text \<open>A refused caller changes nothing, not even the idempotency key.\<close>

lemma refused_changes_nothing:
  assumes "check_access ent s plan user = Inl e"
  shows "create_booking ent s now tnow nid plan user key
       = (s, Inl (if plan = '''' \<or> user = '''' then Bookings_InvalidInput else e))"
  using assms by (simp add: create_booking_def)

section \<open>Booking a seat\<close>

lemma active_holds_cong:
  assumes "t_waitlist s' = t_waitlist s" "t_bookings s' = t_bookings s"
  shows "active_holds s' now plan except = active_holds s now plan except"
  using assms by (simp add: active_holds_def)

text \<open>Changing the caller's own entries does not change what others hold.\<close>

lemma offer_holds_own:
  assumes "\<And>w. P w \<Longrightarrow> wl_user w = user \<and> wl_user (f w) = user"
  shows "cnt (offer_holds now plan user) (upd P f ws) = cnt (offer_holds now plan user) ws"
  by (intro cnt_upd_same) (auto simp: offer_holds_def dest: assms)

lemma payment_holds_own:
  assumes "\<And>b. P b \<Longrightarrow> bk_user b = user \<and> bk_user (f b) = user"
  shows "cnt (payment_holds now plan user) (upd P f bs) = cnt (payment_holds now plan user) bs"
  by (intro cnt_upd_same) (auto simp: payment_holds_def dest: assms)

lemma seat_confirmed_booking_effect:
  assumes "seat_confirmed_booking s now bid plan user = (s', Inr u)"
  shows "t_bookings s' = t_bookings s" "active_holds s' n plan user = active_holds s n plan user"
    "map pl_capacity (t_plans s') = map pl_capacity (t_plans s)"
proof -
  obtain s1 where s1: "bump_confirmed (upsert_participant s now plan user bid) plan 1 = (s1, Inr ())"
    and s': "s' = enqueue (accept_waitlist s1 now plan user) now ''BOOKING_CONFIRMED'' bid
                  (BookingPayload bid plan user)"
    using assms by (auto simp: seat_confirmed_booking_def and_then_eq_Inr)
  show b: "t_bookings s' = t_bookings s" using bump_confirmed_frame[OF s1] by (simp add: s')
  have "t_waitlist s1 = t_waitlist s" using bump_confirmed_frame[OF s1] by simp
  then have "cnt (offer_holds n plan user) (t_waitlist s') = cnt (offer_holds n plan user) (t_waitlist s)"
    unfolding s' enqueue_frame by (simp add: accept_waitlist_def) (rule offer_holds_own, simp)
  with b show "active_holds s' n plan user = active_holds s n plan user" by (simp add: active_holds_def)
  show "map pl_capacity (t_plans s') = map pl_capacity (t_plans s)"
    using s1 by (auto simp: s' bump_confirmed_def map_upd split: option.splits if_splits)
qed

lemma create_cases:
  assumes "create s now tnow nid plan user idem = (s', Inr b)"
  obtains p where "plan_by_id s plan = Some p" "pl_id p = plan" "pl_status p = Published"
    "pl_confirmed p + active_holds s now plan user < pl_capacity p"
    "\<forall>r\<in>set (t_bookings s). bk_plan r = plan \<and> bk_user r = user \<longrightarrow> bk_status r \<noteq> Confirmed"
    "0 < pl_price p" "hold_seat s now tnow nid p user idem = (s', Inr b)"
  | p where "plan_by_id s plan = Some p" "pl_id p = plan" "pl_status p = Published"
    "pl_confirmed p + active_holds s now plan user < pl_capacity p"
    "\<forall>r\<in>set (t_bookings s). bk_plan r = plan \<and> bk_user r = user \<longrightarrow> bk_status r \<noteq> Confirmed"
    "pl_price p \<le> 0" "book_free_seat s now nid p user idem = (s', Inr b)"
proof -
  obtain p where p: "plan_by_id s plan = Some p" "pl_status p = Published"
    "pl_confirmed p + active_holds s now plan user < pl_capacity p"
    "\<forall>r\<in>set (t_bookings s). bk_plan r = plan \<and> bk_user r = user \<longrightarrow> bk_status r \<noteq> Confirmed"
    and tx: "in_tx s (if 0 < pl_price p then hold_seat s now tnow nid p user idem
                       else book_free_seat s now nid p user idem) = (s', Inr b)"
    using assms by (auto simp: create_def cnt_pos_iff not_le split: option.splits if_splits)
  have id: "pl_id p = plan" using find_key(2)[OF p(1)] .
  show thesis
    using in_tx_cases[OF tx] that(1)[OF p(1) id p(2-4)] that(2)[OF p(1) id p(2-4)]
    by (auto split: if_splits)
qed

lemma seats_ok_count:
  assumes "seats_ok s" "plan_by_id s plan = Some p"
  shows "pl_confirmed p = seat_count s plan" "seat_count s plan \<le> pl_capacity p"
  using plan_by_idD[OF assms(2)] assms(1) by (fastforce simp: seats_ok_def)+

text \<open>What the paid branch does to the seats others hold: nothing.\<close>

lemma hold_seat_effect:
  assumes "hold_seat s now tnow nid p user idem = (s', Inr b)"
  shows "seat_count s' plan = seat_count s plan" "active_holds s' n plan user = active_holds s n plan user"
    "b_status b = PaymentPending" "t_plans s' = t_plans s"
    "\<exists>r\<in>set (t_bookings s'). scan_booking r = b\<lparr>b_idem := ''''\<rparr> \<and> bk_plan r = pl_id p \<and> bk_user r = user
       \<and> (bk_id r = nid \<and> bk_price r = pl_price p \<or> r \<in> set (t_bookings s))"
  using assms
proof -
  have eq: "seat_count s' plan = seat_count s plan \<and> active_holds s' n plan user = active_holds s n plan user
    \<and> b_status b = PaymentPending \<and> t_plans s' = t_plans s
    \<and> (\<exists>r\<in>set (t_bookings s'). scan_booking r = b\<lparr>b_idem := ''''\<rparr> \<and> bk_plan r = pl_id p \<and> bk_user r = user
       \<and> (bk_id r = nid \<and> bk_price r = pl_price p \<or> r \<in> set (t_bookings s)))"
    using assms
  proof (cases rule: hold_seat_cases)
    case (1 r)
    then have "r \<in> set (t_bookings s)" "own_pending (pl_id p) user r" by (auto simp: find_Some_iff)
    with 1 show ?thesis by (auto simp: own_pending_def scan_booking_def intro!: bexI[of _ r])
  next
    case (2 r)
    have "cnt (\<lambda>b. bk_plan b = plan \<and> seated (bk_status b))
        (upd (own_pending (pl_id p) user) (set_status Cancelled now) (t_bookings s)) = seat_count s plan"
      unfolding seat_count_def by (intro cnt_upd_same) (auto simp: own_pending_def)
    moreover have "cnt (payment_holds n plan user)
        (upd (own_pending (pl_id p) user) (set_status Cancelled now) (t_bookings s))
        = cnt (payment_holds n plan user) (t_bookings s)"
      by (intro payment_holds_own) (simp add: own_pending_def)
    ultimately show ?thesis
      using 2 by (auto simp: seat_count_def active_holds_def payment_holds_def scan_booking_def)
  qed
  show "seat_count s' plan = seat_count s plan" "active_holds s' n plan user = active_holds s n plan user"
    "b_status b = PaymentPending" "t_plans s' = t_plans s"
    "\<exists>r\<in>set (t_bookings s'). scan_booking r = b\<lparr>b_idem := ''''\<rparr> \<and> bk_plan r = pl_id p \<and> bk_user r = user
       \<and> (bk_id r = nid \<and> bk_price r = pl_price p \<or> r \<in> set (t_bookings s))"
    using eq by blast+
qed

lemma book_free_seat_effect:
  assumes "book_free_seat s now nid p user idem = (s', Inr b)"
  shows "seat_count s' plan = seat_count s plan + (if plan = pl_id p then 1 else 0)"
    "active_holds s' n (pl_id p) user = active_holds s n (pl_id p) user" "b_status b = Confirmed"
    "t_bookings s' = t_bookings s @ [new_booking now nid p user idem Confirmed None]"
    "b = (scan_booking (new_booking now nid p user idem Confirmed None))\<lparr>b_idem := idem\<rparr>"
proof -
  obtain s2 where s2: "seat_confirmed_booking (s\<lparr>t_bookings := t_bookings s @
        [new_booking now nid p user idem Confirmed None]\<rparr>) now nid (pl_id p) user = (s2, Inr ())"
    and s': "s' = notify_host s2 now (pl_id p) user"
    and b: "b = (scan_booking (new_booking now nid p user idem Confirmed None))\<lparr>b_idem := idem\<rparr>"
    using assms by (elim book_free_seat_cases) simp
  note e = seat_confirmed_booking_effect[OF s2]
  show tb: "t_bookings s' = t_bookings s @ [new_booking now nid p user idem Confirmed None]"
    using e(1) by (simp add: s')
  then show "seat_count s' plan = seat_count s plan + (if plan = pl_id p then 1 else 0)"
    by (auto simp: seat_count_def)
  show "active_holds s' n (pl_id p) user = active_holds s n (pl_id p) user"
    using e(1) e(2)[of n] active_holds_cong[of s' s2 n "pl_id p" user]
    by (auto simp: s' active_holds_def payment_holds_def)
  show "b_status b = Confirmed" by (simp add: b scan_booking_def)
  show "b = (scan_booking (new_booking now nid p user idem Confirmed None))\<lparr>b_idem := idem\<rparr>" by (rule b)
qed

text \<open>
  C4. \<open>Create\<close> never takes a seat that is occupied or held for somebody else: after it
  succeeds, the plan's occupied seats, plus the seats held for other users by waitlist
  offers and by people who are paying, plus this booking's own hold, are within the
  capacity. The booking is the caller's, is confirmed at once exactly when the plan is
  free, and a new booking costs the plan's price.
\<close>

theorem create_respects_capacity_and_holds:
  assumes "bookings_inv s" "plan_by_id s plan = Some p"
    and "create s now tnow nid plan user idem = (s', Inr b)"
  shows "seat_count s' plan + active_holds s' now plan user
           + (if b_status b = PaymentPending then 1 else 0) \<le> pl_capacity p
    \<and> b_plan b = plan \<and> b_user b = user
    \<and> b_status b = (if 0 < pl_price p then PaymentPending else Confirmed)
    \<and> (b_id b \<notin> bk_id ` set (t_bookings s) \<longrightarrow> b_price b = pl_price p)"
  using assms(3)
proof (cases rule: create_cases)
  case (1 p')
  then have [simp]: "p' = p" using assms(2) by simp
  note e = hold_seat_effect[OF 1(7)]
  obtain r where "scan_booking r = b\<lparr>b_idem := ''''\<rparr>" "bk_plan r = pl_id p" "bk_user r = user"
      "bk_id r = nid \<and> bk_price r = pl_price p \<or> r \<in> set (t_bookings s)"
    using e(5) by auto
  then have "b_plan b = plan" "b_user b = user" "b_id b \<notin> bk_id ` set (t_bookings s) \<longrightarrow> b_price b = pl_price p"
    using 1(2) by (cases b; auto simp: scan_booking_def)+
  then show ?thesis
    using e(1-3) 1 seats_ok_count[OF inv_seats[OF assms(1)] assms(2)] by (simp)
next
  case (2 p')
  then have [simp]: "p' = p" using assms(2) by simp
  note e = book_free_seat_effect[OF 2(7)]
  show ?thesis
    using e 2 seats_ok_count[OF inv_seats[OF assms(1)] assms(2)] by (simp add: scan_booking_def)
qed

lemma create_respects_capacity_and_holds_witness:
  "\<exists>s' b. create (empty_db\<lparr>t_plans := [sample_plan\<lparr>pl_price := 50000\<rparr>]\<rparr>) 10 10 ''b1'' ''p'' ''u'' '''' = (s', Inr b)
     \<and> b_price b = 50000 \<and> b_status b = PaymentPending"
proof -
  let ?s = "empty_db\<lparr>t_plans := [sample_plan\<lparr>pl_price := 50000\<rparr>]\<rparr>"
  obtain s' b where c: "create ?s 10 10 ''b1'' ''p'' ''u'' '''' = (s', Inr b)" "b_id b = ''b1''"
    by (simp add: op_defs samples new_booking_def active_holds_def scan_booking_def idem_taken_def
        coalesce_def nullif_def)
  have inv: "bookings_inv ?s" by (simp add: bookings_inv_def wf_db_def seats_ok_def seat_count_def samples)
  show ?thesis
    using create_respects_capacity_and_holds[OF inv _ c(1), of "sample_plan\<lparr>pl_price := 50000\<rparr>"] c
    by (intro exI[of _ s'] exI[of _ b]) (simp add: samples)
qed

section \<open>Coming back to a hold\<close>

text \<open>
  Somebody who reserves a paid seat again while their hold lasts gets the same
  booking and the same expiry back, and nothing is written: retrying never stacks holds.
\<close>

theorem hold_is_resumed:
  assumes "create s now tnow nid plan user idem = (s', Inr b)" "b_status b = PaymentPending"
    and "b_hold b = Some e" "now' < e" "now \<le> now'"
    and "find (\<lambda>r. own_pending plan user r \<and> later (bk_expires r) now) (t_bookings s) = None"
  shows "\<exists>b'. create s' now' tnow' nid' plan user idem' = (s', Inr b') \<and> b_id b' = b_id b
     \<and> b_hold b' = b_hold b \<and> b_price b' = b_price b"
  using assms(1)
proof (cases rule: create_cases)
  case (1 p)
  let ?ups = "upd (own_pending plan user) (set_status Cancelled now) (t_bookings s)"
  let ?r = "new_booking now nid p user idem PaymentPending (Some (tnow + payment_hold))"
  have new: "s' = s\<lparr>t_bookings := ?ups @ [?r]\<rparr> \<and> b = (scan_booking ?r)\<lparr>b_idem := idem\<rparr>"
    using 1(7) by (cases rule: hold_seat_cases) (use assms(6) 1(2) in simp_all)
  then have s': "s' = s\<lparr>t_bookings := ?ups @ [?r]\<rparr>" and b: "b = (scan_booking ?r)\<lparr>b_idem := idem\<rparr>"
    by blast+
  have e: "e = tnow + payment_hold" using assms(3) by (simp add: b scan_booking_def)
  have none: "\<not> own_pending plan user x" if "x \<in> set ?ups" for x
    using that by (rule upd_memE) (simp_all add: own_pending_def)
  have hit: "find (\<lambda>r. own_pending plan user r \<and> later (bk_expires r) now') (t_bookings s') = Some ?r"
  proof -
    have "find (\<lambda>r. own_pending plan user r \<and> later (bk_expires r) now') (?ups @ [?r])
        = find (\<lambda>r. own_pending plan user r \<and> later (bk_expires r) now') [?r]"
      using none by (intro find_append_skip) blast
    then show ?thesis using 1(2) assms(4) e by (simp add: s' own_pending_def later_def)
  qed
  have holds: "active_holds s' now' plan user \<le> active_holds s now plan user"
  proof -
    have "cnt (payment_holds now' plan user) (t_bookings s') = cnt (payment_holds now' plan user) (t_bookings s)"
      using payment_holds_own[of "own_pending plan user" user "set_status Cancelled now" now' plan "t_bookings s"]
      by (simp add: s' payment_holds_def own_pending_def)
    moreover have "cnt (payment_holds now' plan user) (t_bookings s) \<le> cnt (payment_holds now plan user) (t_bookings s)"
      using assms(5) by (intro cnt_mono) (auto simp: payment_holds_def later_def split: option.splits)
    moreover have "cnt (offer_holds now' plan user) (t_waitlist s) \<le> cnt (offer_holds now plan user) (t_waitlist s)"
      using assms(5) by (intro cnt_mono) (auto simp: offer_holds_def later_def split: option.splits)
    ultimately show ?thesis by (simp add: active_holds_def s')
  qed
  have "cnt (\<lambda>r. bk_plan r = plan \<and> bk_user r = user \<and> bk_status r = Confirmed) (t_bookings s') = 0"
    using 1(5) by (auto simp: s' cnt_zero_iff set_upd split: if_splits)
  then have "create s' now' tnow' nid' plan user idem' = in_tx s' (hold_seat s' now' tnow' nid' p user idem')"
    using 1 holds by (simp add: create_def s')
  then have "create s' now' tnow' nid' plan user idem' = (s', Inr (scan_booking ?r))"
    using hit 1(2) by (simp add: hold_seat_def)
  then show ?thesis by (auto simp: b scan_booking_def)
next
  case (2 p)
  with assms(2) book_free_seat_effect(3)[OF 2(7)] show ?thesis by simp
qed

lemma hold_is_resumed_witness:
  "\<exists>s' b b'. create (empty_db\<lparr>t_plans := [sample_plan\<lparr>pl_price := 50000\<rparr>]\<rparr>) 10 10 ''b1'' ''p'' ''u'' '''' = (s', Inr b)
     \<and> create s' 20 20 ''b2'' ''p'' ''u'' '''' = (s', Inr b') \<and> b_id b' = ''b1''"
proof -
  let ?s = "empty_db\<lparr>t_plans := [sample_plan\<lparr>pl_price := 50000\<rparr>]\<rparr>"
  obtain s' b where c: "create ?s 10 10 ''b1'' ''p'' ''u'' '''' = (s', Inr b)"
    "b_id b = ''b1''" "b_status b = PaymentPending" "b_hold b = Some (10 + payment_hold)"
    by (simp add: op_defs samples new_booking_def active_holds_def scan_booking_def idem_taken_def
        coalesce_def nullif_def)
  then show ?thesis
    using hold_is_resumed[OF c(1) c(3,4), of 20 20 "''b2''" "''''"] by (auto simp: samples time_defs)
qed

section \<open>Confirming a paid booking\<close>

lemma confirm_paid_done:
  assumes "confirm_paid s now bid = (s', Inr u)" "wf_db s"
  obtains b where "booking_by_id s' bid = Some b" "bk_status b = Confirmed \<or> bk_status b = Attended"
proof -
  obtain b where b: "booking_by_id s bid = Some b"
    using assms(1) by (auto simp: confirm_paid_def split: option.splits)
  show thesis
  proof (cases "bk_status b = Confirmed \<or> bk_status b = Attended")
    case True
    with assms(1) b that show ?thesis by (simp add: confirm_paid_def)
  next
    case False
    let ?f = "\<lambda>r. r\<lparr>bk_status := Confirmed, bk_expires := None, bk_updated := now\<rparr>"
    obtain s2 where s2: "seat_confirmed_booking (s\<lparr>t_bookings := upd (\<lambda>r. bk_id r = bid) ?f (t_bookings s)\<rparr>)
        now bid (bk_plan b) (bk_user b) = (s2, Inr ())"
      and s': "s' = notify_host s2 now (bk_plan b) (bk_user b)"
      using assms(1) b False
      by (auto simp: confirm_paid_def and_then_eq_Inr in_tx_eq_Inr split: option.splits if_splits)
    have t: "t_bookings s' = upd (\<lambda>r. bk_id r = bid) ?f (t_bookings s)"
      using seat_confirmed_booking_effect(1)[OF s2] by (simp add: s')
    have "find (\<lambda>b. bk_id b = bid) (t_bookings s') = Some (?f b)"
    proof (rule find_key_unique)
      have "map bk_id (t_bookings s') = map bk_id (t_bookings s)" unfolding t by (rule map_upd) simp
      then show "distinct (map bk_id (t_bookings s'))" using wf_dbD(2)[OF assms(2)] by simp
      show "?f b \<in> set (t_bookings s')" using booking_by_idD[OF b] by (auto simp: t set_upd)
      show "bk_id (?f b) = bid" using booking_by_idD[OF b] by simp
    qed
    then show ?thesis by (rule that) simp
  qed
qed

text \<open>
  Confirming a paid booking is idempotent: once \<open>ConfirmPaid\<close> succeeded, a second
  delivery of the same payment succeeds and changes nothing - no second seat, no second
  event.
\<close>

theorem confirm_paid_idempotent:
  assumes "wf_db s" "confirm_paid s now bid = (s', Inr u)"
  shows "confirm_paid s' now' bid = (s', Inr ())"
  by (rule confirm_paid_done[OF assms(2,1)]) (simp add: confirm_paid_def)

lemma confirm_paid_idempotent_witness:
  "\<exists>s'. confirm_paid (empty_db\<lparr>t_plans := [sample_plan], t_bookings := [sample_booking\<lparr>bk_status := PaymentPending\<rparr>]\<rparr>)
        7 ''b'' = (s', Inr ())
     \<and> confirm_paid s' 8 ''b'' = (s', Inr ())"
proof -
  let ?s = "empty_db\<lparr>t_plans := [sample_plan], t_bookings := [sample_booking\<lparr>bk_status := PaymentPending\<rparr>]\<rparr>"
  obtain s' where c: "confirm_paid ?s 7 ''b'' = (s', Inr ())"
    by (simp add: op_defs samples active_holds_def upsert_participant_def bump_confirmed_def
        accept_waitlist_def)
  have "wf_db ?s" by (simp add: wf_db_def samples)
  from confirm_paid_idempotent[OF this c, of 8] c show ?thesis by blast
qed

text \<open>
  The seat can only be lost to somebody else: \<open>ConfirmPaid\<close> answers \<open>PlanFull\<close> exactly when
  the plan stopped being bookable or its seats are taken or held by others.
\<close>

lemma confirm_paid_full:
  assumes "booking_by_id s bid = Some b" "bk_status b = PaymentPending \<or> bk_status b = Cancelled"
    and "plan_by_id s (bk_plan b) = Some p" "bookings_inv s"
  shows "snd (confirm_paid s now bid) = Inl Bookings_PlanFull \<longleftrightarrow>
     pl_status p \<noteq> Published \<or> pl_capacity p \<le> seat_count s (bk_plan b) + active_holds s now (bk_plan b) (bk_user b)"
proof -
  have "snd (bump_confirmed s1 k 1) \<noteq> Inl Bookings_PlanFull" for s1 k
    by (auto simp: bump_confirmed_def split: option.splits)
  then have "snd (seat_confirmed_booking s1 now i k u) \<noteq> Inl Bookings_PlanFull" for s1 i k u
    by (auto simp: seat_confirmed_booking_def and_then_def split: sum.splits)
  then have "snd (in_tx s (and_then (seat_confirmed_booking s1 now i k u) (\<lambda>_ s1. (f s1, Inr ()))))
      \<noteq> Inl Bookings_PlanFull" for s1 i k u f
    by (auto simp: and_then_def in_tx_def split: sum.splits)
  moreover have "pl_confirmed p = seat_count s (bk_plan b)"
    by (rule seats_ok_count(1)[OF inv_seats[OF assms(4)] assms(3)])
  ultimately show ?thesis using assms(1-3) by (auto simp: confirm_paid_def)
qed

section \<open>Cancelling\<close>

text \<open>The only events offering seats writes are \<open>NOTIFY_USER\<close> events.\<close>

lemma notify_offered_outbox:
  "\<exists>ev. t_outbox (notify_offered now plan us s) = t_outbox s @ ev \<and> (\<forall>e\<in>set ev. ob_type e = ''NOTIFY_USER'')"
proof (induction us arbitrary: s)
  case (Cons u us)
  let ?s1 = "enqueue_notify_user s now u ''A seat opened up''
          ''Claim your seat within 30 minutes before it goes to the next person.''
          (''hivemind://plans/'' @ plan) ''push''"
  obtain e where e: "t_outbox ?s1 = t_outbox s @ [e]" "ob_type e = ''NOTIFY_USER''"
    by (simp add: op_defs)
  obtain ev where "t_outbox (notify_offered now plan us ?s1) = t_outbox ?s1 @ ev"
    "\<forall>e\<in>set ev. ob_type e = ''NOTIFY_USER''" using Cons.IH by blast
  with e show ?case by (intro exI[of _ "e # ev"]) simp
qed simp

lemma offer_freed_seats_outbox:
  "\<exists>ev. t_outbox (fst (offer_freed_seats s now tnow plan)) = t_outbox s @ ev \<and> (\<forall>e\<in>set ev. ob_type e = ''NOTIFY_USER'')"
proof -
  have "\<exists>ev. t_outbox (make_offers s now tnow plan n) = t_outbox s @ ev \<and> (\<forall>e\<in>set ev. ob_type e = ''NOTIFY_USER'')" for n
    using notify_offered_outbox[of now plan _ "s\<lparr>t_waitlist := _\<rparr>"] by (simp add: make_offers_def Let_def)
  then show ?thesis by (auto simp: offer_freed_seats_def Let_def split: option.splits)
qed

lemma plan_by_id_bump:
  assumes "bump_confirmed s k d = (s', r)" "plan_by_id s j = Some p"
  obtains p' where "plan_by_id s' j = Some p'" "pl_starts p' = pl_starts p" "pl_capacity p' = pl_capacity p"
    "pl_status p' = pl_status p"
proof -
  show thesis
  proof (cases "plan_by_id s k = None")
    case True
    with assms that show ?thesis by (simp add: bump_confirmed_def)
  next
    case False
    then have s': "t_plans s' = upd (\<lambda>p. pl_id p = k) (\<lambda>p. p\<lparr>pl_confirmed := pl_confirmed p + d\<rparr>) (t_plans s)
        \<or> t_plans s' = t_plans s"
      using assms(1) by (auto simp: bump_confirmed_def split: if_splits)
    have "plan_by_id s' j = Some p \<or> plan_by_id s' j = Some (p\<lparr>pl_confirmed := pl_confirmed p + d\<rparr>)"
      using s' assms(2) by (auto simp: find_upd_key)
    then show ?thesis
    proof
      assume "plan_by_id s' j = Some p"
      then show ?thesis by (rule that) (rule refl)+
    next
      assume "plan_by_id s' j = Some (p\<lparr>pl_confirmed := pl_confirmed p + d\<rparr>)"
      then show ?thesis by (rule that) simp_all
    qed
  qed
qed

lemma offer_freed_seats_ok:
  "plan_by_id s plan = Some p \<Longrightarrow> snd (offer_freed_seats s now tnow plan) = Inr ()"
  by (simp add: offer_freed_seats_def Let_def)

lemma free_seat_ok:
  assumes "plan_by_id s (bk_plan b) = Some p" "pl_confirmed p \<le> pl_capacity p"
  obtains s' ev where "free_seat s now tnow b reason by_host = (s', Inr ())"
    "t_bookings s' = t_bookings s" "map pl_id (t_plans s') = map pl_id (t_plans s)"
    "t_outbox s' = t_outbox s @ ev @ [\<lparr>ob_type = ''BOOKING_CANCELLED'', ob_subject = bk_id b,
        ob_payload = CancelPayload (bk_id b) (bk_plan b) (bk_user b) reason
          (Some (refund_percent (pl_starts p) tnow by_host)), ob_created = now, ob_published = None\<rparr>]"
    "\<forall>e\<in>set ev. ob_type e = ''NOTIFY_USER''"
proof -
  obtain s1 where s1: "bump_confirmed s (bk_plan b) (- 1) = (s1, Inr ())"
    using assms by (simp add: bump_confirmed_def)
  then have ob: "t_outbox s1 = t_outbox s" using assms by (auto simp: bump_confirmed_def split: if_splits)
  let ?s1 = "s1\<lparr>t_participants := upd (\<lambda>r. pp_booking r = Some (bk_id b))
                  (\<lambda>r. r\<lparr>pp_status := PartCancelled\<rparr>) (t_participants s1)\<rparr>"
  obtain p' where "plan_by_id ?s1 (bk_plan b) = Some p'"
    by (rule plan_by_id_bump[OF s1 assms(1)]) simp
  then obtain s2 where s2: "offer_freed_seats ?s1 now tnow (bk_plan b) = (s2, Inr ())"
    using offer_freed_seats_ok by (metis prod.collapse)
  obtain ev where ev: "t_outbox s2 = t_outbox ?s1 @ ev" "\<forall>e\<in>set ev. ob_type e = ''NOTIFY_USER''"
    using offer_freed_seats_outbox[of ?s1 now tnow "bk_plan b"] s2 by auto
  have fr: "outside_waitlist s2 = outside_waitlist ?s1"
    using offer_freed_seats_frame[of ?s1 now tnow "bk_plan b"] s2 by simp
  have "t_bookings s2 = t_bookings s" "map pl_id (t_plans s2) = map pl_id (t_plans s)"
    using outside_waitlist_eqD(1,2)[OF fr] bump_confirmed_frame(1,7)[OF s1] by simp_all
  moreover let ?s' = "enqueue s2 now ''BOOKING_CANCELLED'' (bk_id b) (CancelPayload (bk_id b) (bk_plan b) (bk_user b) reason
               (Some (refund_percent (pl_starts p) tnow by_host)))"
  have "free_seat s now tnow b reason by_host = (?s', Inr ())"
    using assms(1) s1 s2 by (simp only: free_seat_def option.case and_then_simps)
  ultimately show thesis
    using ev ob by (intro that[of ?s' ev]) (simp_all add: enqueue_def)
qed

lemma cancel_confirmed_effect:
  assumes "bookings_inv s" "booking_by_id s bid = Some b" "bk_status b = Confirmed"
    and "plan_by_id s (bk_plan b) = Some p"
  obtains s' out ev where "cancel s now tnow bid reason by_host = (s', Inr out)"
    "t_bookings s' = upd (\<lambda>r. bk_id r = bid) (set_status Cancelled now) (t_bookings s)"
    "map pl_id (t_plans s') = map pl_id (t_plans s)"
    "t_outbox s' = t_outbox s @ ev @ [\<lparr>ob_type = ''BOOKING_CANCELLED'', ob_subject = bid,
        ob_payload = CancelPayload bid (bk_plan b) (bk_user b) reason
          (Some (if by_host \<or> tnow + 24 * hour \<le> pl_starts p then 100 else 0)),
        ob_created = now, ob_published = None\<rparr>]"
    "\<forall>e\<in>set ev. ob_type e = ''NOTIFY_USER''"
proof -
  note b = booking_by_idD[OF assms(2)]
  let ?s1 = "s\<lparr>t_bookings := upd (\<lambda>r. bk_id r = bid) (set_status Cancelled now) (t_bookings s)\<rparr>"
  let ?b = "set_status Cancelled now b"
  have cap: "pl_confirmed p \<le> pl_capacity p"
    using inv_seats[OF assms(1)] plan_by_idD(1)[OF assms(4)] by (auto simp: seats_ok_def)
  have plan: "plan_by_id ?s1 (bk_plan ?b) = Some p" using assms(4) by simp
  have percent: "refund_percent (pl_starts p) tnow by_host
      = (if by_host \<or> tnow + 24 * hour \<le> pl_starts p then 100 else 0)"
    by (auto simp: refund_percent_def refund_full_hours_def)
  show thesis
  proof (rule free_seat_ok[OF plan cap])
    fix s' ev
    assume s': "free_seat ?s1 now tnow ?b reason by_host = (s', Inr ())"
    assume rest: "t_bookings s' = t_bookings ?s1" "map pl_id (t_plans s') = map pl_id (t_plans ?s1)"
      "t_outbox s' = t_outbox ?s1 @ ev @ [\<lparr>ob_type = ''BOOKING_CANCELLED'', ob_subject = bk_id ?b,
        ob_payload = CancelPayload (bk_id ?b) (bk_plan ?b) (bk_user ?b) reason
          (Some (refund_percent (pl_starts p) tnow by_host)), ob_created = now, ob_published = None\<rparr>]"
      "\<forall>e\<in>set ev. ob_type e = ''NOTIFY_USER''"
    have "cancel s now tnow bid reason by_host = (s', Inr (scan_returning ?b))"
      using assms(2,3) s' by (simp add: cancel_def Let_def)
    then show thesis by (rule that) (use rest b(2) percent in simp_all)
  qed
qed

text \<open>
  C5. Cancelling a confirmed booking always succeeds, gives its seat back, and writes
  exactly one refund request for it, with the percentage of the policy: everything when
  the host cancels or the plan is at least 24 hours away, nothing otherwise. A second
  cancellation of the same booking is refused and writes nothing, so a booking is never
  refunded twice by cancelling twice.
\<close>

theorem cancel_frees_seat_and_refunds_once:
  assumes "bookings_inv s" "booking_by_id s bid = Some b" "bk_status b = Confirmed"
    and "plan_by_id s (bk_plan b) = Some p"
  shows "\<exists>s' out ev. cancel s now tnow bid reason by_host = (s', Inr out)
    \<and> seat_count s' (bk_plan b) = seat_count s (bk_plan b) - 1
    \<and> t_outbox s' = t_outbox s @ ev @ [\<lparr>ob_type = ''BOOKING_CANCELLED'', ob_subject = bid,
        ob_payload = CancelPayload bid (bk_plan b) (bk_user b) reason
          (Some (if by_host \<or> tnow + 24 * hour \<le> pl_starts p then 100 else 0)),
        ob_created = now, ob_published = None\<rparr>]
    \<and> (\<forall>e\<in>set ev. ob_type e = ''NOTIFY_USER'')
    \<and> cancel s' now' tnow' bid reason' by_host' = (s', Inl Bookings_BookingNotFound)"
proof (rule cancel_confirmed_effect[OF assms])
  fix s' out ev
  assume c: "cancel s now tnow bid reason by_host = (s', Inr out)"
    and t: "t_bookings s' = upd (\<lambda>r. bk_id r = bid) (set_status Cancelled now) (t_bookings s)"
    and o: "t_outbox s' = t_outbox s @ ev @ [\<lparr>ob_type = ''BOOKING_CANCELLED'', ob_subject = bid,
        ob_payload = CancelPayload bid (bk_plan b) (bk_user b) reason
          (Some (if by_host \<or> tnow + 24 * hour \<le> pl_starts p then 100 else 0)),
        ob_created = now, ob_published = None\<rparr>]" "\<forall>e\<in>set ev. ob_type e = ''NOTIFY_USER''"
  have "booking_by_id s' bid = Some (set_status Cancelled now b)"
    unfolding t using assms(2) find_key(2)[OF assms(2)] by (subst find_upd_key) simp_all
  then have "cancel s' now' tnow' bid reason' by_host' = (s', Inl Bookings_BookingNotFound)"
    by (simp add: cancel_def)
  moreover have "seat_count s' (bk_plan b) = seat_count s (bk_plan b) - 1"
    using seat_count_upd[OF inv_wf[OF assms(1)] booking_by_idD[OF assms(2)], of "set_status Cancelled now" "bk_plan b"]
      t assms(3) by (simp add: seat_count_def)
  ultimately show ?thesis using c o by blast
qed

lemma cancel_frees_seat_and_refunds_once_witness:
  "\<exists>s'. t_outbox s' \<noteq> [] \<and> cancel s' 9 9 ''b'' ''again'' False = (s', Inl Bookings_BookingNotFound)"
proof -
  let ?s = "empty_db\<lparr>t_plans := [sample_plan\<lparr>pl_confirmed := 1\<rparr>], t_bookings := [sample_booking]\<rparr>"
  have "bookings_inv ?s" by (simp add: bookings_inv_def wf_db_def seats_ok_def seat_count_def samples)
  from cancel_frees_seat_and_refunds_once[OF this, of "''b''" sample_booking "sample_plan\<lparr>pl_confirmed := 1\<rparr>"
      5 5 "''r''" False 9 9 "''again''" False]
  show ?thesis by (force simp: samples)
qed

section \<open>A cancelled plan\<close>

definition full_refund_requested :: "db \<Rightarrow> string \<Rightarrow> bool" where
  "full_refund_requested s bid \<longleftrightarrow>
     (\<exists>e\<in>set (t_outbox s). ob_type e = ''BOOKING_CANCELLED'' \<and> ob_subject e = bid
        \<and> (\<exists>plan user reason. ob_payload e = CancelPayload bid plan user reason (Some 100)))"

lemma upd_cancel_insert:
  assumes "i \<notin> I"
  shows "upd (\<lambda>r. bk_id r \<in> I) (set_status Cancelled now) (upd (\<lambda>r. bk_id r = i) (set_status Cancelled now) bs)
       = upd (\<lambda>r. bk_id r = i \<or> bk_id r \<in> I) (set_status Cancelled now) bs"
  using assms by (induction bs) auto

lemma cancel_loop:
  assumes "bookings_inv s" "distinct ids" "plan \<in> pl_id ` set (t_plans s)"
    and "\<forall>i\<in>set ids. i \<noteq> '''' \<and> (\<exists>b. booking_by_id s i = Some b \<and> bk_status b = Confirmed \<and> bk_plan b = plan)"
  shows "\<exists>s'. for_each (cancel_core now tnow reason True) ids s = (s', Inr ())
    \<and> t_bookings s' = upd (\<lambda>r. bk_id r \<in> set ids) (set_status Cancelled now) (t_bookings s)
    \<and> (\<forall>i\<in>set ids. full_refund_requested s' i) \<and> set (t_outbox s) \<subseteq> set (t_outbox s')"
  using assms
proof (induction ids arbitrary: s)
  case Nil
  then show ?case by (simp add: upd_def)
next
  case (Cons i ids)
  obtain b where b: "booking_by_id s i = Some b" "bk_status b = Confirmed" "bk_plan b = plan"
    using Cons.prems(4) by auto
  obtain p where p: "plan_by_id s (bk_plan b) = Some p"
    using Cons.prems(3) b(3) by (cases "plan_by_id s plan") (auto simp: find_None)
  show ?case
  proof (rule cancel_confirmed_effect[OF Cons.prems(1) b(1,2) p, of now tnow reason True])
    fix s1 out ev
    assume c: "cancel s now tnow i reason True = (s1, Inr out)"
      and t: "t_bookings s1 = upd (\<lambda>r. bk_id r = i) (set_status Cancelled now) (t_bookings s)"
      and pl: "map pl_id (t_plans s1) = map pl_id (t_plans s)"
      and ob: "t_outbox s1 = t_outbox s @ ev @ [\<lparr>ob_type = ''BOOKING_CANCELLED'', ob_subject = i,
        ob_payload = CancelPayload i (bk_plan b) (bk_user b) reason
          (Some (if True \<or> tnow + 24 * hour \<le> pl_starts p then 100 else 0)),
        ob_created = now, ob_published = None\<rparr>]"
    have "bookings_inv s1" using cancel_inv[OF Cons.prems(1), of now tnow i reason True] c by simp
    moreover have "plan \<in> pl_id ` set (t_plans s1)" using Cons.prems(3) pl by (metis set_map)
    moreover have "\<forall>j\<in>set ids. j \<noteq> '''' \<and> (\<exists>b. booking_by_id s1 j = Some b \<and> bk_status b = Confirmed \<and> bk_plan b = plan)"
    proof
      fix j assume j: "j \<in> set ids"
      then obtain b' where b': "booking_by_id s j = Some b'" "bk_status b' = Confirmed" "bk_plan b' = plan" "j \<noteq> ''''"
        using Cons.prems(4) by auto
      have "booking_by_id s1 j = Some b'"
        unfolding t using b'(1) find_key(2)[OF b'(1)] j Cons.prems(2) by (subst find_upd_key) auto
      with b' show "j \<noteq> '''' \<and> (\<exists>b. booking_by_id s1 j = Some b \<and> bk_status b = Confirmed \<and> bk_plan b = plan)"
        by simp
    qed
    ultimately obtain s' where s': "for_each (cancel_core now tnow reason True) ids s1 = (s', Inr ())"
      "t_bookings s' = upd (\<lambda>r. bk_id r \<in> set ids) (set_status Cancelled now) (t_bookings s1)"
      "\<forall>i\<in>set ids. full_refund_requested s' i" "set (t_outbox s1) \<subseteq> set (t_outbox s')"
      using Cons.IH[of s1] Cons.prems(2) by auto
    have "full_refund_requested s1 i" by (auto simp: full_refund_requested_def ob)
    then have "full_refund_requested s' i" using s'(4) by (auto simp: full_refund_requested_def)
    moreover have "for_each (cancel_core now tnow reason True) (i # ids) s = (s', Inr ())"
      using c s'(1) Cons.prems(4) by (simp add: cancel_core_def)
    moreover have "t_bookings s' = upd (\<lambda>r. bk_id r \<in> set (i # ids)) (set_status Cancelled now) (t_bookings s)"
      using s'(2) t upd_cancel_insert[of i "set ids" now] Cons.prems(2) by simp
    ultimately show ?case using s'(3,4) ob by auto
  qed
qed

lemma confirmed_ids:
  assumes "wf_db s"
  shows "distinct (list_confirmed_booking_ids s plan)"
    "i \<in> set (list_confirmed_booking_ids s plan) \<longleftrightarrow>
       (\<exists>b. booking_by_id s i = Some b \<and> bk_status b = Confirmed \<and> bk_plan b = plan)"
proof -
  note d = wf_dbD(2)[OF assms]
  show "distinct (list_confirmed_booking_ids s plan)"
    unfolding list_confirmed_booking_ids_def using d by (rule distinct_map_filter)
  show "i \<in> set (list_confirmed_booking_ids s plan) \<longleftrightarrow>
       (\<exists>b. booking_by_id s i = Some b \<and> bk_status b = Confirmed \<and> bk_plan b = plan)" (is "?l = ?r")
  proof
    assume ?l
    then obtain b where "b \<in> set (t_bookings s)" "bk_id b = i" "bk_status b = Confirmed" "bk_plan b = plan"
      by (auto simp: list_confirmed_booking_ids_def)
    with find_key_unique[OF d, of b i] show ?r by simp
  next
    assume ?r
    then obtain b where "booking_by_id s i = Some b" "bk_status b = Confirmed" "bk_plan b = plan" by blast
    with find_key[of bk_id i "t_bookings s" b] show ?l by (auto simp: list_confirmed_booking_ids_def)
  qed
qed

text \<open>
  C8. When a plan is cancelled, the fan-out reaches everybody: \<open>CancelAllForPlan\<close> runs to
  its end, afterwards no booking of the plan is confirmed, and for every booking that was
  there is an event asking for a full refund, whatever the hour.
\<close>

theorem cancel_all_refunds_everyone:
  assumes "bookings_inv s" "plan \<in> pl_id ` set (t_plans s)" "\<forall>b\<in>set (t_bookings s). bk_id b \<noteq> ''''"
  shows "\<exists>s'. cancel_all_for_plan s now tnow plan reason = (s', Inr ())
    \<and> list_confirmed_booking_ids s' plan = []
    \<and> (\<forall>b\<in>set (t_bookings s). bk_plan b = plan \<and> bk_status b = Confirmed \<longrightarrow> full_refund_requested s' (bk_id b))"
proof -
  let ?ids = "list_confirmed_booking_ids s plan"
  note ids = confirmed_ids(1)[OF inv_wf[OF assms(1)], of plan] confirmed_ids(2)[OF inv_wf[OF assms(1)], of _ plan]
  have ne: "i \<noteq> ''''" if "i \<in> set ?ids" for i
    using that assms(3) by (auto simp: list_confirmed_booking_ids_def)
  have "\<forall>i\<in>set ?ids. i \<noteq> '''' \<and> (\<exists>b. booking_by_id s i = Some b \<and> bk_status b = Confirmed \<and> bk_plan b = plan)"
    using ne ids(2) by blast
  then obtain s' where s': "for_each (cancel_core now tnow reason True) ?ids s = (s', Inr ())"
      "t_bookings s' = upd (\<lambda>r. bk_id r \<in> set ?ids) (set_status Cancelled now) (t_bookings s)"
      "\<forall>i\<in>set ?ids. full_refund_requested s' i"
    using cancel_loop[OF assms(1) ids(1) assms(2), of now tnow reason] by blast
  have "list_confirmed_booking_ids s' plan = []"
    by (auto simp: list_confirmed_booking_ids_def s'(2) filter_empty_conv elim!: upd_memE)
  then show ?thesis
    using s' by (auto simp: cancel_all_for_plan_def list_confirmed_booking_ids_def)
qed

lemma cancel_all_refunds_everyone_witness:
  "\<exists>s'. cancel_all_for_plan (empty_db\<lparr>t_plans := [sample_plan\<lparr>pl_confirmed := 1\<rparr>], t_bookings := [sample_booking]\<rparr>)
      5 5 ''p'' ''rain'' = (s', Inr ()) \<and> full_refund_requested s' ''b''"
proof -
  let ?s = "empty_db\<lparr>t_plans := [sample_plan\<lparr>pl_confirmed := 1\<rparr>], t_bookings := [sample_booking]\<rparr>"
  have "bookings_inv ?s" by (simp add: bookings_inv_def wf_db_def seats_ok_def seat_count_def samples)
  from cancel_all_refunds_everyone[OF this, of "''p''" 5 5 "''rain''"]
  show ?thesis by (force simp: samples)
qed

section \<open>Passes\<close>

lemma get_pass_info_Inr:
  assumes "booking_by_id s bid = Some b" "plan_by_id s (bk_plan b) = Some p"
  obtains i where "get_pass_info s bid = Inr i" "pi_booking i = bid" "pi_user i = bk_user b"
    "pi_status i = bk_status b" "pi_starts i = pl_starts p" "pi_ends i = pl_ends p" "pi_host i = pl_host p"
  using assms find_key(2)[OF assms(1)] that by (simp add: get_pass_info_def)

lemma check_in_refused:
  assumes "booking_by_id s bid = Some b" "bk_status b \<noteq> Confirmed"
  shows "check_in s now bid caller = (s, Inl Bookings_BookingNotFound)"
  using assms by (simp add: check_in_def)

text \<open>
  C9. A pass admits once. The pass its owner fetched for a confirmed booking is accepted
  from the plan's host (or an admin) anywhere in the check-in window and marks the booking
  attended; after that, scanning any pass of this booking again - by anybody, at any time -
  is refused and changes nothing.
\<close>

theorem pass_admits_once:
  assumes "dot_free mac" "secret \<noteq> []" "CHR ''.'' \<notin> set bid" "bid \<noteq> ''''"
    and "booking_by_id s bid = Some b" "bk_status b = Confirmed" "bk_user b \<noteq> ''''"
    and "plan_by_id s (bk_plan b) = Some p"
    and "caller \<noteq> ''''" "caller = pl_host p \<or> is_admin_role role"
    and "pl_starts p - 2 * hour \<le> tnow" "tnow \<le> plan_end (pl_starts p) (pl_ends p) + hour"
    and "- (2 ^ 63) \<le> unix (plan_end (pl_starts p) (pl_ends p) + hour)"
        "unix (plan_end (pl_starts p) (pl_ends p) + hour) < 2 ^ 63"
  shows "\<exists>i pass until s' out name.
     get_pass mac secret s bid (bk_user b) = Inr (i, pass, until)
     \<and> scan_pass mac secret s now tnow pass caller role = (s', Inr (out, name))
     \<and> b_id out = bid \<and> b_status out = Attended
     \<and> (\<forall>pass' now' tnow' caller' role'. verify_pass mac secret pass' tnow' = Inr bid \<longrightarrow>
          fst (scan_pass mac secret s' now' tnow' pass' caller' role') = s'
          \<and> (\<exists>e. snd (scan_pass mac secret s' now' tnow' pass' caller' role') = Inl e))"
proof (rule get_pass_info_Inr[OF assms(5,8)])
  fix i
  assume i: "get_pass_info s bid = Inr i" "pi_booking i = bid" "pi_user i = bk_user b"
    "pi_status i = bk_status b" "pi_starts i = pl_starts p" "pi_ends i = pl_ends p" "pi_host i = pl_host p"
  let ?until = "plan_end (pl_starts p) (pl_ends p) + hour"
  let ?pass = "sign_pass mac secret bid ?until"
  let ?f = "\<lambda>r. r\<lparr>bk_status := Attended, bk_checked_in := Some now, bk_updated := now\<rparr>"
  have closes: "check_in_closes_after = hour" "check_in_opens_before = 2 * hour" by (simp_all add: time_defs)
  have get: "get_pass mac secret s bid (bk_user b) = Inr (i, ?pass, ?until)"
    using assms(2,4,6,7) i by (simp add: get_pass_def closes Let_def)
  have "unix tnow \<le> unix ?until" using assms(12) by (simp add: unix_def second_def zdiv_mono1)
  then have verify: "verify_pass mac secret ?pass tnow = Inr bid"
    using verify_sign[OF assms(1,3,4,13,14), of secret tnow] by simp
  obtain s' where s': "check_in s now bid caller = (s', Inr (scan_returning (?f b)))"
    "t_bookings s' = upd (\<lambda>r. bk_id r = bid) ?f (t_bookings s)"
    using assms(5,6) by (simp add: check_in_def Let_def)
  have scan: "scan_pass mac secret s now tnow ?pass caller role
      = (s', Inr (scan_returning (?f b), pi_attendee i))"
    using assms(2,9,10,11,12) verify i s'(1) by (auto simp: scan_pass_def closes sign_pass_def)
  have "booking_by_id s' bid = Some (?f b)"
    unfolding s'(2) using assms(5) find_key(2)[OF assms(5)] by (subst find_upd_key) simp_all
  then have "check_in s' now' bid caller' = (s', Inl Bookings_BookingNotFound)" for now' caller'
    by (rule check_in_refused) simp
  then have "verify_pass mac secret pass' tnow' = Inr bid \<Longrightarrow>
      fst (scan_pass mac secret s' now' tnow' pass' caller' role') = s'
          \<and> (\<exists>e. snd (scan_pass mac secret s' now' tnow' pass' caller' role') = Inl e)"
    for pass' now' tnow' caller' role'
    by (auto simp: scan_pass_def split: sum.splits)
  then show ?thesis
    using get scan find_key(2)[OF assms(5)]
    by (intro exI[of _ i] exI[of _ ?pass] exI[of _ ?until] exI[of _ s'] exI[of _ "scan_returning (?f b)"]
        exI[of _ "pi_attendee i"]) (simp add: scan_returning_def scan_booking_def)
qed

lemma pass_admits_once_witness:
  "\<exists>pass s' out name. scan_pass (\<lambda>k b. ''mac'') ''key''
      (empty_db\<lparr>t_plans := [sample_plan], t_bookings := [sample_booking]\<rparr>) 1001000000000000 1001000000000000
      pass ''h'' ''user'' = (s', Inr (out, name)) \<and> b_status out = Attended"
proof -
  let ?s = "empty_db\<lparr>t_plans := [sample_plan], t_bookings := [sample_booking]\<rparr>"
  have "dot_free (\<lambda>k b. ''mac'')" by (simp add: dot_free_def)
  from pass_admits_once[OF this, of "''key''" "''b''" ?s sample_booking sample_plan "''h''" "''user''"
      1001000000000000 1001000000000000]
  show ?thesis by (force simp: samples plan_end_def time_defs unix_def is_admin_role_def)
qed

section \<open>Charges\<close>

lemma fee_total:
  assumes "0 \<le> price" "price \<le> 2 ^ 62"
  shows "int64 (price + service_fee price) = price + min (price div 20) 4900"
proof -
  have "price < 2 ^ 63" using assms(2) by simp
  note fee = service_fee_is[OF assms(1) this]
  have "0 \<le> min (price div 20) 4900" "min (price div 20) 4900 \<le> 4900" using assms(1) by auto
  then show ?thesis using assms unfolding fee by (intro int64_id) auto
qed

text \<open>
  The charge is the quote. What \<open>GetBookingCharge\<close> tells the payment service for a
  booking just made is the total \<open>QuoteBooking\<close> showed for the plan: its price plus five
  percent, rounded down, at most 49.00, owed by whoever booked.
\<close>

theorem charge_matches_quote:
  assumes "create s now tnow nid plan user idem = (s', Inr b)" "b_id b \<notin> bk_id ` set (t_bookings s)"
    and "plan_by_id s plan = Some p" "0 \<le> pl_price p" "pl_price p \<le> 2 ^ 62"
    and "plan \<noteq> ''''" "user \<noteq> ''''" "nid \<noteq> ''''" "wf_db s"
  shows "\<exists>q. quote_booking s now plan user = Inr q
    \<and> q_total q = pl_price p + min (pl_price p div 20) 4900
    \<and> get_booking_charge s' nid = Inr (user, q_total q, q_currency q, b_status b)"
proof -
  let ?r = "new_booking now nid p user idem (b_status b) (b_hold b)"
  have hit: "b_id b = nid \<and> booking_by_id s' nid = Some ?r"
    using assms(1)
  proof (cases rule: create_cases)
    case (1 p')
    then have [simp]: "p' = p" using assms(3) by simp
    from 1(7) show ?thesis
    proof (cases rule: hold_seat_cases)
      case (1 r)
      then have "b_id b \<in> bk_id ` set (t_bookings s)" by (auto simp: find_Some_iff scan_booking_def)
      with assms(2) show ?thesis by simp
    next
      case (2 r)
      have "bk_id x \<noteq> nid" if "x \<in> set (upd (own_pending (pl_id p') user) (set_status Cancelled now) (t_bookings s))" for x
        using that 2 assms(2) by (elim upd_memE) (auto simp: scan_booking_def)
      then show ?thesis using 2 by (simp add: find_append_skip scan_booking_def)
    qed
  next
    case (2 p')
    then have [simp]: "p' = p" using assms(3) by simp
    note e = book_free_seat_effect[OF 2(7)]
    have "bk_id x \<noteq> nid" if "x \<in> set (t_bookings s)" for x
      using that assms(2) e(5) by (auto simp: scan_booking_def)
    then show ?thesis using e by (simp add: find_append_skip scan_booking_def)
  qed
  have "get_booking_charge s' nid = Inr (user, pl_price p + min (pl_price p div 20) 4900, pl_currency p, b_status b)"
    using hit assms(8) by (simp add: get_booking_charge_def service_get_booking_def get_booking_def
        scan_booking_def fee_total[OF assms(4,5)])
  moreover obtain q where "quote_booking s now plan user = Inr q" "q_currency q = pl_currency p"
      "q_total q = pl_price p + min (pl_price p div 20) 4900"
    using assms(3,6,7) fee_total[OF assms(4,5)] by (simp add: quote_booking_def get_plan_pricing_def Let_def)
  ultimately show ?thesis by auto
qed

lemma charge_matches_quote_witness:
  "\<exists>s'. get_booking_charge s' ''b1'' = Inr (''u'', 52500, ''INR'', PaymentPending)"
proof -
  let ?p = "sample_plan\<lparr>pl_price := 50000\<rparr>"
  let ?s = "empty_db\<lparr>t_plans := [?p]\<rparr>"
  obtain s' b where c: "create ?s 10 10 ''b1'' ''p'' ''u'' '''' = (s', Inr b)" "b_id b = ''b1''"
      "b_status b = PaymentPending"
    by (simp add: op_defs samples new_booking_def active_holds_def scan_booking_def idem_taken_def
        coalesce_def nullif_def)
  have "wf_db ?s" by (simp add: wf_db_def samples)
  moreover have "quote_booking ?s 10 ''p'' ''u'' = Inr q \<Longrightarrow> q_currency q = ''INR''" for q
    by (auto simp: quote_booking_def get_plan_pricing_def samples Let_def)
  ultimately show ?thesis
    using charge_matches_quote[OF c(1), of ?p] c by (auto simp: samples)
qed

section \<open>Where the code and its documentation part\<close>

text \<open>
  The key is spent before the seat is found: a caller refused because the plan is full is
  refused again on retrying with the same key, with another error, also when a seat is
  free by then.
\<close>

lemma create_error_state:
  "snd (create s now tnow nid plan user idem) = Inl e \<Longrightarrow> fst (create s now tnow nid plan user idem) = s"
  by (auto simp: create_def in_tx_def split: option.splits sum.splits)

lemma full_plan_burns_key:
  assumes "check_access ent s plan user = Inr ()" "plan \<noteq> ''''" "user \<noteq> ''''" "key \<noteq> ''''"
    and "\<not> redis_live s tnow (''idempotency:'' @ key)" "tnow' < tnow + lock_ttl"
    and "create_booking ent s now tnow nid plan user key = (s', Inl Bookings_PlanFull)"
    and "check_access ent s' plan user = Inr ()"
  shows "create_booking ent s' now' tnow' nid' plan user key = (s', Inl Idempotency_DuplicateRequest)"
proof -
  let ?s1 = "s\<lparr>t_redis := (''idempotency:'' @ key, tnow + lock_ttl) # t_redis s\<rparr>"
  have "create_booking ent s now tnow nid plan user key = create ?s1 now tnow nid plan user key"
    using assms(1-5) by (simp only: create_booking_def reserve_def if_False sum.case and_then_simps simp_thms)
  then have "s' = ?s1" using assms(7) create_error_state by (metis fst_conv snd_conv)
  then have "redis_live s' tnow' (''idempotency:'' @ key)" using assms(6) by (simp add: redis_live_def)
  then show ?thesis
    using assms(2-4,8) by (simp only: create_booking_def reserve_def if_False if_True sum.case and_then_simps simp_thms)
qed

text \<open>
  The README promises a full refund when the host cancels, but a host who cancels one
  attendee's booking (\<open>CancelBookingAsUser\<close>) cancels under the attendee's policy.
\<close>

lemma host_cancel_within_a_day_refunds_nothing:
  assumes "bookings_inv s" "booking_by_id s bid = Some b" "bk_status b = Confirmed"
    and "plan_by_id s (bk_plan b) = Some p" "pl_starts p < tnow + 24 * hour" "bid \<noteq> ''''" "pl_host p \<noteq> ''''"
  shows "\<exists>s' out. cancel_booking_as_user s now tnow bid (pl_host p) role reason = (s', Inr out)
    \<and> (\<exists>e\<in>set (t_outbox s'). ob_subject e = bid
         \<and> ob_payload e = CancelPayload bid (bk_plan b) (bk_user b) reason (Some 0))"
proof (rule cancel_confirmed_effect[OF assms(1-4), of now tnow reason False])
  fix s' out ev
  assume c: "cancel s now tnow bid reason False = (s', Inr out)"
    and o: "t_outbox s' = t_outbox s @ ev @ [\<lparr>ob_type = ''BOOKING_CANCELLED'', ob_subject = bid,
        ob_payload = CancelPayload bid (bk_plan b) (bk_user b) reason
          (Some (if False \<or> tnow + 24 * hour \<le> pl_starts p then 100 else 0)),
        ob_created = now, ob_published = None\<rparr>]"
  have "cancel_booking_as_user s now tnow bid (pl_host p) role reason = cancel s now tnow bid reason False"
    using assms(2,4,6,7)
    by (simp add: cancel_booking_as_user_def service_get_booking_def get_booking_def scan_booking_def
        authorize_for_booking_def get_plan_host_id_def cancel_booking_def cancel_core_def)
  with c o assms(5) show ?thesis by auto
qed

end
