(* ===== verification/Lifecycle.thy ===== *)
theory Lifecycle
  imports Booking_Facts
begin

text \<open>
  The life of a booking: the jobs that complete ended plans and mark no-shows
  (\<^verbatim>\<open>internal/bookings/lifecycle.go\<close>), the status state machine, and the step relation of
  the booking package with the invariants of its reachable states.
\<close>

section \<open>The jobs\<close>

definition no_show_grace :: int where [time_defs]: "no_show_grace = 2 * hour"

fun enqueue_all :: "int \<Rightarrow> string \<Rightarrow> (string \<times> payload) list \<Rightarrow> db \<Rightarrow> db" where
  "enqueue_all now ev [] s = s"
| "enqueue_all now ev ((k, p) # xs) s = enqueue_all now ev xs (enqueue s now ev k p)"

definition ended :: "int \<Rightarrow> plan_row \<Rightarrow> bool" where
  "ended tnow p \<longleftrightarrow> pl_status p = Published \<and> pl_starts p < pl_ends p \<and> pl_ends p < tnow"

definition complete_ended_plans :: "db \<Rightarrow> int \<Rightarrow> int \<Rightarrow> (db, nat) outcome" where
  "complete_ended_plans s now tnow =
    (let done = filter (ended tnow) (t_plans s);
         s1 = s\<lparr>t_plans := upd (ended tnow) (\<lambda>p. p\<lparr>pl_status := Completed\<rparr>) (t_plans s)\<rparr>
     in (enqueue_all now ''PLAN_COMPLETED'' (map (\<lambda>p. (pl_id p, PlanPayload (pl_id p))) done) s1,
         Inr (length done)))"

definition scanned :: "db \<Rightarrow> string \<Rightarrow> bool" where
  "scanned s plan \<longleftrightarrow>
     (\<exists>c\<in>set (t_checkins s). \<exists>b\<in>set (t_bookings s). bk_id b = ci_booking c \<and> bk_plan b = plan)"

definition absent :: "db \<Rightarrow> int \<Rightarrow> booking_row \<Rightarrow> bool" where
  "absent s tnow b \<longleftrightarrow> bk_status b = Confirmed
     \<and> (\<exists>p\<in>set (t_plans s). pl_id p = bk_plan b \<and> pl_starts p < pl_ends p
          \<and> pl_ends p + no_show_grace < tnow \<and> scanned s (pl_id p))"

definition mark_no_shows :: "db \<Rightarrow> int \<Rightarrow> int \<Rightarrow> (db, nat) outcome" where
  "mark_no_shows s now tnow =
    (let marked = filter (absent s tnow) (t_bookings s);
         s1 = s\<lparr>t_bookings := upd (absent s tnow) (set_status NoShow now) (t_bookings s)\<rparr>
     in (enqueue_all now ''BOOKING_NO_SHOW''
           (map (\<lambda>b. (bk_id b, BookingPayload (bk_id b) (bk_plan b) (bk_user b))) marked) s1,
         Inr (length marked)))"

lemmas job_defs [op_defs] = complete_ended_plans_def mark_no_shows_def

lemma enqueue_all_frame [simp]:
  "t_plans (enqueue_all now ev xs s) = t_plans s" "t_bookings (enqueue_all now ev xs s) = t_bookings s"
  "t_participants (enqueue_all now ev xs s) = t_participants s" "t_waitlist (enqueue_all now ev xs s) = t_waitlist s"
  "t_orders (enqueue_all now ev xs s) = t_orders s" "t_payments (enqueue_all now ev xs s) = t_payments s"
  "t_refunds (enqueue_all now ev xs s) = t_refunds s"
  by (induction now ev xs s rule: enqueue_all.induct) simp_all

lemma enqueue_all_outbox:
  "t_outbox (enqueue_all now ev xs s) = t_outbox s @
     map (\<lambda>(k, p). \<lparr>ob_type = ev, ob_subject = k, ob_payload = p, ob_created = now, ob_published = None\<rparr>) xs"
  by (induction now ev xs s rule: enqueue_all.induct) (simp_all add: enqueue_def)

lemma complete_ended_plans_inv:
  assumes "bookings_inv s" shows "bookings_inv (fst (complete_ended_plans s now tnow))"
proof -
  let ?s' = "fst (complete_ended_plans s now tnow)"
  have plans: "t_plans ?s' = upd (ended tnow) (\<lambda>p. p\<lparr>pl_status := Completed\<rparr>) (t_plans s)"
    and b: "t_bookings ?s' = t_bookings s" by (simp_all add: complete_ended_plans_def Let_def)
  have "wf_db ?s'"
    by (rule wf_db_cong[OF inv_wf[OF assms]]) (simp_all add: complete_ended_plans_def Let_def map_upd)
  moreover have "seats_ok ?s'" unfolding seats_ok_def
  proof
    fix q assume "q \<in> set (t_plans ?s')"
    then obtain p where "p \<in> set (t_plans s)" "pl_id q = pl_id p" "pl_confirmed q = pl_confirmed p"
        "pl_capacity q = pl_capacity p"
      unfolding plans by (auto elim!: upd_memE)
    then show "pl_confirmed q = seat_count ?s' (pl_id q) \<and> pl_confirmed q \<le> pl_capacity q"
      using inv_seats[OF assms] b by (auto simp: seats_ok_def seat_count_def)
  qed
  ultimately show ?thesis by (simp add: bookings_inv_def)
qed

lemma mark_no_shows_inv:
  assumes "bookings_inv s" shows "bookings_inv (fst (mark_no_shows s now tnow))"
proof -
  let ?s1 = "s\<lparr>t_bookings := upd (absent s tnow) (set_status NoShow now) (t_bookings s)\<rparr>"
  let ?s' = "fst (mark_no_shows s now tnow)"
  have "bookings_inv ?s1"
    using assms by (auto simp: bookings_inv_def absent_def intro!: wf_upd_bookings seats_ok_unseated)
  moreover have "wf_db ?s'"
    by (rule wf_db_cong[OF inv_wf[OF assms]]) (simp_all add: mark_no_shows_def Let_def map_upd)
  ultimately show ?thesis by (rule bookings_inv_cong) (simp_all add: mark_no_shows_def Let_def)
qed

text \<open>
  Nobody is marked a no-show wrongly: \<open>MarkNoShows\<close> changes exactly the confirmed
  bookings of plans that ended more than two hours ago and whose host scanned at least
  one attendee; every other booking is left as it was, whoever checked in stays attended,
  and each one marked gets one \<open>BOOKING_NO_SHOW\<close> event.
\<close>

theorem no_show_only_after_scanning:
  fixes s :: db and now tnow :: int
  defines "s' \<equiv> fst (mark_no_shows s now tnow)"
  shows "length (t_bookings s') = length (t_bookings s)
    \<and> (\<forall>i < length (t_bookings s). let b = t_bookings s ! i; b' = t_bookings s' ! i in
         (b' \<noteq> b \<longrightarrow> bk_status b = Confirmed \<and> bk_status b' = NoShow
            \<and> (\<exists>p\<in>set (t_plans s). pl_id p = bk_plan b \<and> pl_ends p + 2 * hour < tnow)
            \<and> (\<exists>c\<in>set (t_checkins s). \<exists>a\<in>set (t_bookings s). bk_id a = ci_booking c \<and> bk_plan a = bk_plan b))
         \<and> (bk_status b = Attended \<longrightarrow> b' = b))
    \<and> map ob_subject (drop (length (t_outbox s)) (t_outbox s'))
        = map bk_id (filter (absent s tnow) (t_bookings s))"
proof -
  have t: "t_bookings s' = upd (absent s tnow) (set_status NoShow now) (t_bookings s)"
    by (simp add: s'_def mark_no_shows_def Let_def)
  have "drop (length (t_outbox s)) (t_outbox s') = map (\<lambda>b. \<lparr>ob_type = ''BOOKING_NO_SHOW'', ob_subject = bk_id b,
      ob_payload = BookingPayload (bk_id b) (bk_plan b) (bk_user b), ob_created = now, ob_published = None\<rparr>)
      (filter (absent s tnow) (t_bookings s))"
    by (simp add: s'_def mark_no_shows_def Let_def enqueue_all_outbox o_def)
  then have "map ob_subject (drop (length (t_outbox s)) (t_outbox s'))
        = map bk_id (filter (absent s tnow) (t_bookings s))" by (simp add: o_def)
  then show ?thesis
    by (auto simp: t Let_def upd_def absent_def scanned_def no_show_grace_def) blast
qed

lemma no_show_only_after_scanning_witness:
  "length (t_bookings (fst (mark_no_shows (empty_db\<lparr>t_plans := [sample_plan], t_bookings := [sample_booking]\<rparr>)
      (2 ^ 60) (2 ^ 60)))) = 1"
  using no_show_only_after_scanning[of "empty_db\<lparr>t_plans := [sample_plan], t_bookings := [sample_booking]\<rparr>" "2 ^ 60" "2 ^ 60"]
  by (simp add: Let_def)

section \<open>The status state machine\<close>

inductive edge :: "booking_status \<Rightarrow> booking_status \<Rightarrow> bool" where
  hold_ends: "edge PaymentPending Cancelled"
| pays: "edge PaymentPending Confirmed"
| pays_late: "edge Cancelled Confirmed"
| cancels: "edge Confirmed Cancelled"
| attends: "edge Confirmed Attended"
| misses: "edge Confirmed NoShow"

inductive_cases edge_from_attended: "edge Attended st"
inductive_cases edge_from_noshow: "edge NoShow st"
inductive_simps edge_simps: "edge a b"

lemma no_edge_from_final: "edge st st' \<Longrightarrow> st \<noteq> Attended \<and> st \<noteq> NoShow \<and> st \<noteq> Refunded"
  by (cases rule: edge.cases) auto

text \<open>What an operation may do to one row, and to the table: rows stay, new ones are appended.\<close>

definition row_step :: "booking_row \<Rightarrow> booking_row \<Rightarrow> bool" where
  "row_step r r' \<longleftrightarrow> bk_id r' = bk_id r \<and> bk_plan r' = bk_plan r \<and> bk_user r' = bk_user r
     \<and> bk_price r' = bk_price r \<and> bk_currency r' = bk_currency r
     \<and> (bk_status r' = bk_status r \<or> edge (bk_status r) (bk_status r'))"

definition evolves :: "db \<Rightarrow> db \<Rightarrow> bool" where
  "evolves s s' \<longleftrightarrow> (\<exists>bs new. t_bookings s' = bs @ new \<and> list_all2 row_step (t_bookings s) bs
     \<and> (\<forall>r\<in>set new. bk_status r = PaymentPending \<or> bk_status r = Confirmed))"

lemma row_step_refl [simp]: "row_step r r"
  by (simp add: row_step_def)

lemma evolves_same: "t_bookings s' = t_bookings s \<Longrightarrow> evolves s s'"
  by (simp add: evolves_def list_all2_refl exI[of _ "t_bookings s"])

lemma evolves_upd:
  assumes "t_bookings s' = upd P f (t_bookings s) @ new"
    and "\<And>r. r \<in> set (t_bookings s) \<Longrightarrow> P r \<Longrightarrow> row_step r (f r)"
    and "\<And>r. r \<in> set new \<Longrightarrow> bk_status r = PaymentPending \<or> bk_status r = Confirmed"
  shows "evolves s s'"
proof -
  have "list_all2 row_step (t_bookings s) (upd P f (t_bookings s))"
    using assms(2) by (auto simp: upd_def list_all2_conv_all_nth)
  with assms(1,3) show ?thesis by (auto simp: evolves_def)
qed

lemma evolves_snoc:
  assumes "t_bookings s' = t_bookings s @ [r]" "bk_status r = PaymentPending \<or> bk_status r = Confirmed"
  shows "evolves s s'"
  using assms by (intro evolves_upd[where P = "\<lambda>_. False" and f = id and new = "[r]"]) (simp_all add: upd_def)

lemma row_step_status:
  assumes "edge (bk_status r) st" shows "row_step r (set_status st now r)"
  using assms by (simp add: row_step_def set_status_def)

section \<open>Every operation follows the state machine\<close>

lemma create_evolves: "evolves s (fst (create s now tnow nid plan user idem))"
proof (cases "create s now tnow nid plan user idem")
  case (Pair s' r)
  show ?thesis
  proof (cases r)
    case (Inl e)
    with Pair create_error_state[of s now tnow nid plan user idem e] show ?thesis by (simp add: evolves_same)
  next
    case (Inr b)
    with Pair have c: "create s now tnow nid plan user idem = (s', Inr b)" by simp
    from c have "evolves s s'"
    proof (cases rule: create_cases)
      case (1 p)
      from 1(7) show ?thesis
      proof (cases rule: hold_seat_cases)
        case (2 r)
        then show ?thesis
          by (intro evolves_upd[where P = "own_pending (pl_id p) user" and f = "set_status Cancelled now" and new = "[r]"])
            (auto intro!: row_step_status hold_ends simp: own_pending_def)
      qed (simp add: evolves_same)
    next
      case (2 p)
      show ?thesis by (rule evolves_snoc[OF book_free_seat_effect(4)[OF 2(7)]]) simp
    qed
    with c show ?thesis by simp
  qed
qed

lemma confirm_paid_evolves:
  assumes wf: "wf_db s" shows "evolves s (fst (confirm_paid s now bid))"
proof (cases "\<exists>s'. confirm_paid s now bid = (s', Inr ())")
  case False
  then have "fst (confirm_paid s now bid) = s"
    by (auto simp: confirm_paid_def in_tx_def split: option.splits sum.splits if_splits) (metis prod.collapse)+
  then show ?thesis by (simp add: evolves_same)
next
  case True
  then obtain s' where c: "confirm_paid s now bid = (s', Inr ())" by blast
  obtain b where b: "booking_by_id s bid = Some b"
    using c by (auto simp: confirm_paid_def split: option.splits)
  show ?thesis
  proof (cases "bk_status b = Confirmed \<or> bk_status b = Attended")
    case True
    with c b show ?thesis by (simp add: confirm_paid_def evolves_same)
  next
    case False
    let ?f = "\<lambda>r. r\<lparr>bk_status := Confirmed, bk_expires := None, bk_updated := now\<rparr>"
    obtain s2 where s2: "seat_confirmed_booking (s\<lparr>t_bookings := upd (\<lambda>r. bk_id r = bid) ?f (t_bookings s)\<rparr>)
        now bid (bk_plan b) (bk_user b) = (s2, Inr ())"
      and s': "s' = notify_host s2 now (bk_plan b) (bk_user b)"
      and st: "bk_status b = PaymentPending \<or> bk_status b = Cancelled"
      using c b False
      by (auto simp: confirm_paid_def and_then_eq_Inr in_tx_eq_Inr split: option.splits if_splits)
    have "t_bookings s' = upd (\<lambda>r. bk_id r = bid) ?f (t_bookings s) @ []"
      using seat_confirmed_booking_effect(1)[OF s2] by (simp add: s')
    then have "evolves s s'"
    proof (rule evolves_upd)
      fix r assume "r \<in> set (t_bookings s)" "bk_id r = bid"
      then have "r = b" using key_inj[OF wf_dbD(2)[OF wf]] booking_by_idD[OF b] by metis
      with st show "row_step r (?f r)" by (auto simp: row_step_def edge_simps)
    qed simp
    with c show ?thesis by simp
  qed
qed

text \<open>An operation that changes the one booking with a given id, along an edge.\<close>

lemma evolves_one:
  assumes "wf_db s" "booking_by_id s bid = Some b" "row_step b (f b)"
    and "t_bookings s' = upd (\<lambda>r. bk_id r = bid) f (t_bookings s)"
  shows "evolves s s'"
proof (rule evolves_upd[where new = "[]"])
  show "t_bookings s' = upd (\<lambda>r. bk_id r = bid) f (t_bookings s) @ []" using assms(4) by simp
  fix r assume "r \<in> set (t_bookings s)" "bk_id r = bid"
  then have "r = b" using key_inj[OF wf_dbD(2)[OF assms(1)]] booking_by_idD[OF assms(2)] by metis
  with assms(3) show "row_step r (f r)" by simp
qed simp

lemma check_in_evolves:
  assumes wf: "wf_db s" shows "evolves s (fst (check_in s now bid u))"
proof (cases "\<exists>b. booking_by_id s bid = Some b \<and> bk_status b = Confirmed")
  case True
  then obtain b where b: "booking_by_id s bid = Some b" "bk_status b = Confirmed" by blast
  show ?thesis
    by (rule evolves_one[OF wf b(1), where f = "\<lambda>r. r\<lparr>bk_status := Attended, bk_checked_in := Some now, bk_updated := now\<rparr>"])
      (use b in \<open>simp_all add: check_in_def Let_def row_step_def edge_simps\<close>)
next
  case False
  then have "fst (check_in s now bid u) = s" by (auto simp: check_in_def split: option.splits)
  then show ?thesis by (simp add: evolves_same)
qed

lemma free_seat_bookings:
  assumes "free_seat s now tnow b reason by_host = (s', Inr u)"
  shows "t_bookings s' = t_bookings s"
  using assms
proof (cases rule: free_seat_cases)
  case (1 p s1 s2)
  have "t_bookings s2 = t_bookings s1"
    using outside_waitlist_eqD(2)[OF offer_freed_seats_frame, of "s1\<lparr>t_participants := upd (\<lambda>r. pp_booking r = Some (bk_id b))
        (\<lambda>r. r\<lparr>pp_status := PartCancelled\<rparr>) (t_participants s1)\<rparr>" now tnow "bk_plan b"] 1(3) by simp
  then show ?thesis using bump_confirmed_frame(1)[OF 1(2)] by (simp add: 1(4))
qed

lemma cancel_evolves:
  assumes wf: "wf_db s" shows "evolves s (fst (cancel s now tnow bid reason by_host))"
proof (cases "\<exists>b. booking_by_id s bid = Some b \<and> (bk_status b = Confirmed \<or> bk_status b = PaymentPending)")
  case True
  then obtain b where b: "booking_by_id s bid = Some b" "bk_status b = Confirmed \<or> bk_status b = PaymentPending"
    by blast
  let ?s1 = "s\<lparr>t_bookings := upd (\<lambda>r. bk_id r = bid) (set_status Cancelled now) (t_bookings s)\<rparr>"
  have t: "t_bookings (fst (cancel s now tnow bid reason by_host)) = t_bookings s
      \<or> t_bookings (fst (cancel s now tnow bid reason by_host)) = t_bookings ?s1"
  proof (cases "free_seat ?s1 now tnow (set_status Cancelled now b) reason by_host")
    case (Pair s2 r)
    then show ?thesis
      using b free_seat_bookings[of ?s1 now tnow "set_status Cancelled now b" reason by_host s2]
      by (cases r) (auto simp: cancel_def Let_def)
  qed
  have "edge (bk_status b) Cancelled" using b(2) by (auto simp: edge_simps)
  then have "evolves s s'" if "t_bookings s' = t_bookings ?s1" for s'
    using that row_step_status by (intro evolves_one[OF wf b(1)]) simp_all
  with t show ?thesis using evolves_same by blast
next
  case False
  then have "fst (cancel s now tnow bid reason by_host) = s" by (auto simp: cancel_def split: option.splits)
  then show ?thesis by (simp add: evolves_same)
qed

lemma expire_pending_evolves: "evolves s (fst (expire_pending s now tnow))"
  by (rule evolves_upd[where P = "pending_expired tnow" and f = "set_status Cancelled now" and new = "[]"])
    (auto simp: expire_pending_def pending_expired_def intro!: row_step_status hold_ends)

lemma mark_no_shows_evolves: "evolves s (fst (mark_no_shows s now tnow))"
  by (rule evolves_upd[where P = "absent s tnow" and f = "set_status NoShow now" and new = "[]"])
    (auto simp: mark_no_shows_def Let_def absent_def intro!: row_step_status misses)

section \<open>The steps of the booking package\<close>

text \<open>
  One constructor per repository transaction; the requests, the clocks and the ids drawn
  from \<open>gen_random_uuid()\<close> (fresh) are arbitrary.
\<close>

inductive booking_step :: "db \<Rightarrow> db \<Rightarrow> bool" where
  book: "nid \<notin> bk_id ` set (t_bookings s) \<Longrightarrow> booking_step s (fst (create s now tnow nid plan user idem))"
| pay: "booking_step s (fst (confirm_paid s now bid))"
| expire: "booking_step s (fst (expire_pending s now tnow))"
| cancelling: "booking_step s (fst (cancel s now tnow bid reason by_host))"
| checking_in: "booking_step s (fst (check_in s now bid user))"
| joining: "nid \<notin> wl_id ` set (t_waitlist s) \<Longrightarrow> booking_step s (fst (join_waitlist s now tnow nid plan user))"
| leaving: "booking_step s (fst (leave_waitlist s now tnow plan user))"
| sweeping: "booking_step s (fst (sweep_waitlist s now tnow))"
| closing: "booking_step s (expire_waitlist_for_plan s now plan)"
| completing: "booking_step s (fst (complete_ended_plans s now tnow))"
| no_shows: "booking_step s (fst (mark_no_shows s now tnow))"
| reserving: "booking_step s (fst (reserve s tnow key))"

lemma reserve_frame [simp]:
  "t_plans (fst (reserve s tnow key)) = t_plans s" "t_bookings (fst (reserve s tnow key)) = t_bookings s"
  "wf_db (fst (reserve s tnow key)) = wf_db s"
  by (simp_all add: reserve_def wf_db_def)

lemma booking_step_inv: "booking_step s s' \<Longrightarrow> bookings_inv s \<Longrightarrow> bookings_inv s'"
proof (induction rule: booking_step.induct)
  case (reserving s tnow key)
  then show ?case by (rule bookings_inv_cong) (simp_all add: inv_wf reserving)
qed (auto intro: create_inv confirm_paid_inv expire_pending_inv cancel_inv check_in_inv waitlist_ops_inv
      complete_ended_plans_inv mark_no_shows_inv)

lemma waitlist_evolves: "outside_waitlist s' = outside_waitlist s \<Longrightarrow> evolves s s'"
  by (intro evolves_same outside_waitlist_eqD(2))

lemma booking_step_evolves: "booking_step s s' \<Longrightarrow> wf_db s \<Longrightarrow> evolves s s'"
proof (induction rule: booking_step.induct)
  case (completing s now tnow)
  then show ?case by (intro evolves_same) (simp add: complete_ended_plans_def Let_def)
qed (simp_all add: create_evolves confirm_paid_evolves expire_pending_evolves cancel_evolves
      check_in_evolves waitlist_evolves mark_no_shows_evolves evolves_same)

abbreviation booking_run :: "db \<Rightarrow> db \<Rightarrow> bool" where "booking_run \<equiv> booking_step\<^sup>*\<^sup>*"

text \<open>
  C1. No overselling, ever: whatever sequence of bookings, payments, cancellations,
  check-ins, waitlist operations and jobs runs, every plan's \<open>confirmed_count\<close> is the
  number of its bookings that occupy a seat and never exceeds the capacity.
\<close>

theorem never_oversold:
  assumes "booking_run s s'" "bookings_inv s" "p \<in> set (t_plans s')"
  shows "pl_confirmed p = seat_count s' (pl_id p) \<and> seat_count s' (pl_id p) \<le> pl_capacity p"
proof -
  have "bookings_inv s'" using assms(1,2) by (induction rule: rtranclp_induct) (auto intro: booking_step_inv)
  with assms(3) show ?thesis by (fastforce simp: bookings_inv_def seats_ok_def)
qed

lemma never_oversold_witness:
  "seat_count (fst (create (empty_db\<lparr>t_plans := [sample_plan]\<rparr>) 5 5 ''b1'' ''p'' ''u'' '''')) ''p'' \<le> 2"
proof -
  let ?s = "empty_db\<lparr>t_plans := [sample_plan]\<rparr>"
  let ?s' = "fst (create ?s 5 5 ''b1'' ''p'' ''u'' '''')"
  have "booking_run ?s ?s'" by (rule r_into_rtranclp, rule book) (simp add: samples)
  moreover have "bookings_inv ?s" by (simp add: bookings_inv_def wf_db_def seats_ok_def seat_count_def samples)
  moreover have "sample_plan\<lparr>pl_confirmed := 1\<rparr> \<in> set (t_plans ?s')"
    by (simp add: op_defs samples new_booking_def active_holds_def idem_taken_def coalesce_def nullif_def
        upsert_participant_def bump_confirmed_def accept_waitlist_def)
  ultimately show ?thesis
    using never_oversold[of ?s ?s' "sample_plan\<lparr>pl_confirmed := 1\<rparr>"] by (simp add: sample_plan_def)
qed




end
