(* ===== verification/Payments.thy ===== *)
theory Payments
  imports Lifecycle
begin

text \<open>
  The payment tables (\<^verbatim>\<open>internal/payments/repository.go\<close>): orders, captured payments,
  refund attempts, the append-only reconciliation and credit ledgers, coupons. Each
  method is one statement or one transaction. The service is in \<open>Payment_Service\<close>.
\<close>

section \<open>The Go structs\<close>

record order =
  o_id :: string
  o_booking :: string
  o_amount :: int
  o_currency :: string
  o_gateway :: string
  o_status :: order_status

record payment =
  p_id :: string
  p_order :: string
  p_amount :: int
  p_currency :: string
  p_status :: payment_status

record refund =
  r_id :: string
  r_payment :: string
  r_amount :: int
  r_status :: refund_status

definition scan_order :: "order_row \<Rightarrow> order" where
  "scan_order r = \<lparr>o_id = or_id r, o_booking = or_booking r, o_amount = or_amount r,
     o_currency = or_currency r, o_gateway = coalesce (or_gateway r), o_status = or_status r\<rparr>"

definition scan_payment :: "payment_row \<Rightarrow> payment" where
  "scan_payment r = \<lparr>p_id = py_id r, p_order = py_order r, p_amount = py_amount r,
     p_currency = py_currency r, p_status = py_status r\<rparr>"

section \<open>Orders\<close>

definition set_gateway_order_id :: "db \<Rightarrow> string \<Rightarrow> string \<Rightarrow> db" where
  "set_gateway_order_id s oid gid =
     s\<lparr>t_orders := upd (\<lambda>r. or_id r = oid) (\<lambda>r. r\<lparr>or_gateway := Some gid\<rparr>) (t_orders s)\<rparr>"

definition unsettled :: "int \<Rightarrow> order_row \<Rightarrow> bool" where
  "unsettled now r \<longleftrightarrow> or_status r \<in> {OrderCreated, OrderCancelled} \<and> 0 < or_amount r
     \<and> or_created r < now - minute \<and> now - 6 * hour < or_created r"

definition unsettled_order_ids :: "db \<Rightarrow> int \<Rightarrow> nat \<Rightarrow> string list" where
  "unsettled_order_ids s now limit =
     map or_id (take limit (sort_key or_created (filter (unsettled now) (t_orders s))))"

definition find_order :: "db \<Rightarrow> string \<Rightarrow> go_error + order" where
  "find_order s oid =
    (case order_by_id s oid of None \<Rightarrow> Inl Payments_PaymentNotFound | Some r \<Rightarrow> Inr (scan_order r))"

definition mark_order_paid :: "db \<Rightarrow> string \<Rightarrow> db" where
  "mark_order_paid s oid =
     s\<lparr>t_orders := upd (\<lambda>r. or_id r = oid) (\<lambda>r. r\<lparr>or_status := OrderPaid\<rparr>) (t_orders s)\<rparr>"

section \<open>Captured payments\<close>

definition payment_by_gateway :: "db \<Rightarrow> string \<Rightarrow> payment_row option" where
  "payment_by_gateway s gid = find (\<lambda>r. py_gateway r = Some gid) (t_payments s)"

definition get_payment_by_gateway_id :: "db \<Rightarrow> string \<Rightarrow> go_error + payment" where
  "get_payment_by_gateway_id s gid =
    (case payment_by_gateway s gid of None \<Rightarrow> Inl Payments_PaymentNotFound | Some r \<Rightarrow> Inr (scan_payment r))"

text \<open>
  The insert checks \<^verbatim>\<open>amount_minor > 0\<close> first, then the unique gateway payment id; a
  violation of the latter is the replay path, which reads the recorded payment.
\<close>

definition repo_mark_captured ::
  "db \<Rightarrow> int \<Rightarrow> string \<Rightarrow> string \<Rightarrow> string \<Rightarrow> int \<Rightarrow> string \<Rightarrow> (db, payment) outcome" where
  "repo_mark_captured s now pid oid gid amount cur =
    (if amount \<le> 0 then (s, Inl DB_CheckViolation)
     else case payment_by_gateway s gid of
         Some r \<Rightarrow> (s, Inr (scan_payment r))
       | None \<Rightarrow>
           let r = \<lparr>py_id = pid, py_order = oid, py_amount = amount, py_currency = cur,
                    py_status = PayCaptured, py_gateway = Some gid, py_created = now\<rparr>
           in ((mark_order_paid s oid)\<lparr>t_payments := t_payments s @ [r],
                 t_recon := t_recon s @ [(''payment'', pid, amount)]\<rparr>, Inr (scan_payment r)))"

definition get_booking_user :: "db \<Rightarrow> string \<Rightarrow> go_error + (string \<times> string)" where
  "get_booking_user s bid =
    (case booking_by_id s bid of
       None \<Rightarrow> Inl DB_NoRows
     | Some b \<Rightarrow> (case find (\<lambda>u. us_id u = bk_user b) (t_users s) of
         None \<Rightarrow> Inl DB_NoRows | Some u \<Rightarrow> Inr (us_id u, us_email u)))"

definition repo_get_payment :: "db \<Rightarrow> string \<Rightarrow> go_error + payment" where
  "repo_get_payment s pid =
    (case payment_by_id s pid of None \<Rightarrow> Inl Payments_PaymentNotFound | Some r \<Rightarrow> Inr (scan_payment r))"

definition payment_owner :: "db \<Rightarrow> string \<Rightarrow> go_error + string" where
  "payment_owner s pid =
    (case payment_by_id s pid of
       None \<Rightarrow> Inl Payments_PaymentNotFound
     | Some r \<Rightarrow> (case order_by_id s (py_order r) of
         None \<Rightarrow> Inl Payments_PaymentNotFound
       | Some r' \<Rightarrow> (case booking_by_id s (or_booking r') of
           None \<Rightarrow> Inl Payments_PaymentNotFound | Some b \<Rightarrow> Inr (bk_user b))))"

definition captured_for :: "db \<Rightarrow> string \<Rightarrow> payment_row list" where
  "captured_for s bid =
     filter (\<lambda>r. py_status r = PayCaptured
               \<and> (case order_by_id s (py_order r) of None \<Rightarrow> False | Some r' \<Rightarrow> or_booking r' = bid))
       (t_payments s)"

text \<open>\<^verbatim>\<open>ORDER BY p.created_at DESC LIMIT 1\<close>\<close>

definition find_captured_payment :: "db \<Rightarrow> string \<Rightarrow> go_error + payment" where
  "find_captured_payment s bid =
    (case sort_key (\<lambda>r. - py_created r) (captured_for s bid) of
       [] \<Rightarrow> Inl Payments_PaymentNotFound | r # _ \<Rightarrow> Inr (scan_payment r))"

section \<open>Coupons and credits\<close>

definition live_promo :: "int \<Rightarrow> string \<Rightarrow> promo_row \<Rightarrow> bool" where
  "live_promo now code r \<longleftrightarrow> pc_code r = code \<and> pc_active r
     \<and> (case pc_expires r of None \<Rightarrow> True | Some e \<Rightarrow> now < e)"

definition discount :: "promo_row \<Rightarrow> int \<Rightarrow> int" where
  "discount r amount =
    (let d = (if pc_type r = ''fixed'' then pc_value r else int64 (amount * pc_value r) sdiv 100)
     in if amount < d then amount else d)"

definition reserve_coupon :: "db \<Rightarrow> int \<Rightarrow> string \<Rightarrow> int \<Rightarrow> (db, int) outcome" where
  "reserve_coupon s now code amount =
    (case find (live_promo now code) (t_promos s) of
       None \<Rightarrow> (s, Inl Payments_CouponInvalid)
     | Some r \<Rightarrow>
         let ok = (\<lambda>r'. pc_id r' = pc_id r \<and> (pc_max r' = 0 \<or> pc_uses r' < pc_max r')) in
         if \<not> list_ex ok (t_promos s) then (s, Inl Payments_CouponInvalid)
         else (s\<lparr>t_promos := upd ok (\<lambda>r'. r'\<lparr>pc_uses := pc_uses r' + 1\<rparr>) (t_promos s)\<rparr>,
               Inr (discount r amount)))"

definition get_credit_balance :: "db \<Rightarrow> string \<Rightarrow> int" where
  "get_credit_balance s user = tot (\<lambda>r. cl_user r = user) cl_amount (t_ledger s)"

definition create_order_with_credits ::
  "db \<Rightarrow> int \<Rightarrow> string \<Rightarrow> order \<Rightarrow> string \<Rightarrow> bool \<Rightarrow> (db, order \<times> int) outcome" where
  "create_order_with_credits s now oid ord user use_credits =
    (let balance = get_credit_balance s user;
         spent = (if use_credits \<and> 0 < balance
                  then (if o_amount ord < balance then o_amount ord else balance) else 0);
         amount = o_amount ord - spent;
         out = ord\<lparr>o_id := oid, o_amount := amount, o_status := OrderCreated\<rparr>
     in if amount < 0 then (s, Inl DB_CheckViolation)
        else (s\<lparr>t_orders := t_orders s @
                  [\<lparr>or_id = oid, or_booking = o_booking ord, or_amount = amount,
                    or_currency = o_currency ord, or_gateway = None, or_status = OrderCreated,
                    or_created = now\<rparr>],
                t_ledger := t_ledger s @
                  (if 0 < spent
                   then [\<lparr>cl_user = user, cl_amount = - spent, cl_reason = ''booking_spend'', cl_order = Some oid\<rparr>]
                   else [])\<rparr>,
              Inr (out, spent)))"

text \<open>
  \<^verbatim>\<open>cancelUnpaid\<close>: the orders still \<open>created\<close> that match become \<open>cancelled\<close>, and each
  gives back what its user spent on it, one positive ledger entry per user.
\<close>

definition spend_entry :: "string \<Rightarrow> ledger_row \<Rightarrow> bool" where
  "spend_entry oid r \<longleftrightarrow> cl_order r = Some oid \<and> cl_reason r = ''booking_spend''"

definition spenders :: "ledger_row list \<Rightarrow> string \<Rightarrow> string list" where
  "spenders led oid = remdups (map cl_user (filter (spend_entry oid) led))"

definition spent_on :: "ledger_row list \<Rightarrow> string \<Rightarrow> string \<Rightarrow> int" where
  "spent_on led oid user = tot (\<lambda>r. spend_entry oid r \<and> cl_user r = user) cl_amount led"

definition reversals :: "ledger_row list \<Rightarrow> string \<Rightarrow> ledger_row list" where
  "reversals led oid =
     map (\<lambda>u. \<lparr>cl_user = u, cl_amount = - spent_on led oid u, cl_reason = ''booking_spend_reversed'',
               cl_order = Some oid\<rparr>)
       (filter (\<lambda>u. spent_on led oid u < 0) (spenders led oid))"

fun reverse_credits :: "string list \<Rightarrow> ledger_row list \<Rightarrow> ledger_row list" where
  "reverse_credits [] led = led"
| "reverse_credits (oid # oids) led = reverse_credits oids (led @ reversals led oid)"

definition cancel_unpaid :: "db \<Rightarrow> (order_row \<Rightarrow> bool) \<Rightarrow> db" where
  "cancel_unpaid s P =
    (let Q = (\<lambda>r. or_status r = OrderCreated \<and> P r);
         ids = map or_id (filter Q (t_orders s))
     in s\<lparr>t_orders := upd Q (\<lambda>r. r\<lparr>or_status := OrderCancelled\<rparr>) (t_orders s),
          t_ledger := reverse_credits ids (t_ledger s)\<rparr>)"

definition cancel_unpaid_orders_for_booking :: "db \<Rightarrow> string \<Rightarrow> db" where
  "cancel_unpaid_orders_for_booking s bid = cancel_unpaid s (\<lambda>r. or_booking r = bid)"

definition not_pending :: "db \<Rightarrow> order_row \<Rightarrow> bool" where
  "not_pending s r \<longleftrightarrow> (\<exists>b\<in>set (t_bookings s). bk_id b = or_booking r \<and> bk_status b \<noteq> PaymentPending)"

definition repo_release_abandoned_orders :: "db \<Rightarrow> db \<times> int" where
  "repo_release_abandoned_orders s =
    (let n = cnt (\<lambda>r. or_status r = OrderCreated \<and> not_pending s r) (t_orders s)
     in if n = 0 then (s, 0) else (cancel_unpaid s (not_pending s), n))"

section \<open>Refunds\<close>

definition counts_as_refunded :: "string \<Rightarrow> refund_row \<Rightarrow> bool" where
  "counts_as_refunded pid r \<longleftrightarrow> rf_payment r = pid \<and> rf_status r \<noteq> RefundFailed"

definition refunded_total :: "db \<Rightarrow> string \<Rightarrow> int" where
  "refunded_total s pid = tot (counts_as_refunded pid) rf_amount (t_refunds s)"

definition begin_refund :: "db \<Rightarrow> string \<Rightarrow> string \<Rightarrow> int \<Rightarrow> string \<Rightarrow> (db, refund \<times> string) outcome" where
  "begin_refund s rid pid amount reason =
    (case payment_by_id s pid of
       None \<Rightarrow> (s, Inl Payments_PaymentNotFound)
     | Some p \<Rightarrow>
         if py_status p \<noteq> PayCaptured then (s, Inl Payments_PaymentNotRefundable)
         else if amount \<le> 0 \<or> py_amount p < int64 (refunded_total s pid + amount)
         then (s, Inl Payments_PaymentNotRefundable)
         else (s\<lparr>t_refunds := t_refunds s @
                  [\<lparr>rf_id = rid, rf_payment = pid, rf_amount = amount, rf_reason = reason,
                    rf_status = RefundPending, rf_gateway = None\<rparr>]\<rparr>,
               Inr (\<lparr>r_id = rid, r_payment = pid, r_amount = amount, r_status = RefundPending\<rparr>, py_order p)))"

definition set_refund :: "db \<Rightarrow> string \<Rightarrow> (refund_row \<Rightarrow> refund_row) \<Rightarrow> db" where
  "set_refund s rid f = s\<lparr>t_refunds := upd (\<lambda>r. rf_id r = rid) f (t_refunds s)\<rparr>"

definition fail_refund :: "db \<Rightarrow> string \<Rightarrow> db" where
  "fail_refund s rid = set_refund s rid (\<lambda>r. r\<lparr>rf_status := RefundFailed\<rparr>)"

definition complete_refund :: "db \<Rightarrow> string \<Rightarrow> string \<Rightarrow> int \<Rightarrow> db" where
  "complete_refund s rid gid amount =
     (set_refund s rid (\<lambda>r. r\<lparr>rf_status := RefundProcessed, rf_gateway := nullif gid\<rparr>))
       \<lparr>t_recon := t_recon s @ [(''refund'', rid, amount)]\<rparr>"

definition set_refund_status :: "db \<Rightarrow> string \<Rightarrow> refund_status \<Rightarrow> db" where
  "set_refund_status s rid st = set_refund s rid (\<lambda>r. r\<lparr>rf_status := st\<rparr>)"

lemmas payment_repo_defs [op_defs] =
  set_gateway_order_id_def mark_order_paid_def repo_mark_captured_def create_order_with_credits_def
  cancel_unpaid_def cancel_unpaid_orders_for_booking_def repo_release_abandoned_orders_def
  begin_refund_def set_refund_def fail_refund_def complete_refund_def set_refund_status_def

end
