(* ===== verification/Payment_Service.thy ===== *)
theory Payment_Service
  imports Payments
begin

text \<open>
  The payment service (\<^verbatim>\<open>internal/payments/service.go\<close>, \<^verbatim>\<open>adapters.go\<close>): orders, captures,
  verification against the gateway, reconciliation, refunds. The gateway (Cashfree's
  client) is a parameter, a record of functions, absent when it is not configured. The
  bookings package is reached through \<open>booking_port\<close>, whose contract is the locale of the
  same name, interpreted on the booking model at the end.
\<close>

section \<open>The two ports\<close>

record gateway_payment =
  gp_id :: string
  gp_status :: string
  gp_amount :: int

record gateway =
  gw_create :: "string \<Rightarrow> int \<Rightarrow> string \<Rightarrow> string \<Rightarrow> string \<Rightarrow> string \<Rightarrow> string + (string \<times> string)"
  gw_refund :: "string \<Rightarrow> string \<Rightarrow> int \<Rightarrow> string \<Rightarrow> string + string"
  gw_payments :: "string \<Rightarrow> string + gateway_payment list"

type_synonym charge_fun = "db \<Rightarrow> string \<Rightarrow> go_error + (string \<times> int \<times> string \<times> booking_status)"
type_synonym confirm_fun = "db \<Rightarrow> int \<Rightarrow> string \<Rightarrow> (db, unit) outcome"

record booking_port_rec =
  bp_charge :: charge_fun
  bp_confirm :: confirm_fun

text \<open>\<open>AdaptBookings\<close>: the booking package's "plan is full" becomes \<open>ErrSeatGone\<close>.\<close>

definition adapt_confirm :: "confirm_fun \<Rightarrow> go_error \<Rightarrow> confirm_fun" where
  "adapt_confirm confirm seat_full s now bid =
    (case confirm s now bid of
       (s', Inl e) \<Rightarrow> (s', Inl (if e = seat_full then Payments_SeatGone else e))
     | (s', Inr u) \<Rightarrow> (s', Inr u))"

definition adapt_bookings :: "booking_port_rec \<Rightarrow> go_error \<Rightarrow> booking_port_rec" where
  "adapt_bookings b seat_full = b\<lparr>bp_confirm := adapt_confirm (bp_confirm b) seat_full\<rparr>"

text \<open>The port \<^verbatim>\<open>cmd/api\<close> wires: the booking service behind the adapter.\<close>

definition bookings_port :: booking_port_rec where
  "bookings_port = adapt_bookings \<lparr>bp_charge = get_booking_charge, bp_confirm = confirm_paid_booking\<rparr> Bookings_PlanFull"

section \<open>Refunding\<close>

definition do_refund ::
  "gateway option \<Rightarrow> db \<Rightarrow> string \<Rightarrow> string \<Rightarrow> int \<Rightarrow> string \<Rightarrow> (db, refund) outcome" where
  "do_refund gw s rid pid amount reason =
    (case gw of
       None \<Rightarrow> (s, Inl Payments_GatewayUnavailable)
     | Some g \<Rightarrow>
         and_then (begin_refund s rid pid amount reason) (\<lambda>(r, oid) s1.
           case gw_refund g oid (r_id r) amount reason of
             Inl msg \<Rightarrow> (fail_refund s1 (r_id r), Inl (Gateway_Error msg))
           | Inr cfid \<Rightarrow> (complete_refund s1 (r_id r) cfid amount, Inr (r\<lparr>r_status := RefundProcessed\<rparr>))))"

definition refund_payment ::
  "gateway option \<Rightarrow> db \<Rightarrow> string \<Rightarrow> string \<Rightarrow> int \<Rightarrow> string \<Rightarrow> (db, refund) outcome" where
  "refund_payment gw s rid pid amount reason =
    (if pid = '''' \<or> amount \<le> 0 then (s, Inl Payments_InvalidInput)
     else do_refund gw s rid pid amount reason)"

definition refund_booking_if_captured ::
  "gateway option \<Rightarrow> db \<Rightarrow> string \<Rightarrow> string \<Rightarrow> string \<Rightarrow> int \<Rightarrow> (db, unit) outcome" where
  "refund_booking_if_captured gw s rid bid reason percent =
    (if percent \<le> 0 then (s, Inr ())
     else case find_captured_payment s bid of
         Inl e \<Rightarrow> if e = Payments_PaymentNotFound then (s, Inr ()) else (s, Inl e)
       | Inr p \<Rightarrow>
           let target = int64 (p_amount p * min percent 100) sdiv 100;
               owed = target - refunded_total s (p_id p)
           in if 0 < owed
              then and_then (do_refund gw s rid (p_id p) owed reason) (\<lambda>_ s1. (s1, Inr ()))
              else (s, Inr ()))"

definition record_refund_result :: "db \<Rightarrow> string \<Rightarrow> string \<Rightarrow> db" where
  "record_refund_result s rid status =
    (if rid = '''' then s
     else if status = ''SUCCESS'' then set_refund_status s rid RefundProcessed
     else if status = ''FAILED'' \<or> status = ''CANCELLED'' then set_refund_status s rid RefundFailed
     else s)"

section \<open>Capturing\<close>

text \<open>
  \<open>pid\<close> and \<open>rid\<close> are the ids a new payment and a new refund would get. In Go the payment
  is returned beside some errors; its callers drop it.
\<close>

definition mark_captured ::
  "gateway option \<Rightarrow> booking_port_rec option \<Rightarrow> db \<Rightarrow> int \<Rightarrow> string \<Rightarrow> string \<Rightarrow> string \<Rightarrow> string \<Rightarrow> int
    \<Rightarrow> (db, payment) outcome" where
  "mark_captured gw bk s now pid rid oid gid amount =
    (case find_order s oid of
       Inl e \<Rightarrow> (s, Inl e)
     | Inr ord \<Rightarrow>
         and_then (repo_mark_captured s now pid (o_id ord) gid amount (o_currency ord)) (\<lambda>p s1.
           case bk of
             None \<Rightarrow> (s1, Inr p)
           | Some b \<Rightarrow>
               (case bp_confirm b s1 now (o_booking ord) of
                  (s2, Inr _) \<Rightarrow> (s2, Inr p)
                | (s2, Inl e) \<Rightarrow>
                    if e = Payments_SeatGone
                    then and_then (do_refund gw s2 rid (p_id p) (p_amount p) ''seat no longer available'')
                           (\<lambda>_ s3. (s3, Inl Payments_PlanFullAfterPay))
                    else (s2, Inl e))))"

fun settle_loop ::
  "gateway option \<Rightarrow> booking_port_rec option \<Rightarrow> int \<Rightarrow> string \<Rightarrow> string \<Rightarrow> string \<Rightarrow> gateway_payment list \<Rightarrow> db
    \<Rightarrow> (db, unit) outcome" where
  "settle_loop gw bk now pid rid oid [] s = (s, Inr ())"
| "settle_loop gw bk now pid rid oid (g # gs) s =
     (if gp_status g = ''SUCCESS''
      then (case mark_captured gw bk s now pid rid oid (gp_id g) (gp_amount g) of
              (s', Inl e) \<Rightarrow> (s', if e = Payments_PlanFullAfterPay then Inr () else Inl e)
            | (s', Inr _) \<Rightarrow> (s', Inr ()))
      else settle_loop gw bk now pid rid oid gs s)"

definition settle_from_gateway ::
  "gateway \<Rightarrow> booking_port_rec option \<Rightarrow> db \<Rightarrow> int \<Rightarrow> string \<Rightarrow> string \<Rightarrow> string \<Rightarrow> (db, unit) outcome" where
  "settle_from_gateway g bk s now pid rid oid =
    (case gw_payments g oid of
       Inl msg \<Rightarrow> (s, Inl (Gateway_Error msg))
     | Inr gs \<Rightarrow> settle_loop (Some g) bk now pid rid oid gs s)"

definition verify_order ::
  "gateway option \<Rightarrow> booking_port_rec \<Rightarrow> db \<Rightarrow> int \<Rightarrow> string \<Rightarrow> string \<Rightarrow> string \<Rightarrow> string \<Rightarrow> (db, order) outcome" where
  "verify_order gw b s now pid rid oid caller =
    (if oid = '''' \<or> caller = '''' then (s, Inl Payments_InvalidInput)
     else case find_order s oid of
         Inl e \<Rightarrow> (s, Inl e)
       | Inr ord \<Rightarrow> (case bp_charge b s (o_booking ord) of
           Inl e \<Rightarrow> (s, Inl e)
         | Inr (owner, _) \<Rightarrow>
             if owner \<noteq> caller then (s, Inl Payments_PaymentNotFound)
             else and_then
               (if o_status ord \<noteq> OrderPaid
                then (case gw of None \<Rightarrow> (s, Inr ())
                      | Some g \<Rightarrow> settle_from_gateway g (Some b) s now pid rid (o_id ord))
                else (case bp_confirm b s now (o_booking ord) of
                        (s1, Inl e) \<Rightarrow> (s1, if e = Payments_SeatGone then Inr () else Inl e)
                      | (s1, Inr u) \<Rightarrow> (s1, Inr u)))
               (\<lambda>_ s1. (s1, find_order s1 (o_id ord)))))"

text \<open>
  The reconciliation job: an order that fails is skipped with whatever it wrote. \<open>newp\<close>
  and \<open>newr\<close> give the ids drawn while an order is settled.
\<close>

definition reconcile_limit :: nat where "reconcile_limit = 50"

fun reconcile_loop ::
  "gateway \<Rightarrow> booking_port_rec option \<Rightarrow> int \<Rightarrow> (string \<Rightarrow> string) \<Rightarrow> (string \<Rightarrow> string) \<Rightarrow> string list \<Rightarrow> db \<Rightarrow> db \<times> nat" where
  "reconcile_loop g bk now newp newr [] s = (s, 0)"
| "reconcile_loop g bk now newp newr (oid # oids) s =
     (case settle_from_gateway g bk s now (newp oid) (newr oid) oid of
        (s1, Inl _) \<Rightarrow> reconcile_loop g bk now newp newr oids s1
      | (s1, Inr _) \<Rightarrow>
          (case reconcile_loop g bk now newp newr oids s1 of
             (s2, n) \<Rightarrow> (s2, case find_order s1 oid of
                               Inr ord \<Rightarrow> if o_status ord = OrderPaid then Suc n else n
                             | Inl _ \<Rightarrow> n)))"

definition reconcile_orders ::
  "gateway option \<Rightarrow> booking_port_rec option \<Rightarrow> db \<Rightarrow> int \<Rightarrow> (string \<Rightarrow> string) \<Rightarrow> (string \<Rightarrow> string) \<Rightarrow> db \<times> nat" where
  "reconcile_orders gw bk s now newp newr =
    (case gw of None \<Rightarrow> (s, 0)
     | Some g \<Rightarrow> reconcile_loop g bk now newp newr (unsettled_order_ids s now reconcile_limit) s)"

section \<open>Ordering\<close>

text \<open>
  The part after the order row exists: an order with nothing left to charge is settled and
  its booking confirmed on the spot; otherwise the gateway opens a payment session.
\<close>

definition start_payment ::
  "gateway option \<Rightarrow> booking_port_rec \<Rightarrow> db \<Rightarrow> int \<Rightarrow> string \<Rightarrow> string \<Rightarrow> order \<Rightarrow> (db, order \<times> string) outcome" where
  "start_payment gw b s now bid phone created =
    (if o_amount created \<le> 0
     then and_then (bp_confirm b (mark_order_paid s (o_id created)) now bid)
            (\<lambda>_ s1. (s1, Inr (created\<lparr>o_status := OrderPaid\<rparr>, '''')))
     else case gw of
         None \<Rightarrow> (s, Inl Payments_GatewayUnavailable)
       | Some g \<Rightarrow> (case get_booking_user s bid of
           Inl e \<Rightarrow> (s, Inl e)
         | Inr (uid, email) \<Rightarrow>
             (case gw_create g (o_id created) (o_amount created) (o_currency created) uid phone email of
                Inl _ \<Rightarrow> (cancel_unpaid_orders_for_booking s bid, Inl Payments_GatewayUnavailable)
              | Inr (cfid, session) \<Rightarrow>
                  (set_gateway_order_id s (o_id created) cfid, Inr (created\<lparr>o_gateway := cfid\<rparr>, session)))))"

definition create_order ::
  "gateway option \<Rightarrow> booking_port_rec \<Rightarrow> db \<Rightarrow> int \<Rightarrow> string \<Rightarrow> string \<Rightarrow> string \<Rightarrow> string \<Rightarrow> string \<Rightarrow> bool
    \<Rightarrow> (db, order \<times> string) outcome" where
  "create_order gw b s now oid bid caller phone promo use_credits =
    (if bid = '''' \<or> caller = '''' then (s, Inl Payments_InvalidInput)
     else case bp_charge b s bid of
         Inl e \<Rightarrow> (s, Inl e)
       | Inr (owner, due, cur, st) \<Rightarrow>
           if owner \<noteq> caller then (s, Inl Payments_Forbidden)
           else if st \<noteq> PaymentPending \<or> due \<le> 0 then (s, Inl Payments_NotPayable)
           else
             let s0 = cancel_unpaid_orders_for_booking s bid
             in and_then
                  (if promo = '''' then (s0, Inr 0) else reserve_coupon s0 now promo due) (\<lambda>disc s1.
                and_then (create_order_with_credits s1 now oid
                    \<lparr>o_id = '''', o_booking = bid, o_amount = int64 (due - disc),
                     o_currency = (if cur = '''' then ''INR'' else cur),
                     o_gateway = '''', o_status = OrderCreated\<rparr> caller use_credits) (\<lambda>(created, _) s2.
                start_payment gw b s2 now bid phone created)))"

section \<open>Reads\<close>

definition get_my_credit_balance :: "db \<Rightarrow> string \<Rightarrow> go_error + int" where
  "get_my_credit_balance s user =
     (if user = '''' then Inl Payments_InvalidInput else Inr (get_credit_balance s user))"

definition get_payment :: "db \<Rightarrow> string \<Rightarrow> string \<Rightarrow> bool \<Rightarrow> go_error + payment" where
  "get_payment s pid caller staff =
    (if pid = '''' \<or> caller = '''' then Inl Payments_InvalidInput
     else if staff then repo_get_payment s pid
     else case payment_owner s pid of
         Inl e \<Rightarrow> Inl e
       | Inr owner \<Rightarrow> if owner \<noteq> caller then Inl Payments_PaymentNotFound else repo_get_payment s pid)"

lemmas payment_service_defs [op_defs] =
  do_refund_def refund_payment_def refund_booking_if_captured_def record_refund_result_def
  mark_captured_def settle_from_gateway_def verify_order_def start_payment_def create_order_def

end
