(* ===== verification/Payment_Facts.thy ===== *)
theory Payment_Facts
  imports Payment_Service
begin

text \<open>
  Money: the invariants of the payment tables over every run of their transactions
  (refunds within the payment, credits never negative and returned once, ledgers that
  match, coupons within their limit).
\<close>

section \<open>Reversing credits\<close>

definition reversed_on :: "ledger_row list \<Rightarrow> string \<Rightarrow> string \<Rightarrow> int" where
  "reversed_on led oid user =
     tot (\<lambda>r. cl_order r = Some oid \<and> cl_reason r = ''booking_spend_reversed'' \<and> cl_user r = user) cl_amount led"

lemma tot_map: "tot P amt (map f xs) = tot (\<lambda>x. P (f x)) (\<lambda>x. amt (f x)) xs"
  by (induction xs) simp_all

lemma tot_distinct_one:
  assumes "distinct xs" shows "tot (\<lambda>x. x = a \<and> Q x) amt xs = (if a \<in> set xs \<and> Q a then amt a else 0)"
  using assms by (induction xs) auto

lemma tot_False [simp]: "tot (\<lambda>_. False) amt xs = 0"
  by (induction xs) simp_all

lemma tot_filter: "tot P amt (filter Q xs) = tot (\<lambda>x. Q x \<and> P x) amt xs"
  by (induction xs) auto

lemma not_spender: "u \<notin> set (spenders led oid) \<Longrightarrow> spent_on led oid u = 0"
proof -
  assume "u \<notin> set (spenders led oid)"
  then have "tot (\<lambda>r. spend_entry oid r \<and> cl_user r = u) cl_amount led = tot (\<lambda>_. False) cl_amount led"
    by (intro tot_cong) (auto simp: spenders_def)
  then show ?thesis by (simp add: spent_on_def)
qed

lemma reversals_reason:
  "r \<in> set (reversals led oid) \<Longrightarrow> cl_reason r = ''booking_spend_reversed'' \<and> cl_order r = Some oid \<and> 0 < cl_amount r"
  by (auto simp: reversals_def)

lemma spent_on_append_reversals: "spent_on (led @ reversals led' oid) x u = spent_on led x u"
proof -
  have "tot (\<lambda>r. spend_entry x r \<and> cl_user r = u) cl_amount (reversals led' oid) = tot (\<lambda>_. False) cl_amount (reversals led' oid)"
    by (intro tot_cong) (auto simp: spend_entry_def dest: reversals_reason)
  then show ?thesis by (simp add: spent_on_def)
qed

lemma reversed_on_reversals:
  "reversed_on (reversals led oid) x u = (if x = oid then max 0 (- spent_on led oid u) else 0)"
proof (cases "x = oid")
  case True
  have "reversed_on (reversals led oid) x u
      = tot (\<lambda>v. v = u \<and> spent_on led oid v < 0) (\<lambda>v. - spent_on led oid v) (spenders led oid)"
    using True unfolding reversed_on_def reversals_def
    by (simp add: tot_map tot_filter) (intro tot_cong, auto)
  also have "\<dots> = (if u \<in> set (spenders led oid) \<and> spent_on led oid u < 0 then - spent_on led oid u else 0)"
    by (rule tot_distinct_one) (simp add: spenders_def)
  also have "\<dots> = max 0 (- spent_on led oid u)"
    using not_spender[of u led oid] by auto
  finally show ?thesis using True by simp
next
  case False
  then show ?thesis by (simp add: reversed_on_def reversals_def tot_map)
qed

lemma reversed_on_append [simp]: "reversed_on (led @ led') oid u = reversed_on led oid u + reversed_on led' oid u"
  by (simp add: reversed_on_def)

lemma reverse_credits_spent: "spent_on (reverse_credits oids led) x u = spent_on led x u"
  by (induction oids arbitrary: led) (simp_all add: spent_on_append_reversals)

lemma reverse_credits_reversed:
  "distinct oids \<Longrightarrow> reversed_on (reverse_credits oids led) x u
     = reversed_on led x u + (if x \<in> set oids then max 0 (- spent_on led x u) else 0)"
proof (induction oids arbitrary: led)
  case (Cons oid oids)
  then show ?case by (auto simp: spent_on_append_reversals reversed_on_reversals)
qed simp

lemma reverse_credits_grows:
  "\<exists>ext. reverse_credits oids led = led @ ext \<and> (\<forall>r\<in>set ext. 0 < cl_amount r
     \<and> cl_reason r = ''booking_spend_reversed'' \<and> (\<exists>oid\<in>set oids. cl_order r = Some oid))"
proof (induction oids arbitrary: led)
  case (Cons oid oids)
  obtain ext where "reverse_credits oids (led @ reversals led oid) = (led @ reversals led oid) @ ext"
    "\<forall>r\<in>set ext. 0 < cl_amount r \<and> cl_reason r = ''booking_spend_reversed'' \<and> (\<exists>oid\<in>set oids. cl_order r = Some oid)"
    using Cons.IH by blast
  then show ?case
    by (intro exI[of _ "reversals led oid @ ext"]) (auto dest: reversals_reason)
qed simp

section \<open>The invariant\<close>

text \<open>
  Refunds of a payment that did not fail add up to at most what was paid; amounts are
  far below the limits of \<open>int64\<close>, so that the sum the code compares does not wrap.
\<close>

definition refunds_ok :: "db \<Rightarrow> bool" where
  "refunds_ok s \<longleftrightarrow> (\<forall>p\<in>set (t_payments s). 0 < py_amount p \<and> py_amount p < 2 ^ 62 \<and> py_status p = PayCaptured
       \<and> refunded_total s (py_id p) \<le> py_amount p)
     \<and> (\<forall>r\<in>set (t_refunds s). 0 < rf_amount r \<and> rf_payment r \<in> py_id ` set (t_payments s))"

definition recon_ok :: "db \<Rightarrow> bool" where
  "recon_ok s \<longleftrightarrow> filter (\<lambda>e. fst e = ''payment'') (t_recon s)
     = map (\<lambda>p. (''payment'', py_id p, py_amount p)) (t_payments s)"

text \<open>
  The credits an order took from a user: given back in full or not at all, not yet while
  the order is open, and certainly once it was cancelled.
\<close>

definition order_credits :: "ledger_row list \<Rightarrow> string \<Rightarrow> order_status \<Rightarrow> string \<Rightarrow> bool" where
  "order_credits led oid st u \<longleftrightarrow>
     spent_on led oid u \<le> 0
     \<and> reversed_on led oid u \<in> {0, - spent_on led oid u}
     \<and> (st = OrderCreated \<longrightarrow> reversed_on led oid u = 0)
     \<and> (st = OrderCancelled \<longrightarrow> reversed_on led oid u = - spent_on led oid u)"

definition credits_ok :: "db \<Rightarrow> bool" where
  "credits_ok s \<longleftrightarrow>
     (\<forall>u. 0 \<le> get_credit_balance s u)
     \<and> (\<forall>r\<in>set (t_ledger s). cl_reason r \<in> {''booking_spend'', ''booking_spend_reversed''} \<longrightarrow>
          (\<exists>x\<in>set (t_orders s). cl_order r = Some (or_id x)))
     \<and> (\<forall>x\<in>set (t_orders s). \<forall>u. order_credits (t_ledger s) (or_id x) (or_status x) u)"

definition promos_ok :: "db \<Rightarrow> bool" where
  "promos_ok s \<longleftrightarrow> (\<forall>r\<in>set (t_promos s). pc_max r \<noteq> 0 \<longrightarrow> pc_uses r \<le> pc_max r)"

definition keys_ok :: "db \<Rightarrow> bool" where
  "keys_ok s \<longleftrightarrow> distinct (map or_id (t_orders s)) \<and> distinct (map py_id (t_payments s))
     \<and> distinct (map rf_id (t_refunds s))"

definition money_ok :: "db \<Rightarrow> bool" where
  "money_ok s \<longleftrightarrow> keys_ok s \<and> refunds_ok s \<and> recon_ok s \<and> credits_ok s \<and> promos_ok s"

lemmas money_defs = money_ok_def keys_ok_def refunds_ok_def recon_ok_def credits_ok_def promos_ok_def
  refunded_total_def get_credit_balance_def

text \<open>Nothing outside the six money tables matters.\<close>

definition money_tables :: "db \<Rightarrow> order_row list \<times> payment_row list \<times> refund_row list
    \<times> (string \<times> string \<times> int) list \<times> ledger_row list \<times> promo_row list" where
  "money_tables s = (t_orders s, t_payments s, t_refunds s, t_recon s, t_ledger s, t_promos s)"

lemma money_ok_cong: "money_tables s = money_tables s' \<Longrightarrow> money_ok s = money_ok s'"
  by (simp add: money_tables_def money_defs)

section \<open>Every transaction keeps it\<close>

lemma unknown_order_no_entries:
  assumes "credits_ok s" "oid \<notin> or_id ` set (t_orders s)"
  shows "spent_on (t_ledger s) oid u = 0" "reversed_on (t_ledger s) oid u = 0"
proof -
  have "\<forall>r\<in>set (t_ledger s). cl_reason r \<in> {''booking_spend'', ''booking_spend_reversed''} \<longrightarrow>
          (\<exists>x\<in>set (t_orders s). cl_order r = Some (or_id x))"
    using assms(1) unfolding credits_ok_def by blast
  then have no: "cl_order r \<noteq> Some oid" if "r \<in> set (t_ledger s)"
      "cl_reason r \<in> {''booking_spend'', ''booking_spend_reversed''}" for r
    using that assms(2) by force
  have "spent_on (t_ledger s) oid u = tot (\<lambda>_. False) cl_amount (t_ledger s)"
    unfolding spent_on_def by (intro tot_cong) (auto simp: spend_entry_def dest: no)
  then show "spent_on (t_ledger s) oid u = 0" by simp
  have "reversed_on (t_ledger s) oid u = tot (\<lambda>_. False) cl_amount (t_ledger s)"
    unfolding reversed_on_def by (intro tot_cong) (auto dest: no)
  then show "reversed_on (t_ledger s) oid u = 0" by simp
qed

text \<open>How one new ledger row moves a balance and an order's accounts.\<close>

lemma create_order_with_credits_Inr:
  assumes "create_order_with_credits s now oid ord user uc = (s', Inr (out, spent))"
  shows "spent \<le> max 0 (get_credit_balance s user)"
    "s' = s\<lparr>t_orders := t_orders s @ [\<lparr>or_id = oid, or_booking = o_booking ord, or_amount = o_amount out,
         or_currency = o_currency ord, or_gateway = None, or_status = OrderCreated, or_created = now\<rparr>],
       t_ledger := t_ledger s @ (if 0 < spent then [\<lparr>cl_user = user, cl_amount = - spent,
          cl_reason = ''booking_spend'', cl_order = Some oid\<rparr>] else [])\<rparr>"
    "o_amount out = o_amount ord - spent" "0 \<le> o_amount out"
    "out = ord\<lparr>o_id := oid, o_amount := o_amount out, o_status := OrderCreated\<rparr>"
  using assms by (auto simp: create_order_with_credits_def Let_def split: if_splits)

lemma money_ok_order:
  assumes ok: "money_ok s" and fresh: "oid \<notin> or_id ` set (t_orders s)"
  shows "money_ok (fst (create_order_with_credits s now oid ord user uc))"
proof (cases "create_order_with_credits s now oid ord user uc")
  case (Pair s' r)
  show ?thesis
  proof (cases r)
    case (Inl e)
    with Pair ok show ?thesis by (auto simp: create_order_with_credits_def Let_def split: if_splits)
  next
    case (Inr a)
    obtain out spent where a: "a = (out, spent)" by (cases a)
    note c = create_order_with_credits_Inr[OF Pair[unfolded Inr a]]
    note cr = ok[unfolded money_ok_def]
    have led: "t_ledger s' = t_ledger s @ (if 0 < spent then [\<lparr>cl_user = user, cl_amount = - spent,
          cl_reason = ''booking_spend'', cl_order = Some oid\<rparr>] else [])" by (simp add: c(2))
    have sp: "spent_on (t_ledger s') x u = spent_on (t_ledger s) x u
        - (if 0 < spent \<and> x = oid \<and> u = user then spent else 0)" for x u
      by (simp add: led spent_on_def spend_entry_def)
    have rv: "reversed_on (t_ledger s') x u = reversed_on (t_ledger s) x u" for x u
      by (simp add: led reversed_on_def)
    have bal: "get_credit_balance s' u = get_credit_balance s u - (if 0 < spent \<and> u = user then spent else 0)" for u
      by (simp add: led get_credit_balance_def)
    have "0 \<le> get_credit_balance s' u" for u
      using cr c(1) by (auto simp: bal credits_ok_def max_def split: if_splits)
    moreover have "\<forall>r\<in>set (t_ledger s'). cl_reason r \<in> {''booking_spend'', ''booking_spend_reversed''} \<longrightarrow>
          (\<exists>x\<in>set (t_orders s'). cl_order r = Some (or_id x))"
      using cr by (auto simp: led c(2) credits_ok_def)
    moreover have "order_credits (t_ledger s') (or_id x) (or_status x) u"
      if "x \<in> set (t_orders s')" for x u
    proof (cases "x \<in> set (t_orders s)")
      case True
      then have "or_id x \<noteq> oid" using fresh by auto
      with True cr show ?thesis by (simp add: sp rv credits_ok_def order_credits_def)
    next
      case False
      with that have x: "or_id x = oid" "or_status x = OrderCreated" by (auto simp: c(2))
      have "credits_ok s" using cr by simp
      from unknown_order_no_entries[OF this fresh] x show ?thesis by (simp add: sp rv order_credits_def)
    qed
    ultimately have "credits_ok s'" unfolding credits_ok_def by blast
    then have "money_ok s'"
      using cr fresh by (auto simp: c(2) money_ok_def keys_ok_def refunds_ok_def recon_ok_def promos_ok_def refunded_total_def)
    with Pair show ?thesis by simp
  qed
qed

text \<open>Changing the status of orders, with what it does to the ledger.\<close>

lemma money_ok_orders_upd:
  assumes ok: "money_ok s"
    and key: "\<And>x. P x \<Longrightarrow> or_id (f x) = or_id x"
    and st: "\<And>x. P x \<Longrightarrow> or_status (f x) = OrderPaid \<or> or_status (f x) = or_status x"
  shows "money_ok (s\<lparr>t_orders := upd P f (t_orders s)\<rparr>)"
proof -
  have ids: "map or_id (upd P f (t_orders s)) = map or_id (t_orders s)" using key by (rule map_upd)
  have "credits_ok (s\<lparr>t_orders := upd P f (t_orders s)\<rparr>)"
    unfolding credits_ok_def
  proof (intro conjI)
    show "\<forall>u. 0 \<le> get_credit_balance (s\<lparr>t_orders := upd P f (t_orders s)\<rparr>) u"
      using ok by (auto simp: money_ok_def credits_ok_def get_credit_balance_def)
    have ex: "(\<exists>x\<in>set (upd P f (t_orders s)). k = Some (or_id x)) = (\<exists>x\<in>set (t_orders s). k = Some (or_id x))" for k
      using arg_cong[OF ids, of set] by (auto simp: image_iff set_eq_iff)
    show "\<forall>r\<in>set (t_ledger (s\<lparr>t_orders := upd P f (t_orders s)\<rparr>)).
       cl_reason r \<in> {''booking_spend'', ''booking_spend_reversed''} \<longrightarrow>
       (\<exists>x\<in>set (t_orders (s\<lparr>t_orders := upd P f (t_orders s)\<rparr>)). cl_order r = Some (or_id x))"
      using ok ex by (simp add: money_ok_def credits_ok_def)
    show "\<forall>x\<in>set (t_orders (s\<lparr>t_orders := upd P f (t_orders s)\<rparr>)). \<forall>u.
       order_credits (t_ledger (s\<lparr>t_orders := upd P f (t_orders s)\<rparr>)) (or_id x) (or_status x) u"
    proof (intro ballI allI)
      fix x u assume "x \<in> set (t_orders (s\<lparr>t_orders := upd P f (t_orders s)\<rparr>))"
      then have "x \<in> set (upd P f (t_orders s))" by simp
      then show "order_credits (t_ledger (s\<lparr>t_orders := upd P f (t_orders s)\<rparr>)) (or_id x) (or_status x) u"
      proof (cases rule: upd_memE)
        case (1 r)
        then have "order_credits (t_ledger s) (or_id r) (or_status r) u"
          using ok by (simp add: money_ok_def credits_ok_def)
        with 1 key[of r] st[of r] show ?thesis by (auto simp: order_credits_def)
      qed (use ok in \<open>simp add: money_ok_def credits_ok_def\<close>)
    qed
  qed
  with ok ids show ?thesis
    by (simp add: money_ok_def keys_ok_def refunds_ok_def recon_ok_def promos_ok_def refunded_total_def)
qed

lemma money_ok_mark_paid: "money_ok s \<Longrightarrow> money_ok (mark_order_paid s oid)"
  unfolding mark_order_paid_def by (rule money_ok_orders_upd) simp_all

lemma money_ok_gateway_id: "money_ok s \<Longrightarrow> money_ok (set_gateway_order_id s oid gid)"
  unfolding set_gateway_order_id_def by (rule money_ok_orders_upd) simp_all

text \<open>Cancelling unpaid orders gives back exactly what each took.\<close>

lemma money_ok_cancel_unpaid:
  assumes ok: "money_ok s" shows "money_ok (cancel_unpaid s P)"
proof -
  define Q where "Q = (\<lambda>r. or_status r = OrderCreated \<and> P r)"
  let ?ids = "map or_id (filter Q (t_orders s))"
  let ?led = "reverse_credits ?ids (t_ledger s)"
  let ?s' = "s\<lparr>t_orders := upd Q (\<lambda>r. r\<lparr>or_status := OrderCancelled\<rparr>) (t_orders s), t_ledger := ?led\<rparr>"
  have keys: "distinct (map or_id (t_orders s))" and cr: "credits_ok s"
    using ok by (simp_all add: money_ok_def keys_ok_def)
  have dist: "distinct ?ids" using keys by (rule distinct_map_filter)
  have eq: "cancel_unpaid s P = ?s'" by (simp add: cancel_unpaid_def Let_def Q_def)
  obtain ext where ext: "?led = t_ledger s @ ext" "\<forall>r\<in>set ext. 0 < cl_amount r
     \<and> cl_reason r = ''booking_spend_reversed'' \<and> (\<exists>oid\<in>set ?ids. cl_order r = Some oid)"
    using reverse_credits_grows by blast
  have ids: "map or_id (t_orders ?s') = map or_id (t_orders s)" by (simp add: map_upd)
  have bal: "0 \<le> get_credit_balance ?s' u" for u
  proof -
    have "0 \<le> tot (\<lambda>r. cl_user r = u) cl_amount ext" using ext(2) by (intro tot_nonneg) auto
    moreover have "0 \<le> get_credit_balance s u" using cr by (simp add: credits_ok_def)
    ultimately show ?thesis by (simp add: get_credit_balance_def ext(1))
  qed
  have refs: "\<exists>x\<in>set (t_orders ?s'). cl_order r = Some (or_id x)"
    if r: "r \<in> set ?led" "cl_reason r \<in> {''booking_spend'', ''booking_spend_reversed''}" for r
  proof -
    have "\<exists>k\<in>set (map or_id (t_orders s)). cl_order r = Some k"
      using r ext cr by (auto simp: credits_ok_def)
    then show ?thesis unfolding ids[symmetric] by auto
  qed
  have each: "order_credits ?led (or_id x) (or_status x) u" if "x \<in> set (t_orders ?s')" for x u
  proof -
    have "x \<in> set (upd Q (\<lambda>r. r\<lparr>or_status := OrderCancelled\<rparr>) (t_orders s))" using that by simp
    then show ?thesis
    proof (cases rule: upd_memE)
      case (1 r)
      then have "order_credits (t_ledger s) (or_id r) OrderCreated u" "or_id r \<in> set ?ids"
        using cr by (auto simp: credits_ok_def Q_def)
      with 1 show ?thesis
        by (auto simp: order_credits_def reverse_credits_spent reverse_credits_reversed[OF dist])
    next
      case 2
      then have "or_id x \<notin> set ?ids" using key_inj[OF keys] by auto
      moreover have "order_credits (t_ledger s) (or_id x) (or_status x) u"
        using 2 cr by (simp add: credits_ok_def)
      ultimately show ?thesis
        by (simp add: order_credits_def reverse_credits_spent reverse_credits_reversed[OF dist])
    qed
  qed
  have "credits_ok ?s'" unfolding credits_ok_def using bal refs each by auto
  with ok ids show ?thesis
    unfolding eq by (simp add: money_ok_def keys_ok_def refunds_ok_def recon_ok_def promos_ok_def refunded_total_def)
qed

lemma money_ok_capture:
  assumes ok: "money_ok s" and fresh: "pid \<notin> py_id ` set (t_payments s)" and small: "amount < 2 ^ 62"
  shows "money_ok (fst (repo_mark_captured s now pid oid gid amount cur))"
proof (cases "amount \<le> 0 \<or> payment_by_gateway s gid \<noteq> None")
  case True
  with ok show ?thesis by (auto simp: repo_mark_captured_def)
next
  case False
  let ?r = "\<lparr>py_id = pid, py_order = oid, py_amount = amount, py_currency = cur,
                    py_status = PayCaptured, py_gateway = Some gid, py_created = now\<rparr>"
  let ?s' = "(mark_order_paid s oid)\<lparr>t_payments := t_payments s @ [?r],
                 t_recon := t_recon s @ [(''payment'', pid, amount)]\<rparr>"
  have "tot (counts_as_refunded pid) rf_amount (t_refunds s) = tot (\<lambda>_. False) rf_amount (t_refunds s)"
    using ok fresh by (intro tot_cong) (auto simp: money_ok_def refunds_ok_def counts_as_refunded_def)
  then have none: "refunded_total s pid = 0" by (simp add: refunded_total_def)
  have "money_ok (mark_order_paid s oid)" by (rule money_ok_mark_paid[OF ok])
  then have "keys_ok ?s'" "credits_ok ?s'" "promos_ok ?s'" "recon_ok ?s'"
    using ok fresh by (auto simp: money_defs)
  moreover have "refunds_ok ?s'"
    using ok none False small by (auto simp: money_ok_def refunds_ok_def refunded_total_def mark_order_paid_def)
  ultimately have "money_ok ?s'" by (simp add: money_ok_def)
  with False show ?thesis by (simp add: repo_mark_captured_def Let_def)
qed

text \<open>Refund attempts: only what stays within the payment is begun.\<close>

lemma money_ok_begin_refund:
  assumes ok: "money_ok s" and fresh: "rid \<notin> rf_id ` set (t_refunds s)"
    and small: "amount < 2 ^ 62"
  shows "money_ok (fst (begin_refund s rid pid amount reason))"
proof (cases "payment_by_id s pid")
  case None
  with ok show ?thesis by (simp add: begin_refund_def)
next
  case (Some p)
  note p = find_key[OF Some]
  have "0 \<le> refunded_total s pid"
    unfolding refunded_total_def using ok by (intro tot_nonneg) (auto simp: money_ok_def refunds_ok_def less_imp_le)
  moreover have "refunded_total s pid < 2 ^ 62" using ok p by (force simp: money_ok_def refunds_ok_def)
  ultimately have wrap: "0 < amount \<Longrightarrow> int64 (refunded_total s pid + amount) = refunded_total s pid + amount"
    using small by (intro int64_id) auto
  show ?thesis
  proof (cases "amount \<le> 0 \<or> py_amount p < refunded_total s pid + amount")
    case True
    with wrap have "fst (begin_refund s rid pid amount reason) = s" by (auto simp: begin_refund_def Some)
    with ok show ?thesis by simp
  next
    case False
    let ?r = "\<lparr>rf_id = rid, rf_payment = pid, rf_amount = amount, rf_reason = reason,
                    rf_status = RefundPending, rf_gateway = None\<rparr>"
    let ?s' = "s\<lparr>t_refunds := t_refunds s @ [?r]\<rparr>"
    have key: "py_id q = pid \<Longrightarrow> q \<in> set (t_payments s) \<Longrightarrow> q = p" for q
      using key_inj[of py_id "t_payments s" q p] ok p by (simp add: money_ok_def keys_ok_def)
    have tt: "refunded_total ?s' q = refunded_total s q + (if q = pid then amount else 0)" for q
      by (simp add: refunded_total_def counts_as_refunded_def)
    have "0 < py_amount q \<and> py_amount q < 2 ^ 62 \<and> py_status q = PayCaptured \<and> refunded_total ?s' (py_id q) \<le> py_amount q"
      if q: "q \<in> set (t_payments s)" for q
    proof (cases "py_id q = pid")
      case True
      with key q have "q = p" by blast
      with False True ok q show ?thesis by (simp add: tt money_ok_def refunds_ok_def)
    next
      case False
      with ok q show ?thesis by (simp add: tt money_ok_def refunds_ok_def)
    qed
    moreover have "\<forall>r\<in>set (t_refunds ?s'). 0 < rf_amount r \<and> rf_payment r \<in> py_id ` set (t_payments s)"
      using ok p False by (auto simp: money_ok_def refunds_ok_def)
    ultimately have "refunds_ok ?s'" unfolding refunds_ok_def by simp
    then have "money_ok ?s'"
      using ok fresh by (auto simp: money_ok_def keys_ok_def recon_ok_def credits_ok_def promos_ok_def get_credit_balance_def)
    moreover have "fst (begin_refund s rid pid amount reason) = s \<or> fst (begin_refund s rid pid amount reason) = ?s'"
      by (simp add: begin_refund_def Some)
    ultimately show ?thesis using ok by metis
  qed
qed

lemma money_ok_set_refund:
  assumes ok: "money_ok s"
    and f: "\<And>r. rf_id (f r) = rf_id r \<and> rf_payment (f r) = rf_payment r \<and> rf_amount (f r) = rf_amount r"
    and st: "\<And>r. r \<in> set (t_refunds s) \<Longrightarrow> rf_id r = rid \<Longrightarrow> rf_status r = RefundFailed \<Longrightarrow> rf_status (f r) = RefundFailed"
  shows "money_ok (set_refund s rid f)"
proof -
  let ?s' = "set_refund s rid f"
  have rs: "t_refunds ?s' = upd (\<lambda>r. rf_id r = rid) f (t_refunds s)" by (simp add: set_refund_def)
  have "tot (counts_as_refunded q) rf_amount (upd (\<lambda>r. rf_id r = rid) f rs) \<le> tot (counts_as_refunded q) rf_amount rs"
    if "set rs \<subseteq> set (t_refunds s)" for q rs
    using that
  proof (induction rs)
    case (Cons r rs)
    then have "0 < rf_amount r" "rf_id r = rid \<Longrightarrow> rf_status r = RefundFailed \<Longrightarrow> rf_status (f r) = RefundFailed"
      using ok st by (auto simp: money_ok_def refunds_ok_def)
    with Cons f[of r] show ?case by (auto simp: counts_as_refunded_def)
  qed simp
  then have le: "refunded_total ?s' q \<le> refunded_total s q" for q by (simp add: refunded_total_def rs)
  have "refunds_ok ?s'" unfolding refunds_ok_def
  proof (intro conjI ballI)
    fix p assume "p \<in> set (t_payments ?s')"
    then have "p \<in> set (t_payments s)" by (simp add: set_refund_def)
    then have "0 < py_amount p" "py_amount p < 2 ^ 62" "py_status p = PayCaptured" "refunded_total s (py_id p) \<le> py_amount p"
      using ok by (auto simp: money_ok_def refunds_ok_def)
    with le[of "py_id p"] show "0 < py_amount p" "py_amount p < 2 ^ 62" "py_status p = PayCaptured" "refunded_total ?s' (py_id p) \<le> py_amount p" by simp_all
  next
    fix r assume "r \<in> set (t_refunds ?s')"
    then have "r \<in> set (upd (\<lambda>r. rf_id r = rid) f (t_refunds s))" by (simp add: rs)
    then obtain r0 where "r0 \<in> set (t_refunds s)" "rf_amount r = rf_amount r0" "rf_payment r = rf_payment r0"
      by (cases rule: upd_memE) (use f in auto)
    then show "0 < rf_amount r" "rf_payment r \<in> py_id ` set (t_payments ?s')"
      using ok by (auto simp: money_ok_def refunds_ok_def set_refund_def)
  qed
  moreover have "map rf_id (t_refunds ?s') = map rf_id (t_refunds s)" unfolding rs using f by (intro map_upd) simp
  ultimately show ?thesis
    using ok by (simp add: money_ok_def keys_ok_def recon_ok_def credits_ok_def promos_ok_def get_credit_balance_def set_refund_def)
qed

lemma money_ok_recon_refund:
  "money_ok s \<Longrightarrow> money_ok (s\<lparr>t_recon := t_recon s @ [(''refund'', i, a)]\<rparr>)"
  by (simp add: money_defs)

lemma money_ok_coupon:
  assumes ok: "money_ok s" shows "money_ok (fst (reserve_coupon s now code amount))"
proof -
  have "promos_ok (s\<lparr>t_promos := upd (\<lambda>r'. pc_id r' = i \<and> (pc_max r' = 0 \<or> pc_uses r' < pc_max r'))
      (\<lambda>r'. r'\<lparr>pc_uses := pc_uses r' + 1\<rparr>) (t_promos s)\<rparr>)" for i
    using ok by (auto simp: money_ok_def promos_ok_def elim!: upd_memE)
  with ok show ?thesis
    by (auto simp: reserve_coupon_def Let_def money_ok_def keys_ok_def refunds_ok_def recon_ok_def
        credits_ok_def get_credit_balance_def refunded_total_def split: option.splits)
qed

section \<open>A refund through the gateway\<close>

lemma do_refund_cases:
  assumes "do_refund gw s rid pid amount reason = (s', r)"
  obtains e where "s' = s" "r = Inl e"
  | s1 rf oid msg where "begin_refund s rid pid amount reason = (s1, Inr (rf, oid))"
      "s' = fail_refund s1 rid" "r = Inl (Gateway_Error msg)"
  | s1 rf oid cf where "begin_refund s rid pid amount reason = (s1, Inr (rf, oid))"
      "s' = complete_refund s1 rid cf amount" "r = Inr (rf\<lparr>r_status := RefundProcessed\<rparr>)"
proof (cases gw)
  case None
  with assms that(1) show thesis by (auto simp: do_refund_def)
next
  case (Some g)
  show thesis
  proof (cases "begin_refund s rid pid amount reason")
    case (Pair s1 q)
    show thesis
    proof (cases q)
      case (Inl e)
      then have "s1 = s" using Pair by (auto simp: begin_refund_def split: option.splits if_splits)
      with Inl Pair Some assms that(1) show thesis by (auto simp: do_refund_def)
    next
      case (Inr a)
      obtain rf oid where a: "a = (rf, oid)" by (cases a)
      have "r_id rf = rid" using Pair Inr a by (auto simp: begin_refund_def split: option.splits if_splits)
      with Pair Inr a Some assms that(2,3) show thesis
        by (auto simp: do_refund_def split: sum.splits)
    qed
  qed
qed

lemma begin_refund_Inr:
  assumes "begin_refund s rid pid amount reason = (s1, Inr (rf, oid))"
  shows "t_refunds s1 = t_refunds s @ [\<lparr>rf_id = rid, rf_payment = pid, rf_amount = amount, rf_reason = reason,
                    rf_status = RefundPending, rf_gateway = None\<rparr>]"
    "\<exists>p. payment_by_id s pid = Some p \<and> py_status p = PayCaptured" "0 < amount"
  using assms by (auto simp: begin_refund_def split: option.splits if_splits)

lemma money_ok_refund:
  assumes ok: "money_ok s" and fresh: "rid \<notin> rf_id ` set (t_refunds s)" and small: "amount < 2 ^ 62"
  shows "money_ok (fst (do_refund gw s rid pid amount reason))"
proof (cases "do_refund gw s rid pid amount reason")
  case (Pair s' r)
  have begun: "money_ok s1" if "begin_refund s rid pid amount reason = (s1, q)" for s1 q
    using money_ok_begin_refund[OF assms, of pid reason] that by simp
  from Pair have "money_ok s'"
  proof (cases rule: do_refund_cases)
    case (2 s1 rf oid msg)
    then show ?thesis using begun by (auto simp: fail_refund_def intro!: money_ok_set_refund)
  next
    case (3 s1 rf oid cf)
    have "\<forall>r\<in>set (t_refunds s1). rf_id r = rid \<longrightarrow> rf_status r = RefundPending"
      unfolding begin_refund_Inr(1)[OF 3(1)] using fresh by auto
    then have "money_ok (set_refund s1 rid (\<lambda>r. r\<lparr>rf_status := RefundProcessed, rf_gateway := nullif cf\<rparr>))"
      using begun[OF 3(1)] by (intro money_ok_set_refund) auto
    from money_ok_recon_refund[OF this] show ?thesis by (simp add: 3 complete_refund_def set_refund_def)
  qed (use ok in simp)
  with Pair show ?thesis by simp
qed

lemma do_refund_done:
  assumes "do_refund gw s rid pid amount reason = (s', Inr rf)" "rid \<notin> rf_id ` set (t_refunds s)"
  shows "refunded_total s' pid = refunded_total s pid + amount" "t_payments s' = t_payments s"
  using assms(1)
proof -
  have "refunded_total s' pid = refunded_total s pid + amount \<and> t_payments s' = t_payments s"
    using assms(1)
  proof (cases rule: do_refund_cases)
    case (3 s1 rf' oid cf)
    have "tot (counts_as_refunded pid) rf_amount (upd (\<lambda>r. rf_id r = rid) f rs) = tot (counts_as_refunded pid) rf_amount rs"
      if "set rs \<subseteq> set (t_refunds s)" for f rs
      using that assms(2) by (intro tot_upd_same) auto
    moreover have "t_payments s1 = t_payments s"
      using 3(1) by (auto simp: begin_refund_def split: option.splits if_splits)
    ultimately show ?thesis
      by (simp add: refunded_total_def 3(2) complete_refund_def set_refund_def begin_refund_Inr(1)[OF 3(1)]
          counts_as_refunded_def)
  qed auto
  then show "refunded_total s' pid = refunded_total s pid + amount" "t_payments s' = t_payments s" by simp_all
qed

lemma do_refund_error: "snd (do_refund gw s rid pid amount reason) \<noteq> Inl Payments_PlanFullAfterPay"
proof (cases "do_refund gw s rid pid amount reason")
  case (Pair s' r)
  have "snd (begin_refund s rid pid amount reason) \<noteq> Inl Payments_PlanFullAfterPay"
    by (auto simp: begin_refund_def split: option.splits)
  then show ?thesis by (auto simp: do_refund_def and_then_def split: option.splits sum.splits prod.splits)
qed

section \<open>What a capture does\<close>

lemma repo_mark_captured_Inr:
  assumes "repo_mark_captured s now pid oid gid amount cur = (s1, Inr p)"
  shows "0 < amount"
    "\<exists>r\<in>set (t_payments s1). payment_by_gateway s1 gid = Some r \<and> p = scan_payment r"
    "t_bookings s1 = t_bookings s" "t_refunds s1 = t_refunds s"
    "t_orders s1 = t_orders s \<or> t_orders s1 = t_orders (mark_order_paid s oid)"
proof -
  show "0 < amount" using assms by (simp add: repo_mark_captured_def split: if_splits)
  show "\<exists>r\<in>set (t_payments s1). payment_by_gateway s1 gid = Some r \<and> p = scan_payment r"
  proof (cases "payment_by_gateway s gid")
    case None
    let ?r = "\<lparr>py_id = pid, py_order = oid, py_amount = amount, py_currency = cur,
                    py_status = PayCaptured, py_gateway = Some gid, py_created = now\<rparr>"
    have s1: "t_payments s1 = t_payments s @ [?r]" "p = scan_payment ?r"
      using assms None by (auto simp: repo_mark_captured_def Let_def split: if_splits)
    moreover have "payment_by_gateway s1 gid = Some ?r"
      using None by (simp add: payment_by_gateway_def s1(1) find_None find_append_skip)
    ultimately show ?thesis by (intro bexI[of _ ?r]) simp_all
  next
    case (Some r)
    then have "r \<in> set (t_payments s)" by (auto simp: payment_by_gateway_def find_Some_iff)
    with assms Some show ?thesis by (auto simp: repo_mark_captured_def split: if_splits)
  qed
qed (use assms in \<open>auto simp: repo_mark_captured_def Let_def mark_order_paid_def split: option.splits if_splits\<close>)

lemma mark_captured_cases:
  assumes "mark_captured gw (Some b) s now pid rid oid gid amount = (s', r)"
  obtains (no_order) e where "find_order s oid = Inl e" "s' = s" "r = Inl e"
  | (refused) ord e where "find_order s oid = Inr ord" "r = Inl e"
      "repo_mark_captured s now pid (o_id ord) gid amount (o_currency ord) = (s', Inl e)"
  | (seated) ord s1 p u where "find_order s oid = Inr ord" "r = Inr p"
      "repo_mark_captured s now pid (o_id ord) gid amount (o_currency ord) = (s1, Inr p)"
      "bp_confirm b s1 now (o_booking ord) = (s', Inr u)"
  | (seat_gone) ord s1 p s2 q where "find_order s oid = Inr ord"
      "repo_mark_captured s now pid (o_id ord) gid amount (o_currency ord) = (s1, Inr p)"
      "bp_confirm b s1 now (o_booking ord) = (s2, Inl Payments_SeatGone)"
      "do_refund gw s2 rid (p_id p) (p_amount p) ''seat no longer available'' = (s', q)"
      "r = (case q of Inl e \<Rightarrow> Inl e | Inr _ \<Rightarrow> Inl Payments_PlanFullAfterPay)"
  | (failed) ord s1 p e where "find_order s oid = Inr ord" "r = Inl e"
      "repo_mark_captured s now pid (o_id ord) gid amount (o_currency ord) = (s1, Inr p)"
      "bp_confirm b s1 now (o_booking ord) = (s', Inl e)"
proof (cases "find_order s oid")
  case (Inl e)
  show thesis by (rule no_order[OF Inl]) (use assms Inl in \<open>simp_all add: mark_captured_def\<close>)
next
  case ord: (Inr ord)
  obtain s1 c where c: "repo_mark_captured s now pid (o_id ord) gid amount (o_currency ord) = (s1, c)" by fastforce
  show thesis
  proof (cases c)
    case (Inl e)
    show thesis by (rule refused[OF ord, of e]) (use assms ord c Inl in \<open>simp_all add: mark_captured_def\<close>)
  next
    case p: (Inr p)
    obtain s2 q where q: "bp_confirm b s1 now (o_booking ord) = (s2, q)" by fastforce
    have m: "mark_captured gw (Some b) s now pid rid oid gid amount = (case (s2, q) of (s2, Inr _) \<Rightarrow> (s2, Inr p)
                | (s2, Inl e) \<Rightarrow> if e = Payments_SeatGone
                    then and_then (do_refund gw s2 rid (p_id p) (p_amount p) ''seat no longer available'')
                           (\<lambda>_ s3. (s3, Inl Payments_PlanFullAfterPay)) else (s2, Inl e))"
      using ord c p q by (simp add: mark_captured_def)
    obtain s3 d where d: "do_refund gw s2 rid (p_id p) (p_amount p) ''seat no longer available'' = (s3, d)" by fastforce
    show thesis
    proof (cases q)
      case (Inr u)
      show thesis by (rule seated[OF ord, of p s1 u]) (use m assms c p q Inr in simp_all)
    next
      case (Inl e)
      show thesis
      proof (cases "e = Payments_SeatGone")
        case True
        have "(s', r) = (s3, case d of Inl e \<Rightarrow> Inl e | Inr _ \<Rightarrow> Inl Payments_PlanFullAfterPay)"
          using m assms Inl True d by (cases d) simp_all
        then show thesis
          by (intro seat_gone[OF ord, of s1 p s2 d]) (use c p q Inl True d in simp_all)
      next
        case False
        show thesis by (rule failed[OF ord, of e s1 p]) (use m assms c p q Inl False in simp_all)
      qed
    qed
  qed
qed

section \<open>The service over a booking port\<close>

text \<open>
  What the payment service may assume of \<open>BookingPort\<close>: confirming a booking leaves the
  money tables alone, changes nothing when it fails, keeps the tables well formed, and once
  it succeeded succeeds again without effect; what a booking costs is read from the
  bookings.
\<close>

locale booking_port =
  fixes charge :: charge_fun and confirm :: confirm_fun
  assumes confirm_money: "money_tables (fst (confirm s now bid)) = money_tables s"
    and confirm_error: "snd (confirm s now bid) = Inl e \<Longrightarrow> fst (confirm s now bid) = s"
    and confirm_wf: "wf_db s \<Longrightarrow> wf_db (fst (confirm s now bid))"
    and confirm_again: "wf_db s \<Longrightarrow> confirm s now bid = (s', Inr u) \<Longrightarrow> confirm s' now' bid = (s', Inr ())"
    and charge_reads: "t_bookings s = t_bookings s' \<Longrightarrow> charge s bid = charge s' bid"
begin

lemma money_ok_confirm: "money_ok s \<Longrightarrow> money_ok (fst (confirm s now bid))"
  using money_ok_cong[OF confirm_money] by simp


text \<open>Capturing keeps the money in order, whether or not the seat is still there.\<close>

lemma money_ok_mark_captured:
  assumes ok: "money_ok s" and pid: "pid \<notin> py_id ` set (t_payments s)"
    and rid: "rid \<notin> rf_id ` set (t_refunds s)" and small: "amount < 2 ^ 62"
  shows "money_ok (fst (mark_captured gw (Some \<lparr>bp_charge = charge, bp_confirm = confirm\<rparr>) s now pid rid oid gid amount))"
proof (cases "mark_captured gw (Some \<lparr>bp_charge = charge, bp_confirm = confirm\<rparr>) s now pid rid oid gid amount")
  case (Pair s' r)
  have cap: "money_ok s1" if "repo_mark_captured s now pid x gid amount cur = (s1, q)" for x cur s1 q
    using money_ok_capture[OF ok pid small] that by (metis fst_conv)
  have conf: "money_ok s2" if "money_ok s1" "confirm s1 now bk = (s2, q)" for s1 s2 bk q
    using money_ok_confirm[OF that(1), of now bk] that(2) by simp
  from Pair have "money_ok s'"
  proof (cases rule: mark_captured_cases)
    case (seat_gone ord s1 p s2 q)
    have ok1: "money_ok s1" using cap seat_gone(2) .
    obtain row where "row \<in> set (t_payments s1)" "p = scan_payment row"
      using repo_mark_captured_Inr(2)[OF seat_gone(2)] by blast
    then have "p_amount p < 2 ^ 62" using ok1 by (auto simp: money_ok_def refunds_ok_def scan_payment_def)
    moreover have c2: "confirm s1 now (o_booking ord) = (s2, Inl Payments_SeatGone)" using seat_gone(3) by simp
    then have "t_refunds s2 = t_refunds s"
      using confirm_money[of s1 now "o_booking ord"] repo_mark_captured_Inr(4)[OF seat_gone(2)]
      by (simp add: money_tables_def)
    ultimately have "money_ok (fst (do_refund gw s2 rid (p_id p) (p_amount p) ''seat no longer available''))"
      using conf[OF ok1 c2] rid by (intro money_ok_refund) simp_all
    then show ?thesis using seat_gone(4) by simp
  next
    case (seated ord s1 p u)
    then have "confirm s1 now (o_booking ord) = (s', Inr u)" by simp
    then show ?thesis by (rule conf[OF cap[OF seated(3)]])
  next
    case (failed ord s1 p e)
    then have "confirm s1 now (o_booking ord) = (s', Inl e)" by simp
    then show ?thesis by (rule conf[OF cap[OF failed(3)]])
  next
    case (refused ord e)
    then show ?thesis using cap by blast
  qed (use ok in simp)
  with Pair show ?thesis by simp
qed

lemma money_ok_settle_loop:
  assumes "money_ok s" "pid \<notin> py_id ` set (t_payments s)" "rid \<notin> rf_id ` set (t_refunds s)"
    and "\<forall>g\<in>set gs. gp_amount g < 2 ^ 62"
  shows "money_ok (fst (settle_loop gw (Some \<lparr>bp_charge = charge, bp_confirm = confirm\<rparr>) now pid rid oid gs s))"
  using assms
proof (induction gs)
  case (Cons g gs)
  then have "money_ok (fst (mark_captured gw (Some \<lparr>bp_charge = charge, bp_confirm = confirm\<rparr>) s now pid rid oid (gp_id g) (gp_amount g)))"
    by (intro money_ok_mark_captured) simp_all
  with Cons show ?case by (auto split: prod.splits sum.splits)
qed simp

lemma money_ok_settle:
  assumes "money_ok s" "pid \<notin> py_id ` set (t_payments s)" "rid \<notin> rf_id ` set (t_refunds s)"
    and "\<And>gs. gw_payments g oid = Inr gs \<Longrightarrow> \<forall>g\<in>set gs. gp_amount g < 2 ^ 62"
  shows "money_ok (fst (settle_from_gateway g (Some \<lparr>bp_charge = charge, bp_confirm = confirm\<rparr>) s now pid rid oid))"
  using assms by (auto simp: settle_from_gateway_def intro: money_ok_settle_loop split: sum.splits)

lemma money_ok_verify:
  assumes "money_ok s" "pid \<notin> py_id ` set (t_payments s)" "rid \<notin> rf_id ` set (t_refunds s)"
    and "\<And>g oid gs. gw = Some g \<Longrightarrow> gw_payments g oid = Inr gs \<Longrightarrow> \<forall>g\<in>set gs. gp_amount g < 2 ^ 62"
  shows "money_ok (fst (verify_order gw \<lparr>bp_charge = charge, bp_confirm = confirm\<rparr> s now pid rid oid caller))"
proof -
  have settle: "money_ok (fst (settle_from_gateway g (Some \<lparr>bp_charge = charge, bp_confirm = confirm\<rparr>) s now pid rid x))"
    if "gw = Some g" for g x
    using assms that by (intro money_ok_settle) auto
  have conf: "money_ok (fst (case confirm s now k of
      (s1, Inl e) \<Rightarrow> (s1, if e = Payments_SeatGone then Inr () else Inl e) | (s1, Inr u) \<Rightarrow> (s1, Inr ())))" for k
    using money_ok_confirm[OF assms(1), of now k] by (auto split: prod.splits sum.splits)
  show ?thesis
    using assms(1) settle
    by (auto simp: verify_order_def split: sum.split option.split intro!: and_then_keeps[where I = money_ok] conf)
qed

text \<open>Replaying a capture that succeeded: same payment, nothing written.\<close>

lemma capture_again:
  assumes wf: "wf_db s" and pid: "pid \<notin> py_id ` set (t_payments s)"
    and c: "mark_captured gw (Some \<lparr>bp_charge = charge, bp_confirm = confirm\<rparr>) s now pid rid oid gid amount = (s', Inr p)"
    and pos: "0 < amount'"
  shows "mark_captured gw (Some \<lparr>bp_charge = charge, bp_confirm = confirm\<rparr>) s' now' pid' rid' oid gid amount' = (s', Inr p)"
  using c
proof (cases rule: mark_captured_cases)
  case (seated ord s1 p' u)
  then have s1: "repo_mark_captured s now pid (o_id ord) gid amount (o_currency ord) = (s1, Inr p)"
    and conf: "confirm s1 now (o_booking ord) = (s', Inr ())" by simp_all
  obtain row where row: "order_by_id s oid = Some row" "ord = scan_order row"
    using seated(1) by (auto simp: find_order_def split: option.splits)
  have oid: "o_id ord = oid" using find_key(2)[OF row(1)] by (simp add: row(2) scan_order_def)
  have mt: "money_tables s' = money_tables s1" using confirm_money[of s1 now "o_booking ord"] conf by simp
  have "map_option or_booking (order_by_id s1 oid) = Some (o_booking ord)"
    using repo_mark_captured_Inr(5)[OF s1] row by (auto simp: mark_order_paid_def find_upd_key scan_order_def oid)
  then obtain row' where row': "order_by_id s' oid = Some row'" "or_booking row' = o_booking ord"
    using mt by (auto simp: money_tables_def)
  obtain pr where pr: "payment_by_gateway s1 gid = Some pr" "p = scan_payment pr"
    using repo_mark_captured_Inr(2)[OF s1] by blast
  have pr': "payment_by_gateway s' gid = Some pr" using pr mt by (simp add: payment_by_gateway_def money_tables_def)
  have "wf_db s1" using wf s1 pid by (auto simp: repo_mark_captured_def Let_def mark_order_paid_def wf_db_def map_upd
        split: option.splits if_splits)
  then have again: "confirm s' now' (o_booking ord) = (s', Inr ())" using confirm_again conf by blast
  show ?thesis
    using row' pr' pr(2) again pos
    by (simp add: mark_captured_def find_order_def repo_mark_captured_def scan_order_def)
qed (auto split: sum.splits)

text \<open>A seat lost while the money was under way: everything goes back, and no more.\<close>

lemma seat_gone_refund:
  assumes ok: "money_ok s" and pid: "pid \<notin> py_id ` set (t_payments s)" and rid: "rid \<notin> rf_id ` set (t_refunds s)"
    and small: "amount < 2 ^ 62"
    and c: "mark_captured gw (Some \<lparr>bp_charge = charge, bp_confirm = confirm\<rparr>) s now pid rid oid gid amount
              = (s', Inl Payments_PlanFullAfterPay)"
    and port: "\<And>s n b. snd (confirm s n b) \<noteq> Inl Payments_PlanFullAfterPay"
  shows "\<exists>r. payment_by_gateway s' gid = Some r \<and> refunded_total s' (py_id r) = py_amount r"
proof -
  have ok': "money_ok s'" using money_ok_mark_captured[OF ok pid rid small, of gw now oid gid] c by simp
  from c show ?thesis
  proof (cases rule: mark_captured_cases)
    case (no_order e)
    then show ?thesis by (simp add: find_order_def split: option.splits)
  next
    case (refused ord e)
    then show ?thesis by (auto simp: repo_mark_captured_def Let_def split: option.splits if_splits)
  next
    case (failed ord s1 p e)
    then show ?thesis using port[of s1 now "o_booking ord"] by simp
  next
    case (seat_gone ord s1 p s2 q)
    have c2: "confirm s1 now (o_booking ord) = (s2, Inl Payments_SeatGone)" using seat_gone(3) by simp
    have mt: "money_tables s2 = money_tables s1" using confirm_money[of s1 now "o_booking ord"] c2 by simp
    obtain pr where pr: "payment_by_gateway s1 gid = Some pr" "p = scan_payment pr"
      using repo_mark_captured_Inr(2)[OF seat_gone(2)] by blast
    obtain rf where q: "do_refund gw s2 rid (p_id p) (p_amount p) ''seat no longer available'' = (s', Inr rf)"
      using seat_gone(4,5) do_refund_error[of gw s2 rid "p_id p" "p_amount p" "''seat no longer available''"]
      by (cases q) auto
    have "t_refunds s2 = t_refunds s" using mt repo_mark_captured_Inr(4)[OF seat_gone(2)] by (simp add: money_tables_def)
    then have tot1: "refunded_total s' (py_id pr) = refunded_total s2 (py_id pr) + py_amount pr" "t_payments s' = t_payments s2"
      using do_refund_done[OF q] rid by (simp_all add: pr(2) scan_payment_def)
    have pr': "payment_by_gateway s' gid = Some pr"
      using pr(1) mt tot1(2) by (simp add: payment_by_gateway_def money_tables_def)
    then have "refunded_total s' (py_id pr) \<le> py_amount pr"
      using ok' by (auto simp: money_ok_def refunds_ok_def payment_by_gateway_def find_Some_iff)
    moreover have "0 \<le> refunded_total s2 (py_id pr)"
    proof -
      have "money_ok s1" using money_ok_capture[OF ok pid small] seat_gone(2) by (metis fst_conv)
      then have "money_ok s2" using mt money_ok_cong by blast
      then show ?thesis unfolding refunded_total_def
        by (intro tot_nonneg) (auto simp: money_ok_def refunds_ok_def less_imp_le)
    qed
    ultimately show ?thesis using tot1(1) pr' by (intro exI[of _ pr]) simp
  qed simp
qed

end

end
