(* ===== verification/Payment_Props.thy ===== *)
theory Payment_Props
  imports Payment_Facts
begin

text \<open>
  The booking port of the program, the remaining service operations over it, the runs of
  the payment system, and what they guarantee.
\<close>

section \<open>Creating an order\<close>

text \<open>The steps of \<open>CreateOrder\<close>, for every way it can end.\<close>

lemma discount_le: "discount r amount \<le> amount"
  by (simp add: discount_def Let_def)

context booking_port
begin

lemma create_order_cases:
  assumes "create_order gw \<lparr>bp_charge = charge, bp_confirm = confirm\<rparr> s now oid bid caller phone promo uc = (s', r)"
  obtains (refused) e where "s' = s" "r = Inl e"
  | (priced) due cur where "bid \<noteq> ''''" "caller \<noteq> ''''" "charge s bid = Inr (caller, due, cur, PaymentPending)" "0 < due"
proof (cases "bid = '''' \<or> caller = ''''")
  case True
  with assms have "s' = s \<and> r = Inl Payments_InvalidInput" by (simp add: create_order_def)
  then show thesis using refused by blast
next
  case False
  show thesis
  proof (cases "charge s bid")
    case (Inl e)
    with assms False have "s' = s \<and> r = Inl e" by (simp add: create_order_def)
    then show thesis using refused by blast
  next
    case (Inr a)
    obtain owner due cur st where a: "a = (owner, due, cur, st)" by (cases a)
    show thesis
    proof (cases "owner = caller \<and> st = PaymentPending \<and> 0 < due")
      case True
      with Inr a False priced show thesis by blast
    next
      case bad: False
      with assms False Inr a have "s' = s \<and> (\<exists>e. r = Inl e)" by (auto simp: create_order_def split: if_splits)
      then show thesis using refused by blast
    qed
  qed
qed

lemma money_ok_start_payment:
  assumes ok: "money_ok s"
  shows "money_ok (fst (start_payment gw \<lparr>bp_charge = charge, bp_confirm = confirm\<rparr> s now bid phone created))"
proof -
  have "money_ok (fst (confirm (mark_order_paid s x) now bid))" for x
    by (intro money_ok_confirm money_ok_mark_paid ok)
  then have "money_ok (fst (and_then (confirm (mark_order_paid s x) now bid) (\<lambda>_ s1. (s1, Inr y))))"
    for x and y :: "order \<times> string"
    by (intro and_then_keeps[where I = money_ok]) simp_all
  moreover have "money_ok (cancel_unpaid_orders_for_booking s bid)"
    by (simp add: cancel_unpaid_orders_for_booking_def money_ok_cancel_unpaid ok)
  ultimately show ?thesis
    by (simp add: start_payment_def ok money_ok_gateway_id split: option.split sum.split)
qed

lemma money_ok_create_order:
  assumes ok: "money_ok s" and fresh: "oid \<notin> or_id ` set (t_orders s)"
  shows "money_ok (fst (create_order gw \<lparr>bp_charge = charge, bp_confirm = confirm\<rparr> s now oid bid caller phone promo uc))"
proof -
  let ?b = "\<lparr>bp_charge = charge, bp_confirm = confirm\<rparr>"
  let ?s0 = "cancel_unpaid_orders_for_booking s bid"
  have ok0: "money_ok ?s0" by (simp add: cancel_unpaid_orders_for_booking_def money_ok_cancel_unpaid ok)
  have ids0: "or_id ` set (t_orders ?s0) = or_id ` set (t_orders s)"
    by (simp add: cancel_unpaid_orders_for_booking_def cancel_unpaid_def Let_def map_upd flip: set_map)
  let ?c = "\<lambda>due. if promo = '''' then (?s0, Inr 0) else reserve_coupon ?s0 now promo due"
  have coupon: "money_ok (fst (?c due))" "t_orders (fst (?c due)) = t_orders ?s0" for due
    using money_ok_coupon[OF ok0] ok0 by (auto simp: reserve_coupon_def Let_def split: option.splits)
  have order: "money_ok (fst (create_order_with_credits (fst (?c due)) now oid ord u c))" for due ord u c
    using coupon fresh ids0 by (intro money_ok_order) simp_all
  have rest: "money_ok (fst (and_then (?c due) (\<lambda>disc s1. and_then (create_order_with_credits s1 now oid (ord disc) u c)
      (\<lambda>(created, _) s2. start_payment gw ?b s2 now bid phone created))))" for due ord u c
    using coupon order by (intro and_then_keeps[where I = money_ok]) (auto intro: money_ok_start_payment)
  show ?thesis
    unfolding create_order_def by (simp add: ok rest Let_def del: if_split split: sum.split prod.split)
qed

end

section \<open>The booking package as the port\<close>

lemma seat_confirmed_booking_money:
  assumes "seat_confirmed_booking s now bid plan user = (s', Inr u)"
  shows "money_tables s' = money_tables s"
proof -
  obtain s1 where s1: "bump_confirmed (upsert_participant s now plan user bid) plan 1 = (s1, Inr ())"
    and s': "s' = enqueue (accept_waitlist s1 now plan user) now ''BOOKING_CONFIRMED'' bid
                  (BookingPayload bid plan user)"
    using assms by (auto simp: seat_confirmed_booking_def and_then_eq_Inr)
  have "money_tables (accept_waitlist s1 now plan user) = money_tables s1"
    by (simp add: money_tables_def accept_waitlist_def)
  moreover have "money_tables s1 = money_tables (upsert_participant s now plan user bid)"
    using s1 by (auto simp: bump_confirmed_def money_tables_def split: option.splits if_splits)
  moreover have "money_tables (upsert_participant s now plan user bid) = money_tables s"
    by (simp add: money_tables_def upsert_participant_def)
  ultimately show ?thesis by (simp add: s' money_tables_def)
qed

lemma notify_host_money: "money_tables (notify_host s now k u) = money_tables s"
  by (simp add: notify_host_def money_tables_def split: option.splits)

lemma confirm_paid_cases:
  assumes "confirm_paid s now bid = (s', r)"
  obtains (same) "s' = s"
  | (seated) b s2 where "booking_by_id s bid = Some b" "bk_status b = PaymentPending \<or> bk_status b = Cancelled"
      "seat_confirmed_booking (s\<lparr>t_bookings := upd (\<lambda>r. bk_id r = bid)
          (\<lambda>r. r\<lparr>bk_status := Confirmed, bk_expires := None, bk_updated := now\<rparr>) (t_bookings s)\<rparr>)
        now bid (bk_plan b) (bk_user b) = (s2, Inr ())"
      "s' = notify_host s2 now (bk_plan b) (bk_user b)" "r = Inr ()"
proof (cases "s' = s")
  case False
  then obtain u where "r = Inr u"
    using assms by (cases r) (auto simp: confirm_paid_def in_tx_def split: option.splits sum.splits if_splits)
  with False assms seated show thesis
    by (auto simp: confirm_paid_def in_tx_eq_Inr and_then_eq_Inr split: option.splits if_splits)
qed (rule same)

lemma confirm_paid_money: "money_tables (fst (confirm_paid s now bid)) = money_tables s"
proof (cases "confirm_paid s now bid")
  case (Pair s' r)
  from Pair show ?thesis
  proof (cases rule: confirm_paid_cases)
    case (seated b s2)
    then show ?thesis
      using seat_confirmed_booking_money[OF seated(3)] notify_host_money[of s2 now "bk_plan b" "bk_user b"] Pair
      by (simp add: money_tables_def)
  qed (use Pair in simp)
qed

lemma confirm_paid_error: "snd (confirm_paid s now bid) = Inl e \<Longrightarrow> fst (confirm_paid s now bid) = s"
  by (cases "confirm_paid s now bid") (auto elim: confirm_paid_cases)

lemma confirm_paid_wf:
  assumes "wf_db s" shows "wf_db (fst (confirm_paid s now bid))"
proof (cases "confirm_paid s now bid")
  case (Pair s' r)
  from Pair show ?thesis
  proof (cases rule: confirm_paid_cases)
    case (seated b s2)
    let ?s1 = "s\<lparr>t_bookings := upd (\<lambda>r. bk_id r = bid)
          (\<lambda>r. r\<lparr>bk_status := Confirmed, bk_expires := None, bk_updated := now\<rparr>) (t_bookings s)\<rparr>"
    have "wf_db ?s1" by (intro wf_upd_bookings assms) simp
    then have wfp: "wf_db (upsert_participant ?s1 now (bk_plan b) (bk_user b) bid)" by (rule wf_upsert_participant)
    obtain s1 where "bump_confirmed (upsert_participant ?s1 now (bk_plan b) (bk_user b) bid) (bk_plan b) 1 = (s1, Inr ())"
      and "s2 = enqueue (accept_waitlist s1 now (bk_plan b) (bk_user b)) now ''BOOKING_CONFIRMED'' bid
                  (BookingPayload bid (bk_plan b) (bk_user b))"
      using seated(3) by (auto simp: seat_confirmed_booking_def and_then_eq_Inr)
    then have "wf_db s2" using wf_bump_confirmed[OF wfp] by (simp add: wf_enqueue wf_accept_waitlist)
    then show ?thesis using Pair seated(4) by (simp add: wf_notify_host)
  qed (use Pair assms in simp)
qed

text \<open>The laws hold for the booking service behind \<open>AdaptBookings\<close>, as \<^verbatim>\<open>cmd/api\<close> wires it.\<close>

interpretation bport: booking_port get_booking_charge "adapt_confirm confirm_paid_booking Bookings_PlanFull"
proof
  fix s s' :: db and now now' :: int and bid :: string and e :: go_error and u :: unit
  show "money_tables (fst (adapt_confirm confirm_paid_booking Bookings_PlanFull s now bid)) = money_tables s"
    using confirm_paid_money[of s now bid]
    by (auto simp: adapt_confirm_def confirm_paid_booking_def split: prod.splits sum.splits)
  show "snd (adapt_confirm confirm_paid_booking Bookings_PlanFull s now bid) = Inl e \<Longrightarrow>
      fst (adapt_confirm confirm_paid_booking Bookings_PlanFull s now bid) = s"
    using confirm_paid_error[of s now bid]
    by (auto simp: adapt_confirm_def confirm_paid_booking_def split: prod.splits sum.splits if_splits)
  show "wf_db s \<Longrightarrow> wf_db (fst (adapt_confirm confirm_paid_booking Bookings_PlanFull s now bid))"
    using confirm_paid_wf[of s now bid]
    by (auto simp: adapt_confirm_def confirm_paid_booking_def split: prod.splits sum.splits if_splits)
  show "t_bookings s = t_bookings s' \<Longrightarrow> get_booking_charge s bid = get_booking_charge s' bid"
    by (simp add: get_booking_charge_def service_get_booking_def get_booking_def)
  assume wf: "wf_db s" and c: "adapt_confirm confirm_paid_booking Bookings_PlanFull s now bid = (s', Inr u)"
  then have "bid \<noteq> ''''" "confirm_paid s now bid = (s', Inr ())"
    by (auto simp: adapt_confirm_def confirm_paid_booking_def split: prod.splits sum.splits if_splits)
  moreover from this have "confirm_paid s' now' bid = (s', Inr ())"
    by (rule_tac confirm_paid_done[OF _ wf, of now bid s' "()"]) (auto simp: confirm_paid_def)
  ultimately show "adapt_confirm confirm_paid_booking Bookings_PlanFull s' now' bid = (s', Inr ())"
    by (simp add: adapt_confirm_def confirm_paid_booking_def)
qed

lemma bookings_port_eq: "bookings_port = \<lparr>bp_charge = get_booking_charge,
    bp_confirm = adapt_confirm confirm_paid_booking Bookings_PlanFull\<rparr>"
  by (simp add: bookings_port_def adapt_bookings_def)


end
