(* ===== verification/Payment_Runs.thy ===== *)
theory Payment_Runs
  imports Payment_Props
begin

text \<open>
  The runs of the payment system - API calls, webhooks, the worker's jobs, interleaved with
  every step of the booking package - and what holds in all of them.
\<close>

section \<open>Booking steps do not touch the money\<close>

lemma money_tables_outside_waitlist:
  "outside_waitlist s' = outside_waitlist s \<Longrightarrow> money_tables s' = money_tables s"
  using outside_waitlist_eqD[of s' s] by (simp add: money_tables_def)

lemma money_tables_enqueue_all: "money_tables (enqueue_all now ev xs s) = money_tables s"
  by (induction now ev xs s rule: enqueue_all.induct) (simp_all add: money_tables_def)

lemma create_money: "money_tables (fst (create s now tnow nid plan user idem)) = money_tables s"
proof (cases "create s now tnow nid plan user idem")
  case (Pair s' r)
  show ?thesis
  proof (cases r)
    case (Inl e)
    with Pair create_error_state[of s now tnow nid plan user idem e] show ?thesis by simp
  next
    case (Inr b)
    with Pair have c: "create s now tnow nid plan user idem = (s', Inr b)" by simp
    then have "money_tables s' = money_tables s"
    proof (cases rule: create_cases)
      case (1 p)
      from 1(7) show ?thesis by (cases rule: hold_seat_cases) (simp_all add: money_tables_def)
    next
      case (2 p)
      from 2(7) show ?thesis
      proof (cases rule: book_free_seat_cases)
        case (1 r s2)
        then show ?thesis using seat_confirmed_booking_money[OF 1(2)] notify_host_money[of s2 now "pl_id p" user]
          by (simp add: money_tables_def)
      qed
    qed
    with c show ?thesis by simp
  qed
qed

lemma free_seat_money:
  assumes "free_seat s now tnow b reason by_host = (s', Inr u)"
  shows "money_tables s' = money_tables s"
  using assms
proof (cases rule: free_seat_cases)
  case (1 p s1 s2)
  let ?s1 = "s1\<lparr>t_participants := upd (\<lambda>r. pp_booking r = Some (bk_id b))
        (\<lambda>r. r\<lparr>pp_status := PartCancelled\<rparr>) (t_participants s1)\<rparr>"
  have "money_tables s2 = money_tables ?s1"
    using money_tables_outside_waitlist[OF offer_freed_seats_frame, of ?s1 now tnow "bk_plan b"] 1(3) by simp
  moreover have "money_tables s1 = money_tables s"
    using 1(2) by (auto simp: bump_confirmed_def money_tables_def split: option.splits if_splits)
  ultimately show ?thesis by (simp add: 1(4) money_tables_def)
qed

lemma cancel_money: "money_tables (fst (cancel s now tnow bid reason by_host)) = money_tables s"
proof (cases "booking_by_id s bid")
  case None
  then show ?thesis by (simp add: cancel_def)
next
  case (Some b)
  let ?s1 = "s\<lparr>t_bookings := upd (\<lambda>r. bk_id r = bid) (set_status Cancelled now) (t_bookings s)\<rparr>"
  obtain s2 q where f: "free_seat ?s1 now tnow (set_status Cancelled now b) reason by_host = (s2, q)" by fastforce
  have "q = Inr u \<Longrightarrow> money_tables s2 = money_tables s" for u
    using free_seat_money[of ?s1 now tnow "set_status Cancelled now b" reason by_host s2 u] f
    by (simp add: money_tables_def)
  with f Some show ?thesis
    by (cases q) (simp_all add: cancel_def Let_def money_tables_def)
qed

lemma booking_step_money: "booking_step s s' \<Longrightarrow> money_tables s' = money_tables s"
proof (induction rule: booking_step.induct)
  case (completing s now tnow)
  show ?case by (simp add: complete_ended_plans_def Let_def money_tables_enqueue_all) (simp add: money_tables_def)
next
  case (no_shows s now tnow)
  show ?case by (simp add: mark_no_shows_def Let_def money_tables_enqueue_all) (simp add: money_tables_def)
next
  case (checking_in s now bid user)
  show ?case by (simp add: check_in_def Let_def money_tables_def split: option.splits)
next
  case (expire s now tnow)
  show ?case by (simp add: expire_pending_def Let_def money_tables_def)
next
  case (reserving s tnow key)
  show ?case by (simp add: reserve_def money_tables_def)
next
  case (joining nid s now tnow plan user)
  show ?case by (rule money_tables_outside_waitlist) simp
next
  case (leaving s now tnow plan user)
  show ?case by (rule money_tables_outside_waitlist) simp
next
  case (sweeping s now tnow)
  show ?case by (rule money_tables_outside_waitlist) simp
next
  case (closing s now plan)
  show ?case by (rule money_tables_outside_waitlist) simp
qed (simp_all add: create_money confirm_paid_money cancel_money)

section \<open>Runs\<close>

lemma money_ok_capture_unwired:
  assumes "money_ok s" "pid \<notin> py_id ` set (t_payments s)" "amount < 2 ^ 62"
  shows "money_ok (fst (mark_captured gw None s now pid rid oid gid amount))"
  using money_ok_capture[OF assms] assms(1)
  by (auto simp: mark_captured_def split: sum.split intro!: and_then_keeps[where I = money_ok])

lemma money_ok_settle_unwired:
  assumes "money_ok s" "pid \<notin> py_id ` set (t_payments s)"
    and "\<And>gs. gw_payments g oid = Inr gs \<Longrightarrow> \<forall>g\<in>set gs. gp_amount g < 2 ^ 62"
  shows "money_ok (fst (settle_from_gateway g None s now pid rid oid))"
proof -
  have "money_ok (fst (settle_loop gw None now pid rid oid gs s))" if "\<forall>g\<in>set gs. gp_amount g < 2 ^ 62" for gw gs
    using that
  proof (induction gs)
    case (Cons g gs)
    then have "money_ok (fst (mark_captured gw None s now pid rid oid (gp_id g) (gp_amount g)))"
      using assms(1,2) by (intro money_ok_capture_unwired) simp_all
    with Cons show ?case by (auto split: prod.splits sum.splits)
  qed (use assms in simp)
  then show ?thesis using assms by (simp add: settle_from_gateway_def split: sum.split)
qed

lemma money_ok_refund_booking:
  assumes "money_ok s" "rid \<notin> rf_id ` set (t_refunds s)"
  shows "money_ok (fst (refund_booking_if_captured gw s rid bid reason percent))"
proof -
  have "int64 x sdiv 100 - refunded_total s k < 2 ^ 62" for x k
  proof -
    have "0 \<le> refunded_total s k" unfolding refunded_total_def
      using assms(1) by (intro tot_nonneg) (auto simp: money_ok_def refunds_ok_def less_imp_le)
    moreover have "int64 x sdiv 100 < 2 ^ 62"
      using int64_range[of x] by (auto simp: signed_divide_int_def sgn_if div_pos_pos_trivial intro: le_less_trans)
    ultimately show ?thesis by simp
  qed
  then have "money_ok (fst (do_refund gw s rid k (int64 x sdiv 100 - refunded_total s k') r))" for k k' x r
    using assms by (intro money_ok_refund) simp_all
  with assms(1) show ?thesis
    by (auto simp: refund_booking_if_captured_def Let_def split: sum.split intro!: and_then_keeps[where I = money_ok])
qed

lemma money_ok_record_refund_result:
  assumes ok: "money_ok s"
    and late: "status = ''SUCCESS'' \<Longrightarrow> \<forall>r\<in>set (t_refunds s). rf_id r = rid \<longrightarrow> rf_status r \<noteq> RefundFailed"
  shows "money_ok (record_refund_result s rid status)"
proof -
  have "money_ok (set_refund_status s rid st)"
    if "st = RefundFailed \<or> st = RefundProcessed \<and> status = ''SUCCESS''" for st
    unfolding set_refund_status_def using that late by (intro money_ok_set_refund[OF ok]) auto
  with ok show ?thesis by (simp add: record_refund_result_def)
qed

lemma money_ok_release: "money_ok s \<Longrightarrow> money_ok (fst (repo_release_abandoned_orders s))"
  by (simp add: repo_release_abandoned_orders_def Let_def money_ok_cancel_unpaid)

text \<open>
  One step of the money system. New ids are fresh; a gateway reports amounts below 2^62
  minor units. A webhook's "refund succeeded" arrives only for a refund not already
  recorded as failed: without that condition the invariant is lost, see
  \<open>late_success_refunds_twice\<close>.
\<close>

inductive money_step :: "db \<Rightarrow> db \<Rightarrow> bool" where
  ordering: "oid \<notin> or_id ` set (t_orders s) \<Longrightarrow>
     money_step s (fst (create_order gw bookings_port s now oid bid caller phone promo uc))"
| capturing: "pid \<notin> py_id ` set (t_payments s) \<Longrightarrow> rid \<notin> rf_id ` set (t_refunds s) \<Longrightarrow> amount < 2 ^ 62 \<Longrightarrow>
     money_step s (fst (mark_captured gw (Some bookings_port) s now pid rid oid gid amount))"
| verifying: "pid \<notin> py_id ` set (t_payments s) \<Longrightarrow> rid \<notin> rf_id ` set (t_refunds s) \<Longrightarrow>
     (\<And>g x gs. gw = Some g \<Longrightarrow> gw_payments g x = Inr gs \<Longrightarrow> \<forall>p\<in>set gs. gp_amount p < 2 ^ 62) \<Longrightarrow>
     money_step s (fst (verify_order gw bookings_port s now pid rid oid caller))"
| settling: "pid \<notin> py_id ` set (t_payments s) \<Longrightarrow> rid \<notin> rf_id ` set (t_refunds s) \<Longrightarrow>
     (\<And>gs. gw_payments g oid = Inr gs \<Longrightarrow> \<forall>p\<in>set gs. gp_amount p < 2 ^ 62) \<Longrightarrow>
     bk = None \<or> bk = Some bookings_port \<Longrightarrow>
     money_step s (fst (settle_from_gateway g bk s now pid rid oid))"
| refunding: "rid \<notin> rf_id ` set (t_refunds s) \<Longrightarrow> amount < 2 ^ 62 \<Longrightarrow>
     money_step s (fst (refund_payment gw s rid pid amount reason))"
| refunding_booking: "rid \<notin> rf_id ` set (t_refunds s) \<Longrightarrow>
     money_step s (fst (refund_booking_if_captured gw s rid bid reason percent))"
| refund_result: "(status = ''SUCCESS'' \<Longrightarrow> \<forall>r\<in>set (t_refunds s). rf_id r = rid \<longrightarrow> rf_status r \<noteq> RefundFailed) \<Longrightarrow>
     money_step s (record_refund_result s rid status)"
| releasing: "money_step s (fst (repo_release_abandoned_orders s))"
| booking: "booking_step s s' \<Longrightarrow> money_step s s'"

lemma money_step_ok: "money_step s s' \<Longrightarrow> money_ok s \<Longrightarrow> money_ok s'"
proof (induction rule: money_step.induct)
  case (ordering oid s gw now bid caller phone promo uc)
  then show ?case unfolding bookings_port_eq by (rule bport.money_ok_create_order[rotated])
next
  case (capturing pid s rid amount gw now oid gid)
  then show ?case unfolding bookings_port_eq by (intro bport.money_ok_mark_captured)
next
  case (verifying pid s rid gw now oid caller)
  then show ?case unfolding bookings_port_eq by (intro bport.money_ok_verify) auto
next
  case (settling pid s rid g oid bk now)
  then show ?case using bport.money_ok_settle[of s pid rid g oid now] money_ok_settle_unwired[of s pid g oid now rid]
    by (auto simp: bookings_port_eq)
next
  case (refunding rid s amount gw pid reason)
  then show ?case by (simp add: refund_payment_def money_ok_refund)
next
  case (booking s s')
  then show ?case using money_ok_cong[OF booking_step_money[OF booking(1)]] by simp
qed (simp_all add: money_ok_refund_booking money_ok_record_refund_result money_ok_release)

abbreviation money_run :: "db \<Rightarrow> db \<Rightarrow> bool" where "money_run \<equiv> money_step\<^sup>*\<^sup>*"

lemma money_run_ok: "money_run s s' \<Longrightarrow> money_ok s \<Longrightarrow> money_ok s'"
  by (induction rule: rtranclp_induct) (auto intro: money_step_ok)

lemma money_ok_start: "t_orders s = [] \<Longrightarrow> t_payments s = [] \<Longrightarrow> t_refunds s = [] \<Longrightarrow> t_recon s = []
    \<Longrightarrow> t_ledger s = [] \<Longrightarrow> t_promos s = [] \<Longrightarrow> money_ok s"
  by (simp add: money_defs)

section \<open>What every run guarantees\<close>


definition sample_order :: order_row where
  "sample_order = \<lparr>or_id = ''o'', or_booking = ''b'', or_amount = 1100, or_currency = ''INR'', or_gateway = None,
     or_status = OrderCreated, or_created = 0\<rparr>"

definition sample_payment :: payment_row where
  "sample_payment = \<lparr>py_id = ''pay'', py_order = ''o'', py_amount = 1100, py_currency = ''INR'',
     py_status = PayCaptured, py_gateway = Some ''cf1'', py_created = 3\<rparr>"

definition sample_gateway :: gateway where
  "sample_gateway = \<lparr>gw_create = \<lambda>_ _ _ _ _ _. Inr (''cfo'', ''sess''), gw_refund = \<lambda>_ _ _ _. Inr ''cfr'',
     gw_payments = \<lambda>_. Inr [\<lparr>gp_id = ''cf0'', gp_status = ''FAILED'', gp_amount = 1100\<rparr>,
                            \<lparr>gp_id = ''cf1'', gp_status = ''SUCCESS'', gp_amount = 1100\<rparr>]\<rparr>"

lemmas pay_samples = sample_order_def sample_payment_def sample_gateway_def

text \<open>A database with one captured payment, its booking cancelled, its reconciliation entry.\<close>

definition paid_db :: db where
  "paid_db = empty_db\<lparr>t_bookings := [sample_booking\<lparr>bk_status := Cancelled\<rparr>],
     t_orders := [sample_order\<lparr>or_status := OrderPaid\<rparr>], t_payments := [sample_payment],
     t_recon := [(''payment'', ''pay'', 1100)]\<rparr>"

lemma paid_db_ok: "money_ok paid_db"
  by (simp add: money_defs paid_db_def pay_samples samples order_credits_def spent_on_def reversed_on_def
      counts_as_refunded_def)


text \<open>
  C3. In every run nobody's credit balance goes below zero, and the credits spent on an
  order are either still spent or given back exactly once and in full: never while the
  order is open, always once it was cancelled.
\<close>

theorem credits_returned_once:
  assumes "money_run s s'" "money_ok s"
  shows "0 \<le> get_credit_balance s' u \<and> (\<forall>x\<in>set (t_orders s').
    spent_on (t_ledger s') (or_id x) u \<le> 0
    \<and> reversed_on (t_ledger s') (or_id x) u \<in> {0, - spent_on (t_ledger s') (or_id x) u}
    \<and> (or_status x = OrderCreated \<longrightarrow> reversed_on (t_ledger s') (or_id x) u = 0)
    \<and> (or_status x = OrderCancelled \<longrightarrow> reversed_on (t_ledger s') (or_id x) u = - spent_on (t_ledger s') (or_id x) u))"
  using money_run_ok[OF assms] by (simp_all add: money_ok_def credits_ok_def order_credits_def)

lemma credits_returned_once_witness:
  "let s = empty_db\<lparr>t_bookings := [sample_booking\<lparr>bk_status := Cancelled\<rparr>], t_orders := [sample_order],
       t_ledger := [\<lparr>cl_user = ''u'', cl_amount = 500, cl_reason = ''referral'', cl_order = None\<rparr>,
                    \<lparr>cl_user = ''u'', cl_amount = -500, cl_reason = ''booking_spend'', cl_order = Some ''o''\<rparr>]\<rparr>;
       s' = fst (repo_release_abandoned_orders s)
   in reversed_on (t_ledger s') ''o'' ''u'' = 500 \<and> 0 \<le> get_credit_balance s' ''u''"
proof -
  let ?s = "empty_db\<lparr>t_bookings := [sample_booking\<lparr>bk_status := Cancelled\<rparr>], t_orders := [sample_order],
       t_ledger := [\<lparr>cl_user = ''u'', cl_amount = 500, cl_reason = ''referral'', cl_order = None\<rparr>,
                    \<lparr>cl_user = ''u'', cl_amount = -500, cl_reason = ''booking_spend'', cl_order = Some ''o''\<rparr>]\<rparr>"
  let ?s' = "fst (repo_release_abandoned_orders ?s)"
  have ok: "money_ok ?s"
    by (simp add: money_defs pay_samples samples order_credits_def spent_on_def reversed_on_def spend_entry_def)
  have run: "money_run ?s ?s'" by (rule r_into_rtranclp, rule releasing)
  have o: "sample_order\<lparr>or_status := OrderCancelled\<rparr> \<in> set (t_orders ?s')"
    by (simp add: op_defs pay_samples samples not_pending_def)
  have "spent_on (t_ledger ?s') ''o'' ''u'' = -500"
    by (simp add: op_defs pay_samples samples not_pending_def reversals_def spenders_def spend_entry_def spent_on_def)
  with credits_returned_once[OF run ok, of "''u''"] bspec[OF conjunct2[OF credits_returned_once[OF run ok, of "''u''"]] o]
  show ?thesis by (simp add: Let_def pay_samples)
qed

text \<open>
  In every run the payment entries of the reconciliation ledger are exactly the
  captured payments, in order and with their amounts, and no capped coupon is used more
  often than its cap allows.
\<close>

theorem ledger_matches_payments:
  assumes "money_run s s'" "money_ok s"
  shows "filter (\<lambda>e. fst e = ''payment'') (t_recon s') = map (\<lambda>p. (''payment'', py_id p, py_amount p)) (t_payments s')
    \<and> list_all (\<lambda>c. pc_max c = 0 \<or> pc_uses c \<le> pc_max c) (t_promos s')"
  using money_run_ok[OF assms] by (auto simp: money_ok_def recon_ok_def promos_ok_def list_all_iff)

lemma ledger_matches_payments_witness:
  "filter (\<lambda>e. fst e = ''payment'') (t_recon (fst (refund_booking_if_captured (Some sample_gateway) paid_db ''r1'' ''b'' ''off'' 50)))
     = [(''payment'', ''pay'', 1100)]"
proof -
  let ?s = "fst (refund_booking_if_captured (Some sample_gateway) paid_db ''r1'' ''b'' ''off'' 50)"
  have "money_run paid_db ?s" by (rule r_into_rtranclp, rule refunding_booking) (simp add: paid_db_def samples)
  moreover have "t_payments ?s = [sample_payment]"
    by (simp add: op_defs paid_db_def pay_samples samples find_captured_payment_def captured_for_def
        scan_payment_def refunded_total_def int64_id signed_divide_int_def)
  ultimately show ?thesis using ledger_matches_payments[of paid_db ?s] paid_db_ok by (simp add: pay_samples)
qed

text \<open>
  Webhook retries are harmless: once a capture of a gateway payment succeeded - the
  payment recorded, the order paid, the seat confirmed - any later report of the same
  gateway payment, at any time, with any gateway behaviour, returns the same payment and
  changes nothing.
\<close>

theorem capture_replay_harmless:
  assumes "wf_db s" "pid \<notin> py_id ` set (t_payments s)" "0 < amount'"
    and "mark_captured gw (Some bookings_port) s now pid rid oid gid amount = (s', Inr p)"
  shows "mark_captured gw (Some bookings_port) s' now' pid' rid' oid gid amount' = (s', Inr p)"
  using bport.capture_again[OF assms(1,2) _ assms(3)] assms(4) unfolding bookings_port_eq by blast

definition pending_db :: db where
  "pending_db = empty_db\<lparr>t_plans := [sample_plan\<lparr>pl_price := 1000\<rparr>],
     t_bookings := [sample_booking\<lparr>bk_status := PaymentPending, bk_expires := Some 900\<rparr>],
     t_orders := [sample_order]\<rparr>"

lemma pending_db_ok: "money_ok pending_db" "wf_db pending_db"
  by (simp_all add: money_defs pending_db_def pay_samples samples order_credits_def spent_on_def reversed_on_def wf_db_def)

lemmas capture_defs = mark_captured_def bookings_port_eq adapt_confirm_def confirm_paid_booking_def find_order_def
  op_defs pending_db_def pay_samples samples upsert_participant_def bump_confirmed_def accept_waitlist_def
  payment_by_gateway_def scan_payment_def scan_order_def coalesce_def nullif_def active_holds_def

lemma captured_once: "mark_captured None (Some bookings_port) pending_db 3 ''pay'' ''r1'' ''o'' ''cf1'' 1100
    = (fst (mark_captured None (Some bookings_port) pending_db 3 ''pay'' ''r1'' ''o'' ''cf1'' 1100), Inr (scan_payment sample_payment))"
  by (simp add: capture_defs)

lemma capture_replay_harmless_witness:
  "let s = fst (mark_captured None (Some bookings_port) pending_db 3 ''pay'' ''r1'' ''o'' ''cf1'' 1100)
   in mark_captured None (Some bookings_port) s 99 ''pay2'' ''r2'' ''o'' ''cf1'' 1100 = (s, Inr (scan_payment sample_payment))"
  unfolding Let_def
  by (rule capture_replay_harmless[OF pending_db_ok(2) _ _ captured_once]) (simp_all add: pending_db_def samples)

lemma confirm_port_errors:
  "snd (adapt_confirm confirm_paid_booking Bookings_PlanFull s now bid) \<noteq> Inl Payments_PlanFullAfterPay"
proof -
  have "snd (confirm_paid s now bid) \<noteq> Inl Payments_PlanFullAfterPay"
    by (auto simp: confirm_paid_def in_tx_def and_then_def seat_confirmed_booking_def bump_confirmed_def
        split: option.splits sum.splits prod.splits)
  then show ?thesis
    by (auto simp: adapt_confirm_def confirm_paid_booking_def split: prod.splits sum.splits)
qed


text \<open>The hold lapsed and somebody else took the last seat before the money arrived.\<close>

definition filled_db :: db where
  "filled_db = pending_db\<lparr>t_plans := [sample_plan\<lparr>pl_price := 1000, pl_confirmed := 2\<rparr>],
     t_bookings := [sample_booking\<lparr>bk_status := Cancelled\<rparr>]\<rparr>"

lemma filled_capture:
  "mark_captured (Some sample_gateway) (Some bookings_port) filled_db 3 ''pay'' ''r1'' ''o'' ''cf1'' 1100
    = (fst (mark_captured (Some sample_gateway) (Some bookings_port) filled_db 3 ''pay'' ''r1'' ''o'' ''cf1'' 1100),
       Inl Payments_PlanFullAfterPay)"
  by (simp add: capture_defs filled_db_def do_refund_def refunded_total_def int64_id)


text \<open>
  Why \<open>refund_result\<close> carries its condition: a refund the gateway first refused is retried,
  and a late webhook then reports the first attempt as successful after all. Both count
  from then on, and together they exceed the payment.
\<close>

lemma late_success_refunds_twice:
  "let s1 = fail_refund (fst (begin_refund paid_db ''r1'' ''pay'' 1100 ''off'')) ''r1'';
       s2 = fst (refund_payment (Some sample_gateway) s1 ''r2'' ''pay'' 1100 ''off'');
       s3 = record_refund_result s2 ''r1'' ''SUCCESS''
   in refunded_total s2 ''pay'' = 1100 \<and> refunded_total s3 ''pay'' = 2200"
  by (simp add: Let_def refund_payment_def record_refund_result_def op_defs paid_db_def pay_samples samples
      refunded_total_def counts_as_refunded_def int64_id)

section \<open>Who pays what\<close>

lemma reserve_coupon_Inr:
  "reserve_coupon s now code due = (s1, Inr disc) \<Longrightarrow>
    (\<exists>c\<in>set (t_promos s). live_promo now code c \<and> disc = discount c due)
    \<and> t_ledger s1 = t_ledger s \<and> t_bookings s1 = t_bookings s"
  by (auto simp: reserve_coupon_def Let_def find_Some_iff split: option.splits if_splits)

lemma start_payment_Inr:
  assumes "start_payment gw bookings_port s now bid phone created = (s', Inr (ord, session))"
  shows "(o_amount created \<le> 0 \<and> ord = created\<lparr>o_status := OrderPaid\<rparr>
      \<and> confirm_paid_booking (mark_order_paid s (o_id created)) now bid = (s', Inr ()))
    \<or> (0 < o_amount created \<and> o_status ord = o_status created \<and> (\<exists>g cf uid email. gw = Some g
      \<and> gw_create g (o_id created) (o_amount created) (o_currency created) uid phone email = Inr (cf, session)
      \<and> ord = created\<lparr>o_gateway := cf\<rparr>))"
  using assms
  by (auto simp: start_payment_def bookings_port_eq and_then_eq_Inr adapt_confirm_def
      split: if_splits option.splits sum.splits prod.splits)

text \<open>
  The amount of an order never comes from the client. An order that is opened belongs
  to the caller's own booking, still awaiting payment; its amount is the booking's charge,
  less the coupon, less the credits spent (never more than the balance, none unless
  asked); either nothing is left, and the order is paid and the booking confirmed on the
  spot, or the gateway opened a session for exactly that amount.
\<close>

theorem order_amount_is_computed:
  assumes "create_order gw bookings_port s now oid bid caller phone promo uc = (s', Inr (ord, session))"
  shows "\<exists>due cur disc spent s1.
    get_booking_charge s bid = Inr (caller, due, cur, PaymentPending) \<and> 0 < due
    \<and> (if promo = '''' then disc = 0 else \<exists>c\<in>set (t_promos s). live_promo now promo c \<and> disc = discount c due)
    \<and> (0 \<le> int64 (due - disc) \<longrightarrow> 0 \<le> spent) \<and> spent \<le> max 0 (get_credit_balance (cancel_unpaid_orders_for_booking s bid) caller) \<and> (uc \<or> spent = 0)
    \<and> o_id ord = oid \<and> o_booking ord = bid \<and> o_amount ord = int64 (due - disc) - spent \<and> 0 \<le> o_amount ord
    \<and> (o_amount ord = 0 \<longrightarrow> o_status ord = OrderPaid \<and> confirm_paid_booking s1 now bid = (s', Inr ()))
    \<and> (0 < o_amount ord \<longrightarrow> o_status ord = OrderCreated \<and> (\<exists>g cf uid email. gw = Some g
        \<and> gw_create g oid (o_amount ord) (o_currency ord) uid phone email = Inr (cf, session)))"
proof -
  let ?s0 = "cancel_unpaid_orders_for_booking s bid"
  have s0: "t_promos ?s0 = t_promos s" by (simp add: op_defs Let_def)
  obtain due cur disc s1 created spent s2 where c: "get_booking_charge s bid = Inr (caller, due, cur, PaymentPending)" "0 < due"
    and d: "(if promo = '''' then (?s0, Inr 0) else reserve_coupon ?s0 now promo due) = (s1, Inr disc)"
    and o: "create_order_with_credits s1 now oid \<lparr>o_id = '''', o_booking = bid, o_amount = int64 (due - disc),
               o_currency = (if cur = '''' then ''INR'' else cur), o_gateway = '''', o_status = OrderCreated\<rparr> caller uc
             = (s2, Inr (created, spent))"
    and p: "start_payment gw bookings_port s2 now bid phone created = (s', Inr (ord, session))"
    using assms by (auto simp: create_order_def Let_def bookings_port_eq and_then_eq_Inr split: sum.splits if_splits)
  have disc: "if promo = '''' then disc = 0 else \<exists>c\<in>set (t_promos s). live_promo now promo c \<and> disc = discount c due"
    and led: "get_credit_balance s1 caller = get_credit_balance ?s0 caller"
    using d s0 reserve_coupon_Inr[of ?s0 now promo due s1 disc] by (auto simp: get_credit_balance_def split: if_splits)
  have sp: "0 \<le> int64 (due - disc) \<longrightarrow> 0 \<le> spent" "uc \<or> spent = 0"
    using o by (auto simp: create_order_with_credits_def Let_def split: if_splits)
  note cr = create_order_with_credits_Inr[OF o]
  have created: "o_id created = oid" "o_booking created = bid" "o_status created = OrderCreated"
      "o_amount created = int64 (due - disc) - spent" "0 \<le> o_amount created"
    using cr(3,4) arg_cong[OF cr(5), of o_id] arg_cong[OF cr(5), of o_booking] arg_cong[OF cr(5), of o_status] by simp_all
  have ord: "o_id ord = oid" "o_booking ord = bid" "o_amount ord = int64 (due - disc) - spent" "0 \<le> o_amount ord"
    using start_payment_Inr[OF p] created by auto
  have fin: "o_amount ord = 0 \<longrightarrow> o_status ord = OrderPaid \<and> confirm_paid_booking (mark_order_paid s2 oid) now bid = (s', Inr ())"
    using start_payment_Inr[OF p] created by auto
  have ses: "0 < o_amount ord \<longrightarrow> o_status ord = OrderCreated \<and> (\<exists>g cf uid email. gw = Some g
        \<and> gw_create g oid (o_amount ord) (o_currency ord) uid phone email = Inr (cf, session))"
    using start_payment_Inr[OF p] created by fastforce
  have bal: "spent \<le> max 0 (get_credit_balance ?s0 caller)" using cr(1) led by simp
  show ?thesis
    by (rule exI[of _ due], rule exI[of _ cur], rule exI[of _ disc], rule exI[of _ spent],
        rule exI[of _ "mark_order_paid s2 oid"], intro conjI c disc sp bal ord fin ses)
qed

definition sample_user :: user_row where
  "sample_user = \<lparr>us_id = ''u'', us_email = ''u@x'', us_status = UserActive, us_city = None, us_created = 0\<rparr>"

definition sample_promo :: promo_row where
  "sample_promo = \<lparr>pc_id = ''c'', pc_code = ''TEN'', pc_type = ''percent'', pc_value = 10, pc_max = 1, pc_uses = 0,
     pc_expires = None, pc_active = True\<rparr>"

definition shop_db :: db where
  "shop_db = pending_db\<lparr>t_orders := [], t_users := [sample_user], t_promos := [sample_promo]\<rparr>"

lemma order_amount_is_computed_witness:
  "\<exists>due cur. get_booking_charge shop_db ''b'' = Inr (''u'', due, cur, PaymentPending) \<and> 0 < due"
proof -
  have fee: "service_fee 1000 = 50" by (simp add: service_fee_is)
  have "create_order (Some sample_gateway) bookings_port shop_db 4 ''o1'' ''b'' ''u'' ''99'' ''TEN'' True
     = (fst (create_order (Some sample_gateway) bookings_port shop_db 4 ''o1'' ''b'' ''u'' ''99'' ''TEN'' True),
        Inr (\<lparr>o_id = ''o1'', o_booking = ''b'', o_amount = 945, o_currency = ''INR'', o_gateway = ''cfo'',
              o_status = OrderCreated\<rparr>, ''sess''))"
    by (simp add: create_order_def bookings_port_eq get_booking_charge_def service_get_booking_def get_booking_def fee
        scan_booking_def shop_db_def sample_user_def sample_promo_def capture_defs int64_id Let_def reserve_coupon_def
        live_promo_def discount_def signed_divide_int_def create_order_with_credits_def get_credit_balance_def
        start_payment_def get_booking_user_def)
  from order_amount_is_computed[OF this] show ?thesis by blast
qed

lemma settle_loop_skips:
  "gp_status g = ''SUCCESS'' \<Longrightarrow> \<forall>x\<in>set as. gp_status x \<noteq> ''SUCCESS'' \<Longrightarrow>
    settle_loop gw bk now pid rid oid (as @ g # gs) s
      = (case mark_captured gw bk s now pid rid oid (gp_id g) (gp_amount g) of
              (s', Inl e) \<Rightarrow> (s', if e = Payments_PlanFullAfterPay then Inr () else Inl e)
            | (s', Inr _) \<Rightarrow> (s', Inr ()))"
  by (induction as) (simp_all split: prod.split sum.split)

lemma money_tables_order: "money_tables s' = money_tables s \<Longrightarrow> find_order s' oid = find_order s oid"
  by (simp add: money_tables_def find_order_def)

lemma do_refund_orders: "find_order (fst (do_refund gw s rid pid amount reason)) oid = find_order s oid"
  by (simp add: find_order_def do_refund_def begin_refund_def and_then_def op_defs split: option.split sum.split)

lemma captured_order_paid:
  assumes "repo_mark_captured s now pid (o_id ord) gid amount cur = (s1, Inr p)"
    and "payment_by_gateway s gid = None" "find_order s oid = Inr ord"
  shows "\<exists>x. find_order s1 oid = Inr x \<and> o_id x = o_id ord \<and> o_status x = OrderPaid"
proof -
  obtain r where r: "order_by_id s oid = Some r" "ord = scan_order r" "or_id r = oid"
    using assms(3) by (auto simp: find_order_def find_Some_iff split: option.splits)
  then have "order_by_id (mark_order_paid s oid) oid = Some (r\<lparr>or_status := OrderPaid\<rparr>)"
    by (simp add: mark_order_paid_def find_upd_key)
  moreover have "t_orders s1 = t_orders (mark_order_paid s oid)"
    using assms(1,2) r by (auto simp: repo_mark_captured_def Let_def scan_order_def split: if_splits)
  ultimately show ?thesis using r by (simp add: find_order_def scan_order_def)
qed

lemma mark_captured_settles:
  assumes "mark_captured gw (Some bookings_port) s now pid rid oid gid amount = (s', r)"
    and "r = Inr p \<or> r = Inl Payments_PlanFullAfterPay" "payment_by_gateway s gid = None"
  shows "\<exists>x. find_order s' oid = Inr x \<and> o_status x = OrderPaid"
  using assms(1)
proof (cases rule: mark_captured_cases)
  case (no_order e)
  with assms(2) show ?thesis by (auto simp: find_order_def split: option.splits)
next
  case (refused ord e)
  with assms(2) show ?thesis by (auto simp: repo_mark_captured_def Let_def split: if_splits option.splits)
next
  case (seated ord s1 p' u)
  have "money_tables s' = money_tables s1"
    using bport.confirm_money[of s1 now "o_booking ord"] seated(4) by (simp add: bookings_port_eq)
  then show ?thesis using captured_order_paid[OF seated(3) assms(3) seated(1)] money_tables_order by metis
next
  case (failed ord s1 p' e)
  with assms(2) confirm_port_errors[of s1 now "o_booking ord"] show ?thesis by (auto simp: bookings_port_eq)
next
  case (seat_gone ord s1 p' s2 q)
  have "money_tables s2 = money_tables s1"
    using bport.confirm_money[of s1 now "o_booking ord"] seat_gone(3) by (simp add: bookings_port_eq)
  moreover have "find_order s' oid = find_order s2 oid"
    using do_refund_orders[of gw s2 rid "p_id p'" "p_amount p'" "''seat no longer available''" oid] seat_gone(4) by simp
  ultimately show ?thesis using captured_order_paid[OF seat_gone(2) assms(3) seat_gone(1)] money_tables_order by metis
qed

text \<open>
  Verifying an order asks the gateway, not the client: when the gateway reports a
  successful payment of an open order, the order the caller gets back is paid - whatever
  failed attempts precede it - and an order that is not the caller's looks like one that
  does not exist.
\<close>

theorem verify_settles_or_hides:
  assumes "find_order s oid = Inr ord" "oid \<noteq> ''''" "caller \<noteq> ''''"
    and "get_booking_charge s (o_booking ord) = Inr (owner, rest)"
    and "gw_payments g oid = Inr (as @ p # gs)" "\<forall>x\<in>set as. gp_status x \<noteq> ''SUCCESS''" "gp_status p = ''SUCCESS''"
    and "payment_by_gateway s (gp_id p) = None" "o_status ord \<noteq> OrderPaid"
    and "verify_order (Some g) bookings_port s now pid rid oid caller = (s', r)"
  shows "if owner \<noteq> caller then s' = s \<and> r = Inl Payments_PaymentNotFound
    else (\<forall>x. r = Inr x \<longrightarrow> o_id x = oid \<and> o_status x = OrderPaid)"
proof (cases "owner = caller")
  case False
  with assms show ?thesis by (simp add: verify_order_def bookings_port_eq)
next
  case True
  have oid: "o_id ord = oid" using assms(1) by (auto simp: find_order_def scan_order_def find_Some_iff split: option.splits)
  have "o_id x = oid \<and> o_status x = OrderPaid" if x: "r = Inr x" for x
  proof -
    obtain q where q: "mark_captured (Some g) (Some bookings_port) s now pid rid oid (gp_id p) (gp_amount p) = (s', q)"
      and "(\<exists>y. q = Inr y) \<or> q = Inl Payments_PlanFullAfterPay" and f: "find_order s' oid = Inr x"
      using assms(10) x True
      by (auto simp: verify_order_def assms(1-9) oid bookings_port_eq settle_from_gateway_def settle_loop_skips
          and_then_eq_Inr split: prod.splits sum.splits if_splits)
    then show ?thesis using mark_captured_settles[OF q _ assms(8)] f
      by (auto simp: find_order_def scan_order_def find_Some_iff split: option.splits)
  qed
  with True show ?thesis by simp
qed

lemma verify_settles_or_hides_witness:
  "snd (verify_order (Some sample_gateway) bookings_port pending_db 4 ''pay'' ''r1'' ''o'' ''stranger'') = Inl Payments_PaymentNotFound
   \<and> (case snd (verify_order (Some sample_gateway) bookings_port pending_db 4 ''pay'' ''r1'' ''o'' ''u'') of
          Inl e \<Rightarrow> True | Inr x \<Rightarrow> o_status x = OrderPaid)"
proof -
  let ?v = "\<lambda>c. verify_order (Some sample_gateway) bookings_port pending_db 4 ''pay'' ''r1'' ''o'' c"
  have charge: "get_booking_charge pending_db ''b'' = Inr (''u'', int64 (1000 + service_fee 1000), ''INR'', PaymentPending)"
    by (simp add: get_booking_charge_def service_get_booking_def get_booking_def scan_booking_def capture_defs)
  have facts: "find_order pending_db ''o'' = Inr (scan_order sample_order)" "payment_by_gateway pending_db ''cf1'' = None"
      "o_booking (scan_order sample_order) = ''b''" "o_status (scan_order sample_order) = OrderCreated"
    by (simp_all add: find_order_def pending_db_def pay_samples samples payment_by_gateway_def scan_order_def)
  have "if ''u'' \<noteq> c then s' = pending_db \<and> r = Inl Payments_PaymentNotFound
    else (\<forall>x. r = Inr x \<longrightarrow> o_id x = ''o'' \<and> o_status x = OrderPaid)" if "?v c = (s', r)" "c \<noteq> ''''" for c s' r
    by (rule verify_settles_or_hides[OF _ _ that(2) _ _ _ _ _ _ that(1), where ord = "scan_order sample_order"
        and as = "[\<lparr>gp_id = ''cf0'', gp_status = ''FAILED'', gp_amount = 1100\<rparr>]" and gs = "[]"
        and p = "\<lparr>gp_id = ''cf1'', gp_status = ''SUCCESS'', gp_amount = 1100\<rparr>"
        and rest = "(int64 (1000 + service_fee 1000), ''INR'', PaymentPending)"])
      (simp_all add: charge facts sample_gateway_def)
  from this[of "''stranger''" "fst (?v ''stranger'')" "snd (?v ''stranger'')"] this[of "''u''" "fst (?v ''u'')" "snd (?v ''u'')"]
  show ?thesis by (simp split: sum.split)
qed

text \<open>
  A payment is shown to its owner and to staff only; anybody else gets the very
  answer a payment that does not exist gives.
\<close>

theorem payment_hidden_from_strangers:
  assumes "pid \<noteq> ''''" "caller \<noteq> ''''" "payment_owner s pid \<noteq> Inr caller"
  shows "get_payment s pid caller False = Inl Payments_PaymentNotFound
    \<and> (payment_by_id s' pid = None \<longrightarrow> get_payment s' pid caller False = get_payment s pid caller False)"
  using assms by (auto simp: get_payment_def payment_owner_def split: sum.split option.splits)

lemma payment_hidden_from_strangers_witness:
  "get_payment paid_db ''pay'' ''x'' False = Inl Payments_PaymentNotFound
   \<and> get_payment paid_db ''pay'' ''u'' False = Inr (scan_payment sample_payment)"
  using payment_hidden_from_strangers[of "''pay''" "''x''" paid_db]
  by (simp add: payment_owner_def paid_db_def pay_samples samples get_payment_def repo_get_payment_def)


end
