(* ===== verification/Promotions.thy ===== *)
theory Promotions
  imports Payment_Runs
begin

text \<open>
  Promoted listings (\<^verbatim>\<open>internal/promotions\<close>): a table of its own, whose row is the order.
  The host of a plan buys days of promotion; the webhook marks the listing paid. The
  gateway is the one of the payment service.
\<close>

section \<open>The table\<close>

datatype listing_status = ListingPending | ListingPaid | ListingFailed

record listing_row =
  ls_id :: string
  ls_plan :: string
  ls_host :: string
  ls_amount :: int
  ls_currency :: string
  ls_gateway :: "string option"
  ls_payment :: "string option"
  ls_status :: listing_status
  ls_starts :: int
  ls_ends :: int
  ls_created :: int

definition promo_create :: "listing_row list \<Rightarrow> listing_row \<Rightarrow> listing_row list" where
  "promo_create t l = t @ [l]"

definition promo_set_gateway :: "listing_row list \<Rightarrow> string \<Rightarrow> string \<Rightarrow> listing_row list" where
  "promo_set_gateway t lid gid = upd (\<lambda>l. ls_id l = lid) (\<lambda>l. l\<lparr>ls_gateway := Some gid\<rparr>) t"

definition promo_find :: "listing_row list \<Rightarrow> string \<Rightarrow> go_error + listing_row" where
  "promo_find t lid =
    (case find (\<lambda>l. ls_id l = lid) t of None \<Rightarrow> Inl (Promotions PromoListingNotFound) | Some l \<Rightarrow> Inr l)"

text \<open>
  The partial unique index on the gateway payment id: a payment already recorded for
  another listing makes the update fail, which the code takes for a replay.
\<close>

definition promo_mark_paid :: "listing_row list \<Rightarrow> string \<Rightarrow> string \<Rightarrow> listing_row list" where
  "promo_mark_paid t lid gid =
    (if list_ex (\<lambda>l. ls_payment l = Some gid \<and> ls_id l \<noteq> lid) t then t
     else upd (\<lambda>l. ls_id l = lid) (\<lambda>l. l\<lparr>ls_status := ListingPaid, ls_payment := Some gid\<rparr>) t)"

definition promo_list_by_host :: "listing_row list \<Rightarrow> string \<Rightarrow> nat \<Rightarrow> listing_row list" where
  "promo_list_by_host t host n = take n (sort_key (\<lambda>l. - ls_created l) (filter (\<lambda>l. ls_host l = host) t))"

section \<open>The service\<close>

definition promotion_price_per_day_minor :: int where "promotion_price_per_day_minor = 50000"

text \<open>
  \<open>plan_host\<close> is \<open>PlanHostChecker\<close>; \<open>days\<close> an \<open>int32\<close>. \<open>AddDate\<close> adds whole days (the
  servers run in UTC).
\<close>

definition purchase_promotion ::
  "(string \<Rightarrow> go_error + string) \<Rightarrow> gateway option \<Rightarrow> listing_row list \<Rightarrow> int \<Rightarrow> string \<Rightarrow> string \<Rightarrow> string \<Rightarrow> string \<Rightarrow> int
    \<Rightarrow> (listing_row list, listing_row \<times> string) outcome" where
  "purchase_promotion plan_host gw t now lid plan caller phone days =
    (if plan = '''' \<or> caller = '''' \<or> days \<le> 0 then (t, Inl (Promotions PromoInvalidInput))
     else case plan_host plan of
         Inl e \<Rightarrow> (t, Inl e)
       | Inr host \<Rightarrow>
           if host \<noteq> caller then (t, Inl (Promotions PromoForbidden))
           else let l = \<lparr>ls_id = lid, ls_plan = plan, ls_host = caller,
                         ls_amount = int64 (days * promotion_price_per_day_minor), ls_currency = ''INR'',
                         ls_gateway = None, ls_payment = None, ls_status = ListingPending,
                         ls_starts = now, ls_ends = now + days * day, ls_created = now\<rparr>;
                    t1 = promo_create t l
                in case gw of
                     None \<Rightarrow> (t1, Inr (l, ''''))
                   | Some g \<Rightarrow>
                       (case gw_create g lid (ls_amount l) (ls_currency l) caller phone '''' of
                          Inl _ \<Rightarrow> (t1, Inr (l, ''''))
                        | Inr (cfid, session) \<Rightarrow>
                            (promo_set_gateway t1 lid cfid, Inr (l\<lparr>ls_gateway := Some cfid\<rparr>, session))))"

definition promo_mark_captured :: "listing_row list \<Rightarrow> string \<Rightarrow> string \<Rightarrow> int \<Rightarrow> (listing_row list, unit) outcome" where
  "promo_mark_captured t oid gid amount =
    (case promo_find t oid of Inl e \<Rightarrow> (t, Inl e) | Inr l \<Rightarrow> (promo_mark_paid t (ls_id l) gid, Inr ()))"

definition list_my_promoted :: "listing_row list \<Rightarrow> string \<Rightarrow> go_error + listing_row list" where
  "list_my_promoted t host =
    (if host = '''' then Inl (Promotions PromoInvalidInput) else Inr (promo_list_by_host t host 50))"

lemmas promotion_defs [op_defs] =
  promo_create_def promo_set_gateway_def promo_find_def promo_mark_paid_def purchase_promotion_def
  promo_mark_captured_def

section \<open>One payment, one listing\<close>

text \<open>
  The schema's constraints on the table: distinct ids, and no gateway payment recorded for
  two listings; and a listing is paid exactly when a payment is recorded for it.
\<close>

definition paid_once :: "listing_row list \<Rightarrow> bool" where
  "paid_once t \<longleftrightarrow> (\<forall>l\<in>set t. \<forall>l'\<in>set t. ls_payment l \<noteq> None \<longrightarrow> ls_payment l = ls_payment l' \<longrightarrow> ls_id l = ls_id l')"

definition paid_has_payment :: "listing_row list \<Rightarrow> bool" where
  "paid_has_payment t \<longleftrightarrow> (\<forall>l\<in>set t. (ls_status l = ListingPaid) = (ls_payment l \<noteq> None))"

definition listings_ok :: "listing_row list \<Rightarrow> bool" where
  "listings_ok t \<longleftrightarrow> distinct (map ls_id t) \<and> paid_once t \<and> paid_has_payment t"

lemma paid_onceI: "(\<And>l l' g. l \<in> set t \<Longrightarrow> l' \<in> set t \<Longrightarrow> ls_payment l = Some g \<Longrightarrow> ls_payment l' = Some g \<Longrightarrow> ls_id l = ls_id l')
    \<Longrightarrow> paid_once t"
  unfolding paid_once_def by (metis option.exhaust)

lemma paid_onceD: "paid_once t \<Longrightarrow> l \<in> set t \<Longrightarrow> l' \<in> set t \<Longrightarrow> ls_payment l = Some g \<Longrightarrow> ls_payment l' = Some g
    \<Longrightarrow> ls_id l = ls_id l'"
  unfolding paid_once_def by (metis option.distinct(1))

lemma listings_ok_append:
  assumes "listings_ok t" "ls_id l \<notin> ls_id ` set t" "ls_payment l = None" "ls_status l = ListingPending"
  shows "listings_ok (t @ [l])"
proof -
  have "paid_once (t @ [l])"
    by (rule paid_onceI) (use assms(1,3) in \<open>auto simp: listings_ok_def dest: paid_onceD\<close>)
  with assms show ?thesis by (simp add: listings_ok_def paid_has_payment_def)
qed

lemma listings_ok_gateway:
  assumes "listings_ok t" shows "listings_ok (promo_set_gateway t lid gid)"
proof -
  have "paid_once (promo_set_gateway t lid gid)"
    unfolding promo_set_gateway_def
    by (rule paid_onceI) (use assms in \<open>auto simp: listings_ok_def elim!: upd_memE dest: paid_onceD\<close>)
  moreover have "paid_has_payment (promo_set_gateway t lid gid)"
    using assms by (auto simp: listings_ok_def paid_has_payment_def promo_set_gateway_def elim!: upd_memE)
  ultimately show ?thesis using assms by (simp add: listings_ok_def promo_set_gateway_def map_upd)
qed

lemma listings_ok_mark_paid:
  assumes ok: "listings_ok t" shows "listings_ok (promo_mark_paid t lid gid)"
proof (cases "list_ex (\<lambda>l. ls_payment l = Some gid \<and> ls_id l \<noteq> lid) t")
  case False
  then have no: "l \<in> set t \<Longrightarrow> ls_payment l = Some gid \<Longrightarrow> ls_id l = lid" for l by (auto simp: list_ex_iff)
  let ?t = "upd (\<lambda>l. ls_id l = lid) (\<lambda>l. l\<lparr>ls_status := ListingPaid, ls_payment := Some gid\<rparr>) t"
  have "paid_once ?t"
    by (rule paid_onceI) (use ok no in \<open>auto simp: listings_ok_def elim!: upd_memE dest: paid_onceD\<close>)
  moreover have "paid_has_payment ?t"
    using ok by (auto simp: listings_ok_def paid_has_payment_def elim!: upd_memE)
  ultimately have "listings_ok ?t" using ok unfolding listings_ok_def by (simp add: map_upd)
  with False show ?thesis by (simp add: promo_mark_paid_def)
qed (use ok in \<open>simp add: promo_mark_paid_def\<close>)

lemma listings_ok_purchase:
  assumes "listings_ok t" "lid \<notin> ls_id ` set t"
  shows "listings_ok (fst (purchase_promotion ph gw t now lid plan caller phone days))"
  using assms
  by (auto simp: purchase_promotion_def promo_create_def Let_def
      intro!: listings_ok_gateway listings_ok_append split: sum.split option.split)

lemma listings_ok_captured: "listings_ok t \<Longrightarrow> listings_ok (fst (promo_mark_captured t oid gid amount))"
  by (simp add: promo_mark_captured_def listings_ok_mark_paid split: sum.split)

text \<open>
  A replayed webhook changes nothing: marking a listing paid by a payment already recorded
  leaves the table as it is.
\<close>

lemma mark_paid_again:
  assumes "listings_ok t"
  shows "promo_mark_paid (promo_mark_paid t lid gid) lid gid = promo_mark_paid t lid gid"
proof (cases "list_ex (\<lambda>l. ls_payment l = Some gid \<and> ls_id l \<noteq> lid) t")
  case False
  let ?f = "\<lambda>l. l\<lparr>ls_status := ListingPaid, ls_payment := Some gid\<rparr>"
  have "upd (\<lambda>l. ls_id l = lid) ?f (upd (\<lambda>l. ls_id l = lid) ?f t) = upd (\<lambda>l. ls_id l = lid) ?f t"
    by (simp add: upd_def)
  moreover have "\<not> list_ex (\<lambda>l. ls_payment l = Some gid \<and> ls_id l \<noteq> lid) (upd (\<lambda>l. ls_id l = lid) ?f t)"
    using False by (auto simp: list_ex_iff elim!: upd_memE)
  ultimately show ?thesis using False by (simp add: promo_mark_paid_def)
qed (simp add: promo_mark_paid_def)

lemma promo_captured_again:
  assumes "listings_ok t" "promo_mark_captured t oid gid amount = (t', Inr u)"
  shows "promo_mark_captured t' oid gid amount' = (t', Inr u)"
proof -
  obtain l where l: "find (\<lambda>l. ls_id l = oid) t = Some l" "t' = promo_mark_paid t oid gid"
    using assms(2) by (auto simp: promo_mark_captured_def promo_find_def find_Some_iff split: option.splits)
  have "\<exists>l'. find (\<lambda>l. ls_id l = oid) t' = Some l' \<and> ls_id l' = oid"
    using l find_key(2)[OF l(1)] by (simp add: promo_mark_paid_def find_upd_key)
  then obtain l' where l': "find (\<lambda>l. ls_id l = oid) t' = Some l'" "ls_id l' = oid" by blast
  have "promo_mark_paid t' oid gid = t'" using mark_paid_again[OF assms(1), of oid gid] l(2) by simp
  with l' show ?thesis by (simp add: promo_mark_captured_def promo_find_def)
qed

text \<open>
  The amount a webhook reports is not looked at: one paisa buys a month of promotion.
\<close>

lemma any_amount_pays:
  "promo_mark_captured t oid gid amount = promo_mark_captured t oid gid amount'"
  by (simp add: promo_mark_captured_def)

end
