(* ===== verification/Reminders.thy ===== *)
theory Reminders
  imports Payment_Runs
begin

text \<open>
  Reminders before a plan (\<^verbatim>\<open>internal/notifications/reminders.go\<close>): 24 hours, 3 hours and
  1 hour before. A (booking, kind) pair is claimed by inserting it into
  \<^verbatim>\<open>booking_reminders\<close>; a failed send releases its claim.
\<close>

record reminder =
  rm_booking :: string
  rm_user :: string
  rm_plan :: string
  rm_title :: string
  rm_starts :: int
  rm_kind :: string

text \<open>\<open>due\<close> and \<open>eligible\<close> of the query: the tightest bucket, unless the booking is younger than it.\<close>

definition bucket :: "int \<Rightarrow> int \<Rightarrow> string" where
  "bucket now starts =
    (if starts - now \<le> hour then ''1h'' else if starts - now \<le> 3 * hour then ''3h'' else ''24h'')"

definition bucket_span :: "string \<Rightarrow> int" where
  "bucket_span k = (if k = ''1h'' then hour else if k = ''3h'' then 3 * hour else 24 * hour)"

definition due_reminder :: "db \<Rightarrow> int \<Rightarrow> booking_row \<Rightarrow> reminder option" where
  "due_reminder s now b =
    (if bk_status b \<noteq> Confirmed then None
     else case plan_by_id s (bk_plan b) of
         None \<Rightarrow> None
       | Some p \<Rightarrow>
           if pl_status p = Published \<and> now < pl_starts p \<and> pl_starts p \<le> now + 24 * hour
              \<and> bk_created b < pl_starts p - bucket_span (bucket now (pl_starts p))
           then Some \<lparr>rm_booking = bk_id b, rm_user = bk_user b, rm_plan = pl_id p, rm_title = pl_title p,
                      rm_starts = pl_starts p, rm_kind = bucket now (pl_starts p)\<rparr>
           else None)"

text \<open>\<^verbatim>\<open>INSERT .. ON CONFLICT DO NOTHING RETURNING\<close> joined back: the newly claimed ones.\<close>

definition unclaimed :: "db \<Rightarrow> reminder \<Rightarrow> bool" where
  "unclaimed s r \<longleftrightarrow> (rm_booking r, rm_kind r) \<notin> set (t_reminders s)"

definition claim_due_reminders :: "db \<Rightarrow> int \<Rightarrow> db \<times> reminder list" where
  "claim_due_reminders s now =
    (let rs = filter (unclaimed s) (List.map_filter (due_reminder s now) (t_bookings s))
     in (s\<lparr>t_reminders := t_reminders s @ map (\<lambda>r. (rm_booking r, rm_kind r)) rs\<rparr>, rs))"

definition release_reminder_claim :: "db \<Rightarrow> string \<Rightarrow> string \<Rightarrow> db" where
  "release_reminder_claim s bid k = s\<lparr>t_reminders := filter (\<lambda>x. x \<noteq> (bid, k)) (t_reminders s)\<rparr>"

definition kind_words :: "string \<Rightarrow> string" where
  "kind_words k = (if k = ''24h'' then ''a day'' else if k = ''3h'' then ''3 hours''
     else if k = ''1h'' then ''an hour'' else '''')"

definition send_reminder :: "senders \<Rightarrow> int \<Rightarrow> reminder \<Rightarrow> db \<Rightarrow> (db, nat) outcome" where
  "send_reminder cfg now r s =
     send_notification cfg s now (rm_user r) (if rm_kind r = ''24h'' then ''in_app'' else ''push'')
       (''Reminder: '' @ rm_title r) (''Starts in about '' @ kind_words (rm_kind r) @ ''.'')
       (''hivemind://bookings/'' @ rm_booking r)"

fun reminder_loop :: "senders \<Rightarrow> int \<Rightarrow> reminder list \<Rightarrow> db \<Rightarrow> db \<times> nat" where
  "reminder_loop cfg now [] s = (s, 0)"
| "reminder_loop cfg now (r # rs) s =
     (case send_reminder cfg now r s of
        (s1, Inl _) \<Rightarrow> reminder_loop cfg now rs (release_reminder_claim s1 (rm_booking r) (rm_kind r))
      | (s1, Inr _) \<Rightarrow> (case reminder_loop cfg now rs s1 of (s2, n) \<Rightarrow> (s2, Suc n)))"

definition send_due_reminders :: "senders \<Rightarrow> db \<Rightarrow> int \<Rightarrow> (db, nat) outcome" where
  "send_due_reminders cfg s now =
    (case claim_due_reminders s now of (s1, rs) \<Rightarrow>
       (case reminder_loop cfg now rs s1 of (s2, n) \<Rightarrow> (s2, Inr n)))"

section \<open>Exactly once\<close>

lemma due_reminder_Some:
  assumes "due_reminder s now b = Some r"
  shows "rm_booking r = bk_id b" "rm_user r = bk_user b" "bk_status b = Confirmed"
    "rm_kind r \<in> {''24h'', ''3h'', ''1h''}" "now < rm_starts r" "rm_starts r - now \<le> bucket_span (rm_kind r)"
    "bk_created b < rm_starts r - bucket_span (rm_kind r)"
proof -
  obtain p where "plan_by_id s (bk_plan b) = Some p"
    using assms by (auto simp: due_reminder_def split: option.splits if_splits)
  then have p: "pl_starts p \<le> now + 24 * hour" "now < pl_starts p"
      "r = \<lparr>rm_booking = bk_id b, rm_user = bk_user b, rm_plan = pl_id p, rm_title = pl_title p,
            rm_starts = pl_starts p, rm_kind = bucket now (pl_starts p)\<rparr>"
      "bk_created b < pl_starts p - bucket_span (bucket now (pl_starts p))" "bk_status b = Confirmed"
    using assms by (auto simp: due_reminder_def split: if_splits)
  then show "rm_booking r = bk_id b" "rm_user r = bk_user b" "bk_status b = Confirmed"
    "rm_kind r \<in> {''24h'', ''3h'', ''1h''}" "now < rm_starts r" "bk_created b < rm_starts r - bucket_span (rm_kind r)"
    by (auto simp: bucket_def)
  show "rm_starts r - now \<le> bucket_span (rm_kind r)" using p by (simp add: bucket_def bucket_span_def)
qed

text \<open>
  The log a run of the loop leaves in the notifications table, and its claims: nothing but
  the claims of failed sends is given back.
\<close>

lemma send_reminder_ok:
  assumes "rm_user r \<noteq> ''''"
  shows "\<exists>s' i. send_reminder cfg now r s = (s', Inr i) \<and> business_tables s' = business_tables s
    \<and> t_reminders s' = t_reminders s"
proof -
  let ?r = "send_reminder cfg now r s"
  have b: "business_tables (fst ?r) = business_tables s" by (simp add: send_reminder_def frame_simps)
  moreover have "t_reminders (fst ?r) = t_reminders s"
    using arg_cong[OF b, of t_reminders] by (simp add: business_tables_def)
  moreover have "\<exists>i. snd ?r = Inr i"
    using assms by (simp add: send_reminder_def send_notification_def split: prod.split)
  ultimately show ?thesis by (metis prod.collapse)
qed

lemma reminder_loop_ok:
  assumes "\<forall>r\<in>set rs. rm_user r \<noteq> ''''"
  shows "business_tables (fst (reminder_loop cfg now rs s)) = business_tables s
    \<and> snd (reminder_loop cfg now rs s) = length rs"
  using assms
proof (induction rs arbitrary: s)
  case (Cons r rs)
  obtain s1 i where s1: "send_reminder cfg now r s = (s1, Inr i)" "business_tables s1 = business_tables s"
    using send_reminder_ok[of r cfg now s] Cons.prems by auto
  then show ?case using Cons.IH[of s1] Cons.prems by (simp add: case_prod_beta)
qed simp

lemma business_reminders: "business_tables s' = business_tables s \<Longrightarrow> t_reminders s' = t_reminders s"
  by (drule arg_cong[of _ _ t_reminders]) (simp add: business_tables_def)

definition reminder_users :: "db \<Rightarrow> bool" where
  "reminder_users s \<longleftrightarrow> (\<forall>b\<in>set (t_bookings s). bk_user b \<noteq> '''')"

lemma claimed_users:
  assumes "reminder_users s" "r \<in> set (snd (claim_due_reminders s now))"
  shows "rm_user r \<noteq> ''''"
  using assms due_reminder_Some(2)
  by (fastforce simp: claim_due_reminders_def Let_def reminder_users_def List.map_filter_def)

lemma map_filter_Cons: "List.map_filter f (x # xs) = (case f x of None \<Rightarrow> List.map_filter f xs | Some y \<Rightarrow> y # List.map_filter f xs)"
  by (simp add: List.map_filter_def split: option.split)

lemma map_filter_due_booking:
  "r \<in> set (List.map_filter (due_reminder s now) bs) \<Longrightarrow> \<exists>b\<in>set bs. due_reminder s now b = Some r \<and> rm_booking r = bk_id b"
proof (induction bs)
  case (Cons b bs)
  then show ?case by (auto simp: map_filter_Cons due_reminder_Some(1) split: option.splits)
qed (simp add: List.map_filter_def)

lemma claims_distinct:
  assumes "distinct (map bk_id bs)"
  shows "distinct (map (\<lambda>r. (rm_booking r, rm_kind r)) (filter P (List.map_filter (due_reminder s now) bs)))"
  using assms
proof (induction bs)
  case (Cons b bs)
  have "bk_id b \<notin> rm_booking ` set (List.map_filter (due_reminder s now) bs)"
    using map_filter_due_booking[of _ s now bs] Cons.prems by force
  with Cons show ?case by (auto simp: map_filter_Cons due_reminder_Some(1) image_iff split: option.split)
qed (simp add: List.map_filter_def)

text \<open>
  A tick sends to every claimed reminder and keeps every claim: the table of claims grows by
  exactly the reminders that were sent.
\<close>

lemma send_due_reminders_effect:
  assumes "reminder_users s"
  shows "\<exists>s'. send_due_reminders cfg s now = (s', Inr (length (snd (claim_due_reminders s now))))
    \<and> t_reminders s' = t_reminders s @ map (\<lambda>r. (rm_booking r, rm_kind r)) (snd (claim_due_reminders s now))
    \<and> t_bookings s' = t_bookings s"
proof -
  obtain s1 rs where c: "claim_due_reminders s now = (s1, rs)" by fastforce
  have users: "\<forall>r\<in>set rs. rm_user r \<noteq> ''''" using claimed_users[OF assms, of _ now] c by simp
  have l: "business_tables (fst (reminder_loop cfg now rs s1)) = business_tables s1"
      "snd (reminder_loop cfg now rs s1) = length rs"
    using reminder_loop_ok[OF users] by blast+
  have s1: "t_reminders s1 = t_reminders s @ map (\<lambda>r. (rm_booking r, rm_kind r)) rs" "t_bookings s1 = t_bookings s"
    using c by (auto simp: claim_due_reminders_def Let_def)
  show ?thesis
    using c l s1 business_reminders[OF l(1)] business_tables_eqD(2)[OF l(1)]
    by (simp add: send_due_reminders_def case_prod_beta)
qed

text \<open>
  Reminders go out exactly once: in a tick every due pair of booking and kind is sent
  once, only to confirmed bookings of a plan that starts within the kind's span, and no
  pair ever sent before is sent again.
\<close>

theorem reminders_sent_once:
  assumes "reminder_users s" "distinct (map bk_id (t_bookings s))"
    and "claim_due_reminders s now = (s1, rs)"
  shows "snd (send_due_reminders cfg s now) = Inr (length rs)
    \<and> distinct (map (\<lambda>r. (rm_booking r, rm_kind r)) rs)
    \<and> (\<forall>r\<in>set rs. (rm_booking r, rm_kind r) \<notin> set (t_reminders s)
        \<and> (\<exists>b\<in>set (t_bookings s). bk_id b = rm_booking r \<and> bk_user b = rm_user r \<and> bk_status b = Confirmed)
        \<and> now < rm_starts r \<and> rm_starts r - now \<le> bucket_span (rm_kind r))
    \<and> set (t_reminders (fst (send_due_reminders cfg s now)))
        = set (t_reminders s) \<union> (\<lambda>r. (rm_booking r, rm_kind r)) ` set rs
    \<and> (\<forall>r\<in>set (snd (claim_due_reminders (fst (send_due_reminders cfg s now)) now')).
         (rm_booking r, rm_kind r) \<notin> set (t_reminders s) \<union> (\<lambda>r. (rm_booking r, rm_kind r)) ` set rs)"
proof -
  obtain s' where s': "send_due_reminders cfg s now = (s', Inr (length rs))"
      "t_reminders s' = t_reminders s @ map (\<lambda>r. (rm_booking r, rm_kind r)) rs"
    using send_due_reminders_effect[OF assms(1), of cfg now] assms(3) by auto
  have rs: "rs = filter (unclaimed s) (List.map_filter (due_reminder s now) (t_bookings s))"
    using assms(3) by (simp add: claim_due_reminders_def Let_def)
  have "\<exists>b\<in>set (t_bookings s). bk_id b = rm_booking r \<and> bk_user b = rm_user r \<and> bk_status b = Confirmed"
    "now < rm_starts r" "rm_starts r - now \<le> bucket_span (rm_kind r)" if "r \<in> set rs" for r
  proof -
    have "r \<in> set (List.map_filter (due_reminder s now) (t_bookings s))" using that by (simp add: rs)
    then obtain b where "b \<in> set (t_bookings s)" "due_reminder s now b = Some r" using map_filter_due_booking by blast
    then show "\<exists>b\<in>set (t_bookings s). bk_id b = rm_booking r \<and> bk_user b = rm_user r \<and> bk_status b = Confirmed"
      "now < rm_starts r" "rm_starts r - now \<le> bucket_span (rm_kind r)"
      using due_reminder_Some[of s now b r] by force+
  qed
  moreover have "(rm_booking r, rm_kind r) \<notin> set (t_reminders s)" if "r \<in> set rs" for r
    using that by (simp add: rs unclaimed_def)
  moreover have "(rm_booking r, rm_kind r) \<notin> set (t_reminders s')" if "r \<in> set (snd (claim_due_reminders s' now'))" for r
    using that by (simp add: claim_due_reminders_def Let_def unclaimed_def)
  ultimately show ?thesis
    using s' claims_distinct[OF assms(2)] by (auto simp: rs)
qed

lemma reminders_sent_once_witness:
  "let s = empty_db\<lparr>t_plans := [sample_plan], t_bookings := [sample_booking]\<rparr>;
       now = 1000000000000000 - 2 * hour
   in snd (send_due_reminders \<lparr>email_send = None, push_send = None\<rparr> s now) = Inr 1"
proof -
  let ?s = "empty_db\<lparr>t_plans := [sample_plan], t_bookings := [sample_booking]\<rparr>"
  let ?now = "1000000000000000 - 2 * hour"
  have "snd (send_due_reminders \<lparr>email_send = None, push_send = None\<rparr> ?s ?now) = Inr (length (snd (claim_due_reminders ?s ?now)))"
    by (rule conjunct1[OF reminders_sent_once[OF _ _ surjective_pairing]]) (simp_all add: reminder_users_def samples)
  then show ?thesis
    by (simp add: Let_def claim_due_reminders_def List.map_filter_def due_reminder_def unclaimed_def samples
        bucket_def bucket_span_def time_defs)
qed

end
