(* ===== verification/Chat_Store.thy ===== *)
theory Chat_Store
  imports Complex_Main Notifications
begin

text \<open>
  The tables of the chat (\<^verbatim>\<open>internal/chat\<close>) and the part of its repository the worker
  uses: rooms of plans and their members. Times of creation come from the clock argument,
  generated ids are arguments.
\<close>

section \<open>Tables\<close>

datatype room_kind = PlanRoom | DmRoom | GroupRoom

record room_row =
  cr_id :: string
  cr_plan :: "string option"
  cr_kind :: room_kind
  cr_dm :: "string option"
  cr_pinned :: "string option"
  cr_created :: int

record room_member =
  cm_room :: string
  cm_user :: string
  cm_muted :: bool
  cm_joined :: int
  cm_read :: int

text \<open>What the media service resolves an upload id to.\<close>

record media_asset =
  ma_kind :: string
  ma_url :: string

type_synonym media_resolver = "string \<Rightarrow> string list \<Rightarrow> go_error + media_asset list"

datatype message_type = MsgText | MsgImage | MsgVoice | MsgPoll | MsgAnnouncement | MsgLocation

text \<open>A message with its rows of \<^verbatim>\<open>message_media\<close>, in order.\<close>

record message_row =
  ms_id :: string
  ms_room :: string
  ms_sender :: string
  ms_body :: string
  ms_type :: message_type
  ms_location :: "(rat \<times> rat \<times> string) option"
  ms_duration :: int
  ms_media :: "media_asset list"
  ms_sent :: int

text \<open>A poll with its options (id and label) in their order.\<close>

record poll_row =
  po_id :: string
  po_message :: string
  po_question :: string
  po_options :: "(string \<times> string) list"

record chat_db =
  ch_rooms :: "room_row list"
  ch_members :: "room_member list"
  ch_messages :: "message_row list"
  ch_polls :: "poll_row list"
  ch_votes :: "(string \<times> string \<times> string) list"

definition empty_chat :: chat_db where
  "empty_chat = \<lparr>ch_rooms = [], ch_members = [], ch_messages = [], ch_polls = [], ch_votes = []\<rparr>"

section \<open>Rooms and members\<close>

text \<open>\<^verbatim>\<open>ON CONFLICT (plan_id) DO UPDATE .. RETURNING id\<close>: the plan's room, created if need be.\<close>

definition get_or_create_room :: "chat_db \<Rightarrow> int \<Rightarrow> string \<Rightarrow> string \<Rightarrow> chat_db \<times> string" where
  "get_or_create_room c now nid plan =
    (case find (\<lambda>r. cr_plan r = Some plan) (ch_rooms c) of
       Some r \<Rightarrow> (c, cr_id r)
     | None \<Rightarrow> (c\<lparr>ch_rooms := ch_rooms c @ [\<lparr>cr_id = nid, cr_plan = Some plan, cr_kind = PlanRoom, cr_dm = None,
                  cr_pinned = None, cr_created = now\<rparr>]\<rparr>, nid))"

definition create_ad_hoc_room :: "chat_db \<Rightarrow> int \<Rightarrow> string \<Rightarrow> chat_db \<times> string" where
  "create_ad_hoc_room c now nid =
     (c\<lparr>ch_rooms := ch_rooms c @ [\<lparr>cr_id = nid, cr_plan = None, cr_kind = GroupRoom, cr_dm = None, cr_pinned = None,
        cr_created = now\<rparr>]\<rparr>, nid)"

definition is_member :: "chat_db \<Rightarrow> string \<Rightarrow> string \<Rightarrow> bool" where
  "is_member c room user \<longleftrightarrow> (\<exists>m\<in>set (ch_members c). cm_room m = room \<and> cm_user m = user)"

definition add_member :: "chat_db \<Rightarrow> int \<Rightarrow> string \<Rightarrow> string \<Rightarrow> chat_db" where
  "add_member c now room user =
    (if is_member c room user then c
     else c\<lparr>ch_members := ch_members c @ [\<lparr>cm_room = room, cm_user = user, cm_muted = False, cm_joined = now, cm_read = now\<rparr>]\<rparr>)"

definition ensure_membership :: "chat_db \<Rightarrow> int \<Rightarrow> string \<Rightarrow> string \<Rightarrow> string \<Rightarrow> (chat_db, unit) outcome" where
  "ensure_membership c now nid plan user =
    (if plan = '''' \<or> user = '''' then (c, Inl (Chat ChatInvalidInput))
     else case get_or_create_room c now nid plan of (c1, room) \<Rightarrow> (add_member c1 now room user, Inr ()))"

end
