(* ===== verification/Worker.thy ===== *)
theory Worker
  imports Promotions Reminders Chat_Store "HOL-Library.Sublist"
begin

text \<open>
  The worker process (\<^verbatim>\<open>cmd/worker\<close>): the consumers of the outbox events, their delivery
  with retries, and the scheduled jobs. Its state joins the business tables, the chat
  rooms, the promoted listings and the analytics log.
\<close>

section \<open>State and payloads\<close>

record world =
  w_db :: db
  w_chat :: chat_db
  w_listings :: "listing_row list"
  w_events :: "(string \<times> string \<times> (string \<times> string) list) list"

definition lift_db :: "world \<Rightarrow> (db, 'a) outcome \<Rightarrow> (world, 'a) outcome" where
  "lift_db w r = (w\<lparr>w_db := fst r\<rparr>, snd r)"

definition lift_chat :: "world \<Rightarrow> (chat_db, 'a) outcome \<Rightarrow> (world, 'a) outcome" where
  "lift_chat w r = (w\<lparr>w_chat := fst r\<rparr>, snd r)"

text \<open>\<open>analytics.Recorder.Record\<close>; the worker only logs its errors.\<close>

definition analytics_record :: "world \<Rightarrow> string \<Rightarrow> string \<Rightarrow> (string \<times> string) list \<Rightarrow> world" where
  "analytics_record w user ev props = w\<lparr>w_events := w_events w @ [(user, ev, props)]\<rparr>"

text \<open>
  \<open>json.Unmarshal\<close> into the handler's struct: fields the payload lacks stay zero.
\<close>

fun booking_fields :: "payload \<Rightarrow> string \<times> string \<times> string" where
  "booking_fields (BookingPayload bid plan user) = (bid, plan, user)"
| "booking_fields (CancelPayload bid plan user reason pct) = (bid, plan, user)"
| "booking_fields (PlanPayload plan) = ('''', plan, '''')"
| "booking_fields (PlanCancelPayload plan reason) = ('''', plan, '''')"
| "booking_fields (NotifyPayload user title body link ch) = ('''', '''', user)"

fun cancel_fields :: "payload \<Rightarrow> string \<times> int option" where
  "cancel_fields (CancelPayload bid plan user reason pct) = (reason, pct)"
| "cancel_fields (PlanCancelPayload plan reason) = (reason, None)"
| "cancel_fields _ = ('''', None)"

fun notify_fields :: "payload \<Rightarrow> string \<times> string \<times> string \<times> string \<times> string" where
  "notify_fields (NotifyPayload user title body link ch) = (user, title, body, link, ch)"
| "notify_fields p = (snd (snd (booking_fields p)), '''', '''', '''', '''')"

section \<open>Handlers\<close>

definition handle_booking_confirmed :: "senders \<Rightarrow> int \<Rightarrow> string \<Rightarrow> payload \<Rightarrow> world \<Rightarrow> (world, unit) outcome" where
  "handle_booking_confirmed cfg now nroom p w =
    (case booking_fields p of (bid, plan, user) \<Rightarrow>
       and_then (lift_chat w (ensure_membership (w_chat w) now nroom plan user)) (\<lambda>_ w1.
         let w2 = analytics_record w1 user ''booking_confirmed'' [(''booking_id'', bid), (''plan_id'', plan)]
         in and_then (lift_db w2 (send_notification cfg (w_db w2) now user ''push'' ''Booking confirmed''
                       (''You'' @ [CHR 0x27] @ ''re in! Check the plan chat for details.'') (''hivemind://bookings/'' @ bid)))
              (\<lambda>_ w3. (w3, Inr ()))))"

definition cancelled_body :: "int \<Rightarrow> string" where
  "cancelled_body pct =
    (if 100 \<le> pct then ''Your booking was cancelled. Any payment is being refunded in full.''
     else if 0 < pct then ''Your booking was cancelled. Part of your payment is being refunded.''
     else ''Your booking was cancelled.'')"

definition handle_booking_cancelled ::
  "gateway option \<Rightarrow> senders \<Rightarrow> int \<Rightarrow> string \<Rightarrow> payload \<Rightarrow> world \<Rightarrow> (world, unit) outcome" where
  "handle_booking_cancelled gw cfg now rid p w =
    (case (booking_fields p, cancel_fields p) of ((bid, plan, user), (reason, rp)) \<Rightarrow>
       let percent = (case rp of None \<Rightarrow> 100 | Some k \<Rightarrow> k)
       in and_then (lift_db w (refund_booking_if_captured gw (w_db w) rid bid (''booking cancelled: '' @ reason) percent))
         (\<lambda>_ w1.
           let w2 = analytics_record w1 user ''booking_cancelled'' [(''booking_id'', bid), (''plan_id'', plan)]
           in and_then (lift_db w2 (send_notification cfg (w_db w2) now user ''push'' ''Booking cancelled''
                          (cancelled_body percent) (''hivemind://bookings/'' @ bid)))
                (\<lambda>_ w3. (w3, Inr ()))))"

definition handle_plan_cancelled :: "int \<Rightarrow> int \<Rightarrow> payload \<Rightarrow> world \<Rightarrow> (world, unit) outcome" where
  "handle_plan_cancelled now tnow p w =
    (let plan = fst (snd (booking_fields p)); w1 = w\<lparr>w_db := expire_waitlist_for_plan (w_db w) now plan\<rparr>
     in lift_db w1 (cancel_all_for_plan (w_db w1) now tnow plan (''plan cancelled: '' @ fst (cancel_fields p))))"

definition handle_notify_user :: "senders \<Rightarrow> int \<Rightarrow> payload \<Rightarrow> world \<Rightarrow> (world, unit) outcome" where
  "handle_notify_user cfg now p w =
    (case notify_fields p of (user, title, body, link, ch) \<Rightarrow>
       and_then (lift_db w (send_notification cfg (w_db w) now user (if ch = '''' then ''push'' else ch) title body link))
         (\<lambda>_ w1. (w1, Inr ())))"

definition handle_booking_no_show :: "payload \<Rightarrow> world \<Rightarrow> (world, unit) outcome" where
  "handle_booking_no_show p w =
    (case booking_fields p of (bid, plan, user) \<Rightarrow>
       (analytics_record w user ''booking_no_show'' [(''booking_id'', bid), (''plan_id'', plan)], Inr ()))"

definition log_only :: "payload \<Rightarrow> world \<Rightarrow> (world, unit) outcome" where
  "log_only p w = (w, Inr ())"

text \<open>
  What a delivery needs from outside: the gateway, the senders, the clock, and the ids a
  new room and a new refund would get.
\<close>

record env =
  en_gateway :: "gateway option"
  en_senders :: senders
  en_now :: int
  en_room :: string
  en_refund :: string

text \<open>The \<open>handlers\<close> map of \<^verbatim>\<open>main\<close>; an event type without an entry has no consumer.\<close>

definition handler :: "string \<Rightarrow> (env \<Rightarrow> payload \<Rightarrow> world \<Rightarrow> (world, unit) outcome) option" where
  "handler ev =
    (if ev = ''BOOKING_CONFIRMED'' then Some (\<lambda>e. handle_booking_confirmed (en_senders e) (en_now e) (en_room e))
     else if ev = ''BOOKING_CANCELLED'' then Some (\<lambda>e. handle_booking_cancelled (en_gateway e) (en_senders e) (en_now e) (en_refund e))
     else if ev = ''PLAN_CANCELLED'' then Some (\<lambda>e. handle_plan_cancelled (en_now e) (en_now e))
     else if ev = ''BOOKING_NO_SHOW'' then Some (\<lambda>e. handle_booking_no_show)
     else if ev = ''NOTIFY_USER'' then Some (\<lambda>e. handle_notify_user (en_senders e) (en_now e))
     else if ev \<in> {''PLAN_COMPLETED'', ''USER_REPORTED'', ''PAYMENT_CAPTURED'', ''PAYOUT_PROCESSED''} then Some (\<lambda>e. log_only)
     else None)"

section \<open>Delivery\<close>

text \<open>
  \<open>Consume\<close>: a delivery that fails is negatively acknowledged and delivered again, at most
  \<open>maxDeliveries\<close> times in all; then the event is given up. \<open>es\<close> are the circumstances of
  the deliveries. What a failed attempt wrote stays.
\<close>

definition max_deliveries :: nat where "max_deliveries = 6"

fun deliver_loop :: "('e \<Rightarrow> 'w \<Rightarrow> ('w, unit) outcome) \<Rightarrow> 'e list \<Rightarrow> 'w \<Rightarrow> 'w \<times> bool" where
  "deliver_loop h [] w = (w, False)"
| "deliver_loop h (e # es) w = (case h e w of (w1, Inr _) \<Rightarrow> (w1, True) | (w1, Inl _) \<Rightarrow> deliver_loop h es w1)"

definition deliver :: "('e \<Rightarrow> 'w \<Rightarrow> ('w, unit) outcome) \<Rightarrow> 'e list \<Rightarrow> 'w \<Rightarrow> 'w \<times> bool" where
  "deliver h es w = deliver_loop h (take max_deliveries es) w"

lemmas worker_defs = lift_db_def lift_chat_def analytics_record_def handle_booking_confirmed_def
  handle_booking_cancelled_def handle_plan_cancelled_def handle_notify_user_def handle_booking_no_show_def log_only_def

section \<open>Jobs\<close>

text \<open>
  A job: its name, its interval, what it does at a given time. \<open>lst\<close> (Go: \<^verbatim>\<open>last\<close>) maps a
  job to the time it last started; a job without an entry, Go's zero time, is due. An
  error of one job does not stop the next. The names of the jobs that ran are returned for
  the properties.
\<close>

type_synonym job = "string \<times> int \<times> (int \<Rightarrow> world \<Rightarrow> (world, int) outcome)"

definition job_due :: "(string \<rightharpoonup> int) \<Rightarrow> int \<Rightarrow> job \<Rightarrow> bool" where
  "job_due lst now j = (case lst (fst j) of None \<Rightarrow> True | Some t \<Rightarrow> fst (snd j) \<le> now - t)"

fun run_due_jobs :: "job list \<Rightarrow> int \<Rightarrow> (string \<rightharpoonup> int) \<Rightarrow> world \<Rightarrow> world \<times> (string \<rightharpoonup> int) \<times> string list" where
  "run_due_jobs [] now lst w = (w, lst, [])"
| "run_due_jobs (j # js) now lst w =
     (if \<not> job_due lst now j then run_due_jobs js now lst w
      else case run_due_jobs js now (lst(fst j \<mapsto> now)) (fst (snd (snd j) now w)) of
             (w', lst', ns) \<Rightarrow> (w', lst', fst j # ns))"

text \<open>
  The jobs of \<^verbatim>\<open>cmd/worker/jobs.go\<close>. \<open>newp\<close> and \<open>newr\<close> give the ids reconciliation draws;
  the job functions of stories and media are parameters, as is the series extension of
  \<open>Plans\<close>; the last one exists only when object storage is configured.
\<close>

definition count_of :: "(db, nat) outcome \<Rightarrow> (db, int) outcome" where
  "count_of r = (fst r, map_sum id int (snd r))"

definition worker_jobs ::
  "gateway option \<Rightarrow> senders \<Rightarrow> (string \<Rightarrow> string) \<Rightarrow> (string \<Rightarrow> string)
    \<Rightarrow> (int \<Rightarrow> world \<Rightarrow> (world, int) outcome) \<Rightarrow> (int \<Rightarrow> world \<Rightarrow> (world, int) outcome)
    \<Rightarrow> (int \<Rightarrow> world \<Rightarrow> (world, int) outcome) option \<Rightarrow> job list" where
  "worker_jobs gw cfg newp newr extend_job purge media_gc =
    [(''complete_plans'', minute, \<lambda>t w. lift_db w (count_of (complete_ended_plans (w_db w) t t))),
     (''mark_no_shows'', minute, \<lambda>t w. lift_db w (count_of (mark_no_shows (w_db w) t t))),
     (''sweep_waitlist'', minute, \<lambda>t w. lift_db w (count_of (sweep_waitlist (w_db w) t t))),
     (''reconcile_payments'', 2 * minute, \<lambda>t w. case reconcile_orders gw None (w_db w) t newp newr of
         (s, n) \<Rightarrow> lift_db w (s, Inr (int n))),
     (''expire_pending_bookings'', minute, \<lambda>t w. case expire_pending (w_db w) t t of (s, n) \<Rightarrow> lift_db w (s, Inr n)),
     (''release_abandoned_orders'', minute, \<lambda>t w. case repo_release_abandoned_orders (w_db w) of
         (s, n) \<Rightarrow> lift_db w (s, Inr n)),
     (''send_reminders'', minute, \<lambda>t w. lift_db w (count_of (send_due_reminders cfg (w_db w) t))),
     (''extend_series'', hour, extend_job),
     (''purge_stories'', hour, purge)]
    @ (case media_gc of None \<Rightarrow> [] | Some gc \<Rightarrow> [(''media_gc'', hour, gc)])"

lemma run_due_jobs_names:
  assumes "distinct (map fst js)"
  shows "snd (snd (run_due_jobs js now lst w)) = map fst (filter (job_due lst now) js)
    \<and> fst (snd (run_due_jobs js now lst w)) =
      (\<lambda>n. if n \<in> set (map fst (filter (job_due lst now) js)) then Some now else lst n)"
  using assms
proof (induction js arbitrary: lst w)
  case (Cons j js)
  have same: "job_due (lst(fst j \<mapsto> now)) now k = job_due lst now k" if "k \<in> set js" for k
    using Cons.prems that by (auto simp: job_due_def image_iff)
  then have f: "filter (job_due (lst(fst j \<mapsto> now)) now) js = filter (job_due lst now) js" by (rule filter_cong[OF refl])
  show ?case
  proof (cases "job_due lst now j")
    case True
    obtain w1 l1 n1 where r: "run_due_jobs js now (lst(fst j \<mapsto> now)) (fst (snd (snd j) now w)) = (w1, l1, n1)"
      by (metis prod_cases3)
    have "n1 = map fst (filter (job_due lst now) js)"
      "l1 = (\<lambda>n. if n \<in> set (map fst (filter (job_due lst now) js)) then Some now else (lst(fst j \<mapsto> now)) n)"
      using Cons.IH[of "lst(fst j \<mapsto> now)" "fst (snd (snd j) now w)"] Cons.prems
      unfolding r f by simp_all
    with True r show ?thesis by (auto simp: fun_eq_iff)
  next
    case False
    with Cons show ?thesis by simp
  qed
qed simp

text \<open>
  The scheduler: a tick runs exactly the jobs whose interval has elapsed, in the order
  of the list - payments are reconciled before expired holds are released - whatever the
  jobs answer, and a job that ran is not due again before its interval is over.
\<close>

theorem scheduler_runs_due_jobs_in_order:
  assumes "js = worker_jobs gw cfg newp newr ext purge gc" "run_due_jobs js now lst w = (w', lst', names)"
  shows "names = map fst (filter (job_due lst now) js)
    \<and> (\<forall>n. lst' n = (if n \<in> set names then Some now else lst n))
    \<and> (\<forall>j\<in>set js. fst j \<in> set names \<longrightarrow> (\<forall>t. now \<le> t \<and> t < now + fst (snd j) \<longrightarrow> \<not> job_due lst' t j))
    \<and> sublist [''reconcile_payments'', ''expire_pending_bookings'', ''release_abandoned_orders''] (map fst js)"
proof -
  have d: "distinct (map fst js)" by (simp add: assms(1) worker_jobs_def split: option.split)
  note r = run_due_jobs_names[OF d, of now lst w]
  have lst': "lst' n = (if n \<in> set names then Some now else lst n)" for n
    using r assms(2) by simp
  have s: "sublist [''reconcile_payments'', ''expire_pending_bookings'', ''release_abandoned_orders''] (map fst js)"
    unfolding assms(1) worker_jobs_def sublist_def
    by (rule exI[of _ "[''complete_plans'', ''mark_no_shows'', ''sweep_waitlist'']"],
        rule exI[of _ "[''send_reminders'', ''extend_series'', ''purge_stories''] @ map fst (case gc of None \<Rightarrow> [] | Some gc \<Rightarrow> [(''media_gc'', hour, gc)])"])
      simp
  have "\<not> job_due lst' t j" if "fst j \<in> set names" "now \<le> t" "t < now + fst (snd j)" for t j
    using that by (simp add: job_due_def lst')
  with r assms(2) lst' s show ?thesis by auto
qed

lemma scheduler_runs_due_jobs_in_order_witness:
  "snd (snd (run_due_jobs (worker_jobs None \<lparr>email_send = None, push_send = None\<rparr> id id (\<lambda>t w. (w, Inl DB_NoRows)) (\<lambda>t w. (w, Inr 0)) None)
     (100 * hour) ([''complete_plans'' \<mapsto> 100 * hour - second, ''extend_series'' \<mapsto> 99 * hour])
     \<lparr>w_db = empty_db, w_chat = empty_chat, w_listings = [], w_events = []\<rparr>))
   = [''mark_no_shows'', ''sweep_waitlist'', ''reconcile_payments'', ''expire_pending_bookings'',
      ''release_abandoned_orders'', ''send_reminders'', ''extend_series'', ''purge_stories'']"
  (is "snd (snd ?r) = _")
proof -
  obtain w' lst' names where r: "?r = (w', lst', names)" by (metis prod_cases3)
  from conjunct1[OF scheduler_runs_due_jobs_in_order[OF refl r]] show ?thesis
    unfolding r by (simp add: worker_jobs_def job_due_def time_defs)
qed

end
