(* ===== verification/Rupees.thy ===== *)
theory Rupees
  imports Fee Payment_Service
begin

text \<open>
  Money at the gateway's border (\<^verbatim>\<open>pkg/cashfree\<close>, \<^verbatim>\<open>internal/payments/adapters.go\<close>): the
  program counts paise in \<^verbatim>\<open>int64\<close>, Cashfree speaks of rupees as JSON numbers, which Go
  holds in \<^verbatim>\<open>float64\<close>. A double is written \<open>(m, k)\<close> for \<open>m / 2 ^ k\<close>.
\<close>

section \<open>The conversions\<close>

type_synonym double = "int \<times> nat"

text \<open>
  \<^verbatim>\<open>float64(n) / 100.0\<close> for \<open>0 \<le> n < 2 ^ 53\<close>, where the conversion is exact: the quotient
  is scaled to 53 bits and rounded to the nearest, ties to even.
\<close>

definition to_rupees :: "int \<Rightarrow> double" where
  "to_rupees n =
    (if n = 0 then (0, 0)
     else let b = bits (nat n);
              k = (if 100 * 2 ^ 52 \<le> n * 2 ^ (59 - b) then 59 - b else 60 - b)
          in (round_half_even (n * 2 ^ k) 100, k))"

text \<open>\<^verbatim>\<open>math.Round(amount * 100)\<close>: half away from zero.\<close>

definition round_away :: "int \<Rightarrow> int \<Rightarrow> int" where
  "round_away a d = sgn a * ((2 * \<bar>a\<bar> + d) div (2 * d))"

definition webhook_paise :: "double \<Rightarrow> int" where
  "webhook_paise x = round_away (fl53 (fst x * 100)) (2 ^ snd x)"

text \<open>\<^verbatim>\<open>int64(p.Amount*100 + 0.5)\<close>: a second rounding, then truncation.\<close>

definition adapter_paise :: "double \<Rightarrow> int" where
  "adapter_paise x = fl53 (2 * fl53 (fst x * 100) + 2 ^ snd x) sdiv (2 * 2 ^ snd x)"

text \<open>The adapted \<open>OrderPayments\<close>.\<close>

record cashfree_payment =
  cp_id :: string
  cp_status :: string
  cp_amount :: double

definition order_payments :: "(string \<Rightarrow> string + cashfree_payment list) \<Rightarrow> string \<Rightarrow> string + gateway_payment list" where
  "order_payments client oid =
    map_sum id (map (\<lambda>p. \<lparr>gp_id = cp_id p, gp_status = cp_status p, gp_amount = adapter_paise (cp_amount p)\<rparr>)) (client oid)"

section \<open>No paisa is lost\<close>

lemma round_half_even_near:
  assumes "0 < d" shows "\<bar>2 * (round_half_even a d * d) - 2 * a\<bar> \<le> d"
proof -
  have a: "a div d * d = a - a mod d" by (simp add: minus_mod_eq_div_mult)
  have "0 \<le> a mod d" "a mod d < d" using assms by simp_all
  then show ?thesis by (auto simp: round_half_even_def Let_def distrib_right a abs_le_iff)
qed

lemma fl53_close:
  assumes "0 < x" "x < 2 ^ (53 + j)" shows "\<bar>fl53 x - x\<bar> \<le> 2 ^ Suc j"
proof -
  have n: "x * (2 ^ 52 - 1) \<le> fl53 x * 2 ^ 52" "fl53 x \<le> x + 2 ^ j" using fl53_near[OF assms] by simp_all
  have "x * 2 ^ 52 - x \<le> fl53 x * 2 ^ 52" using n(1) by (simp add: algebra_simps)
  then have "(x - fl53 x) * 2 ^ 52 \<le> x" by (simp add: algebra_simps)
  also have "\<dots> \<le> 2 ^ Suc j * 2 ^ 52" using assms(2) by (simp add: power_add)
  finally have "x - fl53 x \<le> 2 ^ Suc j" by (subst (asm) mult_le_cancel_right) simp
  moreover have "(2::int) ^ j \<le> 2 ^ Suc j" by simp
  ultimately show ?thesis using n(2) by linarith
qed

lemma to_rupees_close:
  assumes "0 < n" "n < 2 ^ 48"
  obtains m k where "to_rupees n = (m, k)" "11 \<le> k" "\<bar>100 * m - n * 2 ^ k\<bar> \<le> 50" "n * 2 ^ k < 2 ^ 60 - 2000" "0 < m"
proof -
  let ?b = "bits (nat n)"
  have "nat n < 2 ^ 48" using assms by (simp add: nat_less_iff)
  then have b: "?b \<le> 48" by (rule bits_le)
  have b2: "2 ^ (?b - 1) \<le> n" "n < 2 ^ ?b" "0 < ?b"
    using bits_bounds[of "nat n"] assms by (simp_all add: le_nat_iff nat_less_iff)
  define k where "k = (if 100 * 2 ^ 52 \<le> n * 2 ^ (59 - ?b) then 59 - ?b else 60 - ?b)"
  have lt: "n * 2 ^ (59 - ?b) < 2 ^ 59"
  proof -
    have "n * 2 ^ (59 - ?b) < 2 ^ ?b * 2 ^ (59 - ?b)" using b2 by simp
    also have "\<dots> = 2 ^ 59" using b by (simp flip: power_add)
    finally show ?thesis .
  qed
  have up: "n * 2 ^ k < 2 ^ 60 - 2000"
  proof (cases "100 * 2 ^ 52 \<le> n * 2 ^ (59 - ?b)")
    case True
    with lt show ?thesis by (simp add: k_def)
  next
    case False
    have "n * 2 ^ (60 - ?b) = 2 * (n * 2 ^ (59 - ?b))" 
    proof -
      have "60 - ?b = Suc (59 - ?b)" using b by simp
      then show ?thesis by simp
    qed
    then have "n * 2 ^ (60 - ?b) < 2 * (100 * 2 ^ 52)" using False by linarith
    moreover have "k = 60 - ?b" using False by (simp add: k_def)
    ultimately show ?thesis by simp
  qed
  define m where "m = round_half_even (n * 2 ^ k) 100"
  have near: "\<bar>100 * m - n * 2 ^ k\<bar> \<le> 50"
    using round_half_even_near[of 100 "n * 2 ^ k"] by (simp add: m_def)
  have k: "11 \<le> k" using b unfolding k_def by (auto split: if_split)
  have "2 ^ 11 \<le> (2::int) ^ k" using k by (rule power_increasing) simp
  also have "\<dots> \<le> n * 2 ^ k" using assms(1) by simp
  finally have "0 < m" using near by simp
  moreover have "to_rupees n = (m, k)" using assms(1) by (simp add: to_rupees_def Let_def m_def k_def)
  ultimately show thesis using that k near up by blast
qed

lemma scaled:
  assumes "0 < n" "n < 2 ^ 48"
  obtains m k where "to_rupees n = (m, k)" "11 \<le> k" "\<bar>fl53 (m * 100) - n * 2 ^ k\<bar> \<le> 306" "n * 2 ^ k < 2 ^ 60 - 2000"
proof -
  obtain m k where mk: "to_rupees n = (m, k)" "11 \<le> k" "\<bar>100 * m - n * 2 ^ k\<bar> \<le> 50" "n * 2 ^ k < 2 ^ 60 - 2000" "0 < m"
    using to_rupees_close[OF assms] .
  have "\<bar>fl53 (m * 100) - m * 100\<bar> \<le> 256" using fl53_close[of "m * 100" 7] mk by (auto simp: abs_le_iff)
  with mk that show thesis by (simp add: abs_le_iff)
qed

lemma div_pin: "(q::int) * d \<le> a \<Longrightarrow> a < q * d + d \<Longrightarrow> 0 < d \<Longrightarrow> a div d = q"
  by (intro int_div_pos_eq[of a d q "a - q * d"]) (simp_all add: algebra_simps)

text \<open>
  What the program asks the gateway to charge is what comes back: for every amount
  below 2^48 paise the rupees it sends convert back to the same number of paise, both in
  the webhook and in the verification path.
\<close>

theorem rupees_roundtrip:
  assumes "0 \<le> n" "n < 2 ^ 48"
  shows "webhook_paise (to_rupees n) = n \<and> adapter_paise (to_rupees n) = n"
proof (cases "n = 0")
  case True
  then show ?thesis
    by (simp add: to_rupees_def webhook_paise_def adapter_paise_def round_away_def fl53_def bits.simps signed_divide_int_def)
next
  case False
  then obtain m k where mk: "to_rupees n = (m, k)" "11 \<le> k" "\<bar>fl53 (m * 100) - n * 2 ^ k\<bar> \<le> 306" "n * 2 ^ k < 2 ^ 60 - 2000"
    using scaled[of n] assms by auto
  let ?M = "fl53 (m * 100)" and ?d = "(2::int) ^ k"
  have d: "2048 \<le> ?d" using power_increasing[OF mk(2), of "2::int"] by simp
  have nd: "?d \<le> n * ?d" using assms False by simp
  have M: "n * ?d - 306 \<le> ?M" "?M \<le> n * ?d + 306" using mk(3) by (simp_all add: abs_le_iff)
  then have pos: "0 < ?M" using d nd by linarith
  have "(2 * ?M + ?d) div (2 * ?d) = n"
  proof (rule div_pin)
    show "n * (2 * ?d) \<le> 2 * ?M + ?d" "2 * ?M + ?d < n * (2 * ?d) + 2 * ?d" using M d by (simp_all add: algebra_simps)
  qed simp
  with pos have w: "webhook_paise (to_rupees n) = n" by (simp add: webhook_paise_def mk(1) round_away_def)
  let ?y = "2 * ?M + ?d"
  have "?d < 2 ^ 60" using nd mk(4) by linarith
  then have "?y < 2 ^ (53 + 9)" using M(2) mk(4) by simp
  then have "\<bar>fl53 ?y - ?y\<bar> \<le> 2 ^ Suc 9" using pos d by (intro fl53_close) simp_all
  then have y: "?y - 1024 \<le> fl53 ?y" "fl53 ?y \<le> ?y + 1024" by (simp_all add: abs_le_iff)
  have "fl53 ?y div (2 * ?d) = n"
  proof (rule div_pin)
    show "n * (2 * ?d) \<le> fl53 ?y" "fl53 ?y < n * (2 * ?d) + 2 * ?d" using M y d by (simp_all add: algebra_simps)
  qed simp
  moreover have "0 \<le> fl53 ?y" using y(1) pos d by linarith
  ultimately have "adapter_paise (to_rupees n) = n" by (simp add: adapter_paise_def mk(1) sdiv_nonneg)
  with w show ?thesis by simp
qed

lemma rupees_roundtrip_witness: "webhook_paise (to_rupees 104990) = 104990 \<and> adapter_paise (to_rupees 29) = 29"
  using rupees_roundtrip[of 104990] rupees_roundtrip[of 29] by simp

end
