(* ===== verification/Webhook.thy ===== *)
theory Webhook
  imports Worker Rupees Text
begin

text \<open>
  The payment webhook (\<^verbatim>\<open>cmd/api/webhook.go\<close>, \<^verbatim>\<open>pkg/cashfree/webhook.go\<close>): Cashfree posts
  signed events; the handler checks signature and age and turns the event into a capture,
  a promotion capture or a refund result. HMAC-SHA256 in base64 is the parameter \<open>mac\<close>,
  \<^verbatim>\<open>json.Unmarshal\<close> into the payload struct the parameter \<open>decode\<close>.
\<close>

section \<open>Signature, age, event\<close>

definition verify_webhook_signature ::
  "(string \<Rightarrow> string \<Rightarrow> string) \<Rightarrow> string \<Rightarrow> string \<Rightarrow> string \<Rightarrow> string \<Rightarrow> bool" where
  "verify_webhook_signature mac secret body sig ts \<longleftrightarrow> mac secret (ts @ body) = sig"

definition webhook_max_clock_skew :: int where "webhook_max_clock_skew = 5 * minute"

text \<open>
  \<open>time.Since\<close> saturates at the ends of \<^verbatim>\<open>int64\<close>; \<open>-age\<close> of the lowest value is itself again.
\<close>

definition since :: "int \<Rightarrow> int \<Rightarrow> int" where
  "since now t = max (- (2 ^ 63)) (min (2 ^ 63 - 1) (now - t))"

definition webhook_age :: "int \<Rightarrow> int \<Rightarrow> int" where
  "webhook_age now ms = (let age = since now (ms * 1000000) in if age < 0 then int64 (- age) else age)"

record webhook_payload =
  wp_type :: string
  wp_order :: string
  wp_cf_payment :: string
  wp_amount :: double
  wp_refund :: string
  wp_refund_status :: string

record webhook_event =
  we_type :: string
  we_order :: string
  we_cf_payment :: string
  we_amount :: int
  we_refund :: string
  we_refund_status :: string

definition parse_webhook_event :: "(string \<Rightarrow> webhook_payload option) \<Rightarrow> string \<Rightarrow> webhook_event option" where
  "parse_webhook_event decode body =
    map_option (\<lambda>p. \<lparr>we_type = wp_type p, we_order = wp_order p, we_cf_payment = wp_cf_payment p,
       we_amount = webhook_paise (wp_amount p), we_refund = wp_refund p, we_refund_status = wp_refund_status p\<rparr>)
      (decode body)"

section \<open>The handler\<close>

text \<open>The event's effect and the status code; \<open>bk\<close> is the booking port \<^verbatim>\<open>cmd/api\<close> wires.\<close>

definition apply_event ::
  "gateway option \<Rightarrow> booking_port_rec option \<Rightarrow> int \<Rightarrow> string \<Rightarrow> string \<Rightarrow> webhook_event \<Rightarrow> world \<Rightarrow> world \<times> int" where
  "apply_event gw bk now pid rid ev w =
    (if we_type ev = ''REFUND_STATUS_WEBHOOK''
     then (w\<lparr>w_db := record_refund_result (w_db w) (we_refund ev) (we_refund_status ev)\<rparr>, 200)
     else if we_type ev \<noteq> ''PAYMENT_SUCCESS_WEBHOOK'' then (w, 200)
     else case mark_captured gw bk (w_db w) now pid rid (we_order ev) (we_cf_payment ev) (we_amount ev) of
         (s, Inr _) \<Rightarrow> (w\<lparr>w_db := s\<rparr>, 200)
       | (s, Inl e) \<Rightarrow>
           if e = Payments_PlanFullAfterPay then (w\<lparr>w_db := s\<rparr>, 200)
           else if e \<noteq> Payments_PaymentNotFound then (w\<lparr>w_db := s\<rparr>, 500)
           else case promo_mark_captured (w_listings w) (we_order ev) (we_cf_payment ev) (we_amount ev) of
               (t, Inl _) \<Rightarrow> (w\<lparr>w_db := s, w_listings := t\<rparr>, 500)
             | (t, Inr _) \<Rightarrow> (w\<lparr>w_db := s, w_listings := t\<rparr>, 200))"

record webhook_config =
  wc_secret :: "string option"
  wc_mac :: "string \<Rightarrow> string \<Rightarrow> string"
  wc_decode :: "string \<Rightarrow> webhook_payload option"
  wc_gateway :: "gateway option"
  wc_bookings :: "booking_port_rec option"

definition cashfree_webhook ::
  "webhook_config \<Rightarrow> int \<Rightarrow> string \<Rightarrow> string \<Rightarrow> string \<Rightarrow> string \<Rightarrow> string \<Rightarrow> world \<Rightarrow> world \<times> int" where
  "cashfree_webhook c now pid rid body sig ts w =
    (case wc_secret c of
       None \<Rightarrow> (w, 503)
     | Some secret \<Rightarrow>
         if 2 ^ 20 < length body then (w, 413)
         else if \<not> verify_webhook_signature (wc_mac c) secret body sig ts then (w, 401)
         else case parse_int ts of
             None \<Rightarrow> (w, 400)
           | Some ms \<Rightarrow>
               if webhook_max_clock_skew < webhook_age now ms then (w, 401)
               else case parse_webhook_event (wc_decode c) body of
                   None \<Rightarrow> (w, 400)
                 | Some ev \<Rightarrow> apply_event (wc_gateway c) (wc_bookings c) now pid rid ev w)"

section \<open>Only Cashfree, and recently\<close>

lemma webhook_age_near:
  assumes "webhook_age now ms \<le> webhook_max_clock_skew" "ms * 1000000 < now + 2 ^ 63"
  shows "\<bar>now - ms * 1000000\<bar> \<le> 5 * minute"
proof (cases "since now (ms * 1000000) < 0")
  case True
  then have "since now (ms * 1000000) = now - ms * 1000000" "now - ms * 1000000 < 0"
    using assms(2) by (simp_all add: since_def max_def min_def split: if_splits)
  moreover from this assms(2) have "int64 (- (now - ms * 1000000)) = - (now - ms * 1000000)" by (intro int64_id) simp_all
  ultimately show ?thesis using assms(1) True by (simp add: webhook_age_def webhook_max_clock_skew_def Let_def)
next
  case False
  with assms(1) show ?thesis
    by (auto simp: webhook_age_def webhook_max_clock_skew_def Let_def since_def time_defs split: if_splits)
qed


definition idle_world :: "db \<Rightarrow> world" where
  "idle_world s = \<lparr>w_db = s, w_chat = empty_chat, w_listings = [], w_events = []\<rparr>"


text \<open>The saturation: a signed timestamp more than 292 years ahead counts as fresh.\<close>

lemma far_future_passes_skew_check:
  assumes "now + 2 ^ 63 \<le> ms * 1000000"
  shows "webhook_age now ms < webhook_max_clock_skew"
proof -
  have "since now (ms * 1000000) = - (2 ^ 63)" using assms by (simp add: since_def)
  then show ?thesis
    by (simp add: webhook_age_def webhook_max_clock_skew_def time_defs int64_def Let_def signed_take_bit_int_eq_self_iff
        signed_take_bit_eq_if_negative take_bit_eq_mod)
qed

section \<open>Replays\<close>

lemma record_refund_result_again:
  "record_refund_result (record_refund_result s r st) r st = record_refund_result s r st"
proof -
  have "set_refund_status (set_refund_status s r x) r x = set_refund_status s r x" for x
    by (simp add: set_refund_status_def set_refund_def upd_def)
  then show ?thesis by (simp add: record_refund_result_def)
qed

lemma confirm_port_no_payment_error:
  "snd (adapt_confirm confirm_paid_booking Bookings_PlanFull s now bid) \<noteq> Inl Payments_PaymentNotFound"
proof -
  have "snd (confirm_paid s now bid) \<noteq> Inl Payments_PaymentNotFound"
    by (auto simp: confirm_paid_def in_tx_def and_then_def seat_confirmed_booking_def bump_confirmed_def
        split: option.splits sum.splits prod.splits)
  then show ?thesis
    by (auto simp: adapt_confirm_def confirm_paid_booking_def split: prod.splits sum.splits)
qed

lemma do_refund_found:
  "r \<in> set (t_payments s) \<Longrightarrow> snd (do_refund gw s rid (py_id r) amount reason) \<noteq> Inl Payments_PaymentNotFound"
  by (auto simp: do_refund_def and_then_def begin_refund_def find_None_iff split: option.splits sum.splits prod.splits if_splits)

text \<open>A capture answers "payment not found" only for an unknown order, and then wrote nothing.\<close>

lemma capture_not_found:
  assumes "mark_captured gw (Some bookings_port) s now pid rid oid gid amount = (s', Inl Payments_PaymentNotFound)"
  shows "s' = s \<and> find_order s oid = Inl Payments_PaymentNotFound"
  using assms
proof (cases rule: mark_captured_cases)
  case (refused ord e)
  then show ?thesis by (auto simp: repo_mark_captured_def Let_def split: if_splits option.splits)
next
  case (failed ord s1 p e)
  then show ?thesis using confirm_port_no_payment_error[of s1 now "o_booking ord"] by (simp add: bookings_port_eq)
next
  case (seat_gone ord s1 p s2 q)
  obtain r where r: "r \<in> set (t_payments s1)" "p = scan_payment r" using repo_mark_captured_Inr(2)[OF seat_gone(2)] by blast
  have "t_payments s2 = t_payments s1"
    using bport.confirm_money[of s1 now "o_booking ord"] seat_gone(3) by (simp add: bookings_port_eq money_tables_def)
  then have "snd (do_refund gw s2 rid (p_id p) (p_amount p) ''seat no longer available'') \<noteq> Inl Payments_PaymentNotFound"
    using do_refund_found[of r s2] r by (simp add: scan_payment_def)
  with seat_gone show ?thesis by (cases q) auto
qed simp_all

text \<open>
  Redelivered webhooks are idempotent: when an event was applied with status 200, then -
  except for a capture that found its seat gone - the same event at any later time, however
  often, answers 200 again and changes nothing.
\<close>

theorem webhook_replay_idempotent:
  assumes "wf_db (w_db w)" "pid \<notin> py_id ` set (t_payments (w_db w))" "0 < we_amount ev" "listings_ok (w_listings w)"
    and "apply_event gw (Some bookings_port) now pid rid ev w = (w', 200)"
    and "snd (mark_captured gw (Some bookings_port) (w_db w) now pid rid (we_order ev) (we_cf_payment ev) (we_amount ev))
       \<noteq> Inl Payments_PlanFullAfterPay"
  shows "apply_event gw (Some bookings_port) now' pid' rid' ev w' = (w', 200)"
proof (cases "we_type ev = ''PAYMENT_SUCCESS_WEBHOOK''")
  case False
  with assms(5) show ?thesis by (auto simp: apply_event_def record_refund_result_again)
next
  case True
  let ?m = "mark_captured gw (Some bookings_port) (w_db w) now pid rid (we_order ev) (we_cf_payment ev) (we_amount ev)"
  obtain s' q where m: "?m = (s', q)" by fastforce
  show ?thesis
  proof (cases q)
    case (Inr p)
    then have w': "w' = w\<lparr>w_db := s'\<rparr>" using assms(5) True m by (simp add: apply_event_def)
    have "mark_captured gw (Some bookings_port) s' now' pid' rid' (we_order ev) (we_cf_payment ev) (we_amount ev) = (s', Inr p)"
      using bport.capture_again[OF assms(1,2) _ assms(3)] m Inr by (simp add: bookings_port_eq)
    with True w' show ?thesis by (simp add: apply_event_def)
  next
    case (Inl e)
    then have e: "e = Payments_PaymentNotFound" using assms(5,6) True m by (auto simp: apply_event_def split: if_splits)
    then have s': "s' = w_db w" "find_order (w_db w) (we_order ev) = Inl Payments_PaymentNotFound"
      using capture_not_found m Inl by blast+
    obtain t where t: "promo_mark_captured (w_listings w) (we_order ev) (we_cf_payment ev) (we_amount ev) = (t, Inr ())"
      and w': "w' = w\<lparr>w_listings := t\<rparr>"
      using assms(5) True m Inl e s' by (auto simp: apply_event_def split: prod.splits sum.splits)
    have "promo_mark_captured t (we_order ev) (we_cf_payment ev) (we_amount ev) = (t, Inr ())"
      using promo_captured_again[OF assms(4) t] .
    moreover have "mark_captured gw (Some bookings_port) (w_db w) now' pid' rid' (we_order ev) (we_cf_payment ev) (we_amount ev)
        = (w_db w, Inl Payments_PaymentNotFound)"
      using s' by (simp add: mark_captured_def)
    ultimately show ?thesis using True w' by (simp add: apply_event_def)
  qed
qed

definition sample_event :: webhook_event where
  "sample_event = \<lparr>we_type = ''PAYMENT_SUCCESS_WEBHOOK'', we_order = ''o'', we_cf_payment = ''cf1'', we_amount = 1100,
     we_refund = '''', we_refund_status = ''''\<rparr>"

lemma webhook_replay_idempotent_witness:
  "let w = fst (apply_event None (Some bookings_port) 3 ''pay'' ''r1'' sample_event (idle_world pending_db))
   in apply_event None (Some bookings_port) 99 ''pay2'' ''r2'' sample_event w = (w, 200)"
proof -
  have a: "apply_event None (Some bookings_port) 3 ''pay'' ''r1'' sample_event (idle_world pending_db)
    = (fst (apply_event None (Some bookings_port) 3 ''pay'' ''r1'' sample_event (idle_world pending_db)), 200)"
    by (simp add: apply_event_def sample_event_def idle_world_def capture_defs)
  show ?thesis
    unfolding Let_def
    by (rule webhook_replay_idempotent[OF _ _ _ _ a])
      (simp_all add: idle_world_def pending_db_ok listings_ok_def paid_once_def paid_has_payment_def sample_event_def
        captured_once[THEN arg_cong, of snd, simplified], simp add: pending_db_def samples)
qed

text \<open>
  The exception is real, against the comment at \<open>MarkCaptured\<close>: after a capture that found
  its seat gone and was refunded, a redelivery of the same webhook is answered 500.
\<close>

lemma seat_gone_replay_fails:
  "snd (apply_event (Some sample_gateway) (Some bookings_port) 9 ''pay2'' ''r2'' sample_event
     (idle_world (fst (mark_captured (Some sample_gateway) (Some bookings_port) filled_db 3 ''pay'' ''r1'' ''o'' ''cf1'' 1100)))) = 500"
  by (simp add: apply_event_def sample_event_def idle_world_def capture_defs filled_db_def do_refund_def refunded_total_def
      counts_as_refunded_def int64_id)

end
