(* ===== verification/Delivery.thy ===== *)
theory Delivery
  imports Webhook
begin

text \<open>
  What the outbox and the worker guarantee together: events are published at least once and
  in order, a cancellation's refund is paid once however often its event is delivered, and
  a cancellation leads to exactly the refund the policy names.
\<close>

section \<open>Refunding a cancelled booking\<close>

lemma do_refund_frame [simp]:
  "t_orders (fst (do_refund gw s rid pid amount reason)) = t_orders s"
  "t_payments (fst (do_refund gw s rid pid amount reason)) = t_payments s"
  by (simp_all add: do_refund_def begin_refund_def and_then_def op_defs split: option.split sum.split)

lemma find_captured_cong:
  "t_payments s' = t_payments s \<Longrightarrow> t_orders s' = t_orders s \<Longrightarrow> find_captured_payment s' bid = find_captured_payment s bid"
  by (simp add: find_captured_payment_def captured_for_def)

lemma find_captured_row:
  assumes "find_captured_payment s bid = Inr p"
  obtains r where "r \<in> set (t_payments s)" "py_status r = PayCaptured" "p = scan_payment r"
proof -
  obtain r rs where r: "sort_key (\<lambda>r. - py_created r) (captured_for s bid) = r # rs" "p = scan_payment r"
    using assms by (auto simp: find_captured_payment_def split: list.splits)
  have "r \<in> set (captured_for s bid)" using arg_cong[OF r(1), of set] by auto
  then show thesis using that r(2) by (auto simp: captured_for_def)
qed

lemma refund_booking_cases:
  assumes "refund_booking_if_captured gw s rid bid reason percent = (s', Inr u)"
  obtains (nothing) "s' = s" "\<And>gw rid reason. refund_booking_if_captured gw s rid bid reason percent = (s, Inr ())"
  | (paid) p rf where "find_captured_payment s bid = Inr p" "0 < percent"
      "do_refund gw s rid (p_id p) (int64 (p_amount p * min percent 100) sdiv 100 - refunded_total s (p_id p)) reason = (s', Inr rf)"
proof (cases "0 < percent \<and> (\<exists>p. find_captured_payment s bid = Inr p
      \<and> 0 < int64 (p_amount p * min percent 100) sdiv 100 - refunded_total s (p_id p))")
  case True
  with assms paid show thesis
    by (auto simp: refund_booking_if_captured_def Let_def and_then_eq_Inr)
next
  case False
  with assms have same: "s' = s \<and> refund_booking_if_captured gw2 s rid2 bid reason2 percent = (s, Inr ())" for gw2 rid2 reason2
    by (auto simp: refund_booking_if_captured_def Let_def split: if_splits sum.splits)
  show thesis by (rule nothing) (simp_all add: same)
qed

lemma refund_booking_again:
  assumes "rid \<notin> rf_id ` set (t_refunds s)"
    and r: "refund_booking_if_captured gw s rid bid reason percent = (s', Inr u)"
  shows "refund_booking_if_captured gw' s' rid' bid reason' percent = (s', Inr ())"
  using r
proof (cases rule: refund_booking_cases)
  case nothing
  then show ?thesis by simp
next
  case (paid p rf)
  have t: "refunded_total s' (p_id p) = int64 (p_amount p * min percent 100) sdiv 100"
    using do_refund_done(1)[OF paid(3) assms(1)] by simp
  have "t_payments s' = t_payments s" "t_orders s' = t_orders s"
    using do_refund_frame[of gw s rid "p_id p" _ reason] paid(3) by (metis fst_conv)+
  then have "find_captured_payment s' bid = Inr p" using find_captured_cong paid(1) by metis
  with t paid(2) show ?thesis by (simp add: refund_booking_if_captured_def Let_def)
qed

lemma business_money: "business_tables s' = business_tables s \<Longrightarrow> money_tables s' = money_tables s"
  using business_tables_eqD[of s' s] by (simp add: money_tables_def)

lemma send_money: "money_tables (fst (send_notification cfg s now user ch title body link)) = money_tables s"
  by (intro business_money business_tables_send)

lemma money_refund_booking:
  "money_tables s' = money_tables s \<Longrightarrow>
   money_tables (fst (refund_booking_if_captured gw s' rid bid reason percent)) = money_tables (fst (refund_booking_if_captured gw s rid bid reason percent))
   \<and> snd (refund_booking_if_captured gw s' rid bid reason percent) = snd (refund_booking_if_captured gw s rid bid reason percent)"
proof -
  assume m: "money_tables s' = money_tables s"
  then have t: "t_payments s' = t_payments s" "t_orders s' = t_orders s" "t_refunds s' = t_refunds s" "t_recon s' = t_recon s"
      "t_ledger s' = t_ledger s" "t_promos s' = t_promos s" by (simp_all add: money_tables_def)
  note f = find_captured_cong[OF t(1,2), of bid]
  have rt: "refunded_total s' pid = refunded_total s pid" for pid by (simp add: refunded_total_def t)
  have "money_tables (fst (do_refund gw s' rid pid amount reason)) = money_tables (fst (do_refund gw s rid pid amount reason))
    \<and> snd (do_refund gw s' rid pid amount reason) = snd (do_refund gw s rid pid amount reason)" for pid amount
    by (simp add: do_refund_def begin_refund_def and_then_def op_defs money_tables_def t rt split: option.split sum.split)
  then show ?thesis
    by (simp add: refund_booking_if_captured_def Let_def and_then_def f rt m split: sum.split)
qed

lemma handle_booking_cancelled_money:
  assumes "handle_booking_cancelled gw cfg now rid p w = (w', r)"
  shows "money_tables (w_db w') = money_tables (fst (refund_booking_if_captured gw (w_db w) rid (fst (booking_fields p))
      (''booking cancelled: '' @ fst (cancel_fields p)) (case snd (cancel_fields p) of None \<Rightarrow> 100 | Some k \<Rightarrow> k)))
    \<and> (r = Inr () \<longrightarrow> snd (refund_booking_if_captured gw (w_db w) rid (fst (booking_fields p))
      (''booking cancelled: '' @ fst (cancel_fields p)) (case snd (cancel_fields p) of None \<Rightarrow> 100 | Some k \<Rightarrow> k)) = Inr ())"
  using assms
  by (auto simp: handle_booking_cancelled_def Let_def and_then_def lift_db_def analytics_record_def send_money
      split: prod.splits sum.splits)

text \<open>
  A cancellation's refund is paid once: after the worker handled a BOOKING_CANCELLED
  event, delivering the same event again - by a retry, with whatever gateway, senders and
  new ids - leaves orders, payments, refunds and ledgers exactly as they are.
\<close>

theorem redelivered_cancellation_refunds_once:
  assumes "en_refund e \<notin> rf_id ` set (t_refunds (w_db w))" "handler ''BOOKING_CANCELLED'' = Some h"
    and "h e p w = (w1, Inr ())" "h e' p w1 = (w2, r)"
  shows "money_tables (w_db w2) = money_tables (w_db w1)"
proof -
  have h: "h = (\<lambda>e. handle_booking_cancelled (en_gateway e) (en_senders e) (en_now e) (en_refund e))"
    using assms(2) by (simp add: handler_def)
  let ?bid = "fst (booking_fields p)" and ?reason = "''booking cancelled: '' @ fst (cancel_fields p)"
    and ?pct = "case snd (cancel_fields p) of None \<Rightarrow> 100 | Some k \<Rightarrow> k"
  let ?refund = "\<lambda>e s. refund_booking_if_captured (en_gateway e) s (en_refund e) ?bid ?reason ?pct"
  have m: "money_tables (w_db w1) = money_tables (fst (?refund e (w_db w)))" "snd (?refund e (w_db w)) = Inr ()"
    using handle_booking_cancelled_money assms(3) unfolding h by blast+
  then have "?refund e' (fst (?refund e (w_db w))) = (fst (?refund e (w_db w)), Inr ())"
    by (intro refund_booking_again[OF assms(1), of "en_gateway e" ?bid ?reason ?pct _ "()"]) (simp add: prod_eq_iff)
  then have "money_tables (fst (?refund e' (w_db w1))) = money_tables (w_db w1)"
    using money_refund_booking[OF m(1), of "en_gateway e'" "en_refund e'" ?bid ?reason ?pct] m(1) by simp
  with handle_booking_cancelled_money assms(4) show ?thesis unfolding h by metis
qed

definition mute_senders :: senders where "mute_senders = \<lparr>email_send = None, push_send = None\<rparr>"

definition calm_env :: "string \<Rightarrow> env" where
  "calm_env rid = \<lparr>en_gateway = Some sample_gateway, en_senders = mute_senders, en_now = 7, en_room = ''room'', en_refund = rid\<rparr>"

lemmas env_samples = mute_senders_def calm_env_def idle_world_def

lemma redelivered_cancellation_refunds_once_witness:
  "let h = the (handler ''BOOKING_CANCELLED''); p = CancelPayload ''b'' ''p'' ''u'' ''sick'' (Some 100);
       w1 = fst (h (calm_env ''r1'') p (idle_world paid_db))
   in money_tables (w_db (fst (h (calm_env ''r2'') p w1))) = money_tables (w_db w1)"
proof -
  let ?h = "the (handler ''BOOKING_CANCELLED'')" and ?p = "CancelPayload ''b'' ''p'' ''u'' ''sick'' (Some 100)"
  have h: "handler ''BOOKING_CANCELLED'' = Some ?h" by (simp add: handler_def)
  have "snd (?h (calm_env ''r1'') ?p (idle_world paid_db)) = Inr ()"
    by (simp add: handler_def handle_booking_cancelled_def lift_db_def analytics_record_def env_samples send_notification_def
        refund_booking_if_captured_def find_captured_payment_def captured_for_def paid_db_def pay_samples samples Let_def
        op_defs refunded_total_def int64_id scan_payment_def signed_divide_int_def and_then_def split: prod.split)
  then have 1: "?h (calm_env ''r1'') ?p (idle_world paid_db) = (fst (?h (calm_env ''r1'') ?p (idle_world paid_db)), Inr ())"
    by (metis prod.collapse)
  have "en_refund (calm_env ''r1'') \<notin> rf_id ` set (t_refunds (w_db (idle_world paid_db)))"
    by (simp add: env_samples paid_db_def samples)
  from redelivered_cancellation_refunds_once[OF this h 1 surjective_pairing] show ?thesis by (simp add: Let_def)
qed

text \<open>
  C12. From cancelling to money back: cancelling a confirmed, paid booking leaves one
  cancellation event; when the worker handles that event and the gateway accepts, the
  payment has been refunded in full if the host cancelled or the plan was at least a day
  away, and not at all otherwise.
\<close>

theorem cancellation_pays_policy_refund:
  assumes inv: "bookings_inv (w_db w)" and b: "booking_by_id (w_db w) bid = Some b" "bk_status b = Confirmed" "bk_user b \<noteq> ''''"
    and pl: "plan_by_id (w_db w) (bk_plan b) = Some pl"
    and pay: "find_captured_payment (w_db w) bid = Inr pay" "refunded_total (w_db w) (p_id pay) = 0"
      "0 < p_amount pay" "p_amount pay < 2 ^ 56"
    and keys: "keys_ok (w_db w)" and rid: "rid \<notin> rf_id ` set (t_refunds (w_db w))"
    and gw: "en_gateway e = Some g" "\<And>oid k a n. \<exists>cf. gw_refund g oid k a n = Inr cf" "en_refund e = rid"
  shows "\<exists>s' out w'. cancel (w_db w) now tnow bid reason by_host = (s', Inr out) \<and> t_outbox s' \<noteq> []
    \<and> (\<exists>h. handler (ob_type (List.last (t_outbox s'))) = Some h
         \<and> h e (ob_payload (List.last (t_outbox s'))) (w\<lparr>w_db := s'\<rparr>) = (w', Inr ()))
    \<and> refunded_total (w_db w') (p_id pay) = (if by_host \<or> tnow + 24 * hour \<le> pl_starts pl then p_amount pay else 0)"
proof (rule cancel_confirmed_effect[OF inv b(1,2) pl, of now tnow reason by_host])
  fix s' out ev
  let ?pct = "if by_host \<or> tnow + 24 * hour \<le> pl_starts pl then 100 else 0 :: int"
  assume c: "cancel (w_db w) now tnow bid reason by_host = (s', Inr out)"
    and o: "t_outbox s' = t_outbox (w_db w) @ ev @ [\<lparr>ob_type = ''BOOKING_CANCELLED'', ob_subject = bid,
        ob_payload = CancelPayload bid (bk_plan b) (bk_user b) reason (Some ?pct), ob_created = now, ob_published = None\<rparr>]"
  have m: "money_tables s' = money_tables (w_db w)" using cancel_money[of "w_db w" now tnow bid reason by_host] c by simp
  then have t: "t_payments s' = t_payments (w_db w)" "t_orders s' = t_orders (w_db w)" "t_refunds s' = t_refunds (w_db w)"
    by (simp_all add: money_tables_def)
  have pay': "find_captured_payment s' bid = Inr pay" using find_captured_cong[OF t(1,2)] pay(1) by simp
  have rt: "refunded_total s' (p_id pay) = 0" using pay(2) by (simp add: refunded_total_def t)
  define R where "R = refund_booking_if_captured (en_gateway e) s' rid bid (''booking cancelled: '' @ reason) ?pct"
  have R: "snd R = Inr () \<and> refunded_total (fst R) (p_id pay) = (if ?pct = 100 then p_amount pay else 0)"
  proof (cases "?pct = 100")
    case False
    then have "?pct = 0" by (auto split: if_splits)
    then show ?thesis using False rt by (simp add: R_def refund_booking_if_captured_def)
  next
    case True
    obtain pr where r: "pr \<in> set (t_payments s')" "py_status pr = PayCaptured" "pay = scan_payment pr"
      using find_captured_row[OF pay'] .
    then have pr: "payment_by_id s' (p_id pay) = Some pr" "py_status pr = PayCaptured" "py_amount pr = p_amount pay"
      using keys by (simp_all add: find_key_unique keys_ok_def t scan_payment_def)
    obtain cf where cf: "gw_refund g (py_order pr) rid (p_amount pay) (''booking cancelled: '' @ reason) = Inr cf" using gw(2) by blast
    let ?d = "do_refund (Some g) s' rid (p_id pay) (p_amount pay) (''booking cancelled: '' @ reason)"
    have "\<exists>rf. snd ?d = Inr rf"
      using pr cf pay(3,4) rt by (simp add: do_refund_def begin_refund_def int64_id)
    then obtain rf where d: "?d = (fst ?d, Inr rf)" by (metis prod.collapse)
    have "int64 (p_amount pay * 100) = p_amount pay * 100" using pay(3,4) by (intro int64_id) simp_all
    moreover have "(p_amount pay * 100) sdiv 100 = p_amount pay" using pay(3) by (subst sdiv_nonneg) simp_all
    ultimately have "R = and_then ?d (\<lambda>_ s1. (s1, Inr ()))"
      using True gw(1) pay' rt pay(3) by (simp add: R_def refund_booking_if_captured_def Let_def)
    then have "R = (fst ?d, Inr ())" using d by (metis and_then_simps(2))
    then show ?thesis using do_refund_done(1)[OF d] rid True rt by (simp add: t)
  qed
  obtain w' q where h: "handle_booking_cancelled (en_gateway e) (en_senders e) (en_now e) rid
      (CancelPayload bid (bk_plan b) (bk_user b) reason (Some ?pct)) (w\<lparr>w_db := s'\<rparr>) = (w', q)" by fastforce
  have "q = Inr ()"
    using h R b(3) by (auto simp: R_def handle_booking_cancelled_def Let_def and_then_def lift_db_def analytics_record_def
        send_notification_def split: prod.splits sum.splits if_splits)
  moreover have "money_tables (w_db w') = money_tables (fst R)"
    using handle_booking_cancelled_money[OF h] by (simp add: R_def)
  then have "refunded_total (w_db w') (p_id pay) = refunded_total (fst R) (p_id pay)"
    by (simp add: refunded_total_def money_tables_def)
  ultimately show ?thesis using c o h R gw(3) by (auto simp: handler_def)
qed

definition confirmed_db :: db where
  "confirmed_db = paid_db\<lparr>t_plans := [sample_plan\<lparr>pl_confirmed := 1\<rparr>], t_bookings := [sample_booking]\<rparr>"

lemma cancellation_pays_policy_refund_witness:
  "\<exists>s' out w'. cancel confirmed_db 5 5 ''b'' ''sick'' False = (s', Inr out) \<and> t_outbox s' \<noteq> []
    \<and> (\<exists>h. handler (ob_type (List.last (t_outbox s'))) = Some h
         \<and> h (calm_env ''r1'') (ob_payload (List.last (t_outbox s'))) (idle_world s') = (w', Inr ()))
    \<and> refunded_total (w_db w') ''pay'' = 1100"
proof -
  have inv: "bookings_inv confirmed_db"
    by (simp add: bookings_inv_def wf_db_def seats_ok_def seat_count_def confirmed_db_def paid_db_def pay_samples samples)
  have "\<exists>s' out w'. cancel (w_db (idle_world confirmed_db)) 5 5 ''b'' ''sick'' False = (s', Inr out) \<and> t_outbox s' \<noteq> []
    \<and> (\<exists>h. handler (ob_type (List.last (t_outbox s'))) = Some h
         \<and> h (calm_env ''r1'') (ob_payload (List.last (t_outbox s'))) ((idle_world confirmed_db)\<lparr>w_db := s'\<rparr>) = (w', Inr ()))
    \<and> refunded_total (w_db w') (p_id (scan_payment sample_payment))
      = (if False \<or> 5 + 24 * hour \<le> pl_starts (sample_plan\<lparr>pl_confirmed := 1\<rparr>) then p_amount (scan_payment sample_payment) else 0)"
    by (rule cancellation_pays_policy_refund[where b = sample_booking and rid = "''r1''" and g = sample_gateway])
      (use inv in \<open>simp_all add: env_samples confirmed_db_def paid_db_def pay_samples samples find_captured_payment_def
        captured_for_def refunded_total_def scan_payment_def keys_ok_def\<close>)
  moreover have "w_db (idle_world s) = s" "(idle_world s)\<lparr>w_db := s'\<rparr> = idle_world s'" for s s' by (simp_all add: idle_world_def)
  moreover have "p_id (scan_payment sample_payment) = ''pay''" "p_amount (scan_payment sample_payment) = 1100"
    "False \<or> 5 + 24 * hour \<le> pl_starts (sample_plan\<lparr>pl_confirmed := 1\<rparr>)"
    by (simp_all add: scan_payment_def pay_samples samples time_defs)
  ultimately show ?thesis by (simp only: if_True)
qed

section \<open>The outbox\<close>

text \<open>
  At-least-once delivery in order: a drain hands the oldest unpublished events, at most
  a hundred, to the publisher in the order they were created, up to the first it refuses;
  exactly the accepted ones are marked, nothing else changes, so what was not accepted is
  still there for the next poll; and if the publisher accepts everything, all of them go out.
\<close>

theorem drain_at_least_once:
  assumes "drain publish now s = (s', sent, ok)"
  shows "\<exists>pend k. distinct pend \<and> sorted (map (\<lambda>i. ob_created (t_outbox s ! i)) pend)
    \<and> set pend \<subseteq> {i. i < length (t_outbox s) \<and> ob_published (t_outbox s ! i) = None}
    \<and> length pend = min 100 (length (filter (\<lambda>r. ob_published r = None) (t_outbox s)))
    \<and> k \<le> length pend \<and> sent = map (\<lambda>i. (ob_type (t_outbox s ! i), ob_payload (t_outbox s ! i))) (take k pend)
    \<and> length (t_outbox s') = length (t_outbox s)
    \<and> (\<forall>i<length (t_outbox s). t_outbox s' ! i =
        (if i \<in> set (take k pend) then (t_outbox s ! i)\<lparr>ob_published := Some now\<rparr> else t_outbox s ! i))
    \<and> ok = (k = length pend) \<and> ((\<forall>t p. publish t p) \<longrightarrow> k = length pend)"
proof -
  let ?rows = "t_outbox s" and ?pend = "drain_pending (t_outbox s)"
  have d: "drain_loop publish now ?pend ?rows = (t_outbox s', sent, ok)"
    using assms by (auto simp: drain_def split: prod.splits)
  have sub: "\<forall>i\<in>set ?pend. i < length ?rows" using drain_pending_unpublished by blast
  obtain k where k: "k \<le> length ?pend"
      "sent = map (\<lambda>i. (ob_type (?rows ! i), ob_payload (?rows ! i))) (take k ?pend)" "ok = (k = length ?pend)"
      "k < length ?pend \<longrightarrow> \<not> publish (ob_type (?rows ! (?pend ! k))) (ob_payload (?rows ! (?pend ! k)))"
      "\<forall>i<length ?rows. t_outbox s' ! i = (if i \<in> set (take k ?pend) then (?rows ! i)\<lparr>ob_published := Some now\<rparr> else ?rows ! i)"
    using drain_loop_marks[OF d drain_pending_distinct sub] by blast
  have len: "length (t_outbox s') = length ?rows" using drain_loop_length[of publish now ?pend ?rows] d by simp
  have sorted: "sorted (map (\<lambda>i. ob_created (?rows ! i)) ?pend)"
    unfolding drain_pending_def take_map[symmetric] by (rule sorted_wrt_take) simp
  have cnt: "length (filter (\<lambda>i. ob_published (?rows ! i) = None) [0..<length ?rows]) = length (filter (\<lambda>r. ob_published r = None) ?rows)"
    by (metis (no_types, lifting) length_map filter_map map_nth comp_def filter_cong)
  have "length ?pend = min 100 (length (filter (\<lambda>r. ob_published r = None) ?rows))"
    by (simp add: drain_pending_def drain_limit_def cnt)
  then show ?thesis
    using k len sorted drain_pending_distinct drain_pending_unpublished by (intro exI[of _ ?pend] exI[of _ k]) auto
qed

lemma drain_at_least_once_witness:
  "fst (snd (drain (\<lambda>t p. True) 9 (enqueue empty_db 4 ''PLAN_CANCELLED'' ''p'' (PlanCancelPayload ''p'' ''rain''))))
     = [(''PLAN_CANCELLED'', PlanCancelPayload ''p'' ''rain'')]"
proof -
  let ?s = "enqueue empty_db 4 ''PLAN_CANCELLED'' ''p'' (PlanCancelPayload ''p'' ''rain'')"
  obtain s' sent ok where d: "drain (\<lambda>t p. True) 9 ?s = (s', sent, ok)" by (metis prod_cases3)
  obtain pend where p: "set pend \<subseteq> {i. i < length (t_outbox ?s) \<and> ob_published (t_outbox ?s ! i) = None}"
    "length pend = 1" "sent = map (\<lambda>i. (ob_type (t_outbox ?s ! i), ob_payload (t_outbox ?s ! i))) pend"
    using drain_at_least_once[OF d] by (auto simp: enqueue_def samples)
  then obtain i where "pend = [i]" by (auto simp: length_Suc_conv)
  with p d show ?thesis by (auto simp: enqueue_def samples)
qed

section \<open>Notifications\<close>

text \<open>
  A social event becomes at most one unread notification: emitting writes a row exactly
  when it reports so, only for an active user other than the actor, with no block between
  them and the category not muted; and while that row is unread, another event with the
  same deduplication key is dropped.
\<close>

theorem emit_rules:
  assumes "emit s now e = (s', Inr sent)"
  shows "(sent \<longleftrightarrow> s' \<noteq> s)
    \<and> (sent \<longrightarrow> ev_user e \<noteq> ev_actor e \<and> (\<exists>u\<in>set (t_users s). us_id u = ev_user e \<and> us_status u = UserActive)
        \<and> (ev_actor e = '''' \<or> \<not> blocked s (ev_user e) (ev_actor e))
        \<and> \<not> (\<exists>p\<in>set (t_prefs s). np_user p = ev_user e \<and> category_of (ev_type e) \<in> set (np_muted p)))
    \<and> (sent \<and> ev_dedupe e \<noteq> '''' \<and> ev_user e2 = ev_user e \<and> ev_dedupe e2 = ev_dedupe e \<and> ev_type e2 \<noteq> '''' \<and> ev_title e2 \<noteq> ''''
        \<longrightarrow> emit s' now2 e2 = (s', Inr False))"
proof -
  have ne: "s \<noteq> s\<lparr>t_notifications := t_notifications s @ [n]\<rparr>" for n
  proof
    assume "s = s\<lparr>t_notifications := t_notifications s @ [n]\<rparr>"
    from arg_cong[OF this, of t_notifications] show False by simp
  qed
  have u: "ev_user e \<noteq> ''''" using assms by (auto simp: emit_def split: if_splits)
  show ?thesis
  proof (cases sent)
    case False
    with assms show ?thesis by (auto simp: emit_def split: if_splits)
  next
    case True
    define n where "n = \<lparr>nt_id = length (t_notifications s), nt_user = ev_user e, nt_channel = ''in_app'',
              nt_type = Some (ev_type e), nt_actor = nullif (ev_actor e), nt_target = nullif (ev_target e),
              nt_title = sql_replace ''{actor}'' (actor_name s (ev_actor e)) (ev_title e),
              nt_body = sql_replace ''{actor}'' (actor_name s (ev_actor e)) (ev_body e),
              nt_link = nullif (ev_link e), nt_dedupe = nullif (ev_dedupe e), nt_read = False,
              nt_created = now, nt_delivery = DelPending, nt_sent = None, nt_error = None\<rparr>"
    have s': "s' = s\<lparr>t_notifications := t_notifications s @ [n]\<rparr>" and allowed: "emit_allowed s e"
      using assms True by (simp_all add: emit_def n_def split: if_splits)
    have n: "nt_user n = ev_user e" "nt_dedupe n = nullif (ev_dedupe e)" "\<not> nt_read n" by (simp_all add: n_def)
    have "dedupe_conflict s' (ev_user e) (nullif (ev_dedupe e))" if "ev_dedupe e \<noteq> ''''"
      using that n unfolding s' by (simp add: dedupe_conflict_def nullif_def)
    then have again: "emit s' now2 e2 = (s', Inr False)" if "ev_dedupe e \<noteq> ''''" "ev_user e2 = ev_user e"
        "ev_dedupe e2 = ev_dedupe e" "ev_type e2 \<noteq> ''''" "ev_title e2 \<noteq> ''''"
      using that u by (simp add: emit_def)
    have "s' \<noteq> s" using ne[of n] s' by metis
    with True allowed again show ?thesis by (simp add: emit_allowed_def)
  qed
qed


lemma emit_rules_witness:
  "let s = empty_db\<lparr>t_users := [sample_user]\<rparr>;
       e = \<lparr>ev_user = ''u'', ev_actor = ''v'', ev_type = ''post_like'', ev_target = ''x'', ev_title = ''Hi'', ev_body = '''',
            ev_link = '''', ev_dedupe = ''like:x''\<rparr>
   in emit (fst (emit s 3 e)) 4 e = (fst (emit s 3 e), Inr False)"
proof -
  let ?s = "empty_db\<lparr>t_users := [sample_user]\<rparr>"
  let ?e = "\<lparr>ev_user = ''u'', ev_actor = ''v'', ev_type = ''post_like'', ev_target = ''x'', ev_title = ''Hi'', ev_body = '''',
            ev_link = '''', ev_dedupe = ''like:x''\<rparr>"
  have "emit ?s 3 ?e = (fst (emit ?s 3 ?e), Inr True)"
    by (simp add: emit_def emit_allowed_def dedupe_conflict_def sample_user_def samples blocked_def)
  from emit_rules[OF this, of ?e 4] show ?thesis by (simp add: Let_def)
qed

section \<open>Retries end\<close>

text \<open>
  No event is retried forever: a delivery makes at most six attempts; it stops at the
  first that succeeds, and an event given up failed every one of them.
\<close>

theorem delivery_bounded:
  "\<exists>n\<le>6. deliver h es w = deliver_loop h (take n es) w
    \<and> (snd (deliver h es w) \<longrightarrow> 0 < n \<and> (\<exists>w1. h (es ! (n - 1)) w1 = (fst (deliver h es w), Inr ())))
    \<and> (\<not> snd (deliver h es w) \<longrightarrow> n = min 6 (length es))"
proof -
  have "\<exists>n\<le>length xs. deliver_loop h xs w = deliver_loop h (take n xs) w
    \<and> (snd (deliver_loop h xs w) \<longrightarrow> 0 < n \<and> (\<exists>w1. h (xs ! (n - 1)) w1 = (fst (deliver_loop h xs w), Inr ())))
    \<and> (\<not> snd (deliver_loop h xs w) \<longrightarrow> n = length xs)" for xs
  proof (induction xs arbitrary: w)
    case (Cons x xs)
    obtain w1 r where x: "h x w = (w1, r)" by fastforce
    show ?case
    proof (cases r)
      case (Inr u)
      with x show ?thesis by (intro exI[of _ 1]) auto
    next
      case (Inl e)
      obtain n where n: "n \<le> length xs" "deliver_loop h xs w1 = deliver_loop h (take n xs) w1"
        "snd (deliver_loop h xs w1) \<longrightarrow> 0 < n \<and> (\<exists>w2. h (xs ! (n - 1)) w2 = (fst (deliver_loop h xs w1), Inr ()))"
        "\<not> snd (deliver_loop h xs w1) \<longrightarrow> n = length xs"
        using Cons.IH by blast
      have e: "deliver_loop h (x # xs) w = deliver_loop h xs w1" "deliver_loop h (take (Suc n) (x # xs)) w = deliver_loop h (take n xs) w1"
        using x Inl by simp_all
      show ?thesis
      proof (intro exI[of _ "Suc n"] conjI impI)
        show "deliver_loop h (x # xs) w = deliver_loop h (take (Suc n) (x # xs)) w" unfolding e by (rule n(2))
        assume "snd (deliver_loop h (x # xs) w)"
        then obtain w2 where "0 < n" "h (xs ! (n - 1)) w2 = (fst (deliver_loop h xs w1), Inr ())"
          using n(3) unfolding e by blast
        then show "\<exists>w1. h ((x # xs) ! (Suc n - 1)) w1 = (fst (deliver_loop h (x # xs) w), Inr ())"
          unfolding e by (intro exI[of _ w2]) (simp add: nth_Cons')
      next
        assume "\<not> snd (deliver_loop h (x # xs) w)"
        then show "Suc n = length (x # xs)" using n(4) unfolding e by simp
      qed (use n(1) in simp_all)
    qed
  qed simp
  from this[of "take 6 es"] obtain n where n: "n \<le> length (take 6 es)"
    "deliver_loop h (take 6 es) w = deliver_loop h (take n (take 6 es)) w"
    "snd (deliver_loop h (take 6 es) w) \<longrightarrow> 0 < n \<and> (\<exists>w1. h (take 6 es ! (n - 1)) w1 = (fst (deliver_loop h (take 6 es) w), Inr ()))"
    "\<not> snd (deliver_loop h (take 6 es) w) \<longrightarrow> n = length (take 6 es)" by blast
  have tk: "take n (take 6 es) = take n es" "n \<le> 6" using n(1) by simp_all
  have d: "deliver h es w = deliver_loop h (take 6 es) w" by (simp add: deliver_def max_deliveries_def)
  show ?thesis
  proof (intro exI[of _ n] conjI impI)
    show "deliver h es w = deliver_loop h (take n es) w" unfolding d using n(2) unfolding tk(1) .
    assume "snd (deliver h es w)"
    then obtain w1 where "0 < n" "h (take 6 es ! (n - 1)) w1 = (fst (deliver h es w), Inr ())"
      using n(3) unfolding d by blast
    then show "0 < n" "\<exists>w1. h (es ! (n - 1)) w1 = (fst (deliver h es w), Inr ())" using tk(2) by auto
  next
    assume "\<not> snd (deliver h es w)"
    then show "n = min 6 (length es)" using n(4) unfolding d by simp
  qed (rule tk(2))
qed

lemma delivery_bounded_witness:
  "deliver (\<lambda>e w. (Suc w, if e then Inr () else Inl DB_NoRows)) [False, False, True, True] (0::nat) = (3, True)
   \<and> (\<exists>n\<le>6. deliver (\<lambda>e w. (Suc w, Inl DB_NoRows)) (replicate 9 True) (0::nat) = deliver_loop (\<lambda>e w. (Suc w, Inl DB_NoRows)) (take n (replicate 9 True)) 0)"
  using delivery_bounded[of "\<lambda>e w. (Suc w, Inl DB_NoRows)" "replicate 9 True" "0::nat"]
  by (auto simp: deliver_def max_deliveries_def)

end
