(* ===== verification/Recurrence.thy ===== *)
theory Recurrence
  imports Delivery
begin

text \<open>
  Recurrence rules (\<^verbatim>\<open>internal/plans/recurrence.go\<close>): parsing the RRULE subset and the
  occurrences of a series. Local time is a day number and nanoseconds into the day; the
  time zone database, which is not part of the repository, is a parameter.
\<close>

section \<open>Calendar\<close>

text \<open>
  Day numbers of the proleptic Gregorian calendar, day 0 being 1970-01-01, and back: what
  \<open>time.Date\<close> and \<open>Time.Date\<close> compute. Months are counted from 0 as \<open>12 * y + m\<close>, which is
  how \<open>time.Date\<close> normalises a month outside 1..12.
\<close>

definition day_number :: "int \<Rightarrow> int \<Rightarrow> int" where
  "day_number k d =
    (let y = (k - 2) div 12; era = y div 400; yoe = y mod 400; mp = (k - 2) mod 12;
         doy = (153 * mp + 2) div 5 + d - 1
     in era * 146097 + yoe * 365 + yoe div 4 - yoe div 100 + doy - 719468)"

definition civil :: "int \<Rightarrow> int \<times> int" where
  "civil z =
    (let z' = z + 719468; era = z' div 146097; doe = z' mod 146097;
         yoe = (doe - doe div 1460 + doe div 36524 - doe div 146096) div 365;
         doy = doe - (365 * yoe + yoe div 4 - yoe div 100); mp = (5 * doy + 2) div 153
     in (12 * (yoe + era * 400) + mp + 2, doy - (153 * mp + 2) div 5 + 1))"

lemma calendar_samples:
  "day_number (12 * 1970) 1 = 0" "day_number (12 * 2024 + 1) 29 = 19782" "civil 19782 = (12 * 2024 + 1, 29)"
  "civil 0 = (12 * 1970, 1)" "day_number (12 * 2000 + 14) 1 = 11382"
  by code_simp+

section \<open>Parsing rules\<close>

datatype freq = Daily | Weekly | Monthly

text \<open>\<open>Count = 0\<close> and the zero time mean unbounded; \<open>until\<close> is a day number.\<close>

record rule =
  rl_freq :: freq
  rl_interval :: int
  rl_count :: int
  rl_until :: "int option"

definition max_recurrence_count :: int where "max_recurrence_count = 104"

text \<open>\<open>strings.ToUpper\<close> and \<open>strings.TrimSpace\<close> on ASCII text.\<close>

definition to_upper :: "char \<Rightarrow> char" where
  "to_upper c = (let n = of_char c :: nat in if 97 \<le> n \<and> n \<le> 122 then char_of (n - 32) else c)"

definition is_space :: "char \<Rightarrow> bool" where
  "is_space c \<longleftrightarrow> (of_char c :: nat) \<in> {9, 10, 11, 12, 13, 32}"

definition trim_space :: "string \<Rightarrow> string" where
  "trim_space s = rev (dropWhile is_space (rev (dropWhile is_space s)))"

text \<open>\<open>strings.SplitN(part, "=", 2)\<close>, when it has two parts.\<close>

fun split_first :: "char \<Rightarrow> string \<Rightarrow> (string \<times> string) option" where
  "split_first c [] = None"
| "split_first c (x # xs) =
     (if x = c then Some ([], xs) else map_option (\<lambda>(a, b). (x # a, b)) (split_first c xs))"

text \<open>
  \<open>time.Parse("20060102", v)\<close>: eight digits naming a day of the calendar. The first of
  January of year 1 is Go's zero time, which the rule takes for "no end".
\<close>

definition days_in_month :: "int \<Rightarrow> int" where
  "days_in_month k = day_number (k + 1) 1 - day_number k 1"

definition parse_day :: "string \<Rightarrow> int option" where
  "parse_day v =
    (case (parse_nat (take 4 v), parse_nat (take 2 (drop 4 v)), parse_nat (drop 6 v)) of
       (Some y, Some m, Some d) \<Rightarrow>
         if length v = 8 \<and> 1 \<le> m \<and> m \<le> 12 \<and> 1 \<le> d \<and> int d \<le> days_in_month (12 * int y + int m - 1)
         then Some (day_number (12 * int y + int m - 1) (int d)) else None
     | _ \<Rightarrow> None)"

definition zero_day :: int where "zero_day = day_number 12 1"

record draft_rule =
  dr_freq :: "freq option"
  dr_interval :: int
  dr_count :: int
  dr_until :: int

definition parse_freq :: "string \<Rightarrow> freq option" where
  "parse_freq v = (if v = ''DAILY'' then Some Daily else if v = ''WEEKLY'' then Some Weekly
     else if v = ''MONTHLY'' then Some Monthly else None)"

definition in_range :: "int \<Rightarrow> int \<Rightarrow> int option \<Rightarrow> int option" where
  "in_range lo hi n = (case n of None \<Rightarrow> None | Some i \<Rightarrow> if i < lo \<or> hi < i then None else Some i)"

definition parse_part :: "string \<Rightarrow> draft_rule \<Rightarrow> draft_rule option" where
  "parse_part part r =
    (case split_first CHR ''='' part of
       None \<Rightarrow> None
     | Some (k, v) \<Rightarrow>
         let key = map to_upper k; val = map to_upper v in
         if key = ''FREQ'' then map_option (\<lambda>f. r\<lparr>dr_freq := Some f\<rparr>) (parse_freq val)
         else if key = ''INTERVAL'' then map_option (\<lambda>n. r\<lparr>dr_interval := n\<rparr>) (in_range 1 12 (parse_int val))
         else if key = ''COUNT'' then map_option (\<lambda>n. r\<lparr>dr_count := n\<rparr>) (in_range 1 max_recurrence_count (parse_int val))
         else if key = ''UNTIL'' then map_option (\<lambda>d. r\<lparr>dr_until := d\<rparr>) (parse_day val)
         else None)"

fun parse_parts :: "string list \<Rightarrow> draft_rule \<Rightarrow> draft_rule option" where
  "parse_parts [] r = Some r"
| "parse_parts (p # ps) r = (case parse_part p r of None \<Rightarrow> None | Some r1 \<Rightarrow> parse_parts ps r1)"

definition parse_rule :: "string \<Rightarrow> go_error + rule" where
  "parse_rule s =
    (case parse_parts (split_on CHR '';'' (trim_space s))
            \<lparr>dr_freq = None, dr_interval = 1, dr_count = 0, dr_until = zero_day\<rparr> of
       None \<Rightarrow> Inl Plans_BadRecurrence
     | Some r \<Rightarrow>
         (case dr_freq r of
            None \<Rightarrow> Inl Plans_BadRecurrence
          | Some f \<Rightarrow>
              if 0 < dr_count r \<and> dr_until r \<noteq> zero_day then Inl Plans_BadRecurrence
              else Inr \<lparr>rl_freq = f, rl_interval = dr_interval r, rl_count = dr_count r,
                        rl_until = (if dr_until r = zero_day then None else Some (dr_until r))\<rparr>))"

definition rule_ok :: "rule \<Rightarrow> bool" where
  "rule_ok r \<longleftrightarrow> 1 \<le> rl_interval r \<and> rl_interval r \<le> 12 \<and> 0 \<le> rl_count r \<and> rl_count r \<le> max_recurrence_count
     \<and> (0 < rl_count r \<longrightarrow> rl_until r = None)"

definition draft_ok :: "draft_rule \<Rightarrow> bool" where
  "draft_ok r \<longleftrightarrow> 1 \<le> dr_interval r \<and> dr_interval r \<le> 12 \<and> 0 \<le> dr_count r \<and> dr_count r \<le> max_recurrence_count"

lemma in_range_Some: "in_range lo hi n = Some i \<Longrightarrow> lo \<le> i \<and> i \<le> hi"
  by (auto simp: in_range_def split: option.splits if_splits)

lemma parse_part_ok: "parse_part p r = Some r' \<Longrightarrow> draft_ok r \<Longrightarrow> draft_ok r'"
  by (auto simp: parse_part_def draft_ok_def Let_def dest!: in_range_Some split: option.splits prod.splits if_splits)

lemma parse_parts_ok: "parse_parts ps r = Some r' \<Longrightarrow> draft_ok r \<Longrightarrow> draft_ok r'"
  by (induction ps arbitrary: r) (auto dest: parse_part_ok split: option.splits)

lemma parse_rule_ok: "parse_rule s = Inr r \<Longrightarrow> rule_ok r"
proof -
  assume "parse_rule s = Inr r"
  then obtain d f where d: "parse_parts (split_on CHR '';'' (trim_space s))
      \<lparr>dr_freq = None, dr_interval = 1, dr_count = 0, dr_until = zero_day\<rparr> = Some d"
    "r = \<lparr>rl_freq = f, rl_interval = dr_interval d, rl_count = dr_count d,
          rl_until = (if dr_until d = zero_day then None else Some (dr_until d))\<rparr>"
    "\<not> (0 < dr_count d \<and> dr_until d \<noteq> zero_day)"
    by (auto simp: parse_rule_def split: option.splits if_splits)
  from parse_parts_ok[OF d(1)] have "draft_ok d" by (simp add: draft_ok_def max_recurrence_count_def)
  with d(2,3) show ?thesis by (auto simp: rule_ok_def draft_ok_def)
qed

section \<open>Occurrences\<close>

text \<open>
  A time zone: the local day and time of day of an instant, and the instant of a local day
  and time (\<open>t.In(loc)\<close>, \<open>time.Date(.., loc)\<close>).
\<close>

record zone =
  zn_local :: "int \<Rightarrow> int \<times> int"
  zn_instant :: "int \<Rightarrow> int \<Rightarrow> int"

definition utc :: zone where
  "utc = \<lparr>zn_local = (\<lambda>t. (t div day, t mod day)), zn_instant = (\<lambda>d n. d * day + n)\<rparr>"

text \<open>Step \<open>i\<close> of the loop: the candidate, \<open>None\<close> when the month has no such day.\<close>

definition candidate :: "rule \<Rightarrow> zone \<Rightarrow> int \<Rightarrow> nat \<Rightarrow> int option" where
  "candidate r z start i =
    (let (dn, tod) = zn_local z start; n = int i * rl_interval r in
     case rl_freq r of
       Daily \<Rightarrow> Some (zn_instant z (dn + n) tod)
     | Weekly \<Rightarrow> Some (zn_instant z (dn + 7 * n) tod)
     | Monthly \<Rightarrow>
         let (k, d) = civil dn; t = zn_instant z (day_number (k + n) d) tod
         in if snd (civil (fst (zn_local z t))) \<noteq> d then None else Some t)"

definition within_rule :: "rule \<Rightarrow> zone \<Rightarrow> int \<Rightarrow> int \<Rightarrow> bool" where
  "within_rule r z horizon t \<longleftrightarrow> t \<le> horizon
     \<and> (case rl_until r of None \<Rightarrow> True | Some u \<Rightarrow> fst (zn_local z t) \<le> u)"

fun occ_loop :: "rule \<Rightarrow> zone \<Rightarrow> int \<Rightarrow> int \<Rightarrow> nat list \<Rightarrow> int list \<Rightarrow> int list" where
  "occ_loop r z start horizon [] out = out"
| "occ_loop r z start horizon (i # is) out =
     (case candidate r z start i of
        None \<Rightarrow> occ_loop r z start horizon is out
      | Some t \<Rightarrow>
          if \<not> within_rule r z horizon t then out
          else let out' = out @ [t]
               in if 0 < rl_count r \<and> rl_count r \<le> int (length out') then out'
                  else occ_loop r z start horizon is out')"

definition occurrences :: "rule \<Rightarrow> zone \<Rightarrow> int \<Rightarrow> int \<Rightarrow> int list" where
  "occurrences r z start horizon = occ_loop r z start horizon [0..<2000] []"

section \<open>Facts about occurrences\<close>

text \<open>The loop is a filter, a prefix and a limit.\<close>

definition limit_count :: "int \<Rightarrow> 'a list \<Rightarrow> 'a list" where
  "limit_count c xs = (if 0 < c then take (nat c) xs else xs)"

lemma occ_loop_eq:
  assumes "0 < rl_count r \<longrightarrow> int (length out) < rl_count r"
  shows "occ_loop r z start horizon is out = out @ limit_count (if 0 < rl_count r then rl_count r - int (length out) else 0)
    (takeWhile (within_rule r z horizon) (List.map_filter (candidate r z start) is))"
  using assms
proof (induction "is" arbitrary: out)
  case Nil
  then show ?case by (simp add: List.map_filter_def limit_count_def)
next
  case (Cons i js)
  show ?case
  proof (cases "candidate r z start i")
    case None
    with Cons show ?thesis by (simp add: map_filter_Cons)
  next
    case (Some t)
    show ?thesis
    proof (cases "within_rule r z horizon t")
      case False
      with Some show ?thesis by (simp add: map_filter_Cons limit_count_def)
    next
      case True
      let ?rest = "takeWhile (within_rule r z horizon) (List.map_filter (candidate r z start) js)"
      show ?thesis
      proof (cases "0 < rl_count r \<and> rl_count r \<le> int (length out) + 1")
        case full: True
        then have "nat (rl_count r - int (length out)) = 1" "int (length out) < rl_count r" using Cons.prems by simp_all
        with full Some True show ?thesis by (simp add: map_filter_Cons limit_count_def)
      next
        case False
        then have "occ_loop r z start horizon js (out @ [t]) = (out @ [t]) @
            limit_count (if 0 < rl_count r then rl_count r - int (length (out @ [t])) else 0) ?rest"
          by (intro Cons.IH) auto
        moreover have "nat (rl_count r - int (length out)) = Suc (nat (rl_count r - int (length out) - 1))"
          if "0 < rl_count r" using that Cons.prems by simp
        ultimately show ?thesis using Some True False
          by (auto simp: map_filter_Cons limit_count_def diff_diff_eq add.commute)
      qed
    qed
  qed
qed

lemma occurrences_eq:
  "occurrences r z start horizon = limit_count (rl_count r)
     (takeWhile (within_rule r z horizon) (List.map_filter (candidate r z start) [0..<2000]))"
  by (simp add: occurrences_def occ_loop_eq limit_count_def)

text \<open>Months are at least 28 days long.\<close>

lemma day_number_year:
  "day_number k d = (let y = (k - 2) div 12 in 365 * y + y div 4 - y div 100 + y div 400
      + (153 * ((k - 2) mod 12) + 2) div 5 + d - 1 - 719468)"
proof -
  let ?y = "(k - 2) div 12"
  have y: "?y = 400 * (?y div 400) + ?y mod 400" by simp
  have "(100 * q * 4 + r) div 4 = 100 * q + r div 4" "(4 * q * 100 + r) div 100 = 4 * q + r div 100" for q r :: int
    by (rule div_mult_self3, simp)+
  from this[of "?y div 400" "?y mod 400"] y
  have "?y div 4 = 100 * (?y div 400) + ?y mod 400 div 4" "?y div 100 = 4 * (?y div 400) + ?y mod 400 div 100"
    by simp_all
  with y show ?thesis unfolding day_number_def Let_def by linarith
qed

lemma day_number_step: "day_number k d + 28 \<le> day_number (k + 1) d"
proof -
  let ?y = "(k - 2) div 12" and ?m = "(k - 2) mod 12"
  have m: "0 \<le> ?m" "?m \<le> 11" by simp_all
  have k: "k + 1 - 2 = 12 * ?y + (?m + 1)" by simp
  have "(12 * y + (m + 1)) div 12 = (if m = 11 then y + 1 else y) \<and> (12 * y + (m + 1)) mod 12 = (if m = 11 then 0 else m + 1)"
    if "0 \<le> m" "m \<le> 11" for y m :: int
    using that by auto
  from this[OF m, of ?y, folded k] m
  consider "(k + 1 - 2) div 12 = ?y" "(k + 1 - 2) mod 12 = ?m + 1" "?m \<le> 10"
    | "(k + 1 - 2) div 12 = ?y + 1" "(k + 1 - 2) mod 12 = 0" "?m = 11"
    by (cases "?m = 11") auto
  then show ?thesis
  proof cases
    case 1
    have "(153 * m + 2) div 5 + 28 \<le> (153 * (m + 1) + 2) div 5" for m :: int
    proof -
      have "(153 * (m + 1) + 2) div 5 = (30 * 5 + (153 * m + 5)) div 5" by simp
      also have "\<dots> = 30 + (153 * m + 5) div 5" by (rule div_mult_self3, simp)
      also have "(153 * m + 5) div 5 \<ge> (153 * m + 2) div 5" by (rule zdiv_mono1) auto
      finally show ?thesis by simp
    qed
    from this[of ?m] 1(1,2) show ?thesis unfolding day_number_year Let_def 1(1,2) by linarith
  next
    case 2
    have "y div 4 - y div 100 \<le> (y + 1) div 4 - (y + 1) div 100" for y :: int
    proof -
      have y: "y = 100 * (y div 100) + y mod 100" by simp
      have e: "25 * (y div 100) * 4 + y mod 100 = y" "25 * (y div 100) * 4 + (y mod 100 + 1) = y + 1"
        using y by linarith+
      have "(25 * (y div 100) * 4 + y mod 100) div 4 = 25 * (y div 100) + y mod 100 div 4"
        "(25 * (y div 100) * 4 + (y mod 100 + 1)) div 4 = 25 * (y div 100) + (y mod 100 + 1) div 4"
        by (rule div_mult_self3, simp)+
      then have a: "y div 4 = 25 * (y div 100) + y mod 100 div 4" "(y + 1) div 4 = 25 * (y div 100) + (y mod 100 + 1) div 4"
        by (simp_all only: e)
      have b: "(y + 1) div 100 = y div 100 + (if y mod 100 = 99 then 1 else 0)"
      proof -
        have "0 \<le> y mod 100" "y mod 100 < 100" by simp_all
        then have "(y mod 100 + 1) div 100 = (if y mod 100 = 99 then 1 else 0)" by auto
        moreover have "(y div 100 * 100 + (y mod 100 + 1)) div 100 = y div 100 + (y mod 100 + 1) div 100"
          by (rule div_mult_self3, simp)
        moreover have "y div 100 * 100 + (y mod 100 + 1) = y + 1" using y by linarith
        ultimately show ?thesis by (simp only:)
      qed
      show ?thesis
      proof (cases "y mod 100 = 99")
        case False
        have "y mod 100 div 4 \<le> (y mod 100 + 1) div 4" by (rule zdiv_mono1) auto
        moreover have "(y + 1) div 100 = y div 100" using b False by (simp only: if_False add_0_right)
        ultimately show ?thesis using a by linarith
      next
        case True
        with a b show ?thesis by simp
      qed
    qed
    from this[of ?y] have a: "?y div 4 - ?y div 100 \<le> (?y + 1) div 4 - (?y + 1) div 100" .
    have b: "?y div 400 \<le> (?y + 1) div 400" by (rule zdiv_mono1) auto
    have c: "(153 * 0 + 2) div 5 = (0::int)" "(153 * 11 + 2) div 5 = (337::int)" by simp_all
    have sum: "365 * y + a4 - a100 + a400 + 337 + d - 1 - 719468 + 28 \<le> 365 * (y + 1) + b4 - b100 + b400 + 0 + d - 1 - 719468"
      if "a4 - a100 \<le> b4 - b100" "a400 \<le> b400" for y a4 a100 a400 b4 b100 b400 :: int
      using that by simp
    show ?thesis unfolding day_number_year Let_def 2 c by (rule sum[OF a b])
  qed
qed

lemma day_number_mono: "0 < n \<Longrightarrow> day_number k d < day_number (k + int n) d"
proof (induction n)
  case (Suc n)
  have "day_number (k + int n) d + 28 \<le> day_number (k + int n + 1) d" by (rule day_number_step)
  with Suc show ?case by (cases n) (auto simp: algebra_simps)
qed simp

text \<open>
  What is asked of a time zone: the same time of day on a later day is a later instant
  (offsets change by less than a day), and an instant is the instant of its local time.
\<close>

definition zone_ok :: "zone \<Rightarrow> bool" where
  "zone_ok z \<longleftrightarrow> (\<forall>d d' n. d < d' \<longrightarrow> zn_instant z d n < zn_instant z d' n)
     \<and> (\<forall>t. zn_instant z (fst (zn_local z t)) (snd (zn_local z t)) = t)"

lemma utc_ok: "zone_ok utc"
  by (simp add: zone_ok_def utc_def time_defs)

lemma candidate_mono:
  assumes z: "zone_ok z" and r: "1 \<le> rl_interval r" and "i < j"
    and "candidate r z start i = Some t" "candidate r z start j = Some u"
  shows "t < u"
proof -
  obtain dn tod where l: "zn_local z start = (dn, tod)" by fastforce
  have n: "int i * rl_interval r < int j * rl_interval r" using r assms(3) by simp
  have less: "d < d' \<Longrightarrow> zn_instant z d tod < zn_instant z d' tod" for d d' using z by (simp add: zone_ok_def)
  show ?thesis
  proof (cases "rl_freq r")
    case Monthly
    obtain k d where kd: "civil dn = (k, d)" by fastforce
    define m where "m = nat (int j * rl_interval r - int i * rl_interval r)"
    have "k + int j * rl_interval r = k + int i * rl_interval r + int m" "0 < m" using n by (simp_all add: m_def)
    then have "day_number (k + int i * rl_interval r) d < day_number (k + int j * rl_interval r) d"
      using day_number_mono by metis
    then have "zn_instant z (day_number (k + int i * rl_interval r) d) tod
        < zn_instant z (day_number (k + int j * rl_interval r) d) tod" by (rule less)
    with assms(4,5) show ?thesis unfolding candidate_def l kd Monthly Let_def prod.case freq.case
      by (simp split: if_split_asm)
  qed (use assms(4,5) n in \<open>auto simp: candidate_def l Let_def intro!: less\<close>)
qed

lemma map_filter_sorted:
  assumes "\<And>i j t u. i < j \<Longrightarrow> f i = Some t \<Longrightarrow> f j = Some u \<Longrightarrow> t < (u::int)" "sorted_wrt (<) is"
  shows "sorted_wrt (<) (List.map_filter f is)"
  using assms(2)
proof (induction "is")
  case (Cons i js)
  have "t < u" if "f i = Some t" "u \<in> set (List.map_filter f js)" for t u
    using that Cons.prems assms(1) by (fastforce simp: List.map_filter_def)
  with Cons show ?case by (auto simp: map_filter_Cons split: option.split)
qed (simp add: List.map_filter_def)

lemma occurrences_hd:
  assumes "rl_freq r \<noteq> Monthly" "within_rule r z horizon start" "zone_ok z"
  shows "hd (occurrences r z start horizon) = start"
proof -
  have c: "candidate r z start 0 = Some start"
    using assms(1,3) by (cases "rl_freq r") (simp_all add: candidate_def zone_ok_def Let_def split_def)
  have "[0..<2000] = 0 # [Suc 0..<2000::nat]" by (rule upt_conv_Cons) simp
  with c have "List.map_filter (candidate r z start) [0..<2000]
      = start # List.map_filter (candidate r z start) [Suc 0..<2000]" by (simp only: map_filter_Cons option.case)
  with assms(2) show ?thesis
    unfolding occurrences_eq limit_count_def by (simp only: takeWhile.simps if_True) (simp add: take_Cons')
qed



end
