(* ===== verification/Plans.thy ===== *)
theory Plans
  imports Recurrence
begin

text \<open>
  Plans and recurring series (\<^verbatim>\<open>internal/plans\<close>): the repository, the series job and the
  service with its authorization rules. The media resolver, the community role checker and
  the booking service are the ports the Go package declares; a missing one is \<open>None\<close>. The
  location, the upload id and the thumbnail of a cover are not columns of the model, and
  \<open>Decorate\<close> (display fields) is not modelled. Foreign keys are not modelled.
\<close>

section \<open>Rows in and out\<close>

text \<open>What \<open>CreatePlan\<close> is given: text as sent by the client, the zero time as \<open>None\<close>.\<close>

record plan_input =
  pn_title :: string
  pn_desc :: string
  pn_category :: string
  pn_host :: string
  pn_city :: string
  pn_venue :: string
  pn_starts :: "int option"
  pn_ends :: "int option"
  pn_capacity :: int
  pn_price :: int
  pn_currency :: string
  pn_join_mode :: string
  pn_visibility :: string
  pn_community :: string
  pn_entitlement :: string
  pn_cover_media :: string

definition join_mode_of :: "string \<Rightarrow> join_mode option" where
  "join_mode_of t = (if t = ''open'' then Some JoinOpen else if t = ''approval'' then Some JoinApproval
     else if t = ''invite_only'' then Some JoinInviteOnly else None)"

definition visibility_of :: "string \<Rightarrow> visibility option" where
  "visibility_of t = (if t = ''public'' then Some VisPublic else if t = ''private'' then Some VisPrivate
     else if t = ''community'' then Some VisCommunity else None)"

section \<open>Repository\<close>

text \<open>The two \<^verbatim>\<open>CHECK\<close>s of migration 0033 and the one on the capacity.\<close>

definition plan_checks :: "plan_row \<Rightarrow> bool" where
  "plan_checks p \<longleftrightarrow> (pl_visibility p = VisCommunity \<longrightarrow> pl_community p \<noteq> None)
     \<and> (pl_join_mode p = JoinInviteOnly \<longrightarrow> pl_visibility p \<noteq> VisPublic)
     \<and> 0 \<le> pl_capacity p \<and> pl_confirmed p \<le> pl_capacity p"

definition add_event :: "string \<times> string \<Rightarrow> db \<Rightarrow> db" where
  "add_event e s = (if e \<in> set (t_events s) then s else s\<lparr>t_events := t_events s @ [e]\<rparr>)"

definition repo_create_plan :: "db \<Rightarrow> plan_row \<Rightarrow> string \<Rightarrow> (db, plan_row) outcome" where
  "repo_create_plan s p rule_text =
    in_tx s
      (if \<not> plan_checks p then (s, Inl DB_CheckViolation)
       else
         let p1 = (if rule_text = '''' then p else p\<lparr>pl_series := Some (pl_id p)\<rparr>);
             s1 = s\<lparr>t_plans := t_plans s @ [p1]\<rparr>;
             s2 = (case pl_community p of None \<Rightarrow> s1 | Some c \<Rightarrow> add_event (c, pl_id p) s1);
             s3 = (if rule_text = '''' then s2
                   else s2\<lparr>t_recurrences := t_recurrences s2 @
                          [\<lparr>rc_plan = pl_id p, rc_rule = rule_text, rc_active = True, rc_ended = None\<rparr>]\<rparr>)
         in (s3, Inr p1))"

definition entitlement_product_exists :: "db \<Rightarrow> string \<Rightarrow> bool" where
  "entitlement_product_exists s name \<longleftrightarrow> (\<exists>p\<in>set (t_products s). pr_name p = name)"

definition repo_get_plan :: "db \<Rightarrow> string \<Rightarrow> go_error + plan_row" where
  "repo_get_plan s i = (case plan_by_id s i of None \<Rightarrow> Inl Plans_PlanNotFound | Some p \<Rightarrow> Inr p)"

definition can_view :: "db \<Rightarrow> plan_row \<Rightarrow> string \<Rightarrow> bool" where
  "can_view s p user \<longleftrightarrow> (pl_id p, user) \<in> set (t_invites s)
     \<or> (\<exists>r\<in>set (t_join_requests s). jr_plan r = pl_id p \<and> jr_user r = user \<and> jr_status r \<in> {ReqPending, ReqApproved})
     \<or> (\<exists>r\<in>set (t_participants s). pp_plan r = pl_id p \<and> pp_user r = user \<and> pp_status r = PartConfirmed)
     \<or> (pl_visibility p = VisCommunity \<and> (\<exists>c. pl_community p = Some c \<and> (c, user) \<in> set (t_members s)))"

definition repo_cancel_plan :: "db \<Rightarrow> int \<Rightarrow> string \<Rightarrow> string \<Rightarrow> (db, plan_row) outcome" where
  "repo_cancel_plan s now i reason =
    in_tx s
      (case plan_by_id s i of
         None \<Rightarrow> (s, Inl Plans_PlanNotFound)
       | Some p \<Rightarrow>
           let s1 = s\<lparr>t_plans := upd (\<lambda>q. pl_id q = i) (\<lambda>q. q\<lparr>pl_status := PlanCancelled\<rparr>) (t_plans s)\<rparr>
           in (enqueue s1 now ''PLAN_CANCELLED'' i (PlanCancelPayload i reason), Inr (p\<lparr>pl_status := PlanCancelled\<rparr>)))"

text \<open>\<^verbatim>\<open>plans_discoverable\<close>: published, public, and of a series only the next occurrence.\<close>

definition next_occurrence :: "db \<Rightarrow> int \<Rightarrow> string \<Rightarrow> plan_row option" where
  "next_occurrence s now sid =
     (case sort_key pl_starts (filter (\<lambda>q. pl_series q = Some sid \<and> pl_status q = Published \<and> now < pl_starts q) (t_plans s)) of
        [] \<Rightarrow> None | q # _ \<Rightarrow> Some q)"

definition discoverable :: "db \<Rightarrow> int \<Rightarrow> plan_row \<Rightarrow> bool" where
  "discoverable s now p \<longleftrightarrow> pl_status p = Published \<and> pl_visibility p = VisPublic
     \<and> (case pl_series p of None \<Rightarrow> True
        | Some sid \<Rightarrow> map_option pl_id (next_occurrence s now sid) = Some (pl_id p))"

record upcoming_filter =
  uf_from :: "int option"
  uf_to :: "int option"
  uf_category :: string
  uf_city :: string
  uf_free :: bool
  uf_limit :: int

definition caller_city :: "db \<Rightarrow> string \<Rightarrow> string option" where
  "caller_city s caller = (case find (\<lambda>u. us_id u = caller) (t_users s) of None \<Rightarrow> None | Some u \<Rightarrow> us_city u)"

definition upcoming_where :: "db \<Rightarrow> int \<Rightarrow> string \<Rightarrow> upcoming_filter \<Rightarrow> int \<Rightarrow> int \<Rightarrow> plan_row \<Rightarrow> bool" where
  "upcoming_where s now caller f from to p \<longleftrightarrow> discoverable s now p \<and> from \<le> pl_starts p \<and> pl_starts p < to
     \<and> (case (case nullif (uf_city f) of None \<Rightarrow> caller_city s caller | Some c \<Rightarrow> Some c) of
          None \<Rightarrow> True | Some c \<Rightarrow> pl_city p = Some c)
     \<and> (uf_category f = '''' \<or> pl_category p = Some (uf_category f))
     \<and> (uf_free f \<longrightarrow> pl_price p = 0)"

definition upcoming :: "db \<Rightarrow> int \<Rightarrow> string \<Rightarrow> upcoming_filter \<Rightarrow> int \<Rightarrow> int \<Rightarrow> plan_row list" where
  "upcoming s now caller f from to =
     take (nat (uf_limit f)) (sort_key pl_starts (filter (upcoming_where s now caller f from to) (t_plans s)))"

text \<open>Saved plans, keyed by (user, plan), in the order they were saved.\<close>

definition save :: "db \<Rightarrow> string \<Rightarrow> string \<Rightarrow> db" where
  "save s user plan = (if (user, plan) \<in> set (t_saves s) then s else s\<lparr>t_saves := t_saves s @ [(user, plan)]\<rparr>)"

definition unsave :: "db \<Rightarrow> string \<Rightarrow> string \<Rightarrow> db" where
  "unsave s user plan = s\<lparr>t_saves := filter (\<lambda>e. e \<noteq> (user, plan)) (t_saves s)\<rparr>"

text \<open>
  The sort and the limit are in the subquery: they choose the plans, the order of the
  result is that of the table.
\<close>

definition list_saved :: "db \<Rightarrow> string \<Rightarrow> nat \<Rightarrow> plan_row list" where
  "list_saved s user limit =
    (let visible = (\<lambda>i. \<exists>p\<in>set (t_plans s). pl_id p = i \<and> pl_status p \<noteq> Draft \<and> (pl_visibility p = VisPublic \<or> pl_host p = user));
         ids = take limit (filter visible (rev (map snd (filter (\<lambda>e. fst e = user) (t_saves s)))))
     in filter (\<lambda>p. pl_id p \<in> set ids) (t_plans s))"

section \<open>Join requests and invites\<close>

abbreviation request_by_id :: "db \<Rightarrow> string \<Rightarrow> join_request_row option" where
  "request_by_id s k \<equiv> find (\<lambda>r. jr_id r = k) (t_join_requests s)"

definition create_join_request ::
  "db \<Rightarrow> string \<Rightarrow> int \<Rightarrow> string \<Rightarrow> string \<Rightarrow> string \<Rightarrow> db \<times> join_request_row" where
  "create_join_request s new_id now plan user message =
    (case find (\<lambda>r. jr_plan r = plan \<and> jr_user r = user) (t_join_requests s) of
       Some r \<Rightarrow> (s, r)
     | None \<Rightarrow>
         let r = \<lparr>jr_id = new_id, jr_plan = plan, jr_user = user, jr_status = ReqPending, jr_message = message,
                  jr_decided_by = None, jr_created = now\<rparr>
         in (s\<lparr>t_join_requests := t_join_requests s @ [r]\<rparr>, r))"

definition get_join_request :: "db \<Rightarrow> string \<Rightarrow> go_error + join_request_row" where
  "get_join_request s i = (case request_by_id s i of None \<Rightarrow> Inl Plans_RequestNotFound | Some r \<Rightarrow> Inr r)"

definition decide :: "string \<Rightarrow> bool \<Rightarrow> join_request_row \<Rightarrow> join_request_row" where
  "decide by approve r = r\<lparr>jr_status := (if approve then ReqApproved else ReqRejected), jr_decided_by := Some by\<rparr>"

definition decide_join_request :: "db \<Rightarrow> string \<Rightarrow> string \<Rightarrow> bool \<Rightarrow> db \<times> join_request_row option" where
  "decide_join_request s i by approve =
    (case find (\<lambda>r. jr_id r = i \<and> jr_status r = ReqPending) (t_join_requests s) of
       None \<Rightarrow> (s, None)
     | Some r \<Rightarrow>
         (s\<lparr>t_join_requests := upd (\<lambda>r. jr_id r = i \<and> jr_status r = ReqPending) (decide by approve) (t_join_requests s)\<rparr>,
          Some (decide by approve r)))"

definition list_join_requests :: "db \<Rightarrow> string \<Rightarrow> request_status option \<Rightarrow> nat \<Rightarrow> join_request_row list" where
  "list_join_requests s plan st limit =
     take limit (sort_key (\<lambda>r. - jr_created r)
       (filter (\<lambda>r. jr_plan r = plan \<and> (st = None \<or> st = Some (jr_status r))) (t_join_requests s)))"

definition notify_loop :: "int \<Rightarrow> string \<Rightarrow> string list \<Rightarrow> db \<Rightarrow> db" where
  "notify_loop now plan ids s =
     fold (\<lambda>i s. enqueue_notify_user s now i ''You're invited'' ''A host invited you to a plan.''
       (''hivemind://plans/'' @ plan) ''push'') ids s"

definition invite_users :: "db \<Rightarrow> int \<Rightarrow> string \<Rightarrow> string list \<Rightarrow> db \<times> string list" where
  "invite_users s now plan ids =
    (let invited = filter (\<lambda>i. i \<in> set ids \<and> (plan, i) \<notin> set (t_invites s)) (map us_id (t_users s))
     in (notify_loop now plan invited (s\<lparr>t_invites := t_invites s @ map (Pair plan) invited\<rparr>), invited))"

definition revoke_invite :: "db \<Rightarrow> string \<Rightarrow> string \<Rightarrow> db" where
  "revoke_invite s plan user = s\<lparr>t_invites := filter (\<lambda>e. e \<noteq> (plan, user)) (t_invites s)\<rparr>"

section \<open>Series\<close>

definition series_horizon :: int where [time_defs]: "series_horizon = 60 * 24 * hour"

text \<open>
  One occurrence: a copy of the template at another time, unless the series already has a
  row that starts then. \<open>gen\<close> is \<open>gen_random_uuid()\<close>.
\<close>

definition occurrence_of :: "plan_row \<Rightarrow> string \<Rightarrow> int \<Rightarrow> int \<Rightarrow> plan_row" where
  "occurrence_of p new_id start end = p\<lparr>pl_id := new_id, pl_starts := start, pl_ends := end, pl_confirmed := 0,
     pl_status := Published\<rparr>"

definition in_series :: "db \<Rightarrow> plan_row \<Rightarrow> int \<Rightarrow> bool" where
  "in_series s p start \<longleftrightarrow> pl_series p \<noteq> None \<and> (\<exists>q\<in>set (t_plans s). pl_series q = pl_series p \<and> pl_starts q = start)"

definition insert_occurrence :: "(db \<Rightarrow> string) \<Rightarrow> string \<Rightarrow> int \<Rightarrow> int \<Rightarrow> db \<Rightarrow> db \<times> int" where
  "insert_occurrence gen template start end s =
    (case plan_by_id s template of
       None \<Rightarrow> (s, 0)
     | Some p \<Rightarrow>
         if in_series s p start then (s, 0)
         else (s\<lparr>t_plans := t_plans s @ [occurrence_of p (gen s) start end]\<rparr>, 1))"

fun extend_loop :: "(db \<Rightarrow> string) \<Rightarrow> string \<Rightarrow> int option \<Rightarrow> int \<Rightarrow> int list \<Rightarrow> db \<Rightarrow> int \<Rightarrow> db \<times> int" where
  "extend_loop gen template ended_at duration [] s created = (s, created)"
| "extend_loop gen template ended_at duration (start # starts) s created =
     (if (case ended_at of None \<Rightarrow> False | Some t \<Rightarrow> t \<le> start)
      then extend_loop gen template ended_at duration starts s created
      else case insert_occurrence gen template start (start + duration) s of
          (s1, n) \<Rightarrow> extend_loop gen template ended_at duration starts s1 (created + n))"

definition list_under_community :: "string \<Rightarrow> db \<Rightarrow> db" where
  "list_under_community template s =
     fold add_event
       (List.map_filter (\<lambda>p. case pl_community p of None \<Rightarrow> None | Some c \<Rightarrow>
            if pl_series p = Some template then Some (c, pl_id p) else None) (t_plans s)) s"

text \<open>\<open>time.LoadLocation\<close> is \<open>zones\<close>; an unknown name falls back to UTC.\<close>

definition plan_zone :: "(string \<Rightarrow> zone option) \<Rightarrow> db \<Rightarrow> plan_row \<Rightarrow> zone" where
  "plan_zone zones s p =
    (let tz = (case pl_city p of None \<Rightarrow> ''UTC'' | Some c \<Rightarrow>
                 (case find (\<lambda>x. fst x = c) (t_cities s) of None \<Rightarrow> ''UTC'' | Some (_, tz) \<Rightarrow> tz))
     in case zones tz of None \<Rightarrow> utc | Some z \<Rightarrow> z)"

definition extend_series ::
  "(db \<Rightarrow> string) \<Rightarrow> (string \<Rightarrow> zone option) \<Rightarrow> db \<Rightarrow> int \<Rightarrow> string \<Rightarrow> (db, int) outcome" where
  "extend_series gen zones s now template =
    (case find (\<lambda>r. rc_plan r = template) (t_recurrences s) of
       None \<Rightarrow> (s, Inr 0)
     | Some rc \<Rightarrow>
         if \<not> rc_active rc then (s, Inr 0)
         else case parse_rule (rc_rule rc) of
             Inl e \<Rightarrow> (s, Inl e)
           | Inr r \<Rightarrow>
               (case plan_by_id s template of
                  None \<Rightarrow> (s, Inl DB_NoRows)
                | Some p \<Rightarrow>
                    (case extend_loop gen template (rc_ended rc) (pl_ends p - pl_starts p)
                            (occurrences r (plan_zone zones s p) (pl_starts p) (now + series_horizon)) s 0 of
                       (s1, n) \<Rightarrow> (list_under_community template s1, Inr n))))"

fun extend_all_loop ::
  "(db \<Rightarrow> string) \<Rightarrow> (string \<Rightarrow> zone option) \<Rightarrow> int \<Rightarrow> string list \<Rightarrow> db \<Rightarrow> int \<Rightarrow> (db, int) outcome" where
  "extend_all_loop gen zones now [] s n = (s, Inr n)"
| "extend_all_loop gen zones now (i # is) s n =
     and_then (extend_series gen zones s now i) (\<lambda>k s1. extend_all_loop gen zones now is s1 (n + k))"

definition extend_all_series ::
  "(db \<Rightarrow> string) \<Rightarrow> (string \<Rightarrow> zone option) \<Rightarrow> db \<Rightarrow> int \<Rightarrow> (db, int) outcome" where
  "extend_all_series gen zones s now =
     extend_all_loop gen zones now (map rc_plan (filter (\<lambda>r. rc_active r \<and> rc_ended r = None) (t_recurrences s))) s 0"

definition future_occurrence_ids :: "db \<Rightarrow> plan_row \<Rightarrow> string list" where
  "future_occurrence_ids s p =
     map pl_id (sort_key pl_starts
       (filter (\<lambda>q. pl_series p \<noteq> None \<and> pl_series q = pl_series p \<and> pl_starts p \<le> pl_starts q \<and> pl_status q = Published)
         (t_plans s)))"

definition end_series_from :: "db \<Rightarrow> string \<Rightarrow> int \<Rightarrow> db" where
  "end_series_from s sid t =
     s\<lparr>t_recurrences := upd (\<lambda>r. rc_plan r = sid)
        (\<lambda>r. r\<lparr>rc_ended := Some (case rc_ended r of None \<Rightarrow> t | Some u \<Rightarrow> min u t)\<rparr>) (t_recurrences s)\<rparr>"

section \<open>Service\<close>

type_synonym role_checker = "string \<Rightarrow> string \<Rightarrow> go_error + bool"

definition default_plan_duration :: int where [time_defs]: "default_plan_duration = 2 * hour"
definition start_grace :: int where [time_defs]: "start_grace = 5 * minute"

text \<open>The cover: claimed by the host, an image.\<close>

definition claim_cover :: "media_resolver option \<Rightarrow> plan_input \<Rightarrow> go_error + string" where
  "claim_cover media p =
    (if pn_cover_media p = '''' then Inr ''''
     else case media of
         None \<Rightarrow> Inl Plans_MediaUnavailable
       | Some claim \<Rightarrow>
           (case claim (pn_host p) [pn_cover_media p] of
              Inl e \<Rightarrow> Inl (if e = Media MediaNotFound then Plans_InvalidInput else e)
            | Inr assets \<Rightarrow> if ma_kind (hd assets) \<noteq> ''image'' then Inl Plans_InvalidInput else Inr (ma_url (hd assets))))"

definition default_text :: "string \<Rightarrow> string \<Rightarrow> string" where
  "default_text d t = (if t = '''' then d else t)"

text \<open>The checks up to the community's, and the row they leave to insert.\<close>

definition validate_plan :: "plan_input \<Rightarrow> int \<Rightarrow> string \<Rightarrow> string \<Rightarrow> string \<Rightarrow> go_error + plan_row" where
  "validate_plan p now new_id cover rule_text =
    (case (join_mode_of (default_text ''open'' (pn_join_mode p)), visibility_of (default_text ''public'' (pn_visibility p))) of
       (Some jm, Some vis) \<Rightarrow>
         let starts = (case pn_starts p of None \<Rightarrow> now | Some t \<Rightarrow> t);
             end = (case pn_ends p of None \<Rightarrow> starts + default_plan_duration | Some t \<Rightarrow> t)
         in if jm = JoinInviteOnly \<and> vis = VisPublic then Inl Plans_InvalidInput
            else if vis = VisCommunity \<and> pn_community p = '''' then Inl Plans_InvalidInput
            else if end \<le> starts \<or> starts < now - start_grace then Inl Plans_InvalidInput
            else if rule_text \<noteq> '''' \<and> (case parse_rule rule_text of Inl _ \<Rightarrow> True | Inr _ \<Rightarrow> False) then Inl Plans_InvalidInput
            else Inr \<lparr>pl_id = new_id, pl_host = pn_host p, pl_title = pn_title p, pl_desc = pn_desc p,
                      pl_starts = starts, pl_ends = end, pl_capacity = pn_capacity p, pl_confirmed = 0,
                      pl_price = pn_price p, pl_currency = default_text ''INR'' (pn_currency p),
                      pl_status = Published, pl_join_mode = jm, pl_visibility = vis,
                      pl_community = nullif (pn_community p), pl_entitlement = nullif (pn_entitlement p),
                      pl_series = None, pl_venue = nullif (pn_venue p), pl_category = nullif (pn_category p),
                      pl_city = nullif (pn_city p), pl_cover = cover\<rparr>
     | _ \<Rightarrow> Inl Plans_InvalidInput)"

definition check_community :: "role_checker option \<Rightarrow> plan_input \<Rightarrow> go_error + unit" where
  "check_community roles p =
    (if pn_community p = '''' then Inr ()
     else case roles of
         None \<Rightarrow> Inl Plans_InvalidInput
       | Some is_manager \<Rightarrow>
           (case is_manager (pn_community p) (pn_host p) of
              Inl e \<Rightarrow> Inl e
            | Inr ok \<Rightarrow> if ok then Inr () else Inl Plans_Forbidden))"

definition create_plan ::
  "media_resolver option \<Rightarrow> role_checker option \<Rightarrow> (db \<Rightarrow> string) \<Rightarrow> (string \<Rightarrow> zone option)
    \<Rightarrow> db \<Rightarrow> int \<Rightarrow> plan_input \<Rightarrow> string \<Rightarrow> (db, plan_row) outcome" where
  "create_plan media roles gen zones s now p rule_text =
    (if pn_title p = '''' \<or> pn_host p = '''' \<or> pn_capacity p \<le> 0 then (s, Inl Plans_InvalidInput)
     else case claim_cover media p of
         Inl e \<Rightarrow> (s, Inl e)
       | Inr cover \<Rightarrow>
     case validate_plan p now (gen s) cover rule_text of
         Inl e \<Rightarrow> (s, Inl e)
       | Inr row \<Rightarrow>
     case check_community roles p of
         Inl e \<Rightarrow> (s, Inl e)
       | Inr _ \<Rightarrow>
     if pn_entitlement p \<noteq> '''' \<and> \<not> entitlement_product_exists s (pn_entitlement p) then (s, Inl Plans_InvalidInput)
     else
       and_then (repo_create_plan s row rule_text) (\<lambda>created s1.
         if rule_text = '''' then (s1, Inr created)
         else and_then (extend_series gen zones s1 now (pl_id created)) (\<lambda>_ s2. (s2, Inr created))))"

definition get_plan :: "db \<Rightarrow> string \<Rightarrow> go_error + plan_row" where
  "get_plan s i = (if i = '''' then Inl Plans_InvalidInput else repo_get_plan s i)"

definition get_plan_as_user :: "db \<Rightarrow> string \<Rightarrow> string \<Rightarrow> string \<Rightarrow> go_error + plan_row" where
  "get_plan_as_user s i caller role =
    (case get_plan s i of
       Inl e \<Rightarrow> Inl e
     | Inr p \<Rightarrow>
         if pl_visibility p = VisPublic \<or> pl_host p = caller \<or> is_admin_role role \<or> can_view s p caller
         then Inr p else Inl Plans_PlanNotFound)"

definition plan_host_id :: "db \<Rightarrow> string \<Rightarrow> go_error + string" where
  "plan_host_id s i = (case get_plan s i of Inl e \<Rightarrow> Inl e | Inr p \<Rightarrow> Inr (pl_host p))"

definition save_plan :: "db \<Rightarrow> string \<Rightarrow> string \<Rightarrow> (db, unit) outcome" where
  "save_plan s plan user =
    (if plan = '''' \<or> user = '''' then (s, Inl Plans_InvalidInput)
     else case get_plan_as_user s plan user '''' of
         Inl e \<Rightarrow> (s, Inl e) | Inr _ \<Rightarrow> (save s user plan, Inr ()))"

definition unsave_plan :: "db \<Rightarrow> string \<Rightarrow> string \<Rightarrow> (db, unit) outcome" where
  "unsave_plan s plan user =
    (if plan = '''' \<or> user = '''' then (s, Inl Plans_InvalidInput) else (unsave s user plan, Inr ()))"

definition list_saved_plans :: "db \<Rightarrow> string \<Rightarrow> go_error + plan_row list" where
  "list_saved_plans s user = (if user = '''' then Inl Plans_InvalidInput else Inr (list_saved s user 50))"

definition require_host :: "plan_row \<Rightarrow> string \<Rightarrow> string \<Rightarrow> bool" where
  "require_host p caller role \<longleftrightarrow> pl_host p = caller \<or> is_admin_role role"

definition request_to_join ::
  "db \<Rightarrow> string \<Rightarrow> int \<Rightarrow> string \<Rightarrow> string \<Rightarrow> string \<Rightarrow> (db, join_request_row) outcome" where
  "request_to_join s new_id now plan caller message =
    (if plan = '''' \<or> caller = '''' \<or> 500 < length message then (s, Inl Plans_InvalidInput)
     else case get_plan_as_user s plan caller '''' of
         Inl e \<Rightarrow> (s, Inl e)
       | Inr p \<Rightarrow>
           if pl_join_mode p \<noteq> JoinApproval \<or> pl_host p = caller then (s, Inl Plans_InvalidInput)
           else case create_join_request s new_id now plan caller message of
               (s1, r) \<Rightarrow>
                 ((if jr_status r = ReqPending
                   then enqueue_notify_user s1 now (pl_host p) ''New join request''
                          (''Someone asked to join \"'' @ pl_title p @ ''\".'') (''hivemind://plans/'' @ plan @ ''/requests'') ''push''
                   else s1), Inr r))"

definition list_plan_join_requests ::
  "db \<Rightarrow> string \<Rightarrow> request_status option \<Rightarrow> string \<Rightarrow> string \<Rightarrow> go_error + join_request_row list" where
  "list_plan_join_requests s plan st caller role =
    (if plan = '''' \<or> caller = '''' then Inl Plans_InvalidInput
     else case repo_get_plan s plan of
         Inl e \<Rightarrow> Inl e
       | Inr p \<Rightarrow> if require_host p caller role then Inr (list_join_requests s plan st 100) else Inl Plans_Forbidden)"

definition respond_join_request ::
  "db \<Rightarrow> int \<Rightarrow> string \<Rightarrow> string \<Rightarrow> string \<Rightarrow> bool \<Rightarrow> (db, join_request_row) outcome" where
  "respond_join_request s now i caller role approve =
    (if i = '''' \<or> caller = '''' then (s, Inl Plans_InvalidInput)
     else case get_join_request s i of
         Inl e \<Rightarrow> (s, Inl e)
       | Inr r0 \<Rightarrow>
     case repo_get_plan s (jr_plan r0) of
         Inl e \<Rightarrow> (s, Inl e)
       | Inr p \<Rightarrow>
     if \<not> require_host p caller role then (s, Inl Plans_Forbidden)
     else case decide_join_request s i caller approve of
         (s1, Some r) \<Rightarrow>
           (enqueue_notify_user s1 now (jr_user r)
              (if approve then ''Request approved'' else ''Request declined'')
              (if approve then ''You can now join \"'' @ pl_title p @ ''\".''
               else ''The host declined your request to join \"'' @ pl_title p @ ''\".'')
              (''hivemind://plans/'' @ pl_id p) ''push'', Inr r)
       | (s1, None) \<Rightarrow>
           (case get_join_request s1 i of
              Inl e \<Rightarrow> (s1, Inl e)
            | Inr r \<Rightarrow>
                if jr_status r \<noteq> ReqPending \<and> (jr_status r = ReqApproved) = approve then (s1, Inr r)
                else (s1, Inl Plans_AlreadyDecided)))"

definition max_invites_per_call :: nat where "max_invites_per_call = 50"

definition invite_plan_users ::
  "db \<Rightarrow> int \<Rightarrow> string \<Rightarrow> string \<Rightarrow> string \<Rightarrow> string list \<Rightarrow> (db, nat) outcome" where
  "invite_plan_users s now plan caller role ids =
    (if plan = '''' \<or> caller = '''' \<or> ids = [] \<or> max_invites_per_call < length ids then (s, Inl Plans_InvalidInput)
     else case repo_get_plan s plan of
         Inl e \<Rightarrow> (s, Inl e)
       | Inr p \<Rightarrow>
           if \<not> require_host p caller role then (s, Inl Plans_Forbidden)
           else case invite_users s now plan ids of (s1, invited) \<Rightarrow> (s1, Inr (length invited)))"

definition revoke_plan_invite :: "db \<Rightarrow> string \<Rightarrow> string \<Rightarrow> string \<Rightarrow> string \<Rightarrow> (db, unit) outcome" where
  "revoke_plan_invite s plan user caller role =
    (if plan = '''' \<or> user = '''' \<or> caller = '''' then (s, Inl Plans_InvalidInput)
     else case repo_get_plan s plan of
         Inl e \<Rightarrow> (s, Inl e)
       | Inr p \<Rightarrow>
           if \<not> require_host p caller role then (s, Inl Plans_Forbidden) else (revoke_invite s plan user, Inr ()))"

text \<open>\<open>JoinPlan\<close> and \<open>LeavePlan\<close> over the booking ports.\<close>

definition join_plan ::
  "('s \<Rightarrow> string \<Rightarrow> string \<Rightarrow> string \<Rightarrow> ('s, string) outcome) \<Rightarrow> 's \<Rightarrow> string \<Rightarrow> string \<Rightarrow> string \<Rightarrow> ('s, string) outcome" where
  "join_plan book s plan user key =
    (if plan = '''' \<or> user = '''' then (s, Inl Plans_InvalidInput) else book s plan user key)"

definition leave_plan ::
  "('s \<Rightarrow> string \<Rightarrow> string \<Rightarrow> ('s, unit) outcome) \<Rightarrow> 's \<Rightarrow> string \<Rightarrow> string \<Rightarrow> ('s, unit) outcome" where
  "leave_plan unbook s plan user =
    (if plan = '''' \<or> user = '''' then (s, Inl Plans_InvalidInput) else unbook s plan user)"

definition cancel_plan ::
  "db \<Rightarrow> int \<Rightarrow> string \<Rightarrow> string \<Rightarrow> string \<Rightarrow> string \<Rightarrow> bool \<Rightarrow> (db, plan_row) outcome" where
  "cancel_plan s now plan caller role reason cancel_future =
    (if plan = '''' \<or> caller = '''' then (s, Inl Plans_InvalidInput)
     else case repo_get_plan s plan of
         Inl e \<Rightarrow> (s, Inl e)
       | Inr p \<Rightarrow>
           if pl_host p \<noteq> caller \<and> \<not> is_admin_role role then (s, Inl Plans_Forbidden)
           else case (cancel_future, pl_series p) of
               (True, Some sid) \<Rightarrow>
                 and_then (for_each (\<lambda>i s. repo_cancel_plan s now i reason) (future_occurrence_ids s p) s)
                   (\<lambda>_ s1. let s2 = end_series_from s1 sid (pl_starts p) in (s2, repo_get_plan s2 plan))
             | _ \<Rightarrow> repo_cancel_plan s now plan reason)"

text \<open>\<open>ListUpcomingPlans\<close>: a month from now by default, at most 366 days, at most 100 rows.\<close>

definition list_upcoming_plans :: "db \<Rightarrow> int \<Rightarrow> string \<Rightarrow> upcoming_filter \<Rightarrow> go_error + plan_row list" where
  "list_upcoming_plans s now caller f =
    (if caller = '''' then Inl Plans_InvalidInput
     else let from = (case uf_from f of None \<Rightarrow> now | Some t \<Rightarrow> t);
              to = (case uf_to f of None \<Rightarrow> from + 30 * 24 * hour | Some t \<Rightarrow> t);
              limit = (if uf_limit f \<le> 0 then 50 else if 100 < uf_limit f then 100 else uf_limit f)
          in if to \<le> from \<or> 366 * 24 * hour < to - from then Inl Plans_InvalidInput
             else Inr (upcoming s now caller (f\<lparr>uf_limit := limit\<rparr>) from to))"

end
