(* ===== verification/Plan_Facts.thy ===== *)
theory Plan_Facts
  imports Plans
begin

text \<open>
  What the plan operations guarantee: a series is extended by exactly the missing
  occurrences and extending it again changes nothing, cancelling the future of a series
  cancels every later published occurrence and nothing comes back, a plan is created
  completely or not at all, and the decision on a join request is final.
\<close>

definition fresh_ids :: "(db \<Rightarrow> string) \<Rightarrow> bool" where
  "fresh_ids gen \<longleftrightarrow> (\<forall>s. gen s \<notin> pl_id ` set (t_plans s))"

definition series_unique :: "db \<Rightarrow> bool" where
  "series_unique s \<longleftrightarrow> distinct (map (\<lambda>q. (pl_series q, pl_starts q)) (filter (\<lambda>q. pl_series q \<noteq> None) (t_plans s)))"

lemma find_appendI: "find P xs = Some x \<Longrightarrow> find P (xs @ ys) = Some x"
  by (induction xs) auto

section \<open>Extending a series\<close>

definition before_end :: "int option \<Rightarrow> int \<Rightarrow> bool" where
  "before_end e t \<longleftrightarrow> (case e of None \<Rightarrow> True | Some u \<Rightarrow> t < u)"

lemma extend_loop_cons:
  "extend_loop gen i e d (t # ts) s n =
     (if before_end e t
      then extend_loop gen i e d ts (fst (insert_occurrence gen i t (t + d) s)) (n + snd (insert_occurrence gen i t (t + d) s))
      else extend_loop gen i e d ts s n)"
  by (auto simp: before_end_def split: option.split prod.split)

declare extend_loop.simps(2) [simp del]

text \<open>The rows an extension appends: copies of the template at missing starts, with new ids.\<close>

definition series_rows :: "plan_row \<Rightarrow> int \<Rightarrow> int list \<Rightarrow> plan_row list \<Rightarrow> bool" where
  "series_rows p d ts new \<longleftrightarrow> (\<forall>q\<in>set new. \<exists>t\<in>set ts. q = occurrence_of p (pl_id q) t (t + d))"

lemma insert_occurrence_cases:
  assumes "plan_by_id s i = Some p"
  obtains "in_series s p t" "insert_occurrence gen i t e s = (s, 0)"
  | "\<not> in_series s p t" "insert_occurrence gen i t e s = (s\<lparr>t_plans := t_plans s @ [occurrence_of p (gen s) t e]\<rparr>, 1)"
  using assms by (cases "in_series s p t") (simp_all add: insert_occurrence_def)

lemma extend_loop_rows:
  assumes "plan_by_id s i = Some p"
  shows "\<exists>new. extend_loop gen i e d ts s n = (s\<lparr>t_plans := t_plans s @ new\<rparr>, n + int (length new))
    \<and> series_rows p d (filter (before_end e) ts) new"
  using assms
proof (induction ts arbitrary: s n)
  case Nil
  then show ?case by (intro exI[of _ "[]"]) (simp add: series_rows_def)
next
  case (Cons t ts)
  show ?case
  proof (cases "before_end e t")
    case False
    with Cons show ?thesis by (simp add: extend_loop_cons)
  next
    case True
    show ?thesis
    proof (cases rule: insert_occurrence_cases[OF Cons.prems, of t gen "t + d"])
      case 1
      from Cons.IH[OF Cons.prems, of n] obtain new where new:
        "extend_loop gen i e d ts s n = (s\<lparr>t_plans := t_plans s @ new\<rparr>, n + int (length new))"
        "series_rows p d (filter (before_end e) ts) new" by blast
      with True 1 show ?thesis by (intro exI[of _ new]) (auto simp: extend_loop_cons series_rows_def)
    next
      case 2
      let ?q = "occurrence_of p (gen s) t (t + d)" and ?s = "s\<lparr>t_plans := t_plans s @ [occurrence_of p (gen s) t (t + d)]\<rparr>"
      have "plan_by_id ?s i = Some p" using Cons.prems by (simp add: find_appendI)
      from Cons.IH[OF this, of "n + 1"] obtain new where new:
        "extend_loop gen i e d ts ?s (n + 1) = (?s\<lparr>t_plans := t_plans ?s @ new\<rparr>, n + 1 + int (length new))"
        "series_rows p d (filter (before_end e) ts) new" by blast
      have "series_rows p d (filter (before_end e) (t # ts)) (?q # new)"
        using new(2) True by (auto simp: series_rows_def occurrence_of_def)
      with True 2 new(1) show ?thesis by (intro exI[of _ "?q # new"]) (simp add: extend_loop_cons)
    qed
  qed
qed

lemma extend_loop_covers:
  assumes "plan_by_id s i = Some p" "pl_series p \<noteq> None"
    and "extend_loop gen i e d ts s n = (s', n')"
  shows "(\<forall>t\<in>set ts. before_end e t \<longrightarrow> in_series s' p t) \<and> (\<forall>t. in_series s p t \<longrightarrow> in_series s' p t)"
  using assms(1,3)
proof (induction ts arbitrary: s n)
  case (Cons t ts)
  show ?case
  proof (cases "before_end e t")
    case False
    with Cons show ?thesis by (auto simp: extend_loop_cons)
  next
    case True
    show ?thesis
    proof (cases rule: insert_occurrence_cases[OF Cons.prems(1), of t gen "t + d"])
      case 1
      with True Cons show ?thesis by (auto simp: extend_loop_cons)
    next
      case 2
      let ?s = "s\<lparr>t_plans := t_plans s @ [occurrence_of p (gen s) t (t + d)]\<rparr>"
      have p: "plan_by_id ?s i = Some p" using Cons.prems by (simp add: find_appendI)
      have t: "in_series ?s p t" "\<And>u. in_series s p u \<Longrightarrow> in_series ?s p u"
        using assms(2) by (auto simp: in_series_def occurrence_of_def)
      have "extend_loop gen i e d ts ?s (n + 1) = (s', n')" using Cons.prems(2) True 2 by (simp add: extend_loop_cons)
      from Cons.IH[OF p this] t show ?thesis by auto
    qed
  qed
qed simp

lemma extend_loop_nothing:
  assumes "plan_by_id s i = Some p" "\<forall>t\<in>set ts. before_end e t \<longrightarrow> in_series s p t"
  shows "extend_loop gen i e d ts s n = (s, n)"
  using assms by (induction ts) (auto simp: extend_loop_cons insert_occurrence_def)

lemma extend_loop_unique:
  assumes "plan_by_id s i = Some p" "fresh_ids gen" "series_unique s" "distinct (map pl_id (t_plans s))"
    and "extend_loop gen i e d ts s n = (s', n')"
  shows "series_unique s' \<and> distinct (map pl_id (t_plans s'))"
  using assms(1,3-5)
proof (induction ts arbitrary: s n)
  case (Cons t ts)
  show ?case
  proof (cases "before_end e t")
    case False
    with Cons show ?thesis by (simp add: extend_loop_cons)
  next
    case True
    show ?thesis
    proof (cases rule: insert_occurrence_cases[OF Cons.prems(1), of t gen "t + d"])
      case 1
      with True Cons show ?thesis by (auto simp: extend_loop_cons)
    next
      case 2
      let ?s = "s\<lparr>t_plans := t_plans s @ [occurrence_of p (gen s) t (t + d)]\<rparr>"
      have p: "plan_by_id ?s i = Some p" using Cons.prems by (simp add: find_appendI)
      have u: "series_unique ?s" using Cons.prems(2) 2(1)
        by (auto simp: series_unique_def in_series_def occurrence_of_def)
      have d: "distinct (map pl_id (t_plans ?s))"
        using Cons.prems(3) assms(2) by (simp add: fresh_ids_def occurrence_of_def)
      have "extend_loop gen i e d ts ?s (n + 1) = (s', n')" using Cons.prems(4) True 2 by (simp add: extend_loop_cons)
      from Cons.IH[OF p u d this] show ?thesis .
    qed
  qed
qed simp

text \<open>Listing occurrences under their community: only that table changes, and once is enough.\<close>

lemma fold_add_event:
  "\<exists>new. fold add_event es s = s\<lparr>t_events := t_events s @ new\<rparr> \<and> set es \<subseteq> set (t_events s @ new)"
proof (induction es arbitrary: s)
  case Nil
  show ?case by (intro exI[of _ "[]"]) simp
next
  case (Cons e es)
  obtain new where "fold add_event es (add_event e s) = (add_event e s)\<lparr>t_events := t_events (add_event e s) @ new\<rparr>"
      "set es \<subseteq> set (t_events (add_event e s) @ new)" using Cons by blast
  moreover have "add_event e s = s\<lparr>t_events := t_events s @ (if e \<in> set (t_events s) then [] else [e])\<rparr>"
    by (simp add: add_event_def)
  ultimately show ?case
    by (intro exI[of _ "(if e \<in> set (t_events s) then [] else [e]) @ new"]) (auto split: if_splits)
qed

lemma fold_add_event_id: "set es \<subseteq> set (t_events s) \<Longrightarrow> fold add_event es s = s"
  by (induction es) (auto simp: add_event_def)

lemma list_under_community_effect:
  "\<exists>new. list_under_community i s = s\<lparr>t_events := t_events s @ new\<rparr>
     \<and> list_under_community i (list_under_community i s) = list_under_community i s"
proof -
  let ?es = "\<lambda>s. List.map_filter (\<lambda>p. case pl_community p of None \<Rightarrow> None | Some c \<Rightarrow>
            if pl_series p = Some i then Some (c, pl_id p) else None) (t_plans s)"
  obtain new where new: "list_under_community i s = s\<lparr>t_events := t_events s @ new\<rparr>"
      "set (?es s) \<subseteq> set (t_events s @ new)"
    using fold_add_event[of "?es s" s] unfolding list_under_community_def by blast
  then have "list_under_community i (list_under_community i s) = list_under_community i s"
    unfolding list_under_community_def[of i "list_under_community i s"] by (intro fold_add_event_id) simp
  with new show ?thesis by blast
qed

lemma extend_series_inner:
  assumes "plan_by_id s i = Some p" "find (\<lambda>r. rc_plan r = i) (t_recurrences s) = Some rc" "rc_active rc"
    and "parse_rule (rc_rule rc) = Inr r"
  shows "extend_series gen zones s now i =
    (case extend_loop gen i (rc_ended rc) (pl_ends p - pl_starts p)
       (occurrences r (plan_zone zones s p) (pl_starts p) (now + series_horizon)) s 0 of
       (s1, n) \<Rightarrow> (list_under_community i s1, Inr n))"
  using assms by (simp add: extend_series_def)

text \<open>
  Extending a series appends exactly the missing occurrences: copies of the template at
  starts the rule gives before the series' end; afterwards every such start has its one
  row in the series (a cancelled one keeps it), ids stay distinct, no existing plan
  changes, and extending again creates nothing and changes nothing.
\<close>

theorem extend_series_once:
  assumes "fresh_ids gen" "plan_by_id s i = Some p" "pl_series p = Some i"
    and "find (\<lambda>r. rc_plan r = i) (t_recurrences s) = Some rc" "rc_active rc" "parse_rule (rc_rule rc) = Inr r"
    and "series_unique s" "distinct (map pl_id (t_plans s))"
    and "ts = filter (before_end (rc_ended rc)) (occurrences r (plan_zone zones s p) (pl_starts p) (now + series_horizon))"
  shows "\<exists>s' new. extend_series gen zones s now i = (s', Inr (int (length new)))
    \<and> t_plans s' = t_plans s @ new \<and> series_rows p (pl_ends p - pl_starts p) ts new
    \<and> (\<forall>t\<in>set ts. \<exists>q\<in>set (t_plans s'). pl_series q = Some i \<and> pl_starts q = t)
    \<and> series_unique s' \<and> distinct (map pl_id (t_plans s'))
    \<and> extend_series gen zones s' now i = (s', Inr 0)"
proof -
  let ?ts = "occurrences r (plan_zone zones s p) (pl_starts p) (now + series_horizon)"
  let ?loop = "extend_loop gen i (rc_ended rc) (pl_ends p - pl_starts p) ?ts"
  obtain new where loop: "?loop s 0 = (s\<lparr>t_plans := t_plans s @ new\<rparr>, int (length new))"
    and rows: "series_rows p (pl_ends p - pl_starts p) ts new"
    using extend_loop_rows[OF assms(2), of gen "rc_ended rc" "pl_ends p - pl_starts p" ?ts 0] assms(9) by auto
  let ?s1 = "s\<lparr>t_plans := t_plans s @ new\<rparr>"
  let ?s2 = "list_under_community i ?s1"
  obtain ev where ev: "?s2 = ?s1\<lparr>t_events := t_events ?s1 @ ev\<rparr>" "list_under_community i ?s2 = ?s2"
    using list_under_community_effect by blast
  have step: "extend_series gen zones s now i = (?s2, Inr (int (length new)))"
    using extend_series_inner[OF assms(2,4-6)] loop by simp
  have plans: "t_plans ?s2 = t_plans s @ new" "t_recurrences ?s2 = t_recurrences s" "t_cities ?s2 = t_cities s"
    using ev(1) by simp_all
  have covers: "\<forall>t\<in>set ts. in_series ?s1 p t"
    using extend_loop_covers[OF assms(2) _ loop] assms(3,9) by simp
  have unique: "series_unique ?s1" "distinct (map pl_id (t_plans ?s1))"
    using extend_loop_unique[OF assms(2,1,7,8) loop] by simp_all
  have p2: "plan_by_id ?s2 i = Some p" unfolding plans by (rule find_appendI[OF assms(2)])
  have z: "plan_zone zones ?s2 p = plan_zone zones s p" unfolding plan_zone_def plans ..
  have rc2: "find (\<lambda>r. rc_plan r = i) (t_recurrences ?s2) = Some rc" unfolding plans by (rule assms(4))
  have in2: "in_series ?s2 p t = in_series ?s1 p t" for t by (simp add: in_series_def plans)
  have "?loop ?s2 0 = (?s2, 0)"
    by (rule extend_loop_nothing[OF p2]) (use covers assms(9) in \<open>auto simp: in2\<close>)
  then have again: "extend_series gen zones ?s2 now i = (?s2, Inr 0)"
    using extend_series_inner[OF p2 rc2 assms(5,6)] ev(2) z by simp
  have cov: "\<forall>t\<in>set ts. \<exists>q\<in>set (t_plans ?s2). pl_series q = Some i \<and> pl_starts q = t"
    using covers assms(3) plans(1) by (auto simp: in_series_def)
  have u: "series_unique ?s2" "distinct (map pl_id (t_plans ?s2))"
    using unique by (simp_all add: series_unique_def plans)
  show ?thesis
    by (rule exI[of _ ?s2], rule exI[of _ new]) (intro conjI step plans(1) rows cov u again)
qed

definition long_id :: "db \<Rightarrow> string" where
  "long_id s = replicate (Suc (sum_list (map (length \<circ> pl_id) (t_plans s)))) CHR ''x''"

lemma fresh_long_id: "fresh_ids long_id"
proof -
  have "length (pl_id p) \<le> sum_list (map (length \<circ> pl_id) (t_plans s))" if "p \<in> set (t_plans s)" for p s
    using that by (intro member_le_sum_list) (auto simp: image_iff)
  then show ?thesis by (fastforce simp: fresh_ids_def long_id_def dest: arg_cong[of _ _ length])
qed

definition series_db :: db where
  "series_db = empty_db\<lparr>t_plans := [sample_plan\<lparr>pl_series := Some ''p''\<rparr>],
     t_recurrences := [\<lparr>rc_plan = ''p'', rc_rule = ''freq=weekly;COUNT=3'', rc_active = True, rc_ended = None\<rparr>]\<rparr>"

lemma extend_series_once_witness:
  "\<exists>s' new. extend_series long_id (\<lambda>_. None) series_db 0 ''p'' = (s', Inr (int (length new)))
     \<and> t_plans s' = t_plans series_db @ new \<and> series_unique s' \<and> extend_series long_id (\<lambda>_. None) s' 0 ''p'' = (s', Inr 0)"
proof -
  let ?p = "sample_plan\<lparr>pl_series := Some ''p''\<rparr>"
  let ?rc = "\<lparr>rc_plan = ''p'', rc_rule = ''freq=weekly;COUNT=3'', rc_active = True, rc_ended = None\<rparr>"
  have p: "parse_rule (rc_rule ?rc) = Inr \<lparr>rl_freq = Weekly, rl_interval = 1, rl_count = 3, rl_until = None\<rparr>" by code_simp
  have s: "plan_by_id series_db ''p'' = Some ?p" "pl_series ?p = Some ''p''"
    "find (\<lambda>r. rc_plan r = ''p'') (t_recurrences series_db) = Some ?rc" "rc_active ?rc"
    "series_unique series_db" "distinct (map pl_id (t_plans series_db))"
    by (simp_all add: series_db_def samples series_unique_def)
  from extend_series_once[OF fresh_long_id s(1-4) p s(5,6) refl] show ?thesis by blast
qed

lemma extend_series_new_rows:
  assumes "extend_series gen zones s now i = (s', Inr n)" "q \<in> set (t_plans s')" "q \<notin> set (t_plans s)"
  shows "\<exists>rc. find (\<lambda>r. rc_plan r = i) (t_recurrences s) = Some rc \<and> before_end (rc_ended rc) (pl_starts q)"
proof -
  obtain rc where rc: "find (\<lambda>r. rc_plan r = i) (t_recurrences s) = Some rc" "rc_active rc"
    using assms by (auto simp: extend_series_def split: option.splits if_splits)
  obtain r p where r: "parse_rule (rc_rule rc) = Inr r" "plan_by_id s i = Some p"
    using assms(1) rc by (auto simp: extend_series_def split: sum.splits option.splits)
  let ?ts = "occurrences r (plan_zone zones s p) (pl_starts p) (now + series_horizon)"
  obtain new where loop: "extend_loop gen i (rc_ended rc) (pl_ends p - pl_starts p) ?ts s 0
      = (s\<lparr>t_plans := t_plans s @ new\<rparr>, int (length new))"
    and rows: "series_rows p (pl_ends p - pl_starts p) (filter (before_end (rc_ended rc)) ?ts) new"
    using extend_loop_rows[OF r(2), of gen "rc_ended rc" "pl_ends p - pl_starts p" ?ts 0] by auto
  obtain ev where "list_under_community i (s\<lparr>t_plans := t_plans s @ new\<rparr>) = s\<lparr>t_plans := t_plans s @ new, t_events := t_events s @ ev\<rparr>"
    using list_under_community_effect[of i "s\<lparr>t_plans := t_plans s @ new\<rparr>"] by auto
  then have "t_plans (list_under_community i (s\<lparr>t_plans := t_plans s @ new\<rparr>)) = t_plans s @ new" by simp
  then have "t_plans s' = t_plans s @ new"
    using assms(1) extend_series_inner[OF r(2) rc r(1)] loop by auto
  with assms(2,3) have "q \<in> set new" by auto
  with rows obtain t where t: "before_end (rc_ended rc) t"
      "q = occurrence_of p (pl_id q) t (t + (pl_ends p - pl_starts p))"
    unfolding series_rows_def by auto
  have "pl_starts q = t" using arg_cong[OF t(2), of pl_starts] by (simp add: occurrence_of_def)
  with rc(1) t(1) show ?thesis by auto
qed

section \<open>Cancelling\<close>

definition plan_cancelled_event :: "int \<Rightarrow> string \<Rightarrow> string \<Rightarrow> outbox_row" where
  "plan_cancelled_event now reason i = \<lparr>ob_type = ''PLAN_CANCELLED'', ob_subject = i,
     ob_payload = PlanCancelPayload i reason, ob_created = now, ob_published = None\<rparr>"

abbreviation cancel_row :: "plan_row \<Rightarrow> plan_row" where
  "cancel_row q \<equiv> q\<lparr>pl_status := PlanCancelled\<rparr>"

lemma repo_cancel_plan_effect:
  assumes "plan_by_id s i = Some p"
  shows "repo_cancel_plan s now i reason =
    (s\<lparr>t_plans := upd (\<lambda>q. pl_id q = i) cancel_row (t_plans s), t_outbox := t_outbox s @ [plan_cancelled_event now reason i]\<rparr>,
     Inr (cancel_row p))"
  using assms by (simp add: repo_cancel_plan_def enqueue_def plan_cancelled_event_def Let_def)

lemma upd_upd_ids:
  "upd (\<lambda>q. pl_id q \<in> set is) cancel_row (upd (\<lambda>q. pl_id q = i) cancel_row ps) = upd (\<lambda>q. pl_id q \<in> set (i # is)) cancel_row ps"
  by (induction ps) auto

lemma cancel_each_effect:
  assumes "\<forall>i\<in>set is. plan_by_id s i \<noteq> None"
  shows "for_each (\<lambda>i s. repo_cancel_plan s now i reason) is s =
    (s\<lparr>t_plans := upd (\<lambda>q. pl_id q \<in> set is) cancel_row (t_plans s),
       t_outbox := t_outbox s @ map (plan_cancelled_event now reason) is\<rparr>, Inr ())"
  using assms
proof (induction "is" arbitrary: s)
  case Nil
  have "upd (\<lambda>q. pl_id q \<in> set []) cancel_row (t_plans s) = t_plans s" by (rule upd_no_match) simp
  then show ?case by simp
next
  case (Cons i js)
  obtain p where p: "plan_by_id s i = Some p" using Cons.prems by auto
  let ?s = "s\<lparr>t_plans := upd (\<lambda>q. pl_id q = i) cancel_row (t_plans s), t_outbox := t_outbox s @ [plan_cancelled_event now reason i]\<rparr>"
  have "\<forall>k\<in>set js. plan_by_id ?s k \<noteq> None" using Cons.prems by (simp add: find_upd_key)
  from Cons.IH[OF this] show ?case
    by (simp only: for_each.simps repo_cancel_plan_effect[OF p] and_then_simps) (simp add: upd_upd_ids)
qed

lemma in_future_ids:
  "i \<in> set (future_occurrence_ids s p) \<longleftrightarrow>
     (\<exists>q\<in>set (t_plans s). pl_id q = i \<and> pl_series p \<noteq> None \<and> pl_series q = pl_series p
        \<and> pl_starts p \<le> pl_starts q \<and> pl_status q = Published)"
  by (auto simp: future_occurrence_ids_def)

lemma find_end_series:
  assumes "find (\<lambda>r. rc_plan r = sid) (t_recurrences (end_series_from s sid t)) = Some rc" "before_end (rc_ended rc) u"
  shows "u < t"
proof -
  obtain r where "rc = r\<lparr>rc_ended := Some (case rc_ended r of None \<Rightarrow> t | Some u \<Rightarrow> min u t)\<rparr>"
    using assms(1) find_key[OF assms(1)] by (auto simp: end_series_from_def set_upd split: if_splits)
  with assms(2) show ?thesis by (auto simp: before_end_def split: option.splits)
qed




section \<open>Creating\<close>

definition recurrences_ok :: "db \<Rightarrow> bool" where
  "recurrences_ok s \<longleftrightarrow> (\<forall>r\<in>set (t_recurrences s). rc_plan r \<in> pl_id ` set (t_plans s))"

lemma validate_plan_Inr:
  assumes "validate_plan p now new_id cover rt = Inr row"
  shows "pl_id row = new_id" "pl_host row = pn_host p" "pl_capacity row = pn_capacity p" "pl_confirmed row = 0"
    "pl_status row = Published" "pl_starts row < pl_ends row" "now - start_grace \<le> pl_starts row"
    "pl_visibility row = VisCommunity \<longrightarrow> pl_community row \<noteq> None"
    "pl_join_mode row = JoinInviteOnly \<longrightarrow> pl_visibility row \<noteq> VisPublic"
    "rt \<noteq> '''' \<longrightarrow> (\<exists>r. parse_rule rt = Inr r)"
    "pl_community row = nullif (pn_community p)" "pl_entitlement row = nullif (pn_entitlement p)" "pl_series row = None"
proof -
  obtain jm vis where m: "join_mode_of (default_text ''open'' (pn_join_mode p)) = Some jm"
      "visibility_of (default_text ''public'' (pn_visibility p)) = Some vis"
    using assms by (auto simp: validate_plan_def split: option.splits)
  define st where "st = (case pn_starts p of None \<Rightarrow> now | Some t \<Rightarrow> t)"
  define en where "en = (case pn_ends p of None \<Rightarrow> st + default_plan_duration | Some t \<Rightarrow> t)"
  have g: "\<not> (jm = JoinInviteOnly \<and> vis = VisPublic)" "\<not> (vis = VisCommunity \<and> pn_community p = '''')"
      "\<not> (en \<le> st \<or> st < now - start_grace)"
      "rt \<noteq> '''' \<longrightarrow> (\<exists>r. parse_rule rt = Inr r)"
    and row: "row = \<lparr>pl_id = new_id, pl_host = pn_host p, pl_title = pn_title p, pl_desc = pn_desc p,
                      pl_starts = st, pl_ends = en, pl_capacity = pn_capacity p, pl_confirmed = 0,
                      pl_price = pn_price p, pl_currency = default_text ''INR'' (pn_currency p),
                      pl_status = Published, pl_join_mode = jm, pl_visibility = vis,
                      pl_community = nullif (pn_community p), pl_entitlement = nullif (pn_entitlement p),
                      pl_series = None, pl_venue = nullif (pn_venue p), pl_category = nullif (pn_category p),
                      pl_city = nullif (pn_city p), pl_cover = cover\<rparr>"
    using assms unfolding validate_plan_def m option.case prod.case Let_def st_def[symmetric] en_def[symmetric]
    by (simp_all split: if_split_asm sum.split_asm)
  show "pl_id row = new_id" "pl_host row = pn_host p" "pl_capacity row = pn_capacity p" "pl_confirmed row = 0"
    "pl_status row = Published" "pl_starts row < pl_ends row" "now - start_grace \<le> pl_starts row"
    "pl_visibility row = VisCommunity \<longrightarrow> pl_community row \<noteq> None"
    "pl_join_mode row = JoinInviteOnly \<longrightarrow> pl_visibility row \<noteq> VisPublic"
    "rt \<noteq> '''' \<longrightarrow> (\<exists>r. parse_rule rt = Inr r)"
    "pl_community row = nullif (pn_community p)" "pl_entitlement row = nullif (pn_entitlement p)" "pl_series row = None"
    using g by (auto simp: row nullif_def)
qed

text \<open>The repository, when the row satisfies the schema's checks.\<close>

lemma repo_create_effect:
  assumes "plan_checks row"
  shows "\<exists>s1 p1. repo_create_plan s row rt = (s1, Inr p1)
    \<and> p1 = (if rt = '''' then row else row\<lparr>pl_series := Some (pl_id row)\<rparr>)
    \<and> t_plans s1 = t_plans s @ [p1]
    \<and> t_recurrences s1 = t_recurrences s @ (if rt = '''' then []
         else [\<lparr>rc_plan = pl_id row, rc_rule = rt, rc_active = True, rc_ended = None\<rparr>])
    \<and> t_outbox s1 = t_outbox s \<and> t_bookings s1 = t_bookings s"
  using assms by (simp add: repo_create_plan_def add_event_def Let_def split: option.split)

lemma extend_new_series:
  assumes "plan_by_id s i = Some p" "\<forall>r\<in>set rs. rc_plan r \<noteq> i"
    and "t_recurrences s = rs @ [\<lparr>rc_plan = i, rc_rule = rt, rc_active = True, rc_ended = None\<rparr>]"
    and "parse_rule rt = Inr r"
  shows "\<exists>s' n new. extend_series gen zones s now i = (s', Inr n) \<and> t_plans s' = t_plans s @ new"
proof -
  let ?rc = "\<lparr>rc_plan = i, rc_rule = rt, rc_active = True, rc_ended = None\<rparr>"
  have rc: "find (\<lambda>r. rc_plan r = i) (t_recurrences s) = Some ?rc"
    using assms(2,3) by (simp add: find_append_skip)
  let ?ts = "occurrences r (plan_zone zones s p) (pl_starts p) (now + series_horizon)"
  obtain new where loop: "extend_loop gen i None (pl_ends p - pl_starts p) ?ts s 0
      = (s\<lparr>t_plans := t_plans s @ new\<rparr>, int (length new))"
    using extend_loop_rows[OF assms(1), of gen None "pl_ends p - pl_starts p" ?ts 0] by auto
  obtain ev where ev: "list_under_community i (s\<lparr>t_plans := t_plans s @ new\<rparr>)
      = s\<lparr>t_plans := t_plans s @ new, t_events := t_events s @ ev\<rparr>"
    using list_under_community_effect[of i "s\<lparr>t_plans := t_plans s @ new\<rparr>"] by auto
  show ?thesis
    using extend_series_inner[OF assms(1) rc, of r gen zones now] assms(4) loop ev
    by (intro exI[of _ "s\<lparr>t_plans := t_plans s @ new, t_events := t_events s @ ev\<rparr>"] exI[of _ "int (length new)"] exI[of _ new])
       simp
qed

lemma create_plan_guards:
  obtains (refused) e where "create_plan media roles gen zones s now p rt = (s, Inl e)"
  | (accepted) cover row where "0 < pn_capacity p" "validate_plan p now (gen s) cover rt = Inr row"
      "check_community roles p = Inr ()" "pn_entitlement p = '''' \<or> entitlement_product_exists s (pn_entitlement p)"
      "create_plan media roles gen zones s now p rt =
        and_then (repo_create_plan s row rt) (\<lambda>created s1. if rt = '''' then (s1, Inr created)
          else and_then (extend_series gen zones s1 now (pl_id created)) (\<lambda>_ s2. (s2, Inr created)))"
proof (cases "pn_title p = '''' \<or> pn_host p = '''' \<or> pn_capacity p \<le> 0")
  case True
  then show ?thesis using refused by (simp add: create_plan_def)
next
  case ok: False
  show ?thesis
  proof (cases "claim_cover media p")
    case (Inl e)
    with ok show ?thesis using refused by (simp add: create_plan_def)
  next
    case cover: (Inr cover)
    show ?thesis
    proof (cases "validate_plan p now (gen s) cover rt")
      case (Inl e)
      with ok cover show ?thesis using refused by (simp add: create_plan_def)
    next
      case row: (Inr row)
      show ?thesis
      proof (cases "check_community roles p")
        case (Inl e)
        with ok cover row show ?thesis using refused by (simp add: create_plan_def)
      next
        case (Inr u)
        show ?thesis
        proof (cases "pn_entitlement p \<noteq> '''' \<and> \<not> entitlement_product_exists s (pn_entitlement p)")
          case True
          with ok cover row Inr show ?thesis using refused by (simp add: create_plan_def)
        next
          case False
          with ok cover row Inr show ?thesis by (intro accepted[of cover row]) (auto simp: create_plan_def)
        qed
      qed
    qed
  qed
qed

text \<open>
  A plan is created completely or not at all: a refused \<open>CreatePlan\<close> leaves the database
  as it was; an accepted one appends a published, empty plan with a positive capacity and an
  end after its start, which starts no earlier than five minutes ago, is managed by its
  community's people when it has one, names an existing product when it is gated, and is
  its own series' template exactly when a (valid) recurrence rule was given.
\<close>

theorem create_plan_all_or_nothing:
  assumes "fresh_ids gen" "recurrences_ok s"
  shows "case create_plan media roles gen zones s now p rt of
      (s', Inl e) \<Rightarrow> s' = s
    | (s', Inr row) \<Rightarrow>
        (\<exists>new. t_plans s' = t_plans s @ row # new) \<and> pl_id row \<notin> pl_id ` set (t_plans s)
        \<and> pl_host row = pn_host p \<and> pl_status row = Published \<and> pl_confirmed row = 0 \<and> 0 < pl_capacity row
        \<and> pl_starts row < pl_ends row \<and> now - start_grace \<le> pl_starts row \<and> plan_checks row
        \<and> (\<forall>c. pl_community row = Some c \<longrightarrow> (\<exists>m. roles = Some m \<and> m c (pn_host p) = Inr True))
        \<and> (\<forall>k. pl_entitlement row = Some k \<longrightarrow> entitlement_product_exists s k)
        \<and> (pl_series row = (if rt = '''' then None else Some (pl_id row)))
        \<and> (rt \<noteq> '''' \<longrightarrow> (\<exists>r. parse_rule rt = Inr r))"
proof (cases rule: create_plan_guards[of media roles gen zones s now p rt])
  case (refused e)
  then show ?thesis by simp
next
  case (accepted cover row)
  note v = validate_plan_Inr[OF accepted(2)]
  have chk: "plan_checks row" using v accepted(1) by (simp add: plan_checks_def)
  obtain s1 p1 where c: "repo_create_plan s row rt = (s1, Inr p1)"
      "p1 = (if rt = '''' then row else row\<lparr>pl_series := Some (pl_id row)\<rparr>)" "t_plans s1 = t_plans s @ [p1]"
      "t_recurrences s1 = t_recurrences s @ (if rt = '''' then []
         else [\<lparr>rc_plan = pl_id row, rc_rule = rt, rc_active = True, rc_ended = None\<rparr>])"
    using repo_create_effect[OF chk] by blast
  have fresh: "pl_id row \<notin> pl_id ` set (t_plans s)" using assms(1) v(1) by (simp add: fresh_ids_def)
  have id: "pl_id p1 = pl_id row" using c(2) by simp
  have "\<exists>s' new. create_plan media roles gen zones s now p rt = (s', Inr p1) \<and> t_plans s' = t_plans s @ p1 # new"
  proof (cases "rt = ''''")
    case True
    with accepted(5) c(1,3) show ?thesis by (intro exI[of _ s1] exI[of _ "[]"]) simp
  next
    case False
    with v(10) obtain r where r: "parse_rule rt = Inr r" by auto
    have "plan_by_id s1 (pl_id p1) = Some p1" using fresh id unfolding c(3) by (subst find_append_skip) (auto simp: image_iff)
    moreover have "\<forall>r\<in>set (t_recurrences s). rc_plan r \<noteq> pl_id p1"
      using assms(2) fresh id unfolding recurrences_ok_def by metis
    moreover have "t_recurrences s1 = t_recurrences s @ [\<lparr>rc_plan = pl_id p1, rc_rule = rt, rc_active = True, rc_ended = None\<rparr>]"
      using c(4) False id by simp
    ultimately obtain s' n new where "extend_series gen zones s1 now (pl_id p1) = (s', Inr n)" "t_plans s' = t_plans s1 @ new"
      using extend_new_series r by blast
    with accepted(5) c(1,3) False show ?thesis by (intro exI[of _ s'] exI[of _ new]) simp
  qed
  then obtain s' new where s': "create_plan media roles gen zones s now p rt = (s', Inr p1)" "t_plans s' = t_plans s @ p1 # new"
    by blast
  have same: "pl_host p1 = pl_host row" "pl_status p1 = pl_status row" "pl_confirmed p1 = pl_confirmed row"
      "pl_capacity p1 = pl_capacity row" "pl_starts p1 = pl_starts row" "pl_ends p1 = pl_ends row"
      "plan_checks p1 = plan_checks row" "pl_community p1 = pl_community row" "pl_entitlement p1 = pl_entitlement row"
    using c(2) by (simp_all add: plan_checks_def)
  have com: "\<exists>m. roles = Some m \<and> m k (pn_host p) = Inr True" if "pl_community row = Some k" for k
    using accepted(3) that v(11) by (auto simp: check_community_def nullif_def split: if_splits option.splits sum.splits)
  have ent: "entitlement_product_exists s k" if "pl_entitlement row = Some k" for k
    using accepted(4) that v(12) by (auto simp: nullif_def split: if_splits)
  have ser: "pl_series p1 = (if rt = '''' then None else Some (pl_id p1))" using c(2) v(13) by simp
  have new: "\<exists>new. t_plans s' = t_plans s @ p1 # new" using s'(2) by blast
  have own: "pl_id p1 \<notin> pl_id ` set (t_plans s)" "0 < pl_capacity row" using fresh id v(3) accepted(1) by simp_all
  have rule_ok: "\<exists>r. parse_rule rt = Inr r" if "rt \<noteq> ''''" using v(10) that by blast
  show ?thesis
    unfolding s'(1) prod.case sum.case same
    by (intro conjI allI impI new own v(2) v(5) v(4) v(6) v(7) chk com ent ser rule_ok)
qed


definition sample_input :: plan_input where
  "sample_input = \<lparr>pn_title = ''Hike'', pn_desc = '''', pn_category = '''', pn_host = ''h'', pn_city = '''',
     pn_venue = '''', pn_starts = None, pn_ends = None, pn_capacity = 4, pn_price = 0, pn_currency = '''',
     pn_join_mode = '''', pn_visibility = '''', pn_community = '''', pn_entitlement = '''', pn_cover_media = ''''\<rparr>"

lemma create_plan_all_or_nothing_witness:
  "\<exists>s' row. create_plan None None long_id (\<lambda>_. None) empty_db 9 sample_input '''' = (s', Inr row)
     \<and> t_plans s' = [row] \<and> pl_host row = ''h'' \<and> plan_checks row"
proof -
  have r: "recurrences_ok empty_db" by (simp add: recurrences_ok_def empty_db_def)
  obtain s' row where c: "create_plan None None long_id (\<lambda>_. None) empty_db 9 sample_input '''' = (s', Inr row)"
      "t_plans s' = [row]"
    by (simp add: create_plan_def sample_input_def claim_cover_def validate_plan_def check_community_def
        join_mode_of_def visibility_of_def default_text_def nullif_def repo_create_plan_def plan_checks_def
        long_id_def empty_db_def time_defs Let_def)
  from create_plan_all_or_nothing[OF fresh_long_id r, where media = None and roles = None and zones = "\<lambda>_. None"
      and now = 9 and p = sample_input and rt = "''''"] c
  show ?thesis by (simp add: sample_input_def)
qed

end
