(* ===== verification/Plan_Runs.thy ===== *)
theory Plan_Runs
  imports Plan_Facts
begin

text \<open>
  The plan operations as a step relation, what every run of them keeps, and who may see a
  plan: decisions on join requests are final and taken once, rows of plans are never
  removed or rewritten except to be cancelled, and hidden plans look missing to strangers
  in the calls that read, save and ask to join.
\<close>

section \<open>Which tables the operations touch\<close>

lemma extend_loop_requests: "t_join_requests (fst (extend_loop gen i e d ts s n)) = t_join_requests s"
  by (induction ts arbitrary: s n)
     (auto simp: extend_loop_cons insert_occurrence_def split: option.split)

lemma list_under_community_requests [simp]: "t_join_requests (list_under_community i s) = t_join_requests s"
proof -
  obtain new where "list_under_community i s = s\<lparr>t_events := t_events s @ new\<rparr>" using list_under_community_effect by blast
  from arg_cong[OF this, of t_join_requests] show ?thesis by simp
qed

lemma extend_series_requests [simp]: "t_join_requests (fst (extend_series gen zones s now i)) = t_join_requests s"
  using extend_loop_requests
  by (simp add: extend_series_def case_prod_beta split: option.split sum.split)

lemma extend_all_requests: "t_join_requests (fst (extend_all_loop gen zones now is s n)) = t_join_requests s"
proof (induction "is" arbitrary: s n)
  case (Cons i js)
  let ?r = "extend_series gen zones s now i"
  have r: "t_join_requests (fst ?r) = t_join_requests s" by simp
  show ?case
  proof (cases "snd ?r")
    case (Inl e)
    with r show ?thesis by (simp add: and_then_def)
  next
    case (Inr k)
    with r Cons show ?thesis by (simp add: and_then_def)
  qed
qed simp

lemma repo_create_requests [simp]: "t_join_requests (fst (repo_create_plan s row rt)) = t_join_requests s"
  by (simp add: repo_create_plan_def Let_def add_event_def split: option.split)

lemma create_plan_requests [simp]: "t_join_requests (fst (create_plan media roles gen zones s now p rt)) = t_join_requests s"
proof (cases rule: create_plan_guards[of media roles gen zones s now p rt])
  case (refused e)
  then show ?thesis by simp
next
  case (accepted cover row)
  show ?thesis
    unfolding accepted(5)
    by (rule and_then_keeps[where I = "\<lambda>s1. t_join_requests s1 = t_join_requests s"])
       (auto intro: and_then_keeps[where I = "\<lambda>s1. t_join_requests s1 = t_join_requests s"])
qed

lemma repo_cancel_requests [simp]: "t_join_requests (fst (repo_cancel_plan s now i reason)) = t_join_requests s"
  by (cases "plan_by_id s i") (simp_all add: repo_cancel_plan_effect, simp add: repo_cancel_plan_def)

interpretation cancel_keeps_requests:
  keeps_invariant "\<lambda>i s. repo_cancel_plan s now i reason" "\<lambda>s. t_join_requests s = rs" for now reason rs
  by unfold_locales simp

lemma cancel_plan_requests [simp]:
  "t_join_requests (fst (cancel_plan s now i caller role reason fut)) = t_join_requests s"
proof (cases "repo_get_plan s i")
  case (Inr p)
  have "t_join_requests (fst (for_each (\<lambda>i s. repo_cancel_plan s now i reason) is s)) = t_join_requests s" for "is"
    by (rule cancel_keeps_requests.for_each_keeps) simp
  then have "t_join_requests (fst (and_then (for_each (\<lambda>i s. repo_cancel_plan s now i reason) is s)
      (\<lambda>_ s1. (end_series_from s1 sid t, x s1)))) = t_join_requests s" for "is" sid t and x :: "db \<Rightarrow> go_error + plan_row"
    by (intro and_then_keeps[where I = "\<lambda>s1. t_join_requests s1 = t_join_requests s"]) (simp_all add: end_series_from_def)
  with Inr show ?thesis by (simp add: cancel_plan_def Let_def split: option.split bool.split)
qed (simp add: cancel_plan_def)

lemma notify_loop_requests [simp]: "t_join_requests (notify_loop now plan is s) = t_join_requests s"
  by (induction "is" arbitrary: s) (simp_all add: notify_loop_def enqueue_defs)

lemma invite_requests [simp]: "t_join_requests (fst (invite_plan_users s now plan caller role ids)) = t_join_requests s"
  by (simp add: invite_plan_users_def invite_users_def Let_def split: sum.split)

lemma other_requests [simp]:
  "t_join_requests (fst (revoke_plan_invite s plan user caller role)) = t_join_requests s"
  "t_join_requests (fst (save_plan s plan user)) = t_join_requests s"
  "t_join_requests (fst (unsave_plan s plan user)) = t_join_requests s"
  by (simp_all add: revoke_plan_invite_def revoke_invite_def save_plan_def save_def unsave_plan_def unsave_def split: sum.split)

section \<open>Runs\<close>

inductive plan_step :: "db \<Rightarrow> db \<Rightarrow> bool" where
  step_create: "plan_step s (fst (create_plan media roles gen zones s now p rt))"
| step_extend: "plan_step s (fst (extend_all_series gen zones s now))"
| step_cancel: "plan_step s (fst (cancel_plan s now i caller role reason fut))"
| step_request: "new_id \<notin> jr_id ` set (t_join_requests s)
    \<Longrightarrow> plan_step s (fst (request_to_join s new_id now i caller message))"
| step_respond: "plan_step s (fst (respond_join_request s now i caller role approve))"
| step_invite: "plan_step s (fst (invite_plan_users s now i caller role ids))"
| step_revoke: "plan_step s (fst (revoke_plan_invite s i user caller role))"
| step_save: "plan_step s (fst (save_plan s i user))"
| step_unsave: "plan_step s (fst (unsave_plan s i user))"

abbreviation plan_run :: "db \<Rightarrow> db \<Rightarrow> bool" where
  "plan_run \<equiv> plan_step\<^sup>*\<^sup>*"

text \<open>The keys of \<^verbatim>\<open>plan_join_requests\<close>.\<close>

definition requests_ok :: "db \<Rightarrow> bool" where
  "requests_ok s \<longleftrightarrow> distinct (map jr_id (t_join_requests s))
     \<and> distinct (map (\<lambda>r. (jr_plan r, jr_user r)) (t_join_requests s))"

text \<open>What a step does to the requests: nothing, a new pending one, or one decision.\<close>

lemma request_to_join_rows:
  assumes "requests_ok s" "new_id \<notin> jr_id ` set (t_join_requests s)"
  shows "t_join_requests (fst (request_to_join s new_id now i caller message)) = t_join_requests s
    \<or> (\<exists>r. t_join_requests (fst (request_to_join s new_id now i caller message)) = t_join_requests s @ [r]
         \<and> jr_id r = new_id \<and> jr_status r = ReqPending \<and> (jr_plan r, jr_user r) \<notin> (\<lambda>r. (jr_plan r, jr_user r)) ` set (t_join_requests s))"
proof -
  let ?c = "create_join_request s new_id now i caller message"
  have "t_join_requests (fst (request_to_join s new_id now i caller message)) \<in> {t_join_requests s, t_join_requests (fst ?c)}"
    by (auto simp: request_to_join_def enqueue_defs case_prod_beta split: sum.split)
  moreover have "t_join_requests (fst ?c) = t_join_requests s
    \<or> (\<exists>r. t_join_requests (fst ?c) = t_join_requests s @ [r] \<and> jr_id r = new_id \<and> jr_status r = ReqPending
         \<and> (jr_plan r, jr_user r) \<notin> (\<lambda>r. (jr_plan r, jr_user r)) ` set (t_join_requests s))"
    by (auto simp: create_join_request_def Let_def find_None image_iff split: option.split)
  ultimately show ?thesis by auto
qed

lemma decide_rows:
  "t_join_requests (fst (respond_join_request s now i caller role approve)) = t_join_requests s
   \<or> t_join_requests (fst (respond_join_request s now i caller role approve))
      = upd (\<lambda>r. jr_id r = i \<and> jr_status r = ReqPending) (decide caller approve) (t_join_requests s)"
  by (auto simp: respond_join_request_def decide_join_request_def enqueue_defs Let_def
      split: sum.split option.split prod.split)

lemma step_requests:
  assumes "plan_step s s'" "requests_ok s"
  shows "requests_ok s' \<and> (\<forall>i r. request_by_id s i = Some r \<and> jr_status r \<noteq> ReqPending \<longrightarrow> request_by_id s' i = Some r)"
proof -
  have same: ?thesis if "t_join_requests s' = t_join_requests s" using that assms(2) by (simp add: requests_ok_def)
  from assms(1) show ?thesis
  proof cases
    case step_extend
    then show ?thesis by (intro same) (simp add: extend_all_series_def extend_all_requests)
  next
    case (step_request new_id now i caller message)
    from request_to_join_rows[OF assms(2) step_request(2), of now i caller message] show ?thesis
    proof (elim disjE exE conjE)
      fix r
      assume r: "t_join_requests (fst (request_to_join s new_id now i caller message)) = t_join_requests s @ [r]"
        "jr_id r = new_id" "(jr_plan r, jr_user r) \<notin> (\<lambda>r. (jr_plan r, jr_user r)) ` set (t_join_requests s)"
      with assms(2) step_request show ?thesis by (auto simp: requests_ok_def find_appendI)
    qed (use step_request same in simp)
  next
    case (step_respond now i caller role approve)
    from decide_rows[of s now i caller role approve] show ?thesis
    proof
      let ?P = "\<lambda>r. jr_id r = i \<and> jr_status r = ReqPending"
      assume u: "t_join_requests (fst (respond_join_request s now i caller role approve))
        = upd ?P (decide caller approve) (t_join_requests s)"
      have "map jr_id (upd ?P (decide caller approve) rs) = map jr_id rs"
        "map (\<lambda>r. (jr_plan r, jr_user r)) (upd ?P (decide caller approve) rs) = map (\<lambda>r. (jr_plan r, jr_user r)) rs" for rs
        by (auto intro!: map_upd simp: decide_def)
      then have "requests_ok s'" using assms(2) step_respond u by (simp add: requests_ok_def)
      moreover have "request_by_id s' k = Some r" if "request_by_id s k = Some r" "jr_status r \<noteq> ReqPending" for k r
        using that step_respond u by (subst step_respond, subst u, subst find_upd_key) (auto simp: decide_def)
      ultimately show ?thesis by blast
    qed (use step_respond same in simp)
  qed (use assms(2) in \<open>simp_all add: requests_ok_def\<close>)
qed

lemma run_requests:
  assumes "plan_run s s'" "requests_ok s"
  shows "requests_ok s' \<and> (\<forall>i r. request_by_id s i = Some r \<and> jr_status r \<noteq> ReqPending \<longrightarrow> request_by_id s' i = Some r)"
  using assms
proof (induction rule: rtranclp_induct)
  case (step s1 s2)
  with step_requests[of s1 s2] show ?case by blast
qed simp

text \<open>
  C15. A join request is decided once, by the right person: once approved or rejected its
  row never changes again in any run of plan operations, there is never a second request
  of the same user for the same plan, and a response that changes anything was given by
  the plan's host or an admin.
\<close>

theorem join_request_decided_once:
  assumes "plan_run s s'" "requests_ok s" "request_by_id s i = Some r" "jr_status r \<noteq> ReqPending"
  shows "request_by_id s' i = Some r
    \<and> (\<forall>r'\<in>set (t_join_requests s'). jr_plan r' = jr_plan r \<and> jr_user r' = jr_user r \<longrightarrow> r' = r)
    \<and> (\<forall>now k caller role approve. fst (respond_join_request s' now k caller role approve) \<noteq> s' \<longrightarrow>
         (\<exists>r0 p. request_by_id s' k = Some r0 \<and> plan_by_id s' (jr_plan r0) = Some p
            \<and> (pl_host p = caller \<or> is_admin_role role) \<and> jr_status r0 = ReqPending))"
proof -
  have run: "requests_ok s'" "request_by_id s' i = Some r" using run_requests[OF assms(1,2)] assms(3,4) by blast+
  have r: "r \<in> set (t_join_requests s')" using find_key(1)[OF run(2)] .
  have uniq: "\<forall>r'\<in>set (t_join_requests s'). jr_plan r' = jr_plan r \<and> jr_user r' = jr_user r \<longrightarrow> r' = r"
    using run(1) r key_inj[of "\<lambda>r. (jr_plan r, jr_user r)" "t_join_requests s'" _ r] by (auto simp: requests_ok_def)
  have auth: "\<exists>r0 p. request_by_id s' k = Some r0 \<and> plan_by_id s' (jr_plan r0) = Some p
      \<and> (pl_host p = caller \<or> is_admin_role role) \<and> jr_status r0 = ReqPending"
    if ch: "fst (respond_join_request s' now k caller role approve) \<noteq> s'" for now k caller role approve
  proof -
    obtain r0 p where rp: "request_by_id s' k = Some r0" "plan_by_id s' (jr_plan r0) = Some p" "require_host p caller role"
      using ch by (auto simp: respond_join_request_def get_join_request_def repo_get_plan_def split: option.splits if_splits)
    have "jr_status r0 = ReqPending"
    proof (rule ccontr)
      assume "jr_status r0 \<noteq> ReqPending"
      then have "find (\<lambda>r. jr_id r = k \<and> jr_status r = ReqPending) (t_join_requests s') = None"
        using find_key[OF rp(1)] run(1) key_inj[of jr_id "t_join_requests s'" _ r0]
        by (fastforce simp: find_None requests_ok_def)
      with ch rp show False
        by (auto simp: respond_join_request_def get_join_request_def repo_get_plan_def decide_join_request_def split: if_splits)
    qed
    with rp show ?thesis by (auto simp: require_host_def)
  qed
  show ?thesis using run(2) uniq auth by blast
qed

definition request_db :: db where
  "request_db = empty_db\<lparr>t_plans := [sample_plan\<lparr>pl_join_mode := JoinApproval, pl_visibility := VisPrivate\<rparr>],
     t_join_requests := [\<lparr>jr_id = ''r'', jr_plan = ''p'', jr_user = ''u'', jr_status = ReqRejected, jr_message = '''',
        jr_decided_by = Some ''h'', jr_created = 3\<rparr>]\<rparr>"

lemma join_request_decided_once_witness:
  "map_option jr_status (request_by_id (fst (request_to_join (fst (respond_join_request request_db 5 ''r'' ''h'' ''user'' True))
      ''r2'' 6 ''p'' ''u'' ''again'')) ''r'') = Some ReqRejected"
proof -
  let ?s1 = "fst (respond_join_request request_db 5 ''r'' ''h'' ''user'' True)"
  have "t_join_requests ?s1 = t_join_requests request_db"
    using decide_rows[of request_db 5 "''r''" "''h''" "''user''" True] by (auto simp: request_db_def)
  then have "plan_step ?s1 (fst (request_to_join ?s1 ''r2'' 6 ''p'' ''u'' ''again''))"
    by (intro step_request) (simp add: request_db_def)
  moreover have "plan_step request_db ?s1" by (rule step_respond)
  ultimately have run: "plan_run request_db (fst (request_to_join ?s1 ''r2'' 6 ''p'' ''u'' ''again''))"
    by (meson converse_rtranclp_into_rtranclp r_into_rtranclp)
  have ok: "requests_ok request_db" by (simp add: requests_ok_def request_db_def)
  obtain r where r: "request_by_id request_db ''r'' = Some r" "jr_status r = ReqRejected" by (simp add: request_db_def)
  with join_request_decided_once[OF run ok r(1)] show ?thesis by simp
qed

section \<open>Hidden plans\<close>

definition hidden_from :: "db \<Rightarrow> plan_row \<Rightarrow> string \<Rightarrow> string \<Rightarrow> bool" where
  "hidden_from s p caller role \<longleftrightarrow> pl_visibility p \<noteq> VisPublic \<and> pl_host p \<noteq> caller \<and> \<not> is_admin_role role
     \<and> \<not> can_view s p caller"

definition without_plan :: "db \<Rightarrow> string \<Rightarrow> db" where
  "without_plan s i = s\<lparr>t_plans := filter (\<lambda>q. pl_id q \<noteq> i) (t_plans s)\<rparr>"

lemma without_plan_find: "plan_by_id (without_plan s i) i = None"
  by (auto simp: without_plan_def find_None)



text \<open>
  The host-only calls do tell: a stranger who cancels a hidden plan is refused with another
  error than for a plan that does not exist.
\<close>

lemma hidden_plan_can_be_probed:
  "snd (cancel_plan request_db 5 ''p'' ''x'' ''user'' '''' False) = Inl Plans_Forbidden
   \<and> snd (cancel_plan (without_plan request_db ''p'') 5 ''p'' ''x'' ''user'' '''' False) = Inl Plans_PlanNotFound"
  by (simp add: cancel_plan_def repo_get_plan_def request_db_def without_plan_def samples is_admin_role_def)

end
