(* ===== verification/Auth.thy ===== *)
theory Auth
  imports Store
begin

text \<open>
  Sign-in, sessions and account recovery (\<^verbatim>\<open>internal/auth\<close>) over the tables that package
  owns. The OAuth verifiers, the token hash and the access token issuer are parameters;
  random tokens and generated ids are arguments of the operation that draws them. What the
  e-mail sender is given is kept in a log, as are the analytics events.
\<close>

section \<open>Tables\<close>

record account =
  ac_id :: string
  ac_email :: string
  ac_role :: string
  ac_status :: user_status
  ac_recovery :: "string option"
  ac_verified :: "int option"
  ac_adult :: bool

record identity_row =
  id_provider :: string
  id_subject :: string
  id_user :: string
  id_email :: string

record device_row =
  dv_id :: string
  dv_user :: string
  dv_device :: string
  dv_platform :: "string option"
  dv_push :: "string option"

record refresh_row =
  rt_user :: string
  rt_device :: "string option"
  rt_hash :: string
  rt_expires :: int
  rt_revoked :: "int option"

record code_row =
  co_user :: string
  co_hash :: string
  co_purpose :: string
  co_expires :: int
  co_used :: "int option"

record auth_db =
  au_accounts :: "account list"
  au_profiles :: "(string \<times> string) list"
  au_identities :: "identity_row list"
  au_devices :: "device_row list"
  au_tokens :: "refresh_row list"
  au_codes :: "code_row list"
  au_mails :: "(string \<times> string \<times> string) list"
  au_events :: "(string \<times> string) list"

definition empty_auth :: auth_db where
  "empty_auth = \<lparr>au_accounts = [], au_profiles = [], au_identities = [], au_devices = [], au_tokens = [], au_codes = [],
     au_mails = [], au_events = []\<rparr>"

record tokens =
  tk_user :: string
  tk_access :: string
  tk_refresh :: string
  tk_expires :: int

text \<open>The configuration: hash, access tokens with their lifetime, verifiers, sender, recorder.\<close>

record auth_config =
  cf_hash :: "string \<Rightarrow> string"
  cf_issue :: "string \<Rightarrow> string \<Rightarrow> int \<Rightarrow> string"
  cf_ttl :: int
  cf_google :: "(string \<Rightarrow> (string \<times> string) option) option"
  cf_apple :: "(string \<Rightarrow> (string \<times> string) option) option"
  cf_sender :: bool
  cf_recorder :: bool

definition refresh_token_ttl :: int where [time_defs]: "refresh_token_ttl = 30 * 24 * hour"
definition recovery_code_ttl :: int where [time_defs]: "recovery_code_ttl = 15 * minute"
definition purpose_verify_email :: string where "purpose_verify_email = ''verify_recovery_email''"
definition purpose_account_recover :: string where "purpose_account_recover = ''account_recovery''"

section \<open>Repository\<close>

abbreviation account_by_id :: "auth_db \<Rightarrow> string \<Rightarrow> account option" where
  "account_by_id s u \<equiv> find (\<lambda>a. ac_id a = u) (au_accounts s)"

definition get_user_by_id :: "auth_db \<Rightarrow> string \<Rightarrow> go_error + account" where
  "get_user_by_id s u = (case account_by_id s u of None \<Rightarrow> Inl (Auth AuthUserNotFound) | Some a \<Rightarrow> Inr a)"

definition find_by_provider_identity :: "auth_db \<Rightarrow> string \<Rightarrow> string \<Rightarrow> go_error + account" where
  "find_by_provider_identity s provider subject =
    (case find (\<lambda>i. id_provider i = provider \<and> id_subject i = subject) (au_identities s) of
       None \<Rightarrow> Inl (Auth AuthUserNotFound)
     | Some i \<Rightarrow> get_user_by_id s (id_user i))"

definition create_user_from_oauth ::
  "auth_db \<Rightarrow> string \<Rightarrow> string \<Rightarrow> bool \<Rightarrow> string \<Rightarrow> string \<Rightarrow> string \<Rightarrow> (auth_db, string) outcome" where
  "create_user_from_oauth s new_id email adult provider subject provider_email =
    in_tx s
      (if \<exists>a\<in>set (au_accounts s). ac_email a = email then (s, Inl DB_UniqueViolation)
       else if \<exists>i\<in>set (au_identities s). id_provider i = provider \<and> id_subject i = subject
       then (s, Inl DB_UniqueViolation)
       else (s\<lparr>au_accounts := au_accounts s @ [\<lparr>ac_id = new_id, ac_email = email, ac_role = ''user'',
                  ac_status = UserActive, ac_recovery = None, ac_verified = None, ac_adult = adult\<rparr>],
               au_profiles := au_profiles s @ [(new_id, '''')],
               au_identities := au_identities s @ [\<lparr>id_provider = provider, id_subject = subject,
                  id_user = new_id, id_email = provider_email\<rparr>]\<rparr>,
             Inr new_id))"

definition link_oauth_identity :: "auth_db \<Rightarrow> string \<Rightarrow> string \<Rightarrow> string \<Rightarrow> string \<Rightarrow> auth_db" where
  "link_oauth_identity s user provider subject email =
    (let P = (\<lambda>i. id_provider i = provider \<and> id_subject i = subject)
     in s\<lparr>au_identities :=
           (if \<exists>i\<in>set (au_identities s). P i then upd P (\<lambda>i. i\<lparr>id_user := user\<rparr>) (au_identities s)
            else au_identities s @ [\<lparr>id_provider = provider, id_subject = subject, id_user = user, id_email = email\<rparr>])\<rparr>)"

definition upsert_device :: "auth_db \<Rightarrow> string \<Rightarrow> string \<Rightarrow> string \<Rightarrow> string \<Rightarrow> (auth_db, string) outcome" where
  "upsert_device s new_id user device platform =
    (if device = '''' then (s, Inr '''')
     else if platform \<notin> {'''', ''ios'', ''android''} then (s, Inl DB_CheckViolation)
     else case find (\<lambda>d. dv_user d = user \<and> dv_device d = device) (au_devices s) of
         None \<Rightarrow> (s\<lparr>au_devices := au_devices s @ [\<lparr>dv_id = new_id, dv_user = user, dv_device = device,
                      dv_platform = nullif platform, dv_push = None\<rparr>]\<rparr>, Inr new_id)
       | Some d \<Rightarrow> (s\<lparr>au_devices := upd (\<lambda>d. dv_user d = user \<and> dv_device d = device)
                      (\<lambda>d. d\<lparr>dv_platform := nullif platform\<rparr>) (au_devices s)\<rparr>, Inr (dv_id d)))"

definition store_refresh_token ::
  "auth_db \<Rightarrow> string \<Rightarrow> string \<Rightarrow> string \<Rightarrow> int \<Rightarrow> (auth_db, unit) outcome" where
  "store_refresh_token s user device h expires =
    (if \<exists>t\<in>set (au_tokens s). rt_hash t = h then (s, Inl DB_UniqueViolation)
     else (s\<lparr>au_tokens := au_tokens s @ [\<lparr>rt_user = user, rt_device = nullif device, rt_hash = h,
               rt_expires = expires, rt_revoked = None\<rparr>]\<rparr>, Inr ()))"

text \<open>A token that can still be used; the \<^verbatim>\<open>UPDATE\<close>s that revoke set the time.\<close>

definition usable :: "int \<Rightarrow> refresh_row \<Rightarrow> bool" where
  "usable now t \<longleftrightarrow> rt_revoked t = None \<and> now < rt_expires t"

definition revoke_where :: "(refresh_row \<Rightarrow> bool) \<Rightarrow> int \<Rightarrow> auth_db \<Rightarrow> auth_db" where
  "revoke_where P now s = s\<lparr>au_tokens := upd P (\<lambda>t. t\<lparr>rt_revoked := Some now\<rparr>) (au_tokens s)\<rparr>"

definition replay_grace :: int where [time_defs]: "replay_grace = 60 * second"

definition replayed :: "int \<Rightarrow> string \<Rightarrow> refresh_row \<Rightarrow> bool" where
  "replayed now h t \<longleftrightarrow> rt_hash t = h \<and> now < rt_expires t
     \<and> (case rt_revoked t of None \<Rightarrow> False | Some r \<Rightarrow> r < now - replay_grace)"

definition revoke_family_if_replayed :: "auth_db \<Rightarrow> int \<Rightarrow> string \<Rightarrow> auth_db" where
  "revoke_family_if_replayed s now h =
    (case find (replayed now h) (au_tokens s) of
       None \<Rightarrow> s
     | Some t \<Rightarrow> revoke_where (\<lambda>x. rt_user x = rt_user t \<and> rt_revoked x = None) now s)"

definition consume_refresh_token :: "auth_db \<Rightarrow> int \<Rightarrow> string \<Rightarrow> (auth_db, refresh_row) outcome" where
  "consume_refresh_token s now h =
    (case find (\<lambda>t. rt_hash t = h \<and> usable now t) (au_tokens s) of
       None \<Rightarrow> (revoke_family_if_replayed s now h, Inl (Auth AuthRefreshTokenInvalid))
     | Some t \<Rightarrow> (revoke_where (\<lambda>t. rt_hash t = h \<and> usable now t) now s, Inr t))"

definition revoke_device_tokens :: "auth_db \<Rightarrow> int \<Rightarrow> string \<Rightarrow> string \<Rightarrow> auth_db" where
  "revoke_device_tokens s now user device =
    (case find (\<lambda>d. dv_user d = user \<and> dv_device d = device) (au_devices s) of
       None \<Rightarrow> s
     | Some d \<Rightarrow> revoke_where (\<lambda>t. rt_user t = user \<and> rt_revoked t = None \<and> rt_device t = Some (dv_id d)) now s)"

definition set_pending_recovery_email :: "auth_db \<Rightarrow> string \<Rightarrow> string \<Rightarrow> (auth_db, unit) outcome" where
  "set_pending_recovery_email s user email =
    (if (\<exists>a\<in>set (au_accounts s). ac_id a \<noteq> user \<and> ac_recovery a = Some email) \<and> (\<exists>a\<in>set (au_accounts s). ac_id a = user)
     then (s, Inl (Auth AuthEmailAlreadyUsed))
     else (s\<lparr>au_accounts := upd (\<lambda>a. ac_id a = user) (\<lambda>a. a\<lparr>ac_recovery := Some email, ac_verified := None\<rparr>)
               (au_accounts s)\<rparr>, Inr ()))"

definition mark_recovery_email_verified :: "auth_db \<Rightarrow> int \<Rightarrow> string \<Rightarrow> auth_db" where
  "mark_recovery_email_verified s now user =
     s\<lparr>au_accounts := upd (\<lambda>a. ac_id a = user) (\<lambda>a. a\<lparr>ac_verified := Some now\<rparr>) (au_accounts s)\<rparr>"

definition create_recovery_code ::
  "auth_db \<Rightarrow> string \<Rightarrow> string \<Rightarrow> string \<Rightarrow> int \<Rightarrow> (auth_db, unit) outcome" where
  "create_recovery_code s user h purpose expires =
    (if \<exists>c\<in>set (au_codes s). co_hash c = h then (s, Inl DB_UniqueViolation)
     else (s\<lparr>au_codes := au_codes s @ [\<lparr>co_user = user, co_hash = h, co_purpose = purpose, co_expires = expires,
               co_used = None\<rparr>]\<rparr>, Inr ()))"

definition live_code :: "int \<Rightarrow> string \<Rightarrow> string \<Rightarrow> code_row \<Rightarrow> bool" where
  "live_code now h purpose c \<longleftrightarrow> co_hash c = h \<and> co_purpose c = purpose \<and> co_used c = None \<and> now < co_expires c"

definition consume_recovery_code :: "auth_db \<Rightarrow> int \<Rightarrow> string \<Rightarrow> string \<Rightarrow> (auth_db, string) outcome" where
  "consume_recovery_code s now h purpose =
    (case find (live_code now h purpose) (au_codes s) of
       None \<Rightarrow> (s, Inl (Auth AuthRecoveryCodeInvalid))
     | Some c \<Rightarrow> (s\<lparr>au_codes := upd (live_code now h purpose) (\<lambda>c. c\<lparr>co_used := Some now\<rparr>) (au_codes s)\<rparr>, Inr (co_user c)))"

definition find_by_verified_recovery_email :: "auth_db \<Rightarrow> string \<Rightarrow> go_error + account" where
  "find_by_verified_recovery_email s email =
    (case find (\<lambda>a. ac_recovery a = Some email \<and> ac_verified a \<noteq> None) (au_accounts s) of
       None \<Rightarrow> Inl (Auth AuthUserNotFound) | Some a \<Rightarrow> Inr a)"

section \<open>Service\<close>

definition recovery_body :: "string \<Rightarrow> string" where
  "recovery_body code = ''<p>Your code is: <strong>'' @ code @ ''</strong></p><p>This code expires in 15 minutes.</p>''"

definition send_recovery_code ::
  "auth_config \<Rightarrow> auth_db \<Rightarrow> int \<Rightarrow> string \<Rightarrow> string \<Rightarrow> string \<Rightarrow> string \<Rightarrow> (auth_db, unit) outcome" where
  "send_recovery_code c s now code user to purpose =
     and_then (create_recovery_code s user (cf_hash c code) purpose (now + recovery_code_ttl)) (\<lambda>_ s1.
       (if cf_sender c
        then s1\<lparr>au_mails := au_mails s1 @ [(to,
               if purpose = purpose_account_recover then ''Your HiveMind account recovery code''
               else ''Verify your HiveMind recovery email'', recovery_body code)]\<rparr>
        else s1, Inr ()))"

definition record_session :: "auth_config \<Rightarrow> string \<Rightarrow> auth_db \<Rightarrow> auth_db" where
  "record_session c user s = (if cf_recorder c then s\<lparr>au_events := au_events s @ [(user, ''session_active'')]\<rparr> else s)"

definition issue_tokens ::
  "auth_config \<Rightarrow> auth_db \<Rightarrow> int \<Rightarrow> string \<Rightarrow> string \<Rightarrow> string \<Rightarrow> string \<Rightarrow> (auth_db, tokens) outcome" where
  "issue_tokens c s now refresh user role device =
     and_then (store_refresh_token s user device (cf_hash c refresh) (now + refresh_token_ttl)) (\<lambda>_ s1.
       (record_session c user s1,
        Inr \<lparr>tk_user = user, tk_access = cf_issue c user role now, tk_refresh = refresh, tk_expires = now + cf_ttl c\<rparr>))"

definition issue_session ::
  "auth_config \<Rightarrow> auth_db \<Rightarrow> int \<Rightarrow> string \<Rightarrow> string \<Rightarrow> string \<Rightarrow> string \<Rightarrow> string \<Rightarrow> string \<Rightarrow> (auth_db, tokens) outcome" where
  "issue_session c s now dev_id refresh user role device platform =
     and_then (upsert_device s dev_id user device platform) (\<lambda>d s1. issue_tokens c s1 now refresh user role d)"

definition sign_in_with_provider ::
  "auth_config \<Rightarrow> auth_db \<Rightarrow> int \<Rightarrow> string \<Rightarrow> string \<Rightarrow> string \<Rightarrow> (string \<Rightarrow> (string \<times> string) option) \<Rightarrow> string
    \<Rightarrow> string \<Rightarrow> string \<Rightarrow> string \<Rightarrow> (auth_db, tokens) outcome" where
  "sign_in_with_provider c s now new_id dev_id refresh verify provider id_token device platform =
    (if id_token = '''' then (s, Inl (Auth AuthInvalidInput))
     else case verify id_token of
         None \<Rightarrow> (s, Inl (Auth AuthOAuthTokenInvalid))
       | Some (subject, email) \<Rightarrow>
           (case find_by_provider_identity s provider subject of
              Inr u \<Rightarrow>
                if ac_status u \<noteq> UserActive then (s, Inl (Auth AuthUserInactive))
                else issue_session c s now dev_id refresh (ac_id u) (ac_role u) device platform
            | Inl e \<Rightarrow>
                if e \<noteq> Auth AuthUserNotFound then (s, Inl e)
                else and_then (create_user_from_oauth s new_id email False provider subject email) (\<lambda>user s1.
                  issue_session c s1 now dev_id refresh user ''user'' device platform)))"

definition sign_in_with_google ::
  "auth_config \<Rightarrow> auth_db \<Rightarrow> int \<Rightarrow> string \<Rightarrow> string \<Rightarrow> string \<Rightarrow> string \<Rightarrow> string \<Rightarrow> string \<Rightarrow> (auth_db, tokens) outcome" where
  "sign_in_with_google c s now new_id dev_id refresh id_token device platform =
    (case cf_google c of None \<Rightarrow> (s, Inl (Auth AuthProviderUnavailable))
     | Some v \<Rightarrow> sign_in_with_provider c s now new_id dev_id refresh v ''google'' id_token device platform)"

definition sign_in_with_apple ::
  "auth_config \<Rightarrow> auth_db \<Rightarrow> int \<Rightarrow> string \<Rightarrow> string \<Rightarrow> string \<Rightarrow> string \<Rightarrow> string \<Rightarrow> string \<Rightarrow> (auth_db, tokens) outcome" where
  "sign_in_with_apple c s now new_id dev_id refresh id_token device platform =
    (case cf_apple c of None \<Rightarrow> (s, Inl (Auth AuthProviderUnavailable))
     | Some v \<Rightarrow> sign_in_with_provider c s now new_id dev_id refresh v ''apple'' id_token device platform)"

definition refresh_token :: "auth_config \<Rightarrow> auth_db \<Rightarrow> int \<Rightarrow> string \<Rightarrow> string \<Rightarrow> (auth_db, tokens) outcome" where
  "refresh_token c s now fresh token =
    (if token = '''' then (s, Inl (Auth AuthInvalidInput))
     else and_then (consume_refresh_token s now (cf_hash c token)) (\<lambda>t s1.
       case get_user_by_id s1 (rt_user t) of
         Inl e \<Rightarrow> (s1, Inl e)
       | Inr u \<Rightarrow>
           if ac_status u \<noteq> UserActive then (s1, Inl (Auth AuthUserInactive))
           else issue_tokens c s1 now fresh (ac_id u) (ac_role u) (coalesce (rt_device t))))"

definition sign_out :: "auth_db \<Rightarrow> int \<Rightarrow> string \<Rightarrow> string \<Rightarrow> (auth_db, unit) outcome" where
  "sign_out s now user device =
     (if user = '''' then (s, Inl (Auth AuthInvalidInput)) else (revoke_device_tokens s now user device, Inr ()))"

definition add_recovery_email ::
  "auth_config \<Rightarrow> auth_db \<Rightarrow> int \<Rightarrow> string \<Rightarrow> string \<Rightarrow> string \<Rightarrow> (auth_db, unit) outcome" where
  "add_recovery_email c s now code user email =
    (if user = '''' \<or> email = '''' then (s, Inl (Auth AuthInvalidInput))
     else and_then (set_pending_recovery_email s user email)
       (\<lambda>_ s1. send_recovery_code c s1 now code user email purpose_verify_email))"

definition verify_recovery_email :: "auth_config \<Rightarrow> auth_db \<Rightarrow> int \<Rightarrow> string \<Rightarrow> string \<Rightarrow> (auth_db, unit) outcome" where
  "verify_recovery_email c s now user code =
    (if user = '''' \<or> code = '''' then (s, Inl (Auth AuthInvalidInput))
     else and_then (consume_recovery_code s now (cf_hash c code) purpose_verify_email) (\<lambda>owner s1.
       if owner \<noteq> user then (s1, Inl (Auth AuthRecoveryCodeInvalid))
       else (mark_recovery_email_verified s1 now user, Inr ())))"

definition request_account_recovery ::
  "auth_config \<Rightarrow> auth_db \<Rightarrow> int \<Rightarrow> string \<Rightarrow> string \<Rightarrow> (auth_db, unit) outcome" where
  "request_account_recovery c s now code email =
    (if email = '''' then (s, Inl (Auth AuthInvalidInput))
     else case find_by_verified_recovery_email s email of
         Inl e \<Rightarrow> if e = Auth AuthUserNotFound then (s, Inr ()) else (s, Inl e)
       | Inr u \<Rightarrow> send_recovery_code c s now code (ac_id u) email purpose_account_recover)"

definition recover_account ::
  "auth_config \<Rightarrow> auth_db \<Rightarrow> int \<Rightarrow> string \<Rightarrow> string \<Rightarrow> string \<Rightarrow> string \<Rightarrow> string \<Rightarrow> string \<Rightarrow> string
    \<Rightarrow> (auth_db, tokens) outcome" where
  "recover_account c s now dev_id refresh code provider id_token device platform =
    (if code = '''' \<or> id_token = '''' then (s, Inl (Auth AuthInvalidInput))
     else if provider \<noteq> ''google'' \<and> provider \<noteq> ''apple'' then (s, Inl (Auth AuthInvalidInput))
     else case (if provider = ''google'' then cf_google c else cf_apple c) of
         None \<Rightarrow> (s, Inl (Auth AuthProviderUnavailable))
       | Some verify \<Rightarrow>
           and_then (consume_recovery_code s now (cf_hash c code) purpose_account_recover) (\<lambda>user s1.
             case verify id_token of
               None \<Rightarrow> (s1, Inl (Auth AuthOAuthTokenInvalid))
             | Some (subject, email) \<Rightarrow>
                 let s2 = link_oauth_identity s1 user provider subject email
                 in case get_user_by_id s2 user of
                      Inl e \<Rightarrow> (s2, Inl e)
                    | Inr u \<Rightarrow> issue_session c s2 now dev_id refresh (ac_id u) (ac_role u) device platform))"

lemmas auth_repo_defs = get_user_by_id_def create_user_from_oauth_def link_oauth_identity_def upsert_device_def
  store_refresh_token_def set_pending_recovery_email_def mark_recovery_email_verified_def create_recovery_code_def
  consume_recovery_code_def

lemmas auth_service_defs = send_recovery_code_def record_session_def issue_tokens_def issue_session_def
  sign_in_with_provider_def sign_in_with_google_def sign_in_with_apple_def refresh_token_def sign_out_def
  add_recovery_email_def verify_recovery_email_def request_account_recovery_def recover_account_def

end
