(* ===== verification/Auth_Facts.thy ===== *)
theory Auth_Facts
  imports Auth
begin

text \<open>
  What sign-in promises: refresh tokens are used once, whatever else happens in between; a
  copied token takes every session of its user down; rotating a token is the exchange of
  one live session for another; and recovery codes are used once. Two lemmas show where
  the code does less than its comments say.
\<close>

section \<open>Every operation only ever adds and revokes\<close>

definition tokens_le :: "auth_db \<Rightarrow> auth_db \<Rightarrow> bool" where
  "tokens_le s s' \<longleftrightarrow> (\<forall>t\<in>set (au_tokens s). \<exists>t'\<in>set (au_tokens s').
     rt_hash t' = rt_hash t \<and> rt_user t' = rt_user t \<and> (rt_revoked t \<noteq> None \<longrightarrow> t' = t))"

definition codes_le :: "auth_db \<Rightarrow> auth_db \<Rightarrow> bool" where
  "codes_le s s' \<longleftrightarrow> (\<forall>c\<in>set (au_codes s). \<exists>c'\<in>set (au_codes s').
     co_hash c' = co_hash c \<and> (co_used c \<noteq> None \<longrightarrow> c' = c))"

definition auth_ok :: "auth_db \<Rightarrow> bool" where
  "auth_ok s \<longleftrightarrow> distinct (map rt_hash (au_tokens s)) \<and> distinct (map co_hash (au_codes s))"

definition auth_le :: "auth_db \<Rightarrow> auth_db \<Rightarrow> bool" where
  "auth_le s s' \<longleftrightarrow> tokens_le s s' \<and> codes_le s s' \<and> (auth_ok s \<longrightarrow> auth_ok s')"

named_theorems auth_le_intros \<open>an operation of the package only adds rows and revokes\<close>

lemma auth_le_refl [auth_le_intros]: "auth_le s s"
  by (auto simp: auth_le_def tokens_le_def codes_le_def)

lemma auth_le_trans: "auth_le s s1 \<Longrightarrow> auth_le s1 s2 \<Longrightarrow> auth_le s s2"
  unfolding auth_le_def tokens_le_def codes_le_def by metis

lemma auth_le_same:
  assumes "au_tokens s' = au_tokens s" "au_codes s' = au_codes s"
  shows "auth_le s s'"
  using assms by (auto simp: auth_le_def tokens_le_def codes_le_def auth_ok_def)

lemma auth_le_and_then:
  assumes "auth_le s (fst r)" "\<And>a s1. r = (s1, Inr a) \<Longrightarrow> auth_le s1 (fst (k a s1))"
  shows "auth_le s (fst (and_then r k))"
proof (cases r)
  case (Pair s1 x)
  with assms show ?thesis by (cases x) (auto intro: auth_le_trans)
qed

lemma auth_le_in_tx: "auth_le s (fst r) \<Longrightarrow> auth_le s (fst (in_tx s r))"
  by (rule in_tx_keeps[where I = "auth_le s"]) (rule auth_le_refl)

lemma upd_image: "r \<in> set rs \<Longrightarrow> (if P r then f r else r) \<in> set (upd P f rs)"
  by (auto simp: set_upd)

lemma le_revoke [auth_le_intros]:
  assumes "\<And>t. P t \<Longrightarrow> rt_revoked t = None"
  shows "auth_le s (revoke_where P now s)"
proof -
  have "map rt_hash (upd P (\<lambda>t. t\<lparr>rt_revoked := Some now\<rparr>) (au_tokens s)) = map rt_hash (au_tokens s)"
    by (rule map_upd) simp
  moreover have "tokens_le s (revoke_where P now s)"
    unfolding tokens_le_def
  proof (rule ballI, rule bexI)
    fix t assume "t \<in> set (au_tokens s)"
    from upd_image[OF this] show "(if P t then t\<lparr>rt_revoked := Some now\<rparr> else t) \<in> set (au_tokens (revoke_where P now s))"
      by (simp add: revoke_where_def)
  qed (use assms in auto)
  ultimately show ?thesis by (simp add: auth_le_def codes_le_def auth_ok_def revoke_where_def) auto
qed

lemma le_store [auth_le_intros]: "auth_le s (fst (store_refresh_token s user device h expires))"
  by (auto simp: store_refresh_token_def auth_le_def tokens_le_def codes_le_def auth_ok_def image_iff)

lemma le_family [auth_le_intros]: "auth_le s (revoke_family_if_replayed s now h)"
  by (auto simp: revoke_family_if_replayed_def intro!: auth_le_intros split: option.split)

lemma le_consume [auth_le_intros]: "auth_le s (fst (consume_refresh_token s now h))"
  by (auto simp: consume_refresh_token_def usable_def intro!: auth_le_intros split: option.split)

lemma le_revoke_device [auth_le_intros]: "auth_le s (revoke_device_tokens s now user device)"
  by (auto simp: revoke_device_tokens_def intro!: auth_le_intros split: option.split)

lemma le_create_code [auth_le_intros]: "auth_le s (fst (create_recovery_code s user h purpose expires))"
  by (auto simp: create_recovery_code_def auth_le_def tokens_le_def codes_le_def auth_ok_def image_iff)

lemma le_consume_code [auth_le_intros]: "auth_le s (fst (consume_recovery_code s now h purpose))"
proof (cases "find (live_code now h purpose) (au_codes s)")
  case (Some c)
  let ?u = "upd (live_code now h purpose) (\<lambda>c. c\<lparr>co_used := Some now\<rparr>) (au_codes s)"
  have "map co_hash ?u = map co_hash (au_codes s)" by (rule map_upd) simp
  moreover have "\<exists>c'\<in>set ?u. co_hash c' = co_hash c \<and> (co_used c \<noteq> None \<longrightarrow> c' = c)" if "c \<in> set (au_codes s)" for c
    by (rule bexI[OF _ upd_image[OF that]]) (auto simp: live_code_def)
  ultimately show ?thesis using Some
    by (auto simp: consume_recovery_code_def auth_le_def tokens_le_def codes_le_def auth_ok_def)
qed (simp add: consume_recovery_code_def auth_le_refl)

lemma le_accounts [auth_le_intros]:
  "auth_le s (fst (create_user_from_oauth s i email adult provider subject mail))"
  "auth_le s (link_oauth_identity s user provider subject mail)"
  "auth_le s (fst (upsert_device s i user device platform))"
  "auth_le s (fst (set_pending_recovery_email s user email))"
  "auth_le s (mark_recovery_email_verified s now user)"
  "auth_le s (record_session c user s)"
  by (auto intro!: auth_le_same auth_le_in_tx simp: create_user_from_oauth_def link_oauth_identity_def upsert_device_def
      set_pending_recovery_email_def mark_recovery_email_verified_def record_session_def Let_def split: option.split)

lemma le_issue_session [auth_le_intros]:
  "auth_le s (fst (issue_tokens c s now refresh user role device))"
  "auth_le s (fst (issue_session c s now i refresh user role device' platform))"
proof -
  show t: "auth_le s (fst (issue_tokens c s now refresh user role device))" for s device
    unfolding issue_tokens_def by (rule auth_le_and_then) (auto intro: auth_le_intros)
  show "auth_le s (fst (issue_session c s now i refresh user role device' platform))"
    unfolding issue_session_def by (rule auth_le_and_then) (auto intro: t auth_le_intros)
qed

lemma le_send_code [auth_le_intros]: "auth_le s (fst (send_recovery_code c s now code user to purpose))"
  unfolding send_recovery_code_def
  by (rule auth_le_and_then) (auto intro: auth_le_intros auth_le_same)

lemma le_sign_in [auth_le_intros]:
  "auth_le s (fst (sign_in_with_provider c s now i d refresh v provider id_token device platform))"
  by (auto simp: sign_in_with_provider_def intro: auth_le_intros
      intro!: auth_le_and_then split: option.split sum.split)


section \<open>Runs\<close>

inductive auth_step :: "auth_config \<Rightarrow> auth_db \<Rightarrow> auth_db \<Rightarrow> bool" for c where
  google: "auth_step c s (fst (sign_in_with_google c s now i d fresh id_token device platform))"
| apple: "auth_step c s (fst (sign_in_with_apple c s now i d fresh id_token device platform))"
| refresh: "auth_step c s (fst (refresh_token c s now fresh token))"
| sign_out: "auth_step c s (fst (sign_out s now user device))"
| add_email: "auth_step c s (fst (add_recovery_email c s now code user email))"
| verify_email: "auth_step c s (fst (verify_recovery_email c s now user code))"
| request_recovery: "auth_step c s (fst (request_account_recovery c s now code email))"
| recover: "auth_step c s (fst (recover_account c s now d fresh code provider id_token device platform))"

abbreviation auth_run :: "auth_config \<Rightarrow> auth_db \<Rightarrow> auth_db \<Rightarrow> bool" where
  "auth_run c \<equiv> (auth_step c)\<^sup>*\<^sup>*"

lemma le_refresh: "auth_le s (fst (refresh_token c s now fresh token))"
proof -
  have "auth_le s1 (fst (case get_user_by_id s1 (rt_user t) of
         Inl e \<Rightarrow> (s1, Inl e)
       | Inr u \<Rightarrow>
           if ac_status u \<noteq> UserActive then (s1, Inl (Auth AuthUserInactive))
           else issue_tokens c s1 now fresh (ac_id u) (ac_role u) (coalesce (rt_device t))))" for s1 t
    by (auto intro: auth_le_intros split: sum.split)
  then show ?thesis unfolding refresh_token_def
    by (auto intro: auth_le_intros auth_le_and_then)
qed

lemma le_recover: "auth_le s (fst (recover_account c s now d fresh code provider id_token device platform))"
proof -
  have "auth_le s1 (fst (case verify id_token of
               None \<Rightarrow> (s1, Inl (Auth AuthOAuthTokenInvalid))
             | Some (subject, email) \<Rightarrow>
                 let s2 = link_oauth_identity s1 user provider subject email
                 in case get_user_by_id s2 user of
                      Inl e \<Rightarrow> (s2, Inl e)
                    | Inr u \<Rightarrow> issue_session c s2 now d fresh (ac_id u) (ac_role u) device platform))"
    for s1 user and verify :: "string \<Rightarrow> (string \<times> string) option"
    by (auto simp: Let_def intro: auth_le_intros auth_le_trans[OF le_accounts(2)] split: option.split sum.split)
  then show ?thesis unfolding recover_account_def
    by (auto intro: auth_le_intros auth_le_and_then split: option.split)
qed

lemma step_le: "auth_step c s s' \<Longrightarrow> auth_le s s'"
proof (induction rule: auth_step.induct)
  case (verify_email s now user code)
  have "auth_le s1 (fst (if owner \<noteq> user then (s1, Inl (Auth AuthRecoveryCodeInvalid))
      else (mark_recovery_email_verified s1 now user, Inr ())))" for s1 owner
    by (auto intro: auth_le_intros)
  then show ?case unfolding verify_recovery_email_def by (auto intro: auth_le_intros auth_le_and_then)
next
  case (add_email s now code user email)
  show ?case unfolding add_recovery_email_def by (auto intro: auth_le_intros auth_le_and_then)
qed (auto simp: sign_in_with_google_def sign_in_with_apple_def sign_out_def request_account_recovery_def
    intro: auth_le_intros le_refresh le_recover split: option.split sum.split)

lemma run_le: "auth_run c s s' \<Longrightarrow> auth_le s s'"
  by (induction rule: rtranclp_induct) (auto intro: auth_le_refl auth_le_trans step_le)

section \<open>Single use\<close>

lemma revoked_stays:
  assumes "auth_le s s'" "auth_ok s" "t \<in> set (au_tokens s)" "rt_revoked t \<noteq> None"
  shows "\<not> (\<exists>x\<in>set (au_tokens s'). rt_hash x = rt_hash t \<and> usable now x)"
proof -
  have "t \<in> set (au_tokens s')" "distinct (map rt_hash (au_tokens s'))"
    using assms unfolding auth_le_def tokens_le_def auth_ok_def by metis+
  then show ?thesis using assms(4) key_inj[of rt_hash "au_tokens s'" _ t] by (auto simp: usable_def)
qed

lemma consume_revokes:
  assumes "consume_refresh_token s now h = (s', Inr t)"
  shows "\<exists>t'\<in>set (au_tokens s'). rt_hash t' = h \<and> rt_revoked t' = Some now" "rt_hash t = h" "t \<in> set (au_tokens s)"
    "usable now t"
proof -
  have f: "find (\<lambda>t. rt_hash t = h \<and> usable now t) (au_tokens s) = Some t"
    and s': "s' = revoke_where (\<lambda>t. rt_hash t = h \<and> usable now t) now s"
    using assms by (auto simp: consume_refresh_token_def split: option.splits)
  show t: "rt_hash t = h" "t \<in> set (au_tokens s)" "usable now t" using f by (auto simp: find_Some_iff)
  show "\<exists>t'\<in>set (au_tokens s'). rt_hash t' = h \<and> rt_revoked t' = Some now"
    using upd_image[OF t(2), of "\<lambda>t. rt_hash t = h \<and> usable now t" "\<lambda>t. t\<lparr>rt_revoked := Some now\<rparr>"] t
    by (intro bexI[of _ "t\<lparr>rt_revoked := Some now\<rparr>"]) (auto simp: s' revoke_where_def)
qed

lemma consume_none:
  assumes "\<not> (\<exists>x\<in>set (au_tokens s). rt_hash x = h \<and> usable now x)"
  shows "consume_refresh_token s now h = (revoke_family_if_replayed s now h, Inl (Auth AuthRefreshTokenInvalid))"
proof -
  have "find (\<lambda>t. rt_hash t = h \<and> usable now t) (au_tokens s) = None" using assms by (auto simp: find_None)
  then show ?thesis by (simp add: consume_refresh_token_def)
qed

lemma refresh_consumes:
  assumes "refresh_token c s now fresh token = (s1, r)" "token \<noteq> ''''" "r \<noteq> Inl (Auth AuthRefreshTokenInvalid)"
  shows "\<exists>s0 t. consume_refresh_token s now (cf_hash c token) = (s0, Inr t) \<and> auth_le s0 s1"
proof (cases "consume_refresh_token s now (cf_hash c token)")
  case (Pair s0 x)
  show ?thesis
  proof (cases x)
    case (Inl e)
    with Pair have "e = Auth AuthRefreshTokenInvalid" by (auto simp: consume_refresh_token_def split: option.splits)
    with Pair Inl assms show ?thesis by (simp add: refresh_token_def)
  next
    case (Inr t)
    have "auth_le s0 (fst (case get_user_by_id s0 (rt_user t) of
         Inl e \<Rightarrow> (s0, Inl e)
       | Inr u \<Rightarrow>
           if ac_status u \<noteq> UserActive then (s0, Inl (Auth AuthUserInactive))
           else issue_tokens c s0 now fresh (ac_id u) (ac_role u) (coalesce (rt_device t))))"
      by (auto intro: auth_le_intros split: sum.split)
    with Pair Inr assms(1,2) show ?thesis by (auto simp: refresh_token_def)
  qed
qed

text \<open>
  C17. A refresh token works at most once: after any call that accepted it (even one that was
  then refused because the account is suspended), whatever sign-ins, refreshes, sign-outs
  and recoveries follow, presenting it again is refused as invalid.
\<close>

theorem refresh_token_single_use:
  assumes "auth_ok s" "token \<noteq> ''''"
    and "refresh_token c s now fresh token = (s1, r)" "r \<noteq> Inl (Auth AuthRefreshTokenInvalid)"
    and "auth_run c s1 s2"
  shows "snd (refresh_token c s2 now' fresh' token) = Inl (Auth AuthRefreshTokenInvalid)"
proof -
  obtain s0 t where c: "consume_refresh_token s now (cf_hash c token) = (s0, Inr t)" "auth_le s0 s1"
    using refresh_consumes[OF assms(3,2,4)] by blast
  obtain t' where t': "t' \<in> set (au_tokens s0)" "rt_hash t' = cf_hash c token" "rt_revoked t' = Some now"
    using consume_revokes(1)[OF c(1)] by blast
  have "auth_ok s0" using le_consume[of s now "cf_hash c token"] assms(1) c(1) by (simp add: auth_le_def)
  moreover have "auth_le s0 s2" using c(2) run_le[OF assms(5)] by (rule auth_le_trans)
  ultimately have "\<not> (\<exists>x\<in>set (au_tokens s2). rt_hash x = cf_hash c token \<and> usable now' x)"
    using revoked_stays[of s0 s2 t' now'] t' by simp
  from consume_none[OF this] show ?thesis using assms(2) by (simp add: refresh_token_def)
qed

definition sample_auth :: auth_config where
  "sample_auth = \<lparr>cf_hash = (\<lambda>t. CHR ''#'' # t), cf_issue = (\<lambda>u r n. u @ '':'' @ r), cf_ttl = hour,
     cf_google = Some (\<lambda>t. if t = ''idt'' then Some (''sub'', ''u@x'') else None), cf_apple = None, cf_sender = True,
     cf_recorder = False\<rparr>"

definition session_db :: auth_db where
  "session_db = empty_auth\<lparr>au_accounts := [\<lparr>ac_id = ''u'', ac_email = ''u@x'', ac_role = ''user'', ac_status = UserActive,
       ac_recovery = Some ''r@x'', ac_verified = Some 1, ac_adult = True\<rparr>],
     au_devices := [\<lparr>dv_id = ''d1'', dv_user = ''u'', dv_device = ''phone'', dv_platform = None, dv_push = None\<rparr>,
       \<lparr>dv_id = ''d2'', dv_user = ''u'', dv_device = ''tablet'', dv_platform = None, dv_push = None\<rparr>],
     au_tokens := [\<lparr>rt_user = ''u'', rt_device = Some ''d1'', rt_hash = ''#a'', rt_expires = 1000 * hour, rt_revoked = None\<rparr>,
       \<lparr>rt_user = ''u'', rt_device = Some ''d2'', rt_hash = ''#b'', rt_expires = 1000 * hour, rt_revoked = None\<rparr>]\<rparr>"

lemmas auth_samples = sample_auth_def session_db_def empty_auth_def

lemma refresh_token_single_use_witness:
  "snd (refresh_token sample_auth (fst (sign_out (fst (refresh_token sample_auth session_db 5 ''c'' ''a'')) 6 ''u'' ''tablet''))
     7 ''e'' ''a'') = Inl (Auth AuthRefreshTokenInvalid)"
proof -
  have ok: "auth_ok session_db" by (simp add: auth_ok_def auth_samples)
  obtain s1 tk where r: "refresh_token sample_auth session_db 5 ''c'' ''a'' = (s1, Inr tk)"
    by (simp add: refresh_token_def consume_refresh_token_def usable_def revoke_where_def get_user_by_id_def issue_tokens_def
        store_refresh_token_def coalesce_def auth_samples time_defs)
  have "auth_run sample_auth s1 (fst (sign_out s1 6 ''u'' ''tablet''))" by (rule r_into_rtranclp) (rule auth_step.sign_out)
  from refresh_token_single_use[OF ok _ r _ this, of 7 "''e''"] r show ?thesis by simp
qed


section \<open>Replay of a used token\<close>

lemma revoke_where_rows:
  "t \<in> set (au_tokens (revoke_where P now s)) \<longleftrightarrow>
     (\<exists>t0\<in>set (au_tokens s). t = (if P t0 then t0\<lparr>rt_revoked := Some now\<rparr> else t0))"
  by (auto simp: revoke_where_def set_upd)

lemma revoked_row: "t = t0\<lparr>rt_revoked := Some now\<rparr> \<Longrightarrow> rt_revoked t = Some now \<and> rt_hash t = rt_hash t0 \<and> rt_user t = rt_user t0"
  by simp

text \<open>
  C18. Presenting a token that was used or revoked more than a minute ago, and has not
  expired, takes every session of its user down: no refresh token of that user works any
  more, whatever is presented and whenever, until a new session is issued; the sessions of
  other users stay as they were. Within the minute, a retry changes nothing.
\<close>

theorem replay_revokes_every_session:
  assumes "auth_ok s" "t \<in> set (au_tokens s)" "rt_hash t = cf_hash c token" "token \<noteq> ''''"
    and "rt_revoked t = Some at" "now < rt_expires t"
    and "refresh_token c s now fresh token = (s', r)"
  shows "r = Inl (Auth AuthRefreshTokenInvalid)
    \<and> (if at < now - replay_grace
       then (\<forall>x now'. x \<in> set (au_tokens s') \<and> rt_user x = rt_user t \<longrightarrow> \<not> usable now' x)
         \<and> (\<forall>x. rt_user x \<noteq> rt_user t \<longrightarrow> (x \<in> set (au_tokens s') \<longleftrightarrow> x \<in> set (au_tokens s)))
       else s' = s)"
proof -
  let ?h = "cf_hash c token"
  have only: "x = t" if "x \<in> set (au_tokens s)" "rt_hash x = ?h" for x
    using that assms(1-3) key_inj[of rt_hash "au_tokens s" x t] by (simp add: auth_ok_def)
  have "\<not> (\<exists>x\<in>set (au_tokens s). rt_hash x = ?h \<and> usable now x)" using only assms(5) by (auto simp: usable_def)
  from consume_none[OF this] have res: "s' = revoke_family_if_replayed s now ?h" "r = Inl (Auth AuthRefreshTokenInvalid)"
    using assms(4,7) by (simp_all add: refresh_token_def)
  show ?thesis
  proof (cases "at < now - replay_grace")
    case True
    have "find (replayed now ?h) (au_tokens s) \<noteq> None"
      using assms(2,3,5,6) True by (auto simp: find_None replayed_def)
    then obtain x where x: "find (replayed now ?h) (au_tokens s) = Some x" by auto
    then have "x = t" using only by (auto simp: find_Some_iff replayed_def)
    with x have s': "s' = revoke_where (\<lambda>x. rt_user x = rt_user t \<and> rt_revoked x = None) now s"
      by (simp add: res(1) revoke_family_if_replayed_def)
    have "\<not> usable now' x" if "x \<in> set (au_tokens s')" "rt_user x = rt_user t" for x now'
      using that by (auto simp: s' revoke_where_rows usable_def dest: revoked_row split: if_splits)
    moreover have "x \<in> set (au_tokens s') \<longleftrightarrow> x \<in> set (au_tokens s)" if "rt_user x \<noteq> rt_user t" for x
      using that by (auto simp: s' revoke_where_rows split: if_splits)
    ultimately show ?thesis using res(2) True by simp
  next
    case False
    have "find (replayed now ?h) (au_tokens s) = None"
      using only False assms(5) by (auto simp: find_None replayed_def)
    then show ?thesis using res False by (simp add: revoke_family_if_replayed_def)
  qed
qed

definition used_db :: auth_db where
  "used_db = session_db\<lparr>au_tokens := [\<lparr>rt_user = ''u'', rt_device = Some ''d1'', rt_hash = ''#a'', rt_expires = 1000 * hour,
       rt_revoked = Some 5\<rparr>,
     \<lparr>rt_user = ''u'', rt_device = Some ''d2'', rt_hash = ''#b'', rt_expires = 1000 * hour, rt_revoked = None\<rparr>]\<rparr>"

lemma replay_revokes_every_session_witness:
  "\<not> (\<exists>x. x \<in> set (au_tokens (fst (refresh_token sample_auth used_db (2 * minute) ''c'' ''a''))) \<and> rt_user x = ''u''
       \<and> usable (3 * minute) x)"
proof -
  let ?t = "\<lparr>rt_user = ''u'', rt_device = Some ''d1'', rt_hash = ''#a'', rt_expires = 1000 * hour, rt_revoked = Some 5\<rparr>"
  obtain s' r where r: "refresh_token sample_auth used_db (2 * minute) ''c'' ''a'' = (s', r)" by fastforce
  have ok: "auth_ok used_db" "?t \<in> set (au_tokens used_db)" "rt_hash ?t = cf_hash sample_auth ''a''" "''a'' \<noteq> ''''"
    "rt_revoked ?t = Some 5" "2 * minute < rt_expires ?t"
    by (simp_all add: auth_ok_def used_db_def auth_samples time_defs)
  from replay_revokes_every_session[OF ok r] have "\<not> usable (3 * minute) x" if "x \<in> set (au_tokens s')" "rt_user x = ''u''" for x
    using that by (simp add: time_defs)
  with r show ?thesis by auto
qed

text \<open>
  Revoked is not used: a device that was signed out and merely tries its old token again
  later takes down a session its user has opened on another device since.
\<close>

lemma signed_out_device_kills_other_sessions:
  "map rt_revoked (au_tokens (fst (refresh_token sample_auth (fst (sign_out session_db 5 ''u'' ''phone'')) (2 * minute) ''c'' ''a'')))
     = [Some 5, Some (2 * minute)]"
  by (simp add: refresh_token_def consume_refresh_token_def usable_def revoke_where_def sign_out_def revoke_device_tokens_def
      revoke_family_if_replayed_def replayed_def auth_samples time_defs)

section \<open>Rotation as the exchange of sessions\<close>

text \<open>
  The abstract store: which token hash is a live session of whom at a given time. A provider
  consumes a live session for good, refuses anything else, and opens a new one.
\<close>

locale session_store =
  fixes ok :: "'s \<Rightarrow> bool"
    and live :: "'s \<Rightarrow> int \<Rightarrow> string \<Rightarrow> 'k option"
    and consume :: "'s \<Rightarrow> int \<Rightarrow> string \<Rightarrow> ('s, 't) outcome"
    and owner :: "'t \<Rightarrow> 'k"
    and open_session :: "'s \<Rightarrow> 'k \<Rightarrow> string \<Rightarrow> int \<Rightarrow> ('s, unit) outcome"
  assumes consume_live: "ok s \<Longrightarrow> consume s now h = (s', Inr t) \<Longrightarrow>
      live s now h = Some (owner t) \<and> live s' n = (live s n)(h := None) \<and> ok s'"
    and open_live: "ok s \<Longrightarrow> open_session s k h expires = (s', Inr u) \<Longrightarrow>
      live s' n = (live s n)(h := if n < expires then Some k else None) \<and> ok s'"
begin

lemma rotate:
  assumes "ok s" "consume s now h = (s1, Inr t)" "open_session s1 (owner t) h' expires = (s2, Inr u)"
  shows "live s now h = Some (owner t) \<and> ok s2
    \<and> live s2 n = (live s n)(h := None, h' := if n < expires then Some (owner t) else None)"
  using consume_live[OF assms(1,2)] open_live[OF _ assms(3)] by simp

end

definition owner_of :: "refresh_row \<Rightarrow> string \<times> string" where
  "owner_of t = (rt_user t, coalesce (rt_device t))"

definition live_sessions :: "auth_db \<Rightarrow> int \<Rightarrow> string \<Rightarrow> (string \<times> string) option" where
  "live_sessions s now h = map_option owner_of (find (\<lambda>t. rt_hash t = h \<and> usable now t) (au_tokens s))"

definition open_refresh :: "auth_db \<Rightarrow> string \<times> string \<Rightarrow> string \<Rightarrow> int \<Rightarrow> (auth_db, unit) outcome" where
  "open_refresh s k h expires = store_refresh_token s (fst k) (snd k) h expires"

text \<open>Revoking the one row of a hash removes it from the live sessions and touches no other.\<close>

lemma find_revoke:
  assumes "distinct (map rt_hash ts)" "find (\<lambda>t. rt_hash t = h \<and> usable now t) ts = Some t"
  shows "find (\<lambda>t. rt_hash t = k \<and> usable n t) (upd (\<lambda>t. rt_hash t = h \<and> usable now t) (\<lambda>t. t\<lparr>rt_revoked := Some now\<rparr>) ts)
    = (if k = h then None else find (\<lambda>t. rt_hash t = k \<and> usable n t) ts)"
proof (cases "k = h")
  case True
  have t: "t \<in> set ts" "rt_hash t = h" "usable now t" using assms(2) by (auto simp: find_Some_iff)
  have "\<not> (rt_hash x = h \<and> usable n x)"
    if "x \<in> set (upd (\<lambda>t. rt_hash t = h \<and> usable now t) (\<lambda>t. t\<lparr>rt_revoked := Some now\<rparr>) ts)" for x
    using that
  proof (cases rule: upd_memE)
    case 2
    then show ?thesis using key_inj[OF assms(1) 2(1) t(1)] t by auto
  qed (simp add: usable_def)
  with True show ?thesis by (simp add: find_None)
next
  case False
  then show ?thesis by (induction ts) auto
qed

interpretation refresh_store: session_store auth_ok live_sessions consume_refresh_token owner_of open_refresh
proof
  fix s s' now h t n
  assume ok: "auth_ok s" and c: "consume_refresh_token s now h = (s', Inr t)"
  have f: "find (\<lambda>t. rt_hash t = h \<and> usable now t) (au_tokens s) = Some t"
    and s': "s' = revoke_where (\<lambda>t. rt_hash t = h \<and> usable now t) now s"
    using c by (auto simp: consume_refresh_token_def split: option.splits)
  have "live_sessions s' n k = ((live_sessions s n)(h := None)) k" for k
    using find_revoke[OF _ f, of k n] ok by (simp add: live_sessions_def s' revoke_where_def auth_ok_def)
  moreover have "auth_ok s'" using le_consume[of s now h] ok c by (simp add: auth_le_def)
  ultimately show "live_sessions s now h = Some (owner_of t) \<and> live_sessions s' n = (live_sessions s n)(h := None) \<and> auth_ok s'"
    using f by (auto simp: live_sessions_def)
next
  fix s k h expires s' u n
  assume ok: "auth_ok s" and o: "open_refresh s k h expires = (s', Inr u)"
  let ?t = "\<lparr>rt_user = fst k, rt_device = nullif (snd k), rt_hash = h, rt_expires = expires, rt_revoked = None\<rparr>"
  have new: "\<forall>t\<in>set (au_tokens s). rt_hash t \<noteq> h" and s': "s' = s\<lparr>au_tokens := au_tokens s @ [?t]\<rparr>"
    using o by (auto simp: open_refresh_def store_refresh_token_def split: if_splits)
  have "live_sessions s' n x = ((live_sessions s n)(h := if n < expires then Some k else None)) x" for x
  proof (cases "x = h")
    case True
    then show ?thesis using new
      by (simp add: live_sessions_def s' find_append_skip usable_def owner_of_def)
  next
    case False
    have "find (\<lambda>t. rt_hash t = x \<and> usable n t) (ts @ [?t]) = find (\<lambda>t. rt_hash t = x \<and> usable n t) ts" for ts
      using False by (induction ts) auto
    with False show ?thesis by (simp add: live_sessions_def s')
  qed
  moreover have "auth_ok s'" using ok new by (auto simp: auth_ok_def s')
  ultimately show "live_sessions s' n = (live_sessions s n)(h := if n < expires then Some k else None) \<and> auth_ok s'" by auto
qed

lemma live_only_tokens: "au_tokens s' = au_tokens s \<Longrightarrow> live_sessions s' = live_sessions s"
  by (intro ext) (simp add: live_sessions_def)

text \<open>
  C19. Refreshing implements rotation: the presented token was a live session of an active
  account, and the database after it represents the same sessions with exactly that one
  exchanged for the new token of the same user and device, valid for thirty days.
\<close>

theorem refresh_refines_rotation:
  assumes "auth_ok s" "refresh_token c s now fresh token = (s', Inr tk)"
  shows "\<exists>u d a. live_sessions s now (cf_hash c token) = Some (u, d)
    \<and> account_by_id s u = Some a \<and> ac_status a = UserActive
    \<and> tk_user tk = u \<and> tk_refresh tk = fresh \<and> tk_access tk = cf_issue c u (ac_role a) now
    \<and> (\<forall>n. live_sessions s' n = (live_sessions s n)(cf_hash c token := None,
          cf_hash c fresh := if n < now + refresh_token_ttl then Some (u, d) else None))"
proof -
  obtain s1 t where c: "consume_refresh_token s now (cf_hash c token) = (s1, Inr t)"
    using refresh_consumes[OF assms(2)] assms(2) by (cases "token = ''''") (auto simp: refresh_token_def)
  obtain a where a: "account_by_id s1 (rt_user t) = Some a" "ac_status a = UserActive"
      "issue_tokens c s1 now fresh (ac_id a) (ac_role a) (coalesce (rt_device t)) = (s', Inr tk)"
    using assms(2) c by (auto simp: refresh_token_def get_user_by_id_def split: if_splits option.splits)
  have id: "ac_id a = rt_user t" using find_key(2)[OF a(1)] .
  obtain s2 where s2: "store_refresh_token s1 (rt_user t) (coalesce (rt_device t)) (cf_hash c fresh) (now + refresh_token_ttl)
        = (s2, Inr ())" "s' = record_session c (rt_user t) s2"
      "tk = \<lparr>tk_user = rt_user t, tk_access = cf_issue c (rt_user t) (ac_role a) now, tk_refresh = fresh, tk_expires = now + cf_ttl c\<rparr>"
    using a(3) id by (auto simp: issue_tokens_def and_then_eq_Inr)
  have "open_refresh s1 (owner_of t) (cf_hash c fresh) (now + refresh_token_ttl) = (s2, Inr ())"
    using s2(1) by (simp add: open_refresh_def owner_of_def)
  note rot = refresh_store.rotate[OF assms(1) c this]
  have s1: "account_by_id s (rt_user t) = Some a"
    using a(1) c by (auto simp: consume_refresh_token_def revoke_where_def split: option.splits)
  have "live_sessions s' = live_sessions s2" using s2(2) by (intro live_only_tokens) (simp add: record_session_def)
  then show ?thesis using rot s1 a(2) s2(3) by (auto simp: owner_of_def)
qed

lemma refresh_refines_rotation_witness:
  "\<exists>s' tk. refresh_token sample_auth session_db 5 ''c'' ''a'' = (s', Inr tk)
     \<and> live_sessions s' 9 ''#a'' = None \<and> live_sessions s' 9 ''#c'' = Some (''u'', ''d1'')"
proof -
  have ok: "auth_ok session_db" by (simp add: auth_ok_def auth_samples)
  obtain s' tk where r: "refresh_token sample_auth session_db 5 ''c'' ''a'' = (s', Inr tk)"
    by (simp add: refresh_token_def consume_refresh_token_def usable_def revoke_where_def get_user_by_id_def issue_tokens_def
        store_refresh_token_def coalesce_def auth_samples time_defs)
  have "live_sessions session_db 5 ''#a'' = Some (''u'', ''d1'')"
    by (simp add: live_sessions_def usable_def owner_of_def coalesce_def auth_samples time_defs)
  with refresh_refines_rotation[OF ok r] r show ?thesis by (auto simp: sample_auth_def time_defs)
qed

section \<open>Recovery\<close>

text \<open>
  Two things recovery lets through: a code proves the address it was sent to, but verifies
  whatever address the account names when it is entered; and a suspended account gets a
  session back by recovering.
\<close>

lemma verified_without_owning:
  "let s1 = fst (add_recovery_email sample_auth session_db 1 ''k1'' ''u'' ''mine@x'');
       s2 = fst (add_recovery_email sample_auth s1 2 ''k2'' ''u'' ''other@x'');
       s3 = fst (verify_recovery_email sample_auth s2 3 ''u'' ''k1'')
   in map (\<lambda>a. (ac_recovery a, ac_verified a)) (au_accounts s3) = [(Some ''other@x'', Some 3)]"
  by (simp add: Let_def add_recovery_email_def set_pending_recovery_email_def send_recovery_code_def create_recovery_code_def
      verify_recovery_email_def consume_recovery_code_def live_code_def mark_recovery_email_verified_def
      purpose_verify_email_def purpose_account_recover_def auth_samples time_defs)

lemma suspended_account_recovers:
  "let s0 = session_db\<lparr>au_accounts := map (ac_status_update (\<lambda>_. UserSuspended)) (au_accounts session_db)\<rparr>;
       s1 = fst (request_account_recovery sample_auth s0 1 ''k1'' ''r@x'');
       r = snd (recover_account sample_auth s1 2 ''d3'' ''f'' ''k1'' ''google'' ''idt'' '''' '''')
   in r = Inr \<lparr>tk_user = ''u'', tk_access = ''u:user'', tk_refresh = ''f'', tk_expires = 2 + hour\<rparr>"
  by (simp add: Let_def request_account_recovery_def find_by_verified_recovery_email_def send_recovery_code_def
      create_recovery_code_def recover_account_def consume_recovery_code_def live_code_def link_oauth_identity_def
      get_user_by_id_def issue_session_def upsert_device_def issue_tokens_def store_refresh_token_def record_session_def
      purpose_verify_email_def purpose_account_recover_def auth_samples time_defs)

end
