(* ===== verification/Connections.thy ===== *)
theory Connections
  imports Recurrence
begin

text \<open>
  Connections between people (\<^verbatim>\<open>internal/connections\<close>): asking, answering, the state two
  people are in, and the small groups that meet again after a plan. The chat service that
  opens a room is the port the package declares.
\<close>

section \<open>Repository\<close>

definition pair_row :: "string \<Rightarrow> string \<Rightarrow> connection_row \<Rightarrow> bool" where
  "pair_row a b r \<longleftrightarrow> (cn_requester r = a \<and> cn_recipient r = b) \<or> (cn_requester r = b \<and> cn_recipient r = a)"

abbreviation connection_by_id :: "db \<Rightarrow> string \<Rightarrow> connection_row option" where
  "connection_by_id s k \<equiv> find (\<lambda>r. cn_id r = k) (t_connections s)"

definition both_confirmed :: "db \<Rightarrow> string \<Rightarrow> string \<Rightarrow> string \<Rightarrow> bool" where
  "both_confirmed s plan a b \<longleftrightarrow> a \<noteq> b
     \<and> (\<forall>u\<in>{a, b}. \<exists>p\<in>set (t_participants s). pp_plan p = plan \<and> pp_user p = u \<and> pp_status p = PartConfirmed)"

definition request_event :: "connection_row \<Rightarrow> event" where
  "request_event r = \<lparr>ev_user = cn_recipient r, ev_actor = cn_requester r, ev_type = ''connection_request'',
     ev_target = cn_id r, ev_title = ''{actor} wants to connect with you'', ev_body = '''',
     ev_link = ''hivemind://people/'' @ cn_requester r, ev_dedupe = ''connreq:'' @ cn_id r\<rparr>"

definition accepted_event :: "connection_row \<Rightarrow> string \<Rightarrow> string \<Rightarrow> event" where
  "accepted_event r actor title = \<lparr>ev_user = cn_requester r, ev_actor = actor, ev_type = ''connection_accepted'',
     ev_target = cn_id r, ev_title = title, ev_body = '''', ev_link = ''hivemind://people/'' @ actor,
     ev_dedupe = ''connacc:'' @ cn_id r\<rparr>"

definition set_conn :: "db \<Rightarrow> string \<Rightarrow> connection_status \<Rightarrow> db" where
  "set_conn s i st = s\<lparr>t_connections := upd (\<lambda>r. cn_id r = i) (\<lambda>r. r\<lparr>cn_status := st\<rparr>) (t_connections s)\<rparr>"

definition create_connection ::
  "db \<Rightarrow> int \<Rightarrow> string \<Rightarrow> string \<Rightarrow> string \<Rightarrow> string \<Rightarrow> (db, connection_row) outcome" where
  "create_connection s now new_id me other origin =
    (if \<not> ((\<exists>u\<in>set (t_users s). us_id u = other) \<and> \<not> blocked s me other) then (s, Inl (Connections ConnUserNotFound))
     else if origin \<noteq> '''' \<and> \<not> both_confirmed s origin me other then (s, Inl (Connections ConnBadOriginPlan))
     else case find (pair_row me other) (t_connections s) of
         Some r \<Rightarrow>
           if cn_status r = ConnectionPending \<and> cn_recipient r = me
           then (fst (emit (set_conn s (cn_id r) ConnectionAccepted) now
                   (accepted_event r me ''You and {actor} are now connected'')),
                 Inr (r\<lparr>cn_status := ConnectionAccepted\<rparr>))
           else (s, Inr r)
       | None \<Rightarrow>
           let r = \<lparr>cn_id = new_id, cn_requester = me, cn_recipient = other, cn_origin = origin,
                    cn_status = ConnectionPending, cn_created = now\<rparr>
           in (fst (emit (s\<lparr>t_connections := t_connections s @ [r]\<rparr>) now (request_event r)), Inr r))"

definition connection_state :: "db \<Rightarrow> string \<Rightarrow> string \<Rightarrow> string \<times> string" where
  "connection_state s me other =
    (case sort_key (\<lambda>r. - cn_created r) (filter (pair_row me other) (t_connections s)) of
       [] \<Rightarrow> (''none'', '''')
     | r # _ \<Rightarrow>
         if cn_status r = ConnectionAccepted then (''connected'', cn_id r)
         else if cn_status r = ConnectionPending \<and> cn_requester r = me then (''pending_outgoing'', cn_id r)
         else if cn_status r = ConnectionPending then (''pending_incoming'', cn_id r)
         else (''none'', ''''))"

definition get_connection :: "db \<Rightarrow> string \<Rightarrow> go_error + connection_row" where
  "get_connection s i = (case connection_by_id s i of None \<Rightarrow> Inl (Connections ConnNotFound) | Some r \<Rightarrow> Inr r)"

definition repo_respond :: "db \<Rightarrow> string \<Rightarrow> bool \<Rightarrow> (db, connection_row) outcome" where
  "repo_respond s i accept =
    (let st = (if accept then ConnectionAccepted else ConnectionRejected)
     in case find (\<lambda>r. cn_id r = i \<and> cn_status r = ConnectionPending) (t_connections s) of
          Some r \<Rightarrow>
            (s\<lparr>t_connections := upd (\<lambda>r. cn_id r = i \<and> cn_status r = ConnectionPending) (\<lambda>r. r\<lparr>cn_status := st\<rparr>)
                (t_connections s)\<rparr>, Inr (r\<lparr>cn_status := st\<rparr>))
        | None \<Rightarrow>
            (case get_connection s i of
               Inl e \<Rightarrow> (s, Inl e)
             | Inr r \<Rightarrow> if cn_status r = st then (s, Inr r) else (s, Inl (Connections ConnAlreadyDecided))))"

definition list_for_user :: "db \<Rightarrow> string \<Rightarrow> connection_status option \<Rightarrow> string \<Rightarrow> nat \<Rightarrow> connection_row list" where
  "list_for_user s u st direction limit =
     take limit (sort_key (\<lambda>r. - cn_created r) (filter (\<lambda>r.
       (if direction = ''incoming'' then cn_recipient r = u
        else if direction = ''outgoing'' then cn_requester r = u
        else cn_requester r = u \<or> cn_recipient r = u)
       \<and> (st = None \<or> st = Some (cn_status r))) (t_connections s)))"

section \<open>Meeting again\<close>

definition max_meet_again_invitees :: nat where "max_meet_again_invitees = 5"

text \<open>The view \<^verbatim>\<open>attended_bookings\<close>: one row per booking, so possibly several of a user.\<close>

definition attended_bookings :: "db \<Rightarrow> int \<Rightarrow> booking_row list" where
  "attended_bookings s now = filter (\<lambda>b. \<exists>p\<in>set (t_plans s). pl_id p = bk_plan b
     \<and> (bk_status b = Attended
        \<or> (bk_status b = Confirmed \<and> pl_ends p < now \<and> pl_status p \<in> {Published, Completed}))) (t_bookings s)"

definition attended :: "db \<Rightarrow> int \<Rightarrow> string \<Rightarrow> string \<Rightarrow> bool" where
  "attended s now plan user \<longleftrightarrow> (\<exists>b\<in>set (attended_bookings s now). bk_plan b = plan \<and> bk_user b = user)"

definition connected :: "db \<Rightarrow> string \<Rightarrow> string \<Rightarrow> bool" where
  "connected s a b \<longleftrightarrow> (\<exists>r\<in>set (t_connections s). pair_row a b r \<and> cn_status r = ConnectionAccepted)"

definition eligible_invitees :: "db \<Rightarrow> int \<Rightarrow> string \<Rightarrow> string \<Rightarrow> string list \<Rightarrow> int" where
  "eligible_invitees s now plan caller ids =
     cnt (\<lambda>b. bk_plan b = plan \<and> bk_user b \<in> set ids \<and> connected s caller (bk_user b) \<and> \<not> blocked s caller (bk_user b))
       (attended_bookings s now)"

definition display_name :: "db \<Rightarrow> string \<Rightarrow> string" where
  "display_name s u = (case find (\<lambda>p. fst p = u) (t_profiles s) of
     None \<Rightarrow> ''Someone'' | Some (_, n) \<Rightarrow> if n = '''' then ''Someone'' else n)"

definition notify_invitees :: "int \<Rightarrow> string \<Rightarrow> string list \<Rightarrow> string \<Rightarrow> db \<Rightarrow> db" where
  "notify_invitees now name ids room s =
     fold (\<lambda>i s. enqueue_notify_user s now i ''Meet again?'' (name @ '' started a small group chat with you.'')
       (''hivemind://chat/'' @ room) ''push'') ids s"

text \<open>The state shown beside a person met; photos and occupations are not columns of the model.\<close>

definition met_state :: "db \<Rightarrow> string \<Rightarrow> string \<Rightarrow> string" where
  "met_state s caller u = (case find (pair_row caller u) (t_connections s) of
     None \<Rightarrow> ''none''
   | Some r \<Rightarrow> (case cn_status r of ConnectionAccepted \<Rightarrow> ''connected'' | ConnectionPending \<Rightarrow> ''pending'' | ConnectionRejected \<Rightarrow> ''none''))"

definition people_met :: "db \<Rightarrow> int \<Rightarrow> string \<Rightarrow> string \<Rightarrow> (string \<times> string \<times> string) list" where
  "people_met s now plan caller =
     sort_key (\<lambda>x. fst (snd x)) (List.map_filter (\<lambda>b.
       if bk_plan b = plan \<and> bk_user b \<noteq> caller \<and> \<not> blocked s caller (bk_user b)
       then map_option (\<lambda>p. (bk_user b, snd p, met_state s caller (bk_user b))) (find (\<lambda>p. fst p = bk_user b) (t_profiles s))
       else None) (attended_bookings s now))"

section \<open>Service\<close>

definition request_connection ::
  "db \<Rightarrow> int \<Rightarrow> string \<Rightarrow> string \<Rightarrow> string \<Rightarrow> string \<Rightarrow> (db, connection_row) outcome" where
  "request_connection s now new_id me other origin =
    (if me = '''' \<or> other = '''' \<or> me = other then (s, Inl (Connections ConnInvalidInput))
     else create_connection s now new_id me other origin)"

definition list_connections :: "db \<Rightarrow> string \<Rightarrow> connection_status option \<Rightarrow> string \<Rightarrow> go_error + connection_row list" where
  "list_connections s u st direction =
    (if u = '''' then Inl (Connections ConnInvalidInput) else Inr (list_for_user s u st direction 20))"

definition respond_connection :: "db \<Rightarrow> int \<Rightarrow> string \<Rightarrow> string \<Rightarrow> bool \<Rightarrow> (db, connection_row) outcome" where
  "respond_connection s now i caller accept =
    (if i = '''' \<or> caller = '''' then (s, Inl (Connections ConnInvalidInput))
     else case get_connection s i of
         Inl e \<Rightarrow> (s, Inl e)
       | Inr c \<Rightarrow>
           if cn_recipient c \<noteq> caller then (s, Inl (Connections ConnForbidden))
           else and_then (repo_respond s i accept) (\<lambda>out s1.
             (if accept \<and> cn_status out = ConnectionAccepted \<and> cn_status c = ConnectionPending
              then fst (emit s1 now (accepted_event out caller ''{actor} accepted your connection request''))
              else s1, Inr out)))"

definition get_status :: "db \<Rightarrow> string \<Rightarrow> string \<Rightarrow> go_error + string \<times> string" where
  "get_status s me other =
     (if me = '''' \<or> other = '''' then Inl (Connections ConnInvalidInput) else Inr (connection_state s me other))"

definition list_people_met :: "db \<Rightarrow> int \<Rightarrow> string \<Rightarrow> string \<Rightarrow> go_error + (string \<times> string \<times> string) list" where
  "list_people_met s now plan caller =
    (if plan = '''' \<or> caller = '''' then Inl (Connections ConnInvalidInput)
     else if \<not> attended s now plan caller then Inl (Connections ConnNotAttendee)
     else Inr (people_met s now plan caller))"

definition create_meet_again_group ::
  "(string list \<Rightarrow> db \<Rightarrow> (db, string) outcome) option \<Rightarrow> bool \<Rightarrow> db \<Rightarrow> int \<Rightarrow> string \<Rightarrow> string \<Rightarrow> string list \<Rightarrow> string
    \<Rightarrow> (db, string) outcome" where
  "create_meet_again_group rooms guard s now plan caller invitees key =
    (case rooms of
       None \<Rightarrow> (s, Inl (Connections ConnInvalidInput))
     | Some create_room \<Rightarrow>
         if plan = '''' \<or> caller = '''' \<or> invitees = [] \<or> max_meet_again_invitees < length invitees
         then (s, Inl (Connections ConnInvalidInput))
         else if '''' \<in> set invitees \<or> \<not> distinct (caller # invitees) then (s, Inl (Connections ConnInvalidInput))
         else if \<not> attended s now plan caller then (s, Inl (Connections ConnNotAttendee))
         else if eligible_invitees s now plan caller invitees \<noteq> int (length invitees)
         then (s, Inl (Connections ConnInviteeRules))
         else and_then (if guard \<and> key \<noteq> '''' then reserve s now (''meetagain:'' @ caller @ '':'' @ key) else (s, Inr ()))
           (\<lambda>_ s1. and_then (create_room (caller # invitees) s1)
             (\<lambda>room s2. (notify_invitees now (display_name s2 caller) invitees room s2, Inr room))))"


section \<open>One row per pair\<close>

abbreviation pair :: "connection_row \<Rightarrow> string set" where
  "pair r \<equiv> {cn_requester r, cn_recipient r}"

lemma pair_row_iff: "pair_row a b r \<longleftrightarrow> pair r = {a, b}"
  by (auto simp: pair_row_def doubleton_eq_iff)

definition conns_ok :: "db \<Rightarrow> bool" where
  "conns_ok s \<longleftrightarrow> distinct (map cn_id (t_connections s)) \<and> distinct (map pair (t_connections s))
     \<and> (\<forall>r\<in>set (t_connections s). cn_requester r \<noteq> cn_recipient r)"

text \<open>Rows stay, keep their people, and are rewritten only while they are pending.\<close>

definition conns_le :: "db \<Rightarrow> db \<Rightarrow> bool" where
  "conns_le s s' \<longleftrightarrow> (\<forall>r\<in>set (t_connections s). \<exists>r'\<in>set (t_connections s').
     cn_id r' = cn_id r \<and> cn_requester r' = cn_requester r \<and> cn_recipient r' = cn_recipient r
     \<and> (cn_status r \<noteq> ConnectionPending \<longrightarrow> r' = r))"

lemma conns_le_refl: "conns_le s s"
  by (auto simp: conns_le_def)

lemma conns_le_trans: "conns_le s s1 \<Longrightarrow> conns_le s1 s2 \<Longrightarrow> conns_le s s2"
  unfolding conns_le_def by metis

lemma emit_connections [simp]: "t_connections (fst (emit s now e)) = t_connections s"
  by (simp add: emit_def)

inductive connection_step :: "db \<Rightarrow> db \<Rightarrow> bool" where
  ask: "new_id \<notin> cn_id ` set (t_connections s)
    \<Longrightarrow> connection_step s (fst (request_connection s now new_id me other origin))"
| answer: "connection_step s (fst (respond_connection s now i caller accept))"

inductive_cases connection_stepE: "connection_step s s'"

abbreviation connection_run :: "db \<Rightarrow> db \<Rightarrow> bool" where
  "connection_run \<equiv> connection_step\<^sup>*\<^sup>*"

text \<open>The three things a step can do to the table.\<close>

lemma set_status_rows:
  assumes "conns_ok s" "t_connections s' = upd P (\<lambda>r. r\<lparr>cn_status := st\<rparr>) (t_connections s)"
    and "\<And>r. r \<in> set (t_connections s) \<Longrightarrow> P r \<Longrightarrow> cn_status r = ConnectionPending"
  shows "conns_ok s' \<and> conns_le s s'"
proof
  have "map cn_id (t_connections s') = map cn_id (t_connections s)" "map pair (t_connections s') = map pair (t_connections s)"
    unfolding assms(2) by (rule map_upd; simp)+
  moreover have "\<forall>r\<in>set (t_connections s'). cn_requester r \<noteq> cn_recipient r"
    using assms(1) unfolding assms(2) by (auto simp: conns_ok_def elim!: upd_memE)
  ultimately show "conns_ok s'" using assms(1) by (simp add: conns_ok_def)
  show "conns_le s s'" unfolding conns_le_def
  proof (rule ballI)
    fix r assume r: "r \<in> set (t_connections s)"
    then have "(if P r then r\<lparr>cn_status := st\<rparr> else r) \<in> set (t_connections s')" unfolding assms(2) by (auto simp: set_upd)
    then show "\<exists>r'\<in>set (t_connections s'). cn_id r' = cn_id r \<and> cn_requester r' = cn_requester r
        \<and> cn_recipient r' = cn_recipient r \<and> (cn_status r \<noteq> ConnectionPending \<longrightarrow> r' = r)"
      by (rule bexI[rotated]) (use assms(3)[OF r] in auto)
  qed
qed

lemma ask_rows:
  assumes "conns_ok s" "new_id \<notin> cn_id ` set (t_connections s)"
  shows "conns_ok (fst (request_connection s now new_id me other origin))
    \<and> conns_le s (fst (request_connection s now new_id me other origin))"
proof -
  let ?s' = "fst (request_connection s now new_id me other origin)"
  consider (same) "t_connections ?s' = t_connections s"
    | (mutual) r where "r \<in> set (t_connections s)" "cn_status r = ConnectionPending"
        "t_connections ?s' = upd (\<lambda>x. cn_id x = cn_id r) (\<lambda>r. r\<lparr>cn_status := ConnectionAccepted\<rparr>) (t_connections s)"
    | (new) r where "cn_id r = new_id" "cn_requester r = me" "cn_recipient r = other" "me \<noteq> other"
        "find (pair_row me other) (t_connections s) = None" "t_connections ?s' = t_connections s @ [r]"
  proof (cases "find (pair_row me other) (t_connections s)")
    case None
    let ?r = "\<lparr>cn_id = new_id, cn_requester = me, cn_recipient = other, cn_origin = origin,
                    cn_status = ConnectionPending, cn_created = now\<rparr>"
    have "t_connections ?s' = t_connections s \<or> (me \<noteq> other \<and> t_connections ?s' = t_connections s @ [?r])"
      using None by (simp add: request_connection_def create_connection_def Let_def)
    then show ?thesis using same new[of ?r] None by auto
  next
    case (Some r)
    then have "r \<in> set (t_connections s)" by (auto simp: find_Some_iff)
    moreover have "t_connections ?s' = t_connections s \<or> (cn_status r = ConnectionPending
        \<and> t_connections ?s' = upd (\<lambda>x. cn_id x = cn_id r) (\<lambda>r. r\<lparr>cn_status := ConnectionAccepted\<rparr>) (t_connections s))"
      using Some by (simp add: request_connection_def create_connection_def set_conn_def)
    ultimately show ?thesis using same mutual[of r] by blast
  qed
  then show ?thesis
  proof cases
    case same
    then show ?thesis using assms(1) by (simp add: conns_ok_def conns_le_def) blast
  next
    case mutual
    have "x = r" if "x \<in> set (t_connections s)" "cn_id x = cn_id r" for x
      using that mutual(1) assms(1) key_inj[of cn_id "t_connections s" x r] by (simp add: conns_ok_def)
    with mutual(2) show ?thesis by (intro set_status_rows[OF assms(1) mutual(3)]) auto
  next
    case new
    have "pair r \<notin> pair ` set (t_connections s)" using new(2,3,5) by (auto simp: find_None pair_row_iff)
    with new(1-4) assms show ?thesis
      unfolding conns_ok_def conns_le_def new(6) by (auto intro: bexI)
  qed
qed

lemma answer_rows:
  assumes "conns_ok s"
  shows "conns_ok (fst (respond_connection s now i caller accept)) \<and> conns_le s (fst (respond_connection s now i caller accept))"
proof -
  let ?P = "\<lambda>r. cn_id r = i \<and> cn_status r = ConnectionPending"
  let ?st = "if accept then ConnectionAccepted else ConnectionRejected"
  have "t_connections (fst (repo_respond s i accept)) = t_connections s
    \<or> t_connections (fst (repo_respond s i accept)) = upd ?P (\<lambda>r. r\<lparr>cn_status := ?st\<rparr>) (t_connections s)"
    by (auto simp: repo_respond_def Let_def split: option.split sum.split)
  moreover have "t_connections (fst (respond_connection s now i caller accept))
      \<in> {t_connections s, t_connections (fst (repo_respond s i accept))}"
    by (auto simp: respond_connection_def and_then_def split: sum.split)
  ultimately consider "t_connections (fst (respond_connection s now i caller accept)) = t_connections s"
    | "t_connections (fst (respond_connection s now i caller accept)) = upd ?P (\<lambda>r. r\<lparr>cn_status := ?st\<rparr>) (t_connections s)"
    by auto
  then show ?thesis
  proof cases
    case 1
    then show ?thesis using assms by (simp add: conns_ok_def conns_le_def) blast
  next
    case 2
    show ?thesis by (rule set_status_rows[OF assms 2]) simp
  qed
qed

lemma run_rows:
  assumes "connection_run s s'" "conns_ok s"
  shows "conns_ok s' \<and> conns_le s s'"
  using assms
proof (induction rule: rtranclp_induct)
  case (step s1 s2)
  then have ok: "conns_ok s1" "conns_le s s1" by simp_all
  from step(2) have "conns_ok s2 \<and> conns_le s1 s2"
    by (cases rule: connection_stepE) (use ask_rows answer_rows ok(1) in blast)+
  with ok(2) show ?case by (auto intro: conns_le_trans)
qed (simp add: conns_le_refl)

text \<open>What one person sees of the relation, told from the other side.\<close>

definition mirror :: "string \<Rightarrow> string" where
  "mirror st = (if st = ''pending_outgoing'' then ''pending_incoming''
     else if st = ''pending_incoming'' then ''pending_outgoing'' else st)"

lemma pair_row_commute: "pair_row b a = pair_row a b"
  by (rule ext) (auto simp: pair_row_def)

lemma connection_state_mirror:
  assumes "conns_ok s"
  shows "connection_state s b a = (mirror (fst (connection_state s a b)), snd (connection_state s a b))"
proof (cases "sort_key (\<lambda>r. - cn_created r) (filter (pair_row a b) (t_connections s))")
  case Nil
  then show ?thesis by (simp add: connection_state_def pair_row_commute[of b a] mirror_def)
next
  case (Cons r rs)
  have "r \<in> set (sort_key (\<lambda>r. - cn_created r) (filter (pair_row a b) (t_connections s)))" unfolding Cons by simp
  then have r: "pair_row a b r" "cn_requester r \<noteq> cn_recipient r" using assms by (auto simp: conns_ok_def)
  show ?thesis
    unfolding connection_state_def pair_row_commute[of b a] Cons list.case
    using r by (cases "cn_status r") (auto simp: mirror_def pair_row_def)
qed


definition conn_db :: db where
  "conn_db = empty_db\<lparr>t_users := [\<lparr>us_id = ''a'', us_email = '''', us_status = UserActive, us_city = None, us_created = 0\<rparr>,
       \<lparr>us_id = ''b'', us_email = '''', us_status = UserActive, us_city = None, us_created = 0\<rparr>]\<rparr>"


section \<open>What the comments promise and the code does not do\<close>

text \<open>"rejected: they can ask again": asking again returns the rejected row unchanged.\<close>

lemma rejected_cannot_ask_again:
  "let s1 = fst (request_connection conn_db 1 ''c1'' ''a'' ''b'' '''');
       s2 = fst (respond_connection s1 2 ''c1'' ''b'' False);
       (s3, r) = request_connection s2 3 ''c2'' ''a'' ''b'' ''''
   in s3 = s2 \<and> map_sum id cn_status r = Inr ConnectionRejected \<and> get_status s2 ''a'' ''b'' = Inr (''none'', '''')"
  by (simp add: Let_def request_connection_def create_connection_def respond_connection_def repo_respond_def get_connection_def
      conn_db_def empty_db_def blocked_def pair_row_def get_status_def connection_state_def emit_def)

text \<open>
  The invitee rule counts bookings, not people: somebody with two attended bookings makes up
  for an invitee who never came.
\<close>

definition twice_db :: db where
  "twice_db = conn_db\<lparr>t_plans := [sample_plan],
     t_bookings := [sample_booking\<lparr>bk_id := ''1'', bk_user := ''a'', bk_status := Attended\<rparr>,
       sample_booking\<lparr>bk_id := ''2'', bk_user := ''b'', bk_status := Attended\<rparr>,
       sample_booking\<lparr>bk_id := ''3'', bk_user := ''b'', bk_status := Attended\<rparr>],
     t_connections := [\<lparr>cn_id = ''c'', cn_requester = ''a'', cn_recipient = ''b'', cn_origin = '''',
       cn_status = ConnectionAccepted, cn_created = 0\<rparr>]\<rparr>"

lemma invitee_who_never_came:
  "attended twice_db 9 ''p'' ''z'' = False
   \<and> map_sum id id (snd (create_meet_again_group (Some (\<lambda>us s. (s, Inr ''room''))) False twice_db 9 ''p'' ''a'' [''b'', ''z''] ''''))
     = Inr ''room''"
  by (simp add: create_meet_again_group_def attended_def attended_bookings_def eligible_invitees_def connected_def blocked_def
      max_meet_again_invitees_def twice_db_def conn_db_def samples pair_row_def)

end
