(* ===== verification/Users.thy ===== *)
theory Users
  imports Complex_Main Auth_Facts Connections
begin

text \<open>
  Accounts (\<^verbatim>\<open>internal/users\<close>): the birthday gate, accepting the terms, devices and the
  erasure of an account. The table \<^verbatim>\<open>users\<close> is seen by each package through the columns it
  reads; a statement that writes a column here writes every view of it: the rows of this
  theory, the accounts of \<^verbatim>\<open>internal/auth\<close> and the users of the main database. Tables
  that no other theory has are rows of \<open>ud_rows\<close>: the table's name and the users in the
  columns the erasure looks at. The export of personal data is not modelled.
\<close>

section \<open>Tables\<close>

record person =
  pe_id :: string
  pe_email :: string
  pe_city :: "string option"
  pe_adult :: bool
  pe_status :: user_status
  pe_born :: "int option"
  pe_location :: "(rat \<times> rat \<times> int) option"

record users_db =
  ud_people :: "person list"
  ud_consents :: "(string \<times> string) list"
  ud_owners :: "(string \<times> string) list"
  ud_rows :: "(string \<times> string list) list"
  ud_db :: db
  ud_auth :: auth_db

text \<open>The Go struct \<open>User\<close>; the date of birth is a day number.\<close>

record user_view =
  uv_id :: string
  uv_email :: string
  uv_city :: string
  uv_adult :: bool
  uv_status :: user_status
  uv_born :: "int option"
  uv_terms :: bool

definition current_terms_version :: string where "current_terms_version = ''2026-09''"

definition terms_consent :: "string \<Rightarrow> string" where "terms_consent version = ''terms:'' @ version"

section \<open>Repository\<close>

abbreviation person_by_id :: "users_db \<Rightarrow> string \<Rightarrow> person option" where
  "person_by_id s u \<equiv> find (\<lambda>p. pe_id p = u) (ud_people s)"

definition accepted_terms :: "users_db \<Rightarrow> string \<Rightarrow> bool" where
  "accepted_terms s u \<longleftrightarrow> (u, terms_consent current_terms_version) \<in> set (ud_consents s)"

definition view_of :: "person \<Rightarrow> bool \<Rightarrow> user_view" where
  "view_of p terms = \<lparr>uv_id = pe_id p, uv_email = pe_email p, uv_city = coalesce (pe_city p), uv_adult = pe_adult p,
     uv_status = pe_status p, uv_born = pe_born p, uv_terms = terms\<rparr>"

definition repo_get_user :: "users_db \<Rightarrow> string \<Rightarrow> go_error + user_view" where
  "repo_get_user s u = (case person_by_id s u of None \<Rightarrow> Inl DB_NoRows | Some p \<Rightarrow> Inr (view_of p (accepted_terms s u)))"

text \<open>The statement returns no terms column, so the struct keeps Go's \<open>false\<close>.\<close>

definition update_city :: "users_db \<Rightarrow> string \<Rightarrow> string \<Rightarrow> (users_db, user_view) outcome" where
  "update_city s u city =
    (case person_by_id s u of
       None \<Rightarrow> (s, Inl DB_NoRows)
     | Some p \<Rightarrow>
         (s\<lparr>ud_people := upd (\<lambda>p. pe_id p = u) (\<lambda>p. p\<lparr>pe_city := nullif city\<rparr>) (ud_people s),
            ud_db := (ud_db s)\<lparr>t_users := upd (\<lambda>r. us_id r = u) (\<lambda>r. r\<lparr>us_city := nullif city\<rparr>) (t_users (ud_db s))\<rparr>\<rparr>,
          Inr (view_of (p\<lparr>pe_city := nullif city\<rparr>) False)))"

definition set_birthday :: "users_db \<Rightarrow> string \<Rightarrow> int \<Rightarrow> (users_db, unit) outcome" where
  "set_birthday s u born =
    (let P = (\<lambda>p. pe_id p = u \<and> pe_born p = None)
     in if \<exists>p\<in>set (ud_people s). P p
        then (s\<lparr>ud_people := upd P (\<lambda>p. p\<lparr>pe_born := Some born, pe_adult := True\<rparr>) (ud_people s),
                ud_auth := (ud_auth s)\<lparr>au_accounts := upd (\<lambda>a. ac_id a = u) (\<lambda>a. a\<lparr>ac_adult := True\<rparr>)
                  (au_accounts (ud_auth s))\<rparr>\<rparr>, Inr ())
        else (s, Inl (Users UsersBirthdayLocked)))"

definition repo_accept_terms :: "users_db \<Rightarrow> string \<Rightarrow> string \<Rightarrow> users_db" where
  "repo_accept_terms s u version =
    (let c = (u, terms_consent version)
     in if c \<in> set (ud_consents s) then s else s\<lparr>ud_consents := ud_consents s @ [c]\<rparr>)"

definition upsert_push_device ::
  "users_db \<Rightarrow> string \<Rightarrow> string \<Rightarrow> string \<Rightarrow> string \<Rightarrow> string \<Rightarrow> (users_db, unit) outcome" where
  "upsert_push_device s new_id u device push platform =
    (let P = (\<lambda>d. dv_user d = u \<and> dv_device d = device); ds = au_devices (ud_auth s)
     in if platform \<notin> {'''', ''ios'', ''android''} then (s, Inl DB_CheckViolation)
        else (s\<lparr>ud_auth := (ud_auth s)\<lparr>au_devices :=
                (if \<exists>d\<in>set ds. P d then upd P (\<lambda>d. d\<lparr>dv_push := nullif push, dv_platform := nullif platform\<rparr>) ds
                 else ds @ [\<lparr>dv_id = new_id, dv_user = u, dv_device = device, dv_platform = nullif platform,
                   dv_push = nullif push\<rparr>])\<rparr>\<rparr>, Inr ()))"

definition repo_update_location :: "users_db \<Rightarrow> int \<Rightarrow> string \<Rightarrow> rat \<Rightarrow> rat \<Rightarrow> users_db" where
  "repo_update_location s now u lat lng =
     s\<lparr>ud_people := upd (\<lambda>p. pe_id p = u) (\<lambda>p. p\<lparr>pe_location := Some (lat, lng, now)\<rparr>) (ud_people s)\<rparr>"

subsection \<open>Erasing an account\<close>

definition commitments :: "users_db \<Rightarrow> int \<Rightarrow> string \<Rightarrow> bool" where
  "commitments s now u \<longleftrightarrow>
     (\<exists>b\<in>set (t_bookings (ud_db s)). bk_user b = u \<and> bk_status b = Confirmed
        \<and> (\<exists>p\<in>set (t_plans (ud_db s)). pl_id p = bk_plan b \<and> now < max (pl_ends p) (pl_starts p)))
     \<or> (\<exists>p\<in>set (t_plans (ud_db s)). pl_host p = u \<and> pl_status p = Published \<and> now < max (pl_ends p) (pl_starts p))
     \<or> (\<exists>c\<in>set (ud_owners s). snd c = u)"

text \<open>The statements on tables of \<open>internal/auth\<close>, of the main database, and on the other ones.\<close>

definition erase_auth :: "string \<Rightarrow> auth_db \<Rightarrow> auth_db" where
  "erase_auth u a = a\<lparr>
     au_tokens := filter (\<lambda>t. rt_user t \<noteq> u) (au_tokens a),
     au_codes := filter (\<lambda>c. co_user c \<noteq> u) (au_codes a),
     au_devices := filter (\<lambda>d. dv_user d \<noteq> u) (au_devices a),
     au_identities := filter (\<lambda>i. id_user i \<noteq> u) (au_identities a),
     au_profiles := upd (\<lambda>p. fst p = u) (\<lambda>p. (fst p, ''Deleted user'')) (au_profiles a),
     au_accounts := upd (\<lambda>x. ac_id x = u) (\<lambda>x. x\<lparr>ac_status := UserDeleted,
        ac_email := ''deleted+'' @ u @ ''@deleted.invalid'', ac_recovery := None, ac_verified := None\<rparr>) (au_accounts a)\<rparr>"

definition erase_main :: "string \<Rightarrow> db \<Rightarrow> db" where
  "erase_main u s = s\<lparr>
     t_devices := filter (\<lambda>d. fst d \<noteq> u) (t_devices s),
     t_notifications := filter (\<lambda>n. \<not> (nt_user n = u \<or> nt_actor n = Some u)) (t_notifications s),
     t_prefs := filter (\<lambda>p. np_user p \<noteq> u) (t_prefs s),
     t_saves := filter (\<lambda>e. fst e \<noteq> u) (t_saves s),
     t_waitlist := filter (\<lambda>w. wl_user w \<noteq> u) (t_waitlist s),
     t_join_requests := filter (\<lambda>r. jr_user r \<noteq> u) (t_join_requests s),
     t_invites := filter (\<lambda>e. snd e \<noteq> u) (t_invites s),
     t_members := filter (\<lambda>e. snd e \<noteq> u) (t_members s),
     t_connections := filter (\<lambda>r. \<not> (cn_requester r = u \<or> cn_recipient r = u)) (t_connections s),
     t_profiles := upd (\<lambda>p. fst p = u) (\<lambda>p. (fst p, ''Deleted user'')) (t_profiles s),
     t_users := upd (\<lambda>r. us_id r = u) (\<lambda>r. r\<lparr>us_status := UserDeleted,
        us_email := ''deleted+'' @ u @ ''@deleted.invalid'', us_city := None\<rparr>) (t_users s)\<rparr>"

definition personal_tables :: "string list" where
  "personal_tables = [''post_saves'', ''likes'', ''story_likes'', ''story_views'', ''profile_views'', ''comments'', ''posts'',
     ''stories'', ''profile_photos'', ''profile_boosts'', ''emergency_contacts'', ''user_preferences'',
     ''availability_windows'', ''community_join_requests'', ''chat_members'', ''verification_requests'']"

definition erase_person :: "string \<Rightarrow> person \<Rightarrow> person" where
  "erase_person u p = p\<lparr>pe_status := UserDeleted, pe_email := ''deleted+'' @ u @ ''@deleted.invalid'', pe_born := None,
     pe_city := None, pe_location := None\<rparr>"

definition erase_account :: "users_db \<Rightarrow> int \<Rightarrow> string \<Rightarrow> (users_db, unit) outcome" where
  "erase_account s now u =
    (if commitments s now u then (s, Inl (Users UsersActiveCommitments))
     else if \<exists>p\<in>set (ud_people s). pe_id p \<noteq> u \<and> pe_email p = ''deleted+'' @ u @ ''@deleted.invalid''
     then (s, Inl DB_UniqueViolation)
     else (s\<lparr>ud_rows := filter (\<lambda>r. \<not> (fst r \<in> set personal_tables \<and> u \<in> set (snd r))) (ud_rows s),
             ud_people := upd (\<lambda>p. pe_id p = u) (erase_person u) (ud_people s),
             ud_auth := erase_auth u (ud_auth s), ud_db := erase_main u (ud_db s)\<rparr>, Inr ()))"

section \<open>Service\<close>

definition min_age_years :: int where "min_age_years = 18"

text \<open>\<open>time.Parse("2006-01-02", v)\<close> and \<open>t.AddDate(n, 0, 0)\<close> in UTC.\<close>

definition parse_date :: "string \<Rightarrow> int option" where
  "parse_date v =
    (if length v = 10 \<and> v ! 4 = CHR ''-'' \<and> v ! 7 = CHR ''-''
     then parse_day (take 4 v @ take 2 (drop 5 v) @ drop 8 v) else None)"

definition add_years :: "int \<Rightarrow> int \<Rightarrow> int" where
  "add_years n t = (let (k, d) = civil (t div day) in day_number (k + 12 * n) d * day + t mod day)"

definition is_adult :: "int \<Rightarrow> int \<Rightarrow> bool" where
  "is_adult born now \<longleftrightarrow> \<not> now < add_years min_age_years (born * day)"

definition service_get_user :: "users_db \<Rightarrow> string \<Rightarrow> go_error + user_view" where
  "service_get_user s u = (if u = '''' then Inl (Users UsersInvalidInput) else repo_get_user s u)"

definition change_birthday :: "users_db \<Rightarrow> int \<Rightarrow> string \<Rightarrow> string \<Rightarrow> (users_db, unit) outcome" where
  "change_birthday s now u date =
    (case parse_date date of
       None \<Rightarrow> (s, Inl (Users UsersInvalidInput))
     | Some born \<Rightarrow>
         if now < born * day \<or> born * day < add_years (- 120) now then (s, Inl (Users UsersInvalidInput))
         else if \<not> is_adult born now then (s, Inl (Users UsersUnderage))
         else set_birthday s u born)"

definition update_user :: "users_db \<Rightarrow> int \<Rightarrow> string \<Rightarrow> string \<Rightarrow> string \<Rightarrow> (users_db, user_view) outcome" where
  "update_user s now u city date =
    (if u = '''' then (s, Inl (Users UsersInvalidInput))
     else and_then (if date \<noteq> '''' then change_birthday s now u date else (s, Inr ())) (\<lambda>_ s1.
       if city = '''' \<and> date \<noteq> '''' then (s1, repo_get_user s1 u)
       else update_city s1 u city))"

definition delete_account :: "users_db \<Rightarrow> int \<Rightarrow> string \<Rightarrow> (users_db, unit) outcome" where
  "delete_account s now u = (if u = '''' then (s, Inl (Users UsersInvalidInput)) else erase_account s now u)"

definition register_device ::
  "users_db \<Rightarrow> string \<Rightarrow> string \<Rightarrow> string \<Rightarrow> string \<Rightarrow> string \<Rightarrow> (users_db, unit) outcome" where
  "register_device s new_id u device push platform =
    (if u = '''' \<or> device = '''' then (s, Inl (Users UsersInvalidInput))
     else upsert_push_device s new_id u device push platform)"

definition update_location :: "users_db \<Rightarrow> int \<Rightarrow> string \<Rightarrow> rat \<Rightarrow> rat \<Rightarrow> (users_db, unit) outcome" where
  "update_location s now u lat lng =
    (if u = '''' then (s, Inl (Users UsersInvalidInput)) else (repo_update_location s now u lat lng, Inr ()))"

definition accept_terms :: "users_db \<Rightarrow> string \<Rightarrow> string \<Rightarrow> (users_db, user_view) outcome" where
  "accept_terms s u version =
    (if u = '''' \<or> version \<noteq> current_terms_version then (s, Inl (Users UsersInvalidInput))
     else let s1 = repo_accept_terms s u version in (s1, repo_get_user s1 u))"

end
