(* ===== verification/Users_Facts.thy ===== *)
theory Users_Facts
  imports Users
begin

text \<open>
  What the account operations guarantee: a birthday is set once and only by an adult, in
  every run; and after an erasure no personal row names the user, while bookings, payments
  and the records of other people stay.
\<close>

section \<open>Runs\<close>

inductive user_step :: "users_db \<Rightarrow> users_db \<Rightarrow> bool" where
  update: "user_step s (fst (update_user s now u city date))"
| remove: "user_step s (fst (delete_account s now u))"
| device: "user_step s (fst (register_device s new_id u dev push platform))"
| move: "user_step s (fst (update_location s now u lat lng))"
| agree: "user_step s (fst (accept_terms s u version))"

abbreviation user_run :: "users_db \<Rightarrow> users_db \<Rightarrow> bool" where
  "user_run \<equiv> user_step\<^sup>*\<^sup>*"

text \<open>Rows are updated in place, so a row is followed through a run by its id.\<close>

definition row_le :: "person \<Rightarrow> person \<Rightarrow> bool" where
  "row_le p p' \<longleftrightarrow> pe_id p' = pe_id p \<and> (pe_status p = UserDeleted \<longrightarrow> pe_status p' = UserDeleted)
     \<and> (pe_adult p \<longrightarrow> pe_adult p')
     \<and> (pe_born p \<noteq> None \<longrightarrow> pe_born p' = pe_born p \<or> pe_status p' = UserDeleted)"

definition people_le :: "users_db \<Rightarrow> users_db \<Rightarrow> bool" where
  "people_le s s' \<longleftrightarrow> list_all2 row_le (ud_people s) (ud_people s')"

lemma row_le_refl: "row_le p p"
  by (simp add: row_le_def)

lemma row_le_trans: "row_le p q \<Longrightarrow> row_le q r \<Longrightarrow> row_le p r"
  by (auto simp: row_le_def)

lemma people_le_refl: "people_le s s"
  by (simp add: people_le_def list.rel_refl row_le_refl)

lemma people_le_trans: "people_le s t \<Longrightarrow> people_le t r \<Longrightarrow> people_le s r"
  unfolding people_le_def by (rule list_all2_trans[of row_le row_le row_le]) (auto intro: row_le_trans)

lemma people_le_upd:
  assumes "ud_people s' = upd P f (ud_people s)" "\<And>p. P p \<Longrightarrow> row_le p (f p)"
  shows "people_le s s'"
  using assms by (simp add: people_le_def upd_def list_all2_conv_all_nth row_le_refl)

lemma people_le_same: "ud_people s' = ud_people s \<Longrightarrow> people_le s s'"
  using people_le_refl[of s] by (simp add: people_le_def)

lemma le_birthday: "people_le s (fst (set_birthday s u born))"
  by (auto simp: set_birthday_def Let_def row_le_def intro: people_le_refl people_le_upd)

lemma le_change: "people_le s (fst (change_birthday s now u date))"
  by (auto simp: change_birthday_def intro: people_le_refl le_birthday split: option.splits)

lemma le_city: "people_le s (fst (update_city s u city))"
  by (auto simp: update_city_def row_le_def intro: people_le_refl people_le_upd split: option.splits)

lemma people_le_then:
  assumes "people_le s (fst m)" "\<And>a s1. people_le s1 (fst (k a s1))"
  shows "people_le s (fst (and_then m k))"
  using assms by (cases m; cases "snd m") (auto intro: people_le_trans)

lemma le_update: "people_le s (fst (update_user s now u city date))"
  unfolding update_user_def
  by (auto intro!: people_le_then intro: people_le_refl le_change le_city)

lemma le_erase: "people_le s (fst (erase_account s now u))"
  by (auto simp: erase_account_def erase_person_def row_le_def intro: people_le_refl people_le_upd)

lemma le_others:
  "people_le s (fst (delete_account s now u))"
  "people_le s (fst (register_device s new_id u dev push platform))"
  "people_le s (fst (update_location s now u lat lng))"
  "people_le s (fst (accept_terms s u version))"
proof -
  show "people_le s (fst (delete_account s now u))" by (simp add: delete_account_def people_le_refl le_erase)
  show "people_le s (fst (register_device s new_id u dev push platform))"
    by (rule people_le_same) (simp add: register_device_def upsert_push_device_def Let_def)
  show "people_le s (fst (accept_terms s u version))"
    by (rule people_le_same) (simp add: accept_terms_def repo_accept_terms_def Let_def)
  have "people_le s (repo_update_location s now u lat lng)"
    by (rule people_le_upd[where P = "\<lambda>p. pe_id p = u" and f = "\<lambda>p. p\<lparr>pe_location := Some (lat, lng, now)\<rparr>"])
      (simp_all add: repo_update_location_def row_le_def)
  then show "people_le s (fst (update_location s now u lat lng))" by (simp add: update_location_def people_le_refl)
qed

lemma step_le_people: "user_step s s' \<Longrightarrow> people_le s s'"
  by (induction rule: user_step.induct) (rule le_update le_others)+

lemma run_le_people: "user_run s s' \<Longrightarrow> people_le s s'"
  by (induction rule: rtranclp_induct) (auto intro: people_le_refl people_le_trans step_le_people)

lemma people_le_ids: "people_le s s' \<Longrightarrow> map pe_id (ud_people s') = map pe_id (ud_people s)"
  unfolding people_le_def by (induction rule: list_all2_induct) (auto simp: row_le_def)

lemma people_le_find:
  assumes "people_le s s'" "person_by_id s u = Some p"
  obtains p' where "person_by_id s' u = Some p'" "row_le p p'"
proof -
  have "list_all2 row_le ps ps' \<Longrightarrow> find (\<lambda>p. pe_id p = u) ps = Some p
      \<Longrightarrow> \<exists>p'. find (\<lambda>p. pe_id p = u) ps' = Some p' \<and> row_le p p'" for ps ps'
    by (induction rule: list_all2_induct) (auto simp: row_le_def split: if_splits)
  from this[OF assms(1)[unfolded people_le_def] assms(2)] that show thesis by blast
qed

section \<open>Birthdays\<close>

lemma set_birthday_Inr:
  assumes "set_birthday s u born = (s', Inr r)" "distinct (map pe_id (ud_people s))"
  obtains p where "person_by_id s u = Some p" "pe_born p = None"
    "person_by_id s' u = Some (p\<lparr>pe_born := Some born, pe_adult := True\<rparr>)"
proof -
  from assms(1) obtain p where p: "p \<in> set (ud_people s)" "pe_id p = u" "pe_born p = None"
    and s': "ud_people s' = upd (\<lambda>p. pe_id p = u \<and> pe_born p = None) (\<lambda>p. p\<lparr>pe_born := Some born, pe_adult := True\<rparr>) (ud_people s)"
    by (auto simp: set_birthday_def Let_def split: if_splits)
  have f: "person_by_id s u = Some p" using find_key_unique[OF assms(2) p(1)] p(2) by simp
  let ?p = "p\<lparr>pe_born := Some born, pe_adult := True\<rparr>"
  have ids: "map pe_id (ud_people s') = map pe_id (ud_people s)" unfolding s' by (rule map_upd) simp
  have "?p \<in> set (ud_people s')" unfolding s' upd_def using p by (force intro: image_eqI[of _ _ p])
  then have "person_by_id s' u = Some ?p" using find_key_unique[of pe_id "ud_people s'" ?p] assms(2) ids p(2) by simp
  with f p(3) that show thesis by blast
qed

lemma update_user_birthday:
  assumes "update_user s now u city date = (s', Inr v)" "date \<noteq> ''''"
  obtains born s1 where "parse_date date = Some born" "add_years 18 (born * day) \<le> now" "born * day \<le> now"
    "set_birthday s u born = (s1, Inr ())" "people_le s1 s'"
proof -
  from assms obtain s1 where s1: "change_birthday s now u date = (s1, Inr ())"
    and s': "s' = s1 \<or> s' = fst (update_city s1 u city)"
    by (cases "change_birthday s now u date"; cases "snd (change_birthday s now u date)")
      (auto simp: update_user_def split: if_splits)
  have "people_le s1 s'" using s' le_city[of s1] people_le_refl by auto
  with s1 that show thesis
    by (auto simp: change_birthday_def is_adult_def min_age_years_def split: option.splits if_splits)
qed

text \<open>
  A birthday is set once, and by an adult: an accepted one is a calendar date whose
  eighteenth anniversary has passed, of somebody who had none; whatever account operations
  follow, that person stays marked as an adult with that very birthday, and another attempt
  to set one is refused and changes nothing, unless the account was erased meanwhile.
\<close>

theorem birthday_set_once_by_adults:
  assumes "distinct (map pe_id (ud_people s))"
    and "update_user s now u city date = (s1, Inr v)" "date \<noteq> ''''" "user_run s1 s2"
  shows "\<exists>born p q. parse_date date = Some born \<and> add_years 18 (born * day) \<le> now
    \<and> person_by_id s u = Some p \<and> pe_born p = None
    \<and> person_by_id s2 u = Some q \<and> pe_adult q
    \<and> (pe_status q = UserDeleted
       \<or> pe_born q = Some born \<and> (\<forall>now' city' date'. date' \<noteq> '''' \<longrightarrow>
           fst (update_user s2 now' u city' date') = s2 \<and> (\<exists>e. snd (update_user s2 now' u city' date') = Inl e)))"
proof -
  obtain born s0 where b: "parse_date date = Some born" "add_years 18 (born * day) \<le> now"
      "set_birthday s u born = (s0, Inr ())" "people_le s0 s1"
    using update_user_birthday[OF assms(2,3)] by blast
  obtain p where p: "person_by_id s u = Some p" "pe_born p = None"
      "person_by_id s0 u = Some (p\<lparr>pe_born := Some born, pe_adult := True\<rparr>)"
    using set_birthday_Inr[OF b(3) assms(1)] by blast
  have le: "people_le s0 s2" using b(4) run_le_people[OF assms(4)] by (rule people_le_trans)
  obtain q where q: "person_by_id s2 u = Some q" "row_le (p\<lparr>pe_born := Some born, pe_adult := True\<rparr>) q"
    using people_le_find[OF le p(3)] by blast
  have "people_le s s0" using le_birthday[of s u born] b(3) by simp
  then have d: "distinct (map pe_id (ud_people s2))"
    using people_le_ids people_le_trans[OF _ le] assms(1) by metis
  have locked: "fst (update_user s2 now' u city' date') = s2 \<and> (\<exists>e. snd (update_user s2 now' u city' date') = Inl e)"
    if "pe_born q = Some born" "date' \<noteq> ''''" for now' city' date'
  proof -
    have "\<not> (\<exists>x\<in>set (ud_people s2). pe_id x = u \<and> pe_born x = None)"
      using q(1) that(1) d find_key_unique[of pe_id "ud_people s2"] by fastforce
    then have "set_birthday s2 u b' = (s2, Inl (Users UsersBirthdayLocked))" for b'
      by (simp add: set_birthday_def Let_def)
    then show ?thesis using that(2) by (auto simp: update_user_def change_birthday_def split: option.splits)
  qed
  have "pe_adult q" "pe_status q = UserDeleted \<or> pe_born q = Some born" using q(2) by (auto simp: row_le_def)
  with b(1,2) p(1,2) q(1) locked show ?thesis by blast
qed

section \<open>Erasure\<close>

definition traces :: "users_db \<Rightarrow> string \<Rightarrow> bool" where
  "traces s u \<longleftrightarrow>
     (\<exists>t\<in>set (au_tokens (ud_auth s)). rt_user t = u) \<or> (\<exists>c\<in>set (au_codes (ud_auth s)). co_user c = u)
     \<or> (\<exists>d\<in>set (au_devices (ud_auth s)). dv_user d = u) \<or> (\<exists>i\<in>set (au_identities (ud_auth s)). id_user i = u)
     \<or> (\<exists>d\<in>set (t_devices (ud_db s)). fst d = u) \<or> (\<exists>p\<in>set (t_prefs (ud_db s)). np_user p = u)
     \<or> (\<exists>n\<in>set (t_notifications (ud_db s)). nt_user n = u \<or> nt_actor n = Some u)
     \<or> (\<exists>e\<in>set (t_saves (ud_db s)). fst e = u) \<or> (\<exists>w\<in>set (t_waitlist (ud_db s)). wl_user w = u)
     \<or> (\<exists>r\<in>set (t_join_requests (ud_db s)). jr_user r = u) \<or> (\<exists>e\<in>set (t_invites (ud_db s)). snd e = u)
     \<or> (\<exists>e\<in>set (t_members (ud_db s)). snd e = u)
     \<or> (\<exists>r\<in>set (t_connections (ud_db s)). cn_requester r = u \<or> cn_recipient r = u)
     \<or> (\<exists>r\<in>set (ud_rows s). fst r \<in> set personal_tables \<and> u \<in> set (snd r))"

definition session_of :: "string \<Rightarrow> go_error + tokens \<Rightarrow> bool" where
  "session_of u r \<longleftrightarrow> (case r of Inl e \<Rightarrow> False | Inr t \<Rightarrow> tk_user t = u)"

text \<open>Rows of the tables the erasure keeps, and the rows of one other person.\<close>

definition kept_records :: "db \<Rightarrow> _" where
  "kept_records s = (t_bookings s, t_participants s, t_checkins s, t_plans s, t_reviews s,
     (t_orders s, t_payments s, t_refunds s, t_recon s, t_ledger s, t_receipts s), t_outbox s)"

definition rows_of :: "users_db \<Rightarrow> string \<Rightarrow> _" where
  "rows_of s v = (person_by_id s v, filter (\<lambda>t. rt_user t = v) (au_tokens (ud_auth s)),
     filter (\<lambda>d. dv_user d = v) (au_devices (ud_auth s)), filter (\<lambda>w. wl_user w = v) (t_waitlist (ud_db s)),
     filter (\<lambda>e. fst e = v) (t_saves (ud_db s)), filter (\<lambda>e. snd e = v) (t_members (ud_db s)))"

lemma issue_session_user:
  "snd (issue_session c s now d fresh u role device platform) = Inr tk \<Longrightarrow> tk_user tk = u"
  by (cases "upsert_device s d u device platform"; cases "snd (upsert_device s d u device platform)")
    (auto simp: issue_session_def issue_tokens_def store_refresh_token_def split: if_splits)

lemma and_then_snd_Inr: "snd (and_then m k) = Inr b \<Longrightarrow> \<exists>a s1. m = (s1, Inr a) \<and> snd (k a s1) = Inr b"
  by (cases m; cases "snd m") auto

lemma get_user_by_id_Inr: "get_user_by_id s u = Inr a \<Longrightarrow> ac_id a = u"
  by (auto simp: get_user_by_id_def find_Some_iff split: option.splits)

text \<open>Without tokens, codes and identities there is no way into an account.\<close>

lemma no_session:
  assumes "\<not> (\<exists>t\<in>set (au_tokens a). rt_user t = u)" "\<not> (\<exists>x\<in>set (au_codes a). co_user x = u)"
    "\<not> (\<exists>i\<in>set (au_identities a). id_user i = u)"
  shows "\<not> session_of u (snd (refresh_token c a now fresh token))"
    "new_id \<noteq> u \<Longrightarrow> \<not> session_of u (snd (sign_in_with_provider c a now new_id d fresh verify provider tok device platform))"
    "\<not> session_of u (snd (recover_account c a now d fresh code provider tok device platform))"
proof -
  have consumed: "rt_user t \<noteq> u" if "consume_refresh_token a now h = (s1, Inr t)" for h s1 t
    using that assms(1) by (auto simp: consume_refresh_token_def find_Some_iff split: option.splits)
  show "\<not> session_of u (snd (refresh_token c a now fresh token))"
  proof
    assume "session_of u (snd (refresh_token c a now fresh token))"
    then obtain tk where tk: "snd (refresh_token c a now fresh token) = Inr tk" "tk_user tk = u"
      by (auto simp: session_of_def split: sum.splits)
    then obtain t s1 where t: "consume_refresh_token a now (cf_hash c token) = (s1, Inr t)"
      and r: "snd (case get_user_by_id s1 (rt_user t) of Inl e \<Rightarrow> (s1, Inl e)
        | Inr x \<Rightarrow> if ac_status x \<noteq> UserActive then (s1, Inl (Auth AuthUserInactive))
            else issue_tokens c s1 now fresh (ac_id x) (ac_role x) (coalesce (rt_device t))) = Inr tk"
      by (auto simp: refresh_token_def split: if_splits dest!: and_then_snd_Inr)
    then have "tk_user tk = rt_user t"
      by (auto simp: issue_tokens_def store_refresh_token_def dest: get_user_by_id_Inr split: sum.splits if_splits)
    with tk(2) consumed[OF t] show False by simp
  qed
  show "\<not> session_of u (snd (recover_account c a now d fresh code provider tok device platform))"
  proof
    assume "session_of u (snd (recover_account c a now d fresh code provider tok device platform))"
    then obtain tk where tk: "snd (recover_account c a now d fresh code provider tok device platform) = Inr tk" "tk_user tk = u"
      by (auto simp: session_of_def split: sum.splits)
    then obtain owner s1 where o1: "consume_recovery_code a now (cf_hash c code) purpose_account_recover = (s1, Inr owner)"
      and "tk_user tk = owner"
      unfolding recover_account_def Let_def
      by (auto split: if_splits option.splits prod.splits sum.splits
          dest!: and_then_snd_Inr issue_session_user get_user_by_id_Inr)
    moreover have "owner \<noteq> u"
      using o1 assms(2) by (auto simp: consume_recovery_code_def find_Some_iff split: option.splits)
    ultimately show False using tk(2) by simp
  qed
  show "\<not> session_of u (snd (sign_in_with_provider c a now new_id d fresh verify provider tok device platform))"
    if "new_id \<noteq> u"
  proof
    assume "session_of u (snd (sign_in_with_provider c a now new_id d fresh verify provider tok device platform))"
    then obtain tk where tk: "snd (sign_in_with_provider c a now new_id d fresh verify provider tok device platform) = Inr tk"
        "tk_user tk = u"
      by (auto simp: session_of_def split: sum.splits)
    have known: "ac_id x \<noteq> u" if "find_by_provider_identity a provider subject = Inr x" for x subject
      using that assms(3) by (auto simp: find_by_provider_identity_def find_Some_iff dest!: get_user_by_id_Inr split: option.splits)
    have new: "y = new_id" if "create_user_from_oauth a new_id email False provider subject email = (s1, Inr y)" for email subject s1 y
      using that by (auto simp: create_user_from_oauth_def in_tx_eq_Inr split: if_splits)
    from tk that show False unfolding sign_in_with_provider_def
      by (auto split: if_splits option.splits prod.splits sum.splits dest!: and_then_snd_Inr issue_session_user
          dest: known new)
  qed
qed

lemma find_upd_other: "(\<And>x. P x \<Longrightarrow> \<not> Q x \<and> \<not> Q (f x)) \<Longrightarrow> find Q (upd P f xs) = find Q xs"
  unfolding upd_def by (induction xs) auto


section \<open>Applied\<close>

definition sample_people :: users_db where
  "sample_people = \<lparr>ud_people = [\<lparr>pe_id = ''u'', pe_email = ''u@x'', pe_city = None, pe_adult = False,
       pe_status = UserActive, pe_born = None, pe_location = None\<rparr>],
     ud_consents = [(''u'', ''terms:2026-09'')], ud_owners = [], ud_rows = [(''posts'', [''u'']), (''posts'', [''v''])],
     ud_db = empty_db\<lparr>t_plans := [sample_plan],
       t_users := [\<lparr>us_id = ''u'', us_email = ''u@x'', us_status = UserActive, us_city = None, us_created = 0\<rparr>],
       t_bookings := [sample_booking\<lparr>bk_status := PaymentPending, bk_expires := Some 900000000000\<rparr>]\<rparr>,
     ud_auth = session_db\<rparr>"

lemmas people_samples = sample_people_def auth_samples samples

abbreviation grown_up :: users_db where
  "grown_up \<equiv> fst (update_user sample_people (20000 * day) ''u'' '''' ''2000-01-02'')"

lemma sample_birthday:
  "parse_date ''2000-01-02'' = Some 10958" "add_years 18 946771200000000000 = 1514851200000000000"
  "add_years (- 120) 1728000000000000000 = - 2058912000000000000"
  by code_simp+

lemma grown_up_eq:
  "update_user sample_people (20000 * day) ''u'' '''' ''2000-01-02'' =
     (sample_people\<lparr>ud_people := [\<lparr>pe_id = ''u'', pe_email = ''u@x'', pe_city = None, pe_adult = True,
        pe_status = UserActive, pe_born = Some 10958, pe_location = None\<rparr>]\<rparr>,
      Inr \<lparr>uv_id = ''u'', uv_email = ''u@x'', uv_city = '''', uv_adult = True, uv_status = UserActive,
        uv_born = Some 10958, uv_terms = True\<rparr>)"
  by (simp add: update_user_def change_birthday_def is_adult_def min_age_years_def sample_birthday set_birthday_def
      repo_get_user_def view_of_def coalesce_def accepted_terms_def terms_consent_def current_terms_version_def
      people_samples upd_def time_defs)

lemma birthday_set_once_by_adults_witness:
  "fst (update_user grown_up (20001 * day) ''u'' '''' ''1999-01-02'') = grown_up"
proof -
  have d: "distinct (map pe_id (ud_people sample_people))" by (simp add: sample_people_def)
  have ne: "''2000-01-02'' \<noteq> ''''" "''1999-01-02'' \<noteq> ''''" by simp_all
  obtain q where q: "person_by_id grown_up ''u'' = Some q"
      "pe_status q = UserDeleted \<or> (\<forall>now' city' date'. date' \<noteq> '''' \<longrightarrow>
           fst (update_user grown_up now' ''u'' city' date') = grown_up)"
    using birthday_set_once_by_adults[OF d grown_up_eq ne(1) rtranclp.rtrancl_refl] by (auto simp: grown_up_eq)
  have "pe_status q = UserActive" using q(1) by (auto simp: grown_up_eq)
  with q(2) ne(2) show ?thesis by simp
qed

abbreviation erased :: users_db where
  "erased \<equiv> fst (delete_account sample_people 0 ''u'')"

lemma sample_deleted: "delete_account sample_people 0 ''u'' = (erased, Inr ())"
  by (simp add: delete_account_def erase_account_def commitments_def people_samples)


section \<open>What modelling showed\<close>

text \<open>
  \<open>UpdateUser\<close> with a city answers that the terms are not accepted, whatever is recorded:
  the statement of \<open>UpdateCity\<close> does not return that column.
\<close>

lemma city_change_forgets_terms:
  "case snd (update_user sample_people 5 ''u'' ''c'' '''') of Inl e \<Rightarrow> False
     | Inr v \<Rightarrow> \<not> uv_terms v \<and> map_sum id uv_terms (repo_get_user sample_people ''u'') = Inr True"
  by (simp add: update_user_def update_city_def repo_get_user_def view_of_def accepted_terms_def terms_consent_def
      current_terms_version_def people_samples)

text \<open>
  A seat held for a payment is no commitment: the account is erased, and the capture that
  arrives afterwards still confirms the seat of the deleted user.
\<close>

lemma erased_account_gets_a_seat:
  "map us_status (t_users (ud_db erased)) = [UserDeleted]
    \<and> map bk_status (t_bookings (fst (confirm_paid (ud_db erased) 5 ''b''))) = [Confirmed]"
  by code_simp

end
