(* ===== verification/Access.thy ===== *)
theory Access
  imports Users_Facts "HOL-Library.AList"
begin

text \<open>
  What stands in front of every call of the API (\<^verbatim>\<open>pkg/grpcmiddleware\<close>, chained in
  \<^verbatim>\<open>cmd/api/main.go\<close>): the limit per address on the calls without a token, authentication,
  the check of the account and the limit per user. Handlers are functions on the state of
  the program; the verifier of access tokens is a parameter. Token counts are exact
  rationals, calls are atomic, and logging and panics are not modelled.
\<close>

section \<open>Rate limiter\<close>

record token_bucket =
  bu_tokens :: rat
  bu_last :: int

record limiter =
  rl_per_minute :: rat
  rl_burst :: rat
  rl_buckets :: "string \<Rightarrow> token_bucket option"

definition new_limiter :: "int \<Rightarrow> limiter" where
  "new_limiter n = \<lparr>rl_per_minute = of_int n, rl_burst = max (of_int n / 4) 5, rl_buckets = (\<lambda>_. None)\<rparr>"

definition refilled :: "limiter \<Rightarrow> int \<Rightarrow> token_bucket \<Rightarrow> rat" where
  "refilled r now b = bu_tokens b + of_int (now - bu_last b) / of_int second * rl_per_minute r / 60"

definition allow :: "limiter \<Rightarrow> int \<Rightarrow> string \<Rightarrow> limiter \<times> bool" where
  "allow r now key =
    (let b = (case rl_buckets r key of None \<Rightarrow> \<lparr>bu_tokens = rl_burst r, bu_last = now\<rparr> | Some b \<Rightarrow> b);
         n = min (rl_burst r) (refilled r now b);
         put = (\<lambda>m. r\<lparr>rl_buckets := (rl_buckets r)(key \<mapsto> \<lparr>bu_tokens = m, bu_last = now\<rparr>)\<rparr>)
     in if n < 1 then (put n, False) else (put (n - 1), True))"

definition evict_idle :: "limiter \<Rightarrow> int \<Rightarrow> limiter" where
  "evict_idle r now = r\<lparr>rl_buckets := (\<lambda>k. case rl_buckets r k of
     None \<Rightarrow> None | Some b \<Rightarrow> if rl_burst r \<le> refilled r now b then None else Some b)\<rparr>"

section \<open>Requests\<close>

text \<open>
  The parts of a request the interceptors read: the method, the \<^verbatim>\<open>authorization\<close> and
  \<^verbatim>\<open>x-forwarded-for\<close> values (\<open>None\<close> without metadata) and the address of the peer.
\<close>

record request =
  rq_method :: string
  rq_meta :: "(string list \<times> string list) option"
  rq_peer :: "string option"

datatype rpc_code = Unauthenticated | PermissionDenied | FailedPrecondition | ResourceExhausted

type_synonym rpc_error = "rpc_code \<times> string"
type_synonym caller = "(string \<times> string) option"

definition err_rate_limited :: rpc_error where
  "err_rate_limited = (ResourceExhausted, ''too many requests'')"

definition client_ip :: "bool \<Rightarrow> request \<Rightarrow> string" where
  "client_ip trust rq =
    (let forwarded = (case rq_meta rq of Some (_, v # _) \<Rightarrow>
           trim_space (case split_first CHR '','' v of None \<Rightarrow> v | Some (a, _) \<Rightarrow> a) | _ \<Rightarrow> '''')
     in if trust \<and> forwarded \<noteq> '''' then forwarded
        else case rq_peer rq of
            None \<Rightarrow> ''unknown''
          | Some addr \<Rightarrow> (case split_last CHR '':'' addr of
                Some (host, _) \<Rightarrow> if host \<noteq> '''' then host else addr
              | None \<Rightarrow> addr))"

definition public_methods :: "string list" where
  "public_methods = [''/social.v1.AuthService/SignInWithGoogle'', ''/social.v1.AuthService/SignInWithApple'',
     ''/social.v1.AuthService/RefreshToken'', ''/social.v1.AuthService/RequestAccountRecovery'',
     ''/social.v1.AuthService/RecoverAccount'', ''/grpc.health.v1.Health/Check'', ''/grpc.health.v1.Health/Watch'']"

definition admin_methods :: "string list" where
  "admin_methods = [''/social.v1.AdminService/ListUsers'', ''/social.v1.AdminService/SuspendUser'',
     ''/social.v1.AdminService/ListReports'', ''/social.v1.AdminService/OverrideBookingStatus'',
     ''/social.v1.AdminService/GetDashboardStats'', ''/social.v1.NotificationService/SendNotification'',
     ''/social.v1.ModerationService/ResolveCase'', ''/social.v1.PaymentService/RefundPayment'',
     ''/social.v1.AdminService/ApproveHost'', ''/social.v1.AdminService/MarkPayoutProcessed'',
     ''/social.v1.AdminService/AdminGrantCredit'', ''/social.v1.AdminService/CreateCoupon'',
     ''/social.v1.AdminService/ListCoupons'', ''/social.v1.AdminService/DeactivateCoupon'',
     ''/social.v1.AdminService/CreateCity'', ''/social.v1.AdminService/UpdateCityStatus'',
     ''/social.v1.AdminService/ListVerificationRequests'', ''/social.v1.AdminService/ReviewVerification'',
     ''/social.v1.AdminService/ListSOSEvents'', ''/social.v1.AdminService/AcknowledgeSOSEvent'',
     ''/social.v1.AdminService/CreateExternalEvent'', ''/social.v1.AdminService/DeactivateExternalEvent'']"

definition age_gate_open :: "string list" where
  "age_gate_open = [''/social.v1.UserService/GetUser'', ''/social.v1.UserService/UpdateUser'',
     ''/social.v1.UserService/AcceptTerms'', ''/social.v1.UserService/DeleteAccount'',
     ''/social.v1.UserService/ExportMyData'', ''/social.v1.UserService/RegisterDevice'',
     ''/social.v1.ProfileService/GetProfile'', ''/social.v1.NotificationService/GetUnreadCount'']"

definition is_admin :: "string \<Rightarrow> bool" where
  "is_admin role \<longleftrightarrow> role = ''admin'' \<or> role = ''super_admin''"

section \<open>Interceptors\<close>

record account_state =
  as_active :: bool
  as_adult :: bool
  as_agreed :: bool

record gate =
  ga_public :: "limiter option"
  ga_user :: "limiter option"
  ga_cache :: "(string \<times> account_state \<times> int) list"

type_synonym ('w, 'r) rpc_handler = "caller \<Rightarrow> gate \<times> 'w \<Rightarrow> (gate \<times> 'w) \<times> (rpc_error + 'r)"

definition public_rate_limit ::
  "bool \<Rightarrow> int \<Rightarrow> request \<Rightarrow> ('w, 'r) rpc_handler \<Rightarrow> ('w, 'r) rpc_handler" where
  "public_rate_limit trust now rq h ctx s =
    (case ga_public (fst s) of
       None \<Rightarrow> h ctx s
     | Some rl \<Rightarrow>
         if rq_method rq \<in> set public_methods \<and> take 13 (rq_method rq) \<noteq> ''/grpc.health.''
         then case allow rl now (''ip:'' @ client_ip trust rq) of (rl', ok) \<Rightarrow>
           let s1 = ((fst s)\<lparr>ga_public := Some rl'\<rparr>, snd s)
           in if ok then h ctx s1 else (s1, Inl err_rate_limited)
         else h ctx s)"

definition authenticate ::
  "(string \<Rightarrow> (string \<times> string) option) \<Rightarrow> request \<Rightarrow> ('w, 'r) rpc_handler \<Rightarrow> ('w, 'r) rpc_handler" where
  "authenticate verify rq h ctx s =
    (if rq_method rq \<in> set public_methods then h ctx s
     else case rq_meta rq of
         None \<Rightarrow> (s, Inl (Unauthenticated, ''missing metadata''))
       | Some ([], _) \<Rightarrow> (s, Inl (Unauthenticated, ''missing authorization token''))
       | Some (token # _, _) \<Rightarrow>
           (case verify token of
              None \<Rightarrow> (s, Inl (Unauthenticated, ''invalid token''))
            | Some (user, role) \<Rightarrow>
                if rq_method rq \<in> set admin_methods \<and> \<not> is_admin role
                then (s, Inl (PermissionDenied, ''admin role required''))
                else h (Some (user, role)) s))"

definition cached :: "gate \<Rightarrow> int \<Rightarrow> string \<Rightarrow> (account_state \<times> int) option" where
  "cached g now u = (case map_of (ga_cache g) u of
     None \<Rightarrow> None | Some e \<Rightarrow> if snd e < now then None else Some e)"

definition store_state :: "gate \<Rightarrow> string \<Rightarrow> account_state \<times> int \<Rightarrow> gate" where
  "store_state g u e = g\<lparr>ga_cache := AList.update u e (if 50000 < length (ga_cache g) then [] else ga_cache g)\<rparr>"

definition enforce :: "account_state \<Rightarrow> request \<Rightarrow> string \<Rightarrow> ('w, 'r) rpc_handler \<Rightarrow> ('w, 'r) rpc_handler" where
  "enforce st rq u h ctx s =
    (let unlocked = rq_method rq \<in> set age_gate_open in
     if \<not> as_active st then (s, Inl (Unauthenticated, ''this account is not active''))
     else if \<not> unlocked \<and> \<not> as_adult st then (s, Inl (FailedPrecondition, ''add your date of birth (18+) to continue''))
     else if \<not> unlocked \<and> \<not> as_agreed st then (s, Inl (FailedPrecondition,
       ''accept the Terms of Service and Privacy Policy to continue''))
     else case h ctx s of (s1, r) \<Rightarrow>
       (if unlocked \<and> (\<not> as_adult st \<or> \<not> as_agreed st)
        then ((fst s1)\<lparr>ga_cache := AList.delete u (ga_cache (fst s1))\<rparr>, snd s1) else s1, r))"

definition active_user ::
  "('w \<Rightarrow> string \<Rightarrow> account_state option) option \<Rightarrow> int \<Rightarrow> int \<Rightarrow> request \<Rightarrow> ('w, 'r) rpc_handler \<Rightarrow> ('w, 'r) rpc_handler" where
  "active_user check ttl now rq h ctx s =
    (case (ctx, check) of
       (Some (u, role), Some chk) \<Rightarrow>
         (case cached (fst s) now u of
            Some e \<Rightarrow> enforce (fst e) rq u h ctx s
          | None \<Rightarrow>
              (case chk (snd s) u of
                 None \<Rightarrow> h ctx s
               | Some st \<Rightarrow>
                   enforce st rq u h ctx (store_state (fst s) u
                     (st, if as_adult st \<and> as_agreed st then now + ttl else now + 2 * second), snd s)))
     | _ \<Rightarrow> h ctx s)"

definition user_rate_limit :: "int \<Rightarrow> ('w, 'r) rpc_handler \<Rightarrow> ('w, 'r) rpc_handler" where
  "user_rate_limit now h ctx s =
    (case (ga_user (fst s), ctx) of
       (Some rl, Some (u, role)) \<Rightarrow>
         (case allow rl now (''user:'' @ u) of (rl', ok) \<Rightarrow>
           let s1 = ((fst s)\<lparr>ga_user := Some rl'\<rparr>, snd s)
           in if ok then h ctx s1 else (s1, Inl err_rate_limited))
     | _ \<Rightarrow> h ctx s)"

section \<open>The chain of the API\<close>

definition active_ttl :: int where [time_defs]: "active_ttl = 30 * second"

text \<open>The query behind the account check, on the tables of \<open>internal/users\<close>.\<close>

definition active_check :: "users_db \<Rightarrow> string \<Rightarrow> account_state option" where
  "active_check w u = Some (case person_by_id w u of
     None \<Rightarrow> \<lparr>as_active = False, as_adult = False, as_agreed = False\<rparr>
   | Some p \<Rightarrow> \<lparr>as_active = (pe_status p = UserActive), as_adult = pe_adult p, as_agreed = accepted_terms w u\<rparr>)"

record 'w gate_config =
  gc_trust :: bool
  gc_verify :: "int \<Rightarrow> string \<Rightarrow> (string \<times> string) option"
  gc_check :: "'w \<Rightarrow> string \<Rightarrow> account_state option"

text \<open>A handler of the application sees the caller and the state of the program, not the gate.\<close>

definition run_handler :: "(caller \<Rightarrow> 'w \<Rightarrow> 'w \<times> (rpc_error + 'r)) \<Rightarrow> ('w, 'r) rpc_handler" where
  "run_handler h ctx s = (case h ctx (snd s) of (w, r) \<Rightarrow> ((fst s, w), r))"

definition api_call ::
  "'w gate_config \<Rightarrow> int \<Rightarrow> request \<Rightarrow> (caller \<Rightarrow> 'w \<Rightarrow> 'w \<times> (rpc_error + 'r)) \<Rightarrow> gate \<times> 'w
    \<Rightarrow> (gate \<times> 'w) \<times> (rpc_error + 'r)" where
  "api_call c now rq h s =
     public_rate_limit (gc_trust c) now rq (authenticate (gc_verify c now) rq
       (active_user (Some (gc_check c)) active_ttl now rq (user_rate_limit now (run_handler h)))) None s"

definition new_gate :: "int \<Rightarrow> int \<Rightarrow> gate" where
  "new_gate auth_limit limit = \<lparr>ga_public = (if 0 < auth_limit then Some (new_limiter auth_limit) else None),
     ga_user = (if 0 < limit then Some (new_limiter limit) else None), ga_cache = []\<rparr>"

end
