(* ===== verification/Access_Facts.thy ===== *)
theory Access_Facts
  imports Access
begin

text \<open>
  What the gate of the API guarantees: the number of calls a key gets through in any window
  of time, that forgetting idle buckets is unobservable, who reaches a handler, and that a
  suspended or erased account is locked out half a minute later at the latest.
\<close>

section \<open>The level of a key\<close>

text \<open>What a call of the key would find: the tokens refilled so far, at most the burst.\<close>

definition level :: "limiter \<Rightarrow> string \<Rightarrow> int \<Rightarrow> rat" where
  "level r k now = (case rl_buckets r k of None \<Rightarrow> rl_burst r | Some b \<Rightarrow> min (rl_burst r) (refilled r now b))"

definition rate :: "limiter \<Rightarrow> rat" where
  "rate r = rl_per_minute r / 60 / of_int second"

definition limiter_ok :: "limiter \<Rightarrow> bool" where
  "limiter_ok r \<longleftrightarrow> 0 \<le> rl_per_minute r \<and> 1 \<le> rl_burst r"

lemma rate_nonneg: "limiter_ok r \<Longrightarrow> 0 \<le> rate r"
  by (simp add: limiter_ok_def rate_def time_defs)

lemma refilled_later: "refilled r (t + d) b = refilled r t b + rate r * of_int d"
  by (simp add: refilled_def rate_def time_defs algebra_simps add_divide_distrib diff_divide_distrib)

lemma refilled_fresh: "refilled r t \<lparr>bu_tokens = m, bu_last = t\<rparr> = m"
  by (simp add: refilled_def)

lemma level_burst: "level r k t \<le> rl_burst r"
  by (auto simp: level_def split: option.splits)

lemma level_later:
  assumes "limiter_ok r" "t \<le> t'"
  shows "level r k t \<le> level r k t'" "level r k t' \<le> level r k t + rate r * of_int (t' - t)"
proof -
  have n: "0 \<le> rate r * of_int (t' - t)" using rate_nonneg[OF assms(1)] assms(2) by simp
  have e: "refilled r t' b = refilled r t b + rate r * of_int (t' - t)" for b
    using refilled_later[of r t "t' - t" b] by simp
  show "level r k t \<le> level r k t'" using n by (auto simp: level_def e split: option.splits)
  show "level r k t' \<le> level r k t + rate r * of_int (t' - t)"
    using n by (auto simp: level_def e split: option.splits)
qed

lemma level_put:
  "level (r\<lparr>rl_buckets := m(k \<mapsto> \<lparr>bu_tokens = x, bu_last = t\<rparr>)\<rparr>) k t = min (rl_burst r) x"
  by (simp add: level_def refilled_fresh)

lemma allow_level:
  assumes "allow r t k = (r', ok)" "limiter_ok r"
  shows "ok \<longleftrightarrow> 1 \<le> level r k t" "level r' k t = level r k t - of_bool ok"
    "j \<noteq> k \<Longrightarrow> rl_buckets r' j = rl_buckets r j"
    "rl_burst r' = rl_burst r" "rl_per_minute r' = rl_per_minute r"
proof -
  let ?b = "case rl_buckets r k of None \<Rightarrow> \<lparr>bu_tokens = rl_burst r, bu_last = t\<rparr> | Some b \<Rightarrow> b"
  have l: "min (rl_burst r) (refilled r t ?b) = level r k t"
    by (simp add: level_def refilled_fresh split: option.splits)
  have n: "level r k t \<le> rl_burst r" by (rule level_burst)
  have r': "r' = r\<lparr>rl_buckets := (rl_buckets r)(k \<mapsto> \<lparr>bu_tokens = level r k t - of_bool ok, bu_last = t\<rparr>)\<rparr>"
    and ok: "ok \<longleftrightarrow> 1 \<le> level r k t"
    using assms(1) by (auto simp: allow_def l Let_def split: if_splits)
  show "ok \<longleftrightarrow> 1 \<le> level r k t" by (rule ok)
  have "level r' k t = min (rl_burst r) (level r k t - of_bool ok)"
    unfolding r' by (rule level_put)
  then show "level r' k t = level r k t - of_bool ok" using n by (cases ok) auto
  show "j \<noteq> k \<Longrightarrow> rl_buckets r' j = rl_buckets r j" "rl_burst r' = rl_burst r" "rl_per_minute r' = rl_per_minute r"
    by (simp_all add: r')
qed

lemma level_cong:
  "rl_buckets r' k = rl_buckets r k \<Longrightarrow> rl_burst r' = rl_burst r \<Longrightarrow> rl_per_minute r' = rl_per_minute r
    \<Longrightarrow> level r' k t = level r k t"
  by (simp add: level_def refilled_def split: option.splits)

lemma level_evict:
  assumes "limiter_ok r" "t \<le> t'"
  shows "level (evict_idle r t) k t' = level r k t'"
proof -
  have e: "refilled r t' b = refilled r t b + rate r * of_int (t' - t)" for b
    using refilled_later[of r t "t' - t" b] by simp
  have n: "0 \<le> rate r * of_int (t' - t)" using rate_nonneg[OF assms(1)] assms(2) by simp
  have same: "refilled (evict_idle r t) t' b = refilled r t' b" for b by (simp add: refilled_def evict_idle_def)
  show ?thesis
  proof (cases "rl_buckets r k")
    case None
    then show ?thesis by (simp add: level_def evict_idle_def)
  next
    case (Some b)
    show ?thesis
    proof (cases "rl_burst r \<le> refilled r t b")
      case True
      then have "rl_burst r \<le> refilled r t' b" using e[of b] n by linarith
      then show ?thesis using Some True by (simp add: level_def evict_idle_def min_absorb1)
    next
      case False
      then show ?thesis using Some same[of b] by (simp add: level_def) (simp add: evict_idle_def)
    qed
  qed
qed

lemma evict_fields [simp]: "rl_burst (evict_idle r t) = rl_burst r" "rl_per_minute (evict_idle r t) = rl_per_minute r"
  by (simp_all add: evict_idle_def)

section \<open>Runs of a limiter\<close>

datatype limiter_event = Call int string | Evict int

fun event_time :: "limiter_event \<Rightarrow> int" where
  "event_time (Call t k) = t" | "event_time (Evict t) = t"

fun limiter_run :: "limiter \<Rightarrow> limiter_event list \<Rightarrow> limiter \<times> (string \<times> bool) list" where
  "limiter_run r [] = (r, [])"
| "limiter_run r (Call t k # es) =
     (case allow r t k of (r', ok) \<Rightarrow> case limiter_run r' es of (r'', out) \<Rightarrow> (r'', (k, ok) # out))"
| "limiter_run r (Evict t # es) = limiter_run (evict_idle r t) es"

definition passed :: "string \<Rightarrow> (string \<times> bool) list \<Rightarrow> nat" where
  "passed k out = length (filter (\<lambda>x. x = (k, True)) out)"

lemma passed_simps [simp]:
  "passed k [] = 0" "passed k ((j, ok) # out) = of_bool (j = k \<and> ok) + passed k out"
  by (auto simp: passed_def)

lemma limiter_ok_cong:
  "rl_burst r' = rl_burst r \<Longrightarrow> rl_per_minute r' = rl_per_minute r \<Longrightarrow> limiter_ok r' = limiter_ok r"
  by (simp add: limiter_ok_def)

lemma rate_cong: "rl_per_minute r' = rl_per_minute r \<Longrightarrow> rate r' = rate r"
  by (simp add: rate_def)

text \<open>Every call that passes takes one token; time gives \<open>rate\<close> tokens per nanosecond back.\<close>

lemma run_level:
  assumes "limiter_ok r" "limiter_run r es = (r', out)" "sorted_wrt (\<le>) (t # map event_time es)"
    "\<forall>e\<in>set es. event_time e \<le> t'" "t \<le> t'"
  shows "of_nat (passed k out) + level r' k t' \<le> level r k t + rate r * of_int (t' - t)
    \<and> rl_burst r' = rl_burst r \<and> rl_per_minute r' = rl_per_minute r"
  using assms
proof (induction es arbitrary: r t out)
  case Nil
  then show ?case using level_later(2)[of r t t' k] by simp
next
  case (Cons e es)
  let ?u = "event_time e"
  have u: "t \<le> ?u" "?u \<le> t'" "sorted_wrt (\<le>) (?u # map event_time es)" using Cons.prems(3,4) by auto
  have before: "level r k ?u \<le> level r k t + rate r * of_int (?u - t)"
    using level_later(2)[OF Cons.prems(1) u(1)] .
  have split: "rate r * of_int (t' - t) = rate r * of_int (?u - t) + rate r * of_int (t' - ?u)"
    by (simp add: algebra_simps)
  show ?case
  proof (cases e)
    case (Call w j)
    obtain r1 ok where a: "allow r w j = (r1, ok)" by fastforce
    obtain out1 where o1: "limiter_run r1 es = (r', out1)" "out = (j, ok) # out1"
      using Cons.prems(2) Call a by (auto split: prod.splits)
    note al = allow_level[OF a Cons.prems(1)]
    have ok1: "limiter_ok r1" using limiter_ok_cong[OF al(4,5)] Cons.prems(1) by simp
    have ih: "of_nat (passed k out1) + level r' k t' \<le> level r1 k ?u + rate r1 * of_int (t' - ?u)
        \<and> rl_burst r' = rl_burst r1 \<and> rl_per_minute r' = rl_per_minute r1"
      using Cons.IH[OF ok1 o1(1) u(3)] Cons.prems(4) u(2) by simp
    have "level r1 k ?u = level r k ?u - of_bool (j = k \<and> ok)"
      using al(2) al(3)[of k] level_cong[of r1 k r ?u] al(4,5) Call by (cases "j = k") auto
    moreover have "of_nat (passed k out) = (of_bool (j = k \<and> ok) :: rat) + of_nat (passed k out1)" by (simp add: o1(2))
    moreover have "rate r1 = rate r" using al(5) by (rule rate_cong)
    ultimately have "of_nat (passed k out) + level r' k t' \<le> level r k ?u + rate r * of_int (t' - ?u)"
      using conjunct1[OF ih] by simp
    then show ?thesis using before split ih al(4,5) by linarith
  next
    case (Evict w)
    have ok1: "limiter_ok (evict_idle r w)" using Cons.prems(1) limiter_ok_cong[of "evict_idle r w" r] by simp
    have ih: "of_nat (passed k out) + level r' k t' \<le> level (evict_idle r w) k ?u + rate (evict_idle r w) * of_int (t' - ?u)
        \<and> rl_burst r' = rl_burst (evict_idle r w) \<and> rl_per_minute r' = rl_per_minute (evict_idle r w)"
      using Cons.IH[OF ok1 _ u(3)] Cons.prems(2,4) u(2) Evict by simp
    then show ?thesis
      using before split level_evict[OF Cons.prems(1), of w ?u k] Evict rate_cong[of "evict_idle r w" r]
      unfolding evict_fields by simp
  qed
qed

lemma new_limiter_ok: "0 < n \<Longrightarrow> limiter_ok (new_limiter n)"
  by (simp add: limiter_ok_def new_limiter_def)

lemma run_fields:
  "limiter_run r es = (r', out) \<Longrightarrow> limiter_ok r \<Longrightarrow>
    limiter_ok r' \<and> rl_burst r' = rl_burst r \<and> rl_per_minute r' = rl_per_minute r"
proof (induction r es arbitrary: out rule: limiter_run.induct)
  case (2 r t k es)
  obtain r1 ok where a: "allow r t k = (r1, ok)" by fastforce
  note al = allow_level(4,5)[OF a "2.prems"(2)]
  have "limiter_ok r1" using limiter_ok_cong[OF al] "2.prems"(2) by simp
  moreover obtain o1 where "limiter_run r1 es = (r', o1)" using "2.prems"(1) a by (auto split: prod.splits)
  ultimately show ?case using "2.IH"[OF a[symmetric]] al by simp
next
  case (3 r t es)
  then show ?case using limiter_ok_cong[of "evict_idle r t" r] by simp
qed simp

lemma run_nonneg:
  assumes "limiter_ok r" "limiter_run r es = (r', out)" "sorted_wrt (\<le>) (t # map event_time es)"
    "\<forall>e\<in>set es. event_time e \<le> t'" "t \<le> t'" "\<forall>k. 0 \<le> level r k t"
  shows "0 \<le> level r' k t'"
  using assms
proof (induction es arbitrary: r t out)
  case Nil
  then show ?case using level_later(1)[of r t t' k] order_trans[of 0 "level r k t" "level r k t'"] by simp
next
  case (Cons e es)
  let ?u = "event_time e"
  have u: "?u \<le> t'" "sorted_wrt (\<le>) (?u # map event_time es)" "\<forall>e\<in>set es. event_time e \<le> t'"
    using Cons.prems(3,4) by auto
  have "0 \<le> level r j ?u" for j
    using level_later(1)[OF Cons.prems(1), of t ?u j] Cons.prems(3,6) order_trans[of 0 "level r j t"] by simp
  show ?case
  proof (cases e)
    case (Call w j)
    obtain r1 ok where a: "allow r w j = (r1, ok)" by fastforce
    obtain out1 where o1: "limiter_run r1 es = (r', out1)"
      using Cons.prems(2) Call a by (auto split: prod.splits)
    note al = allow_level[OF a Cons.prems(1)]
    have ok1: "limiter_ok r1" using limiter_ok_cong[OF al(4,5)] Cons.prems(1) by simp
    have "0 \<le> level r1 i ?u" for i
    proof (cases "i = j")
      case True
      then show ?thesis using al(1,2) Call \<open>0 \<le> level r j ?u\<close> by (cases ok) auto
    next
      case False
      then show ?thesis using level_cong[OF al(3)[OF False] al(4,5), of ?u] \<open>0 \<le> level r i ?u\<close> by simp
    qed
    then show ?thesis using Cons.IH[OF ok1 o1 u(2,3,1)] by blast
  next
    case (Evict w)
    have ok1: "limiter_ok (evict_idle r w)" using Cons.prems(1) limiter_ok_cong[of "evict_idle r w" r] by simp
    have "0 \<le> level (evict_idle r w) i ?u" for i
      using level_evict[OF Cons.prems(1), of w ?u i] Evict \<open>0 \<le> level r i ?u\<close> by simp
    then show ?thesis using Cons.IH[OF ok1 _ u(2,3,1)] Cons.prems(2) Evict by simp
  qed
qed

lemma limiter_run_append:
  "limiter_run r (xs @ ys) = (case limiter_run r xs of (r1, o1) \<Rightarrow> case limiter_run r1 ys of (r2, o2) \<Rightarrow> (r2, o1 @ o2))"
  by (induction r xs rule: limiter_run.induct) (auto split: prod.splits)

text \<open>
  C24. The rate limiter keeps its promise. Whatever happened before, and whatever other keys
  do and however often idle buckets are evicted in between, the calls of one key that pass
  in a window of time are at most the burst (a quarter of the limit per minute, at least
  five) plus what the limit allows for the length of the window.
\<close>

theorem rate_limit_bounded:
  assumes "0 < n" "limiter_run (new_limiter n) es = (r, past)" "limiter_run r fs = (r', out)"
    and "sorted_wrt (\<le>) (map event_time es @ t # map event_time fs @ [t'])"
  shows "(of_nat (passed k out) :: rat) \<le> max (of_int n / 4) 5 + of_int n * of_int (t' - t) / (60 * of_int second)"
proof -
  have fs: "sorted_wrt (\<le>) (t # map event_time fs)" "\<forall>e\<in>set fs. event_time e \<le> t'" "t \<le> t'"
    using assms(4) by (auto simp: sorted_wrt_append)
  have f: "limiter_ok r" "rl_burst r = max (of_int n / 4) 5" "rl_per_minute r = of_int n"
    using run_fields[OF assms(2) new_limiter_ok[OF assms(1)]] by (simp_all add: new_limiter_def)
  have l: "of_nat (passed k out) + level r' k t' \<le> level r k t + rate r * of_int (t' - t)"
      "limiter_ok r'" "rl_burst r' = rl_burst r"
    using run_level[OF f(1) assms(3) fs] run_fields[OF assms(3) f(1)] by blast+
  have "0 \<le> level r j t" for j
  proof (cases es)
    case Nil
    then show ?thesis using assms(2) by (auto simp: level_def new_limiter_def)
  next
    case (Cons e es')
    have "0 \<le> level (new_limiter n) i (event_time e)" for i by (simp add: level_def new_limiter_def)
    then show ?thesis
      using run_nonneg[OF new_limiter_ok[OF assms(1)] assms(2), of "event_time e" t j] assms(4) Cons
      by (auto simp: sorted_wrt_append)
  qed
  then have "0 \<le> level r' k t'" using run_nonneg[OF f(1) assms(3) fs] by blast
  moreover have "rate r * of_int (t' - t) = of_int n * of_int (t' - t) / (60 * of_int second)"
    by (simp add: rate_def f(3))
  ultimately show ?thesis using l(1) level_burst[of r k t] f(2) by linarith
qed

definition sample_calls :: "limiter_event list" where
  "sample_calls = [Call 0 ''k'', Call 0 ''k'', Evict 1, Call 2 ''k'', Call 3 ''k'', Call 4 ''k'', Call 5 ''k'', Call 6 ''j'']"

lemma rate_limit_bounded_witness:
  "passed ''k'' (snd (limiter_run (new_limiter 4) sample_calls)) \<le> 5"
proof -
  obtain r' out where run: "limiter_run (new_limiter 4) sample_calls = (r', out)" by fastforce
  have "sorted_wrt (\<le>) (map event_time [] @ 0 # map event_time sample_calls @ [6])"
    by (simp add: sample_calls_def)
  then have "(of_nat (passed ''k'' out) :: rat) \<le> max (of_int 4 / 4) 5 + of_int 4 * of_int (6 - 0) / (60 * of_int second)"
    using rate_limit_bounded[of 4 "[]" "new_limiter 4" "[]" sample_calls r' out 0 6 "''k''"] run by simp
  then have "(of_nat (passed ''k'' out) :: rat) < of_nat 6" by (simp add: time_defs)
  then have "passed ''k'' out < 6" unfolding of_nat_less_iff .
  with run show ?thesis by simp
qed

section \<open>Who reaches a handler\<close>

text \<open>
  The identity a call carries into the handler, and the account state the gate lets through:
  the cached one, else the one looked up, or none when the lookup failed.
\<close>

definition vouched :: "'w gate_config \<Rightarrow> int \<Rightarrow> gate \<Rightarrow> 'w \<Rightarrow> string \<Rightarrow> account_state option" where
  "vouched c now g w u = (case cached g now u of Some e \<Rightarrow> Some (fst e) | None \<Rightarrow> gc_check c w u)"

definition state_admits :: "account_state \<Rightarrow> request \<Rightarrow> bool" where
  "state_admits st rq \<longleftrightarrow> as_active st \<and> (rq_method rq \<in> set age_gate_open \<or> as_adult st \<and> as_agreed st)"

definition token_of :: "request \<Rightarrow> string option" where
  "token_of rq = (case rq_meta rq of Some (t # _, _) \<Rightarrow> Some t | _ \<Rightarrow> None)"

lemma user_limit_cases:
  "user_rate_limit now (run_handler h) ctx s = (s1, r) \<Longrightarrow>
    (snd s1, r) = h ctx (snd s) \<and> ga_cache (fst s1) = ga_cache (fst s) \<or> snd s1 = snd s \<and> (\<exists>e. r = Inl e) \<and> ga_cache (fst s1) = ga_cache (fst s)"
  by (auto simp: user_rate_limit_def run_handler_def Let_def split: option.splits prod.splits if_splits)

lemma enforce_cases:
  assumes "enforce st rq u (user_rate_limit now (run_handler h)) ctx s = (s1, r)"
  shows "(state_admits st rq \<and> (snd s1, r) = h ctx (snd s)) \<or> (snd s1 = snd s \<and> (\<exists>e. r = Inl e))"
proof (cases "state_admits st rq")
  case True
  obtain s2 r2 where m: "user_rate_limit now (run_handler h) ctx s = (s2, r2)" by fastforce
  have "snd s1 = snd s2" "r = r2" using assms True m
    by (auto simp: enforce_def state_admits_def Let_def split: if_splits)
  with user_limit_cases[OF m] True show ?thesis by auto
next
  case False
  then show ?thesis using assms by (auto simp: enforce_def state_admits_def Let_def split: if_splits)
qed

lemma active_cases:
  assumes "active_user (Some (gc_check c)) ttl now rq (user_rate_limit now (run_handler h)) (Some (u, role)) s = (s1, r)"
  shows "(snd s1, r) = h (Some (u, role)) (snd s)
      \<and> (case vouched c now (fst s) (snd s) u of None \<Rightarrow> True | Some st \<Rightarrow> state_admits st rq)
    \<or> snd s1 = snd s \<and> (\<exists>e. r = Inl e)"
  using assms enforce_cases user_limit_cases
  unfolding active_user_def vouched_def
  by (auto split: option.splits dest!: enforce_cases user_limit_cases)

lemma protected_call:
  assumes "api_call c now rq h (g, w) = ((g', w'), r)" "rq_method rq \<notin> set public_methods"
  shows "(w' = w \<and> (\<exists>e. r = Inl e))
    \<or> (\<exists>t u role. token_of rq = Some t \<and> gc_verify c now t = Some (u, role) \<and> (w', r) = h (Some (u, role)) w
        \<and> \<not> (rq_method rq \<in> set admin_methods \<and> \<not> is_admin role)
        \<and> (case vouched c now g w u of None \<Rightarrow> True | Some st \<Rightarrow> state_admits st rq))"
proof -
  have "authenticate (gc_verify c now) rq (active_user (Some (gc_check c)) active_ttl now rq
      (user_rate_limit now (run_handler h))) None (g, w) = ((g', w'), r)"
    using assms by (simp add: api_call_def public_rate_limit_def split: option.splits)
  with assms(2) show ?thesis
    by (auto simp: authenticate_def token_of_def split: option.splits list.splits prod.splits if_splits
        dest!: active_cases)
qed


definition sample_gate :: "users_db gate_config" where
  "sample_gate = \<lparr>gc_trust = False, gc_verify = (\<lambda>now t. if t = ''tok'' then Some (''u'', ''user'') else None),
     gc_check = active_check\<rparr>"

definition plan_call :: request where
  "plan_call = \<lparr>rq_method = ''/social.v1.PlanService/CreatePlan'', rq_meta = Some ([''tok''], []), rq_peer = None\<rparr>"

text \<open>A handler that resets the tables, to see that it was not called.\<close>

definition sample_handler :: "caller \<Rightarrow> users_db \<Rightarrow> users_db \<times> (rpc_error + string)" where
  "sample_handler ctx w = (w\<lparr>ud_people := []\<rparr>, Inr ''done'')"

lemmas gate_samples = sample_gate_def plan_call_def sample_handler_def

lemma plan_call_simps: "rq_method plan_call \<notin> set public_methods" "rq_method plan_call \<notin> set age_gate_open"
  "token_of plan_call = Some ''tok''"
  by (simp_all add: plan_call_def public_methods_def age_gate_open_def token_of_def)


section \<open>Locking an account out\<close>

lemma user_limit_cache: "ga_cache (fst (fst (user_rate_limit now (run_handler h) ctx s))) = ga_cache (fst s)"
  by (auto simp: user_rate_limit_def run_handler_def Let_def split: option.splits prod.splits)

lemma enforce_cache:
  "map_of (ga_cache (fst (fst (enforce st rq u (user_rate_limit now (run_handler h)) ctx s)))) v
    \<in> {None, map_of (ga_cache (fst s)) v}"
  using user_limit_cache[of now h ctx s]
  by (auto simp: enforce_def Let_def delete_conv' split: prod.splits)

text \<open>A call adds at most one entry to the cache: what the check just answered, for thirty seconds.\<close>

lemma api_call_cache:
  "map_of (ga_cache (fst (fst (api_call c now rq h (g, w))))) v \<in> {None, map_of (ga_cache g) v}
    \<or> (\<exists>st e. map_of (ga_cache (fst (fst (api_call c now rq h (g, w))))) v = Some (st, e)
        \<and> gc_check c w v = Some st \<and> e \<le> now + active_ttl)"
    (is "?P (fst (fst (api_call c now rq h (g, w)))) g")
proof -
  have active: "?P (fst (fst (active_user (Some (gc_check c)) active_ttl now rq (user_rate_limit now (run_handler h)) ctx (g2, w)))) g2"
    for ctx g2
  proof (cases "\<exists>u role st. ctx = Some (u, role) \<and> cached g2 now u = None \<and> gc_check c w u = Some st")
    case False
    then consider "ctx = None" | u role where "ctx = Some (u, role)" "cached g2 now u = None" "gc_check c w u = None"
      | u role e where "ctx = Some (u, role)" "cached g2 now u = Some e"
      by (metis option.exhaust surj_pair)
    then show ?thesis
    proof cases
      case 3
      then show ?thesis using enforce_cache[of "fst e" rq u now h ctx "(g2, w)" v] by (simp add: active_user_def)
    qed (simp_all add: active_user_def user_limit_cache)
  next
    case True
    then obtain u role st where u: "ctx = Some (u, role)" "cached g2 now u = None" "gc_check c w u = Some st" by blast
    let ?e = "if as_adult st \<and> as_agreed st then now + active_ttl else now + 2 * second"
    let ?g = "store_state g2 u (st, ?e)"
    have "map_of (ga_cache ?g) v \<in> {None, map_of (ga_cache g2) v} \<or> v = u \<and> map_of (ga_cache ?g) v = Some (st, ?e)"
      by (auto simp: store_state_def update_conv')
    moreover have "?e \<le> now + active_ttl" by (simp add: time_defs)
    ultimately show ?thesis
      using enforce_cache[of st rq u now h ctx "(?g, w)" v] u by (auto simp: active_user_def)
  qed
  have "?P (fst (fst (authenticate (gc_verify c now) rq (active_user (Some (gc_check c)) active_ttl now rq
      (user_rate_limit now (run_handler h))) ctx (g2, w)))) g2" for ctx g2
    using active[of _ g2] by (auto simp: authenticate_def split: option.splits list.splits prod.splits)
  from this[of None "g\<lparr>ga_public := _\<rparr>"] this[of None g] show ?thesis
    by (auto simp: api_call_def public_rate_limit_def Let_def split: option.splits prod.splits)
qed

text \<open>
  Steps of the program: a call of any client with any handler, or anything else that changes
  the state or the limiters (jobs, other services, the eviction), time going on.
\<close>

inductive gate_step :: "'w gate_config \<Rightarrow> int \<times> gate \<times> 'w \<Rightarrow> int \<times> gate \<times> 'w \<Rightarrow> bool" for c where
  call: "t \<le> now \<Longrightarrow> gate_step c (t, g, w) (now, fst (api_call c now rq (h :: caller \<Rightarrow> 'w \<Rightarrow> 'w \<times> (rpc_error + string)) (g, w)))"
| outside: "t \<le> now \<Longrightarrow> ga_cache g' = ga_cache g \<Longrightarrow> gate_step c (t, g, w) (now, g', w')"

definition inactive :: "'w gate_config \<Rightarrow> string \<Rightarrow> 'w \<Rightarrow> bool" where
  "inactive c u w \<longleftrightarrow> (case gc_check c w u of None \<Rightarrow> False | Some st \<Rightarrow> \<not> as_active st)"

abbreviation gate_run :: "'w gate_config \<Rightarrow> int \<times> gate \<times> 'w \<Rightarrow> int \<times> gate \<times> 'w \<Rightarrow> bool" where
  "gate_run c \<equiv> (gate_step c)\<^sup>*\<^sup>*"

abbreviation inactive_run :: "'w gate_config \<Rightarrow> string \<Rightarrow> int \<times> gate \<times> 'w \<Rightarrow> int \<times> gate \<times> 'w \<Rightarrow> bool" where
  "inactive_run c u \<equiv> (\<lambda>x y. gate_step c x y \<and> inactive c u (snd (snd y)))\<^sup>*\<^sup>*"

definition cache_until :: "int \<Rightarrow> gate \<Rightarrow> bool" where
  "cache_until t g \<longleftrightarrow> (\<forall>u st e. map_of (ga_cache g) u = Some (st, e) \<longrightarrow> e \<le> t + active_ttl)"

lemma run_cache_until:
  "gate_run c x y \<Longrightarrow> cache_until (fst x) (fst (snd x)) \<Longrightarrow> cache_until (fst y) (fst (snd y))"
proof (induction rule: rtranclp_induct)
  case (step y z)
  from step(2) step(3)[OF step(4)] show ?case
  proof (cases rule: gate_step.cases)
    case (call t now g w rq h)
    show ?thesis unfolding cache_until_def
    proof (intro allI impI)
      fix u st e assume m: "map_of (ga_cache (fst (snd z))) u = Some (st, e)"
      have "e \<le> t + active_ttl" if "map_of (ga_cache g) u = Some (st, e)"
        using step(3)[OF step(4)] that call(1) by (simp add: cache_until_def)
      then show "e \<le> fst z + active_ttl"
        using api_call_cache[of c now rq h g w u] m call by auto
    qed
  next
    case (outside t now g' g w w')
    show ?thesis unfolding cache_until_def
    proof (intro allI impI)
      fix u st e assume "map_of (ga_cache (fst (snd z))) u = Some (st, e)"
      then have "e \<le> t + active_ttl" using step(3)[OF step(4)] outside by (simp add: cache_until_def)
      then show "e \<le> fst z + active_ttl" using outside by simp
    qed
  qed
qed

definition fades :: "string \<Rightarrow> int \<Rightarrow> gate \<Rightarrow> bool" where
  "fades u t g \<longleftrightarrow> (case map_of (ga_cache g) u of None \<Rightarrow> True | Some (st, e) \<Rightarrow> as_active st \<longrightarrow> e \<le> t + active_ttl)"

lemma run_fades:
  "inactive_run c u x y \<Longrightarrow> inactive c u (snd (snd x)) \<Longrightarrow> fades u t (fst (snd x))
    \<Longrightarrow> fades u t (fst (snd y)) \<and> inactive c u (snd (snd y))"
proof (induction rule: rtranclp_induct)
  case (step y z)
  note ih = step(3)[OF step(4,5)]
  from conjunct1[OF step(2)] have "fades u t (fst (snd z))"
  proof (cases rule: gate_step.cases)
    case (call t' now g w rq h)
    from ih call(1) have "fades u t g" "inactive c u w" by simp_all
    then show ?thesis using api_call_cache[of c now rq h g w u] call(2)
      by (auto simp: fades_def inactive_def split: option.splits)
  next
    case (outside t' now g' g w w')
    then show ?thesis using ih by (simp add: fades_def)
  qed
  with step(2) show ?case by simp
qed simp

text \<open>
  C23. A suspended, deleted or unknown account is locked out of the API half a minute later at
  the latest, however long its access tokens live: once the account is inactive, and as long
  as it stays so, every call with one of its tokens to a method that needs one is refused
  more than thirty seconds later, with the state of the program unchanged, whatever calls
  and jobs ran before and in between.
\<close>

theorem suspended_locked_out:
  assumes "gate_run c (t, new_gate a b, w) (t0, g0, w0)" "inactive c u w0"
    and "inactive_run c u (t0, g0, w0) (t1, g1, w1)" "t0 + 30 * second < now"
    and "rq_method rq \<notin> set public_methods" "token_of rq = Some token" "gc_verify c now token = Some (u, role)"
  shows "\<exists>g e. api_call c now rq h (g1, w1) = ((g, w1), Inl e)"
proof -
  have "cache_until t0 g0" using run_cache_until[OF assms(1)] by (simp add: cache_until_def new_gate_def)
  then have "fades u t0 g0" by (simp add: fades_def cache_until_def split: option.splits)
  then have f: "fades u t0 g1" "inactive c u w1" using run_fades[OF assms(3), of t0] assms(2) by simp_all
  obtain g w' r where call: "api_call c now rq h (g1, w1) = ((g, w'), r)" by (metis surj_pair)
  have "case vouched c now g1 w1 u of None \<Rightarrow> False | Some st \<Rightarrow> \<not> as_active st"
    using f assms(4) by (auto simp: vouched_def cached_def fades_def inactive_def time_defs split: option.splits)
  then have "w' = w1 \<and> (\<exists>e. r = Inl e)"
    using protected_call[OF call assms(5)] assms(6,7) by (auto simp: state_admits_def split: option.splits)
  with call show ?thesis by blast
qed

lemma suspended_locked_out_witness:
  "snd (fst (api_call sample_gate (40 * second) plan_call sample_handler
     (fst (fst (api_call sample_gate 5 plan_call sample_handler (new_gate 60 60, grown_up))), erased))) = erased"
proof -
  let ?s = "fst (api_call sample_gate 5 plan_call sample_handler (new_gate 60 60, grown_up))"
  have run: "gate_run sample_gate (0, new_gate 60 60, grown_up) (6, fst ?s, erased)"
  proof (rule converse_rtranclp_into_rtranclp)
    show "gate_step sample_gate (0, new_gate 60 60, grown_up) (5, ?s)" by (rule gate_step.call) simp
    show "gate_run sample_gate (5, ?s) (6, fst ?s, erased)"
      using gate_step.outside[of 5 6 "fst ?s" "fst ?s" sample_gate "snd ?s" erased] by (simp add: r_into_rtranclp)
  qed
  have "inactive sample_gate ''u'' erased"
    by (simp add: inactive_def sample_gate_def active_check_def delete_account_def erase_account_def erase_person_def
        commitments_def people_samples upd_def)
  moreover have "(6::int) + 30 * second < 40 * second" by (simp add: time_defs)
  moreover have "gc_verify sample_gate (40 * second) ''tok'' = Some (''u'', ''user'')" by (simp add: sample_gate_def)
  ultimately obtain g e where "api_call sample_gate (40 * second) plan_call sample_handler (fst ?s, erased) = ((g, erased), Inl e)"
    using suspended_locked_out[OF run _ rtranclp.rtrancl_refl _ plan_call_simps(1,3)] by blast
  then show ?thesis by simp
qed

end
