(* ===== verification/Referral.thy ===== *)
theory Referral
  imports Recurrence
begin

text \<open>
  Referral codes (\<^verbatim>\<open>internal/referral\<close>): a user's own code, applying somebody else's once
  within a week of signing up, and the credits both sides get. Random bytes are an argument
  of the operation that draws them.
\<close>

section \<open>Repository and service\<close>

definition reward_minor :: int where "reward_minor = 10000"
definition referral_cap :: int where "referral_cap = 20"
definition signup_window :: int where [time_defs]: "signup_window = 7 * 24 * hour"

definition alphabet :: string where "alphabet = ''ABCDEFGHJKMNPQRSTUVWXYZ23456789''"

definition new_code :: "nat list \<Rightarrow> string" where
  "new_code bytes = map (\<lambda>b. alphabet ! (b mod length alphabet)) (take 8 bytes)"

abbreviation code_of_user :: "db \<Rightarrow> string \<Rightarrow> (string \<times> string) option" where
  "code_of_user s u \<equiv> find (\<lambda>x. fst x = u) (t_ref_codes s)"

text \<open>
  One turn of the loop per draw: the user's code if there is one, else an insert that a
  clash with another user's code sends to the next turn.
\<close>

fun get_or_create_code :: "db \<Rightarrow> string \<Rightarrow> nat list list \<Rightarrow> (db, string) outcome" where
  "get_or_create_code s u [] = (s, Inl (Referral RefNoCode))"
| "get_or_create_code s u (b # bs) =
     (case code_of_user s u of
        Some (_, c) \<Rightarrow> (s, Inr c)
      | None \<Rightarrow>
          if new_code b \<in> snd ` set (t_ref_codes s) then get_or_create_code s u bs
          else get_or_create_code (s\<lparr>t_ref_codes := t_ref_codes s @ [(u, new_code b)]\<rparr>) u bs)"

definition referral_count :: "db \<Rightarrow> string \<Rightarrow> int" where
  "referral_count s u = cnt (\<lambda>r. rr_referrer r = u) (t_referrals s)"

definition credit :: "string \<Rightarrow> string \<Rightarrow> ledger_row" where
  "credit user reason = \<lparr>cl_user = user, cl_amount = reward_minor, cl_reason = reason, cl_order = None\<rparr>"

definition reward_notice :: "int \<Rightarrow> string \<Rightarrow> db \<Rightarrow> db" where
  "reward_notice now u s = enqueue_notify_user s now u ''Referral reward''
     ([CHR 0xE2, CHR 0x82, CHR 0xB9] @ ''100 credit has been added to your account.'') ''hivemind://wallet'' ''in_app''"

definition apply_referral :: "db \<Rightarrow> int \<Rightarrow> string \<Rightarrow> string \<Rightarrow> (db, unit) outcome" where
  "apply_referral s now referee code =
    in_tx s
      (case find (\<lambda>x. snd x = code) (t_ref_codes s) of
         None \<Rightarrow> (s, Inl (Referral RefCodeNotFound))
       | Some (referrer, _) \<Rightarrow>
           if referrer = referee then (s, Inl (Referral RefSelfReferral))
           else case find (\<lambda>u. us_id u = referee) (t_users s) of
               None \<Rightarrow> (s, Inl DB_NoRows)
             | Some u \<Rightarrow>
                 if signup_window < now - us_created u then (s, Inl (Referral RefWindowClosed))
                 else if referral_cap \<le> referral_count s referrer then (s, Inl (Referral RefCapReached))
                 else if \<exists>r\<in>set (t_referrals s). rr_referee r = referee then (s, Inl (Referral RefAlreadyReferred))
                 else
                   let s1 = s\<lparr>t_referrals := t_referrals s @ [\<lparr>rr_referrer = referrer, rr_referee = referee,
                                rr_code = code, rr_reward = reward_minor\<rparr>],
                              t_ledger := t_ledger s @ [credit referrer ''referral_referrer'', credit referee ''referral_referee'']\<rparr>
                   in (reward_notice now referee (reward_notice now referrer s1), Inr ()))"

definition referral_stats :: "db \<Rightarrow> string \<Rightarrow> int \<times> int" where
  "referral_stats s u = (referral_count s u, tot (\<lambda>r. rr_referrer r = u) rr_reward (t_referrals s))"

definition normalize_code :: "string \<Rightarrow> string" where
  "normalize_code c = map to_upper (trim_space c)"

definition get_my_code :: "db \<Rightarrow> string \<Rightarrow> nat list list \<Rightarrow> (db, string) outcome" where
  "get_my_code s u draws =
     (if u = '''' then (s, Inl (Referral RefInvalidInput)) else get_or_create_code s u (take 5 draws))"

definition apply_code :: "db \<Rightarrow> int \<Rightarrow> string \<Rightarrow> string \<Rightarrow> (db, unit) outcome" where
  "apply_code s now u code =
     (if u = '''' \<or> length (normalize_code code) \<noteq> 8 then (s, Inl (Referral RefInvalidInput))
      else apply_referral s now u (normalize_code code))"

definition get_stats :: "db \<Rightarrow> string \<Rightarrow> go_error + (int \<times> int)" where
  "get_stats s u = (if u = '''' then Inl (Referral RefInvalidInput) else Inr (referral_stats s u))"

section \<open>What one call does\<close>

lemma apply_referral_Inr:
  assumes "apply_referral s now referee code = (s', Inr ())"
  shows "\<exists>referrer. (referrer, code) \<in> set (t_ref_codes s) \<and> referrer \<noteq> referee
    \<and> referral_count s referrer < referral_cap \<and> (\<forall>r\<in>set (t_referrals s). rr_referee r \<noteq> referee)
    \<and> (\<exists>u\<in>set (t_users s). us_id u = referee \<and> now - us_created u \<le> signup_window)
    \<and> t_referrals s' = t_referrals s @ [\<lparr>rr_referrer = referrer, rr_referee = referee, rr_code = code, rr_reward = reward_minor\<rparr>]
    \<and> t_ledger s' = t_ledger s @ [credit referrer ''referral_referrer'', credit referee ''referral_referee'']
    \<and> t_ref_codes s' = t_ref_codes s"
proof -
  obtain referrer c where f: "find (\<lambda>x. snd x = code) (t_ref_codes s) = Some (referrer, c)" "referrer \<noteq> referee"
    using assms by (auto simp: apply_referral_def in_tx_eq_Inr split: option.splits if_splits)
  obtain u where u: "find (\<lambda>u. us_id u = referee) (t_users s) = Some u"
    using assms f by (auto simp: apply_referral_def in_tx_eq_Inr split: option.splits)
  have g: "now - us_created u \<le> signup_window" "referral_count s referrer < referral_cap"
      "\<forall>r\<in>set (t_referrals s). rr_referee r \<noteq> referee"
    using assms f u by (auto simp: apply_referral_def in_tx_eq_Inr split: if_splits)
  have s': "s' = reward_notice now referee (reward_notice now referrer
      (s\<lparr>t_referrals := t_referrals s @ [\<lparr>rr_referrer = referrer, rr_referee = referee, rr_code = code, rr_reward = reward_minor\<rparr>],
         t_ledger := t_ledger s @ [credit referrer ''referral_referrer'', credit referee ''referral_referee'']\<rparr>))"
    using assms f u g by (auto simp: apply_referral_def in_tx_eq_Inr Let_def split: if_splits)
  have "(referrer, code) \<in> set (t_ref_codes s)" using find_key[OF f(1)] by simp
  with f(2) g find_key[OF u] show ?thesis by (auto simp: s' reward_notice_def enqueue_defs)
qed

lemma apply_code_Inl: "apply_code s now u code = (s', Inl e) \<Longrightarrow> s' = s"
  by (auto simp: apply_code_def apply_referral_def split: if_splits dest: in_tx_error)

lemma get_or_create_code_rows:
  "\<exists>cs. fst (get_or_create_code s u bs) = s\<lparr>t_ref_codes := t_ref_codes s @ cs\<rparr>"
proof (induction bs arbitrary: s)
  case Nil
  show ?case by (intro exI[of _ "[]"]) simp
next
  case (Cons b bs)
  show ?case
  proof (cases "code_of_user s u")
    case None
    obtain cs where "fst (get_or_create_code (s\<lparr>t_ref_codes := t_ref_codes s @ [(u, new_code b)]\<rparr>) u bs)
        = s\<lparr>t_ref_codes := (t_ref_codes s @ [(u, new_code b)]) @ cs\<rparr>"
      using Cons[of "s\<lparr>t_ref_codes := t_ref_codes s @ [(u, new_code b)]\<rparr>"] by auto
    then have "\<exists>cs. fst (get_or_create_code (s\<lparr>t_ref_codes := t_ref_codes s @ [(u, new_code b)]\<rparr>) u bs)
        = s\<lparr>t_ref_codes := t_ref_codes s @ cs\<rparr>" by (auto intro!: exI[of _ "(u, new_code b) # cs"])
    with None Cons[of s] show ?thesis by simp
  next
    case (Some x)
    then show ?thesis by (intro exI[of _ "[]"]) (simp add: case_prod_beta)
  qed
qed

section \<open>Runs\<close>

inductive referral_step :: "db \<Rightarrow> db \<Rightarrow> bool" where
  code_step: "referral_step s (fst (get_my_code s u draws))"
| apply_step: "referral_step s (fst (apply_code s now u code))"

abbreviation referral_run :: "db \<Rightarrow> db \<Rightarrow> bool" where
  "referral_run \<equiv> referral_step\<^sup>*\<^sup>*"

abbreviation referrer_credit :: "string \<Rightarrow> ledger_row \<Rightarrow> bool" where
  "referrer_credit u r \<equiv> cl_user r = u \<and> cl_reason r = ''referral_referrer''"

abbreviation referee_credit :: "string \<Rightarrow> ledger_row \<Rightarrow> bool" where
  "referee_credit u r \<equiv> cl_user r = u \<and> cl_reason r = ''referral_referee''"

text \<open>The referrals and the ledger say the same, and every limit is kept.\<close>

definition referrals_ok :: "db \<Rightarrow> bool" where
  "referrals_ok s \<longleftrightarrow> distinct (map rr_referee (t_referrals s))
     \<and> (\<forall>r\<in>set (t_referrals s). rr_referrer r \<noteq> rr_referee r \<and> rr_reward r = reward_minor)
     \<and> (\<forall>u. referral_count s u \<le> referral_cap
          \<and> tot (referrer_credit u) cl_amount (t_ledger s) = reward_minor * referral_count s u
          \<and> tot (referee_credit u) cl_amount (t_ledger s) = reward_minor * cnt (\<lambda>r. rr_referee r = u) (t_referrals s))"

lemma step_referrals_ok:
  assumes "referral_step s s'" "referrals_ok s"
  shows "referrals_ok s'"
  using assms(1)
proof cases
  case (code_step u draws)
  obtain cs where "fst (get_or_create_code s u (take 5 draws)) = s\<lparr>t_ref_codes := t_ref_codes s @ cs\<rparr>"
    using get_or_create_code_rows by blast
  with code_step assms(2) show ?thesis by (auto simp: get_my_code_def referrals_ok_def referral_count_def split: if_splits)
next
  case (apply_step now u code)
  obtain s1 x where r: "apply_code s now u code = (s1, x)" by fastforce
  show ?thesis
  proof (cases x)
    case (Inl e)
    with r apply_step assms(2) show ?thesis using apply_code_Inl[of s now u code s1 e] by simp
  next
    case (Inr y)
    then have a: "apply_referral s now u (normalize_code code) = (s', Inr ())"
      using r apply_step by (auto simp: apply_code_def split: if_splits)
    obtain referrer where e: "referrer \<noteq> u" "referral_count s referrer < referral_cap"
        "\<forall>r\<in>set (t_referrals s). rr_referee r \<noteq> u"
        "t_referrals s' = t_referrals s @ [\<lparr>rr_referrer = referrer, rr_referee = u, rr_code = normalize_code code, rr_reward = reward_minor\<rparr>]"
        "t_ledger s' = t_ledger s @ [credit referrer ''referral_referrer'', credit u ''referral_referee'']"
      using apply_referral_Inr[OF a] by blast
    have "referral_count s' v \<le> referral_cap" for v
      using e(2,4) assms(2) by (auto simp: referral_count_def referrals_ok_def)
    moreover have "tot (referrer_credit v) cl_amount (t_ledger s') = reward_minor * referral_count s' v" for v
      using e(4,5) assms(2) by (auto simp: referral_count_def referrals_ok_def credit_def algebra_simps)
    moreover have "tot (referee_credit v) cl_amount (t_ledger s') = reward_minor * cnt (\<lambda>r. rr_referee r = v) (t_referrals s')" for v
      using e(4,5) assms(2) by (auto simp: referrals_ok_def credit_def algebra_simps)
    moreover have "distinct (map rr_referee (t_referrals s'))"
      using e(3,4) assms(2) by (auto simp: referrals_ok_def)
    moreover have "\<forall>r\<in>set (t_referrals s'). rr_referrer r \<noteq> rr_referee r \<and> rr_reward r = reward_minor"
      using e(1,4) assms(2) by (auto simp: referrals_ok_def)
    ultimately show ?thesis by (simp add: referrals_ok_def)
  qed
qed

lemma run_referrals_ok: "referral_run s s' \<Longrightarrow> referrals_ok s \<Longrightarrow> referrals_ok s'"
  by (induction rule: rtranclp_induct) (auto intro: step_referrals_ok)


definition referral_db :: db where
  "referral_db = empty_db\<lparr>t_users := [\<lparr>us_id = ''v'', us_email = ''v@x'', us_status = UserActive, us_city = None, us_created = 5\<rparr>],
     t_ref_codes := [(''u'', ''ABCDEFGH'')]\<rparr>"


end
