(* ===== verification/Moderation.thy ===== *)
theory Moderation
  imports Complex_Main Connections
begin

text \<open>
  Trust and safety (\<^verbatim>\<open>internal/moderation\<close>): reports and their cases, blocks, the trust
  badges and the content screener. Reviews' ratings and verification tiers are the columns
  of other packages the badges read. The screener's word list is an argument.
\<close>

section \<open>Tables\<close>

datatype case_status = CaseOpen | CaseUnderReview | CaseResolved | CaseAppealed

record report_row =
  re_id :: string
  re_reporter :: string
  re_type :: string
  re_subject :: string
  re_reason :: string

record case_row =
  mc_id :: string
  mc_report :: string
  mc_status :: case_status
  mc_resolution :: string
  mc_severity :: string
  mc_auto :: bool

record mod_db =
  md_reports :: "report_row list"
  md_cases :: "case_row list"
  md_ratings :: "(string \<times> int) list"
  md_tiers :: "(string \<times> string) list"

datatype moderation_error = ModInvalidInput | ModCaseNotFound | ModNoRows

record mod_case =
  ca_id :: string
  ca_reporter :: string
  ca_type :: string
  ca_subject :: string
  ca_reason :: string
  ca_status :: case_status
  ca_resolution :: string
  ca_severity :: string
  ca_auto :: bool

section \<open>Repository\<close>

text \<open>A report and its case, inserted in one transaction; \<open>ids\<close> are the generated keys.\<close>

definition create_case ::
  "mod_db \<Rightarrow> string \<times> string \<Rightarrow> string \<Rightarrow> string \<Rightarrow> string \<Rightarrow> string \<Rightarrow> mod_db \<times> mod_case" where
  "create_case m ids reporter type subject reason =
     (m\<lparr>md_reports := md_reports m @ [\<lparr>re_id = fst ids, re_reporter = reporter, re_type = type, re_subject = subject,
           re_reason = reason\<rparr>],
        md_cases := md_cases m @ [\<lparr>mc_id = snd ids, mc_report = fst ids, mc_status = CaseOpen, mc_resolution = '''',
           mc_severity = ''review'', mc_auto = False\<rparr>]\<rparr>,
      \<lparr>ca_id = snd ids, ca_reporter = reporter, ca_type = type, ca_subject = subject, ca_reason = reason,
        ca_status = CaseOpen, ca_resolution = '''', ca_severity = '''', ca_auto = False\<rparr>)"

definition create_auto_flagged ::
  "mod_db \<Rightarrow> string \<times> string \<Rightarrow> string \<Rightarrow> string \<Rightarrow> string \<Rightarrow> string \<Rightarrow> string \<Rightarrow> mod_db \<times> string" where
  "create_auto_flagged m ids type subject actor severity reason =
     (m\<lparr>md_reports := md_reports m @ [\<lparr>re_id = fst ids, re_reporter = actor, re_type = type, re_subject = subject,
           re_reason = reason\<rparr>],
        md_cases := md_cases m @ [\<lparr>mc_id = snd ids, mc_report = fst ids, mc_status = CaseOpen, mc_resolution = '''',
           mc_severity = severity, mc_auto = True\<rparr>]\<rparr>, snd ids)"

definition repo_get_case :: "mod_db \<Rightarrow> string \<Rightarrow> moderation_error + mod_case" where
  "repo_get_case m i =
    (case find (\<lambda>c. mc_id c = i) (md_cases m) of
       None \<Rightarrow> Inl ModNoRows
     | Some c \<Rightarrow>
         (case find (\<lambda>r. re_id r = mc_report c) (md_reports m) of
            None \<Rightarrow> Inl ModNoRows
          | Some r \<Rightarrow> Inr \<lparr>ca_id = mc_id c, ca_reporter = re_reporter r, ca_type = re_type r, ca_subject = re_subject r,
              ca_reason = re_reason r, ca_status = mc_status c, ca_resolution = mc_resolution c,
              ca_severity = mc_severity c, ca_auto = mc_auto c\<rparr>))"

definition repo_resolve :: "mod_db \<Rightarrow> string \<Rightarrow> string \<Rightarrow> mod_db \<times> (moderation_error + mod_case)" where
  "repo_resolve m i resolution =
    (case find (\<lambda>c. mc_id c = i) (md_cases m) of
       None \<Rightarrow> (m, Inl ModNoRows)
     | Some c \<Rightarrow>
         let m1 = m\<lparr>md_cases := upd (\<lambda>c. mc_id c = i) (\<lambda>c. c\<lparr>mc_status := CaseResolved, mc_resolution := resolution\<rparr>) (md_cases m)\<rparr>
         in (m1, map_sum id (\<lambda>c. c\<lparr>ca_severity := '''', ca_auto := False\<rparr>) (repo_get_case m1 i)))"

record trust_signals =
  ts_no_shows :: int
  ts_reports :: int
  ts_attended :: int
  ts_rating :: rat
  ts_tier :: string
  ts_days :: int

definition average :: "int list \<Rightarrow> rat" where
  "average xs = (if xs = [] then 0 else of_int (sum_list xs) / of_int (int (length xs)))"

definition get_trust_signals :: "db \<Rightarrow> mod_db \<Rightarrow> int \<Rightarrow> string \<Rightarrow> trust_signals" where
  "get_trust_signals s m now u = \<lparr>
     ts_no_shows = cnt (\<lambda>b. bk_user b = u \<and> bk_status b = NoShow) (t_bookings s),
     ts_reports = cnt (\<lambda>r. re_type r = ''user'' \<and> re_subject r = u) (md_reports m),
     ts_attended = cnt (\<lambda>b. bk_user b = u \<and> bk_status b = Attended) (t_bookings s),
     ts_rating = average (map snd (filter (\<lambda>r. \<exists>p\<in>set (t_plans s). pl_id p = fst r \<and> pl_host p = u) (md_ratings m))),
     ts_tier = (case find (\<lambda>t. fst t = u) (md_tiers m) of None \<Rightarrow> ''unverified'' | Some t \<Rightarrow> snd t),
     ts_days = (case find (\<lambda>r. us_id r = u) (t_users s) of None \<Rightarrow> 0 | Some r \<Rightarrow> (now - us_created r) div day)\<rparr>"

definition repo_block :: "db \<Rightarrow> string \<Rightarrow> string \<Rightarrow> db" where
  "repo_block s u other = (if (u, other) \<in> set (t_blocks s) then s else s\<lparr>t_blocks := t_blocks s @ [(u, other)]\<rparr>)"

text \<open>The newest block first: rows are appended.\<close>

definition repo_list_blocked :: "db \<Rightarrow> string \<Rightarrow> (string \<times> string) list" where
  "repo_list_blocked s u = map (\<lambda>b. (snd b, case find (\<lambda>p. fst p = snd b) (t_profiles s) of None \<Rightarrow> '''' | Some p \<Rightarrow> snd p))
     (rev (filter (\<lambda>b. fst b = u) (t_blocks s)))"

definition repo_unblock :: "db \<Rightarrow> string \<Rightarrow> string \<Rightarrow> db" where
  "repo_unblock s u other = s\<lparr>t_blocks := filter (\<lambda>b. b \<noteq> (u, other)) (t_blocks s)\<rparr>"

section \<open>Service\<close>

definition reportable_types :: "string list" where
  "reportable_types = [''user'', ''plan'', ''message'', ''post'', ''comment'', ''story'', ''community'']"

definition max_report_reason :: nat where "max_report_reason = 1000"

definition submit_report ::
  "mod_db \<Rightarrow> string \<times> string \<Rightarrow> string \<Rightarrow> string \<Rightarrow> string \<Rightarrow> string \<Rightarrow> mod_db \<times> (moderation_error + mod_case)" where
  "submit_report m ids reporter type subject reason =
    (let why = trim_space reason in
     if reporter = '''' \<or> subject = '''' \<or> why = '''' \<or> max_report_reason < length why \<or> type \<notin> set reportable_types
     then (m, Inl ModInvalidInput)
     else if type = ''user'' \<and> subject = reporter then (m, Inl ModInvalidInput)
     else case create_case m ids reporter type subject why of (m1, c) \<Rightarrow> (m1, Inr c))"

definition submit_report_for_subject ::
  "mod_db \<Rightarrow> string \<times> string \<Rightarrow> string \<Rightarrow> string \<Rightarrow> string \<Rightarrow> string \<Rightarrow> mod_db \<times> (moderation_error + string)" where
  "submit_report_for_subject m ids reporter type subject reason =
    (case submit_report m ids reporter type subject reason of (m1, r) \<Rightarrow> (m1, map_sum id ca_id r))"

definition auto_flag_for_subject ::
  "mod_db \<Rightarrow> string \<times> string \<Rightarrow> string \<Rightarrow> string \<Rightarrow> string \<Rightarrow> string \<Rightarrow> string \<Rightarrow> mod_db \<times> (moderation_error + string)" where
  "auto_flag_for_subject m ids type subject actor severity reason =
    (if subject = '''' \<or> actor = '''' \<or> severity = '''' then (m, Inl ModInvalidInput)
     else case create_auto_flagged m ids type subject actor severity reason of (m1, i) \<Rightarrow> (m1, Inr i))"

definition get_case :: "mod_db \<Rightarrow> string \<Rightarrow> string \<Rightarrow> bool \<Rightarrow> moderation_error + mod_case" where
  "get_case m i caller staff =
    (if i = '''' \<or> caller = '''' then Inl ModInvalidInput
     else case repo_get_case m i of
         Inl e \<Rightarrow> Inl e
       | Inr c \<Rightarrow> if \<not> staff \<and> ca_reporter c \<noteq> caller then Inl ModCaseNotFound else Inr c)"

definition resolve_case :: "mod_db \<Rightarrow> string \<Rightarrow> string \<Rightarrow> mod_db \<times> (moderation_error + mod_case)" where
  "resolve_case m i resolution =
    (if i = '''' \<or> resolution = '''' then (m, Inl ModInvalidInput) else repo_resolve m i resolution)"

definition derive_badges :: "trust_signals \<Rightarrow> string list" where
  "derive_badges t =
     (if 5 \<le> ts_attended t \<and> ts_no_shows t = 0 then [''reliable_attendee''] else [])
     @ (if 9 / 2 \<le> ts_rating t \<and> 3 \<le> ts_attended t then [''trusted_host''] else [])
     @ (if ts_tier t = ''id'' then [''id_verified''] else [])
     @ (if 180 \<le> ts_days t then [''community_veteran''] else [])
     @ (if 3 \<le> ts_reports t then [''under_review''] else [])"

definition get_trust_badges :: "db \<Rightarrow> mod_db \<Rightarrow> int \<Rightarrow> string \<Rightarrow> moderation_error + string list" where
  "get_trust_badges s m now u =
    (if u = '''' then Inl ModInvalidInput else Inr (derive_badges (get_trust_signals s m now u)))"

definition block_user :: "db \<Rightarrow> string \<Rightarrow> string \<Rightarrow> db \<times> (moderation_error + unit)" where
  "block_user s u other =
    (if u = '''' \<or> other = '''' \<or> u = other then (s, Inl ModInvalidInput) else (repo_block s u other, Inr ()))"

definition list_blocked_users :: "db \<Rightarrow> string \<Rightarrow> moderation_error + (string \<times> string) list" where
  "list_blocked_users s u = (if u = '''' then Inl ModInvalidInput else Inr (repo_list_blocked s u))"

definition unblock_user :: "db \<Rightarrow> string \<Rightarrow> string \<Rightarrow> db \<times> (moderation_error + unit)" where
  "unblock_user s u other =
    (if u = '''' \<or> other = '''' then (s, Inl ModInvalidInput) else (repo_unblock s u other, Inr ()))"

section \<open>Screener\<close>

definition to_lower :: "char \<Rightarrow> char" where
  "to_lower c = (let n = of_char c :: nat in if 65 \<le> n \<and> n \<le> 90 then char_of (n + 32) else c)"

definition is_upper :: "char \<Rightarrow> bool" where
  "is_upper c \<longleftrightarrow> 65 \<le> (of_char c :: nat) \<and> (of_char c :: nat) \<le> 90"

fun contains :: "string \<Rightarrow> string \<Rightarrow> bool" where
  "contains w [] = (w = [])"
| "contains w (x # xs) = (take (length w) (x # xs) = w \<or> contains w xs)"

text \<open>The loop of \<open>hasRepeatedRun\<close>: the previous rune, the length of its run so far.\<close>

fun run_loop :: "nat \<Rightarrow> 'a \<Rightarrow> nat \<Rightarrow> 'a list \<Rightarrow> bool" where
  "run_loop n prev k [] = False"
| "run_loop n prev k (x # xs) =
     (if x = prev then (n \<le> k + 1 \<or> run_loop n x (k + 1) xs) else run_loop n x 1 xs)"

definition has_repeated_run :: "'a list \<Rightarrow> nat \<Rightarrow> bool" where
  "has_repeated_run body n = (case body of [] \<Rightarrow> False | x # xs \<Rightarrow> run_loop n x 1 xs)"

text \<open>
  \<open>float64(upper)/float64(len) > 0.7\<close> is the comparison of integers: the division is
  correctly rounded, and the quotient of lengths is 0.7 or away from it by more than rounding.
\<close>

definition screen :: "string list \<Rightarrow> string \<Rightarrow> string \<times> string" where
  "screen bad_words body =
    (let lower = map to_lower body in
     if \<exists>w\<in>set bad_words. contains w lower then (''severe'', ''prohibited language'')
     else if 20 < length body \<and> 7 * length body < 10 * length (filter is_upper body) then (''review'', ''excessive caps'')
     else if has_repeated_run body 6 then (''review'', ''repeated characters'')
     else if take 4 (trim_space lower) = ''http'' then (''review'', ''unsolicited link'')
     else (''safe'', ''''))"

end
