(* ===== verification/Chat.thy ===== *)
theory Chat
  imports Moderation
begin

text \<open>
  The chat service and the rest of its repository (\<^verbatim>\<open>internal/chat\<close>): rooms, messages,
  polls, pinned messages, the inbox and direct chats. Membership rows come from the theory
  of the chat tables; connections, blocks, plans and notifications are tables of the main
  database, reports go to moderation. Interests are a column of the profiles and an
  argument here, avatars and verification ticks are not modelled. A page token is the time
  it encodes.
\<close>

record chat_world =
  cw_db :: db
  cw_chat :: chat_db
  cw_mod :: mod_db

record chat_config =
  cc_media :: "media_resolver option"
  cc_words :: "string list"

abbreviation room_by_id :: "chat_db \<Rightarrow> string \<Rightarrow> room_row option" where
  "room_by_id c k \<equiv> find (\<lambda>r. cr_id r = k) (ch_rooms c)"

definition other_members :: "chat_db \<Rightarrow> string \<Rightarrow> string \<Rightarrow> room_member list" where
  "other_members c room user = filter (\<lambda>m. cm_room m = room \<and> cm_user m \<noteq> user) (ch_members c)"

definition is_dm :: "chat_db \<Rightarrow> string \<Rightarrow> bool" where
  "is_dm c room \<longleftrightarrow> (case room_by_id c room of None \<Rightarrow> False | Some r \<Rightarrow> cr_kind r = DmRoom)"

section \<open>Icebreakers\<close>

definition member_interests :: "(string \<Rightarrow> string list) \<Rightarrow> chat_db \<Rightarrow> string \<Rightarrow> string list list" where
  "member_interests interests c room = map (\<lambda>m. interests (cm_user m)) (filter (\<lambda>m. cm_room m = room) (ch_members c))"

text \<open>Each member counts an interest once; those counted by everybody, sorted.\<close>

definition intersect_all :: "string list list \<Rightarrow> string list" where
  "intersect_all ms =
    (if length ms < 2 \<or> [] \<in> set ms then []
     else let counts = (\<lambda>i. length (filter (\<lambda>m. i \<in> set m) ms))
          in sort (filter (\<lambda>i. counts i = length ms) (remdups (concat ms))))"

definition icebreaker :: "string list list \<Rightarrow> string" where
  "icebreaker ms = (case intersect_all ms of
     i # _ \<Rightarrow> ''You all like '' @ i @ [CHR '' '', CHR 0xE2, CHR 0x80, CHR 0x94] @ '' ask someone what got them into it!''
   | [] \<Rightarrow> ''Introduce yourself and share what'' @ [CHR 0x27] @ ''re most excited about for this plan!'')"

section \<open>Rooms\<close>

definition require_member :: "chat_db \<Rightarrow> string \<Rightarrow> string \<Rightarrow> go_error + unit" where
  "require_member c room user = (if is_member c room user then Inr () else Inl (Chat ChatNotAMember))"

definition generate_icebreaker :: "(string \<Rightarrow> string list) \<Rightarrow> chat_db \<Rightarrow> string \<Rightarrow> string \<Rightarrow> go_error + string" where
  "generate_icebreaker interests c room caller =
    (if room = '''' \<or> caller = '''' then Inl (Chat ChatInvalidInput)
     else case require_member c room caller of Inl e \<Rightarrow> Inl e
     | Inr _ \<Rightarrow> Inr (icebreaker (member_interests interests c room)))"

definition can_use_plan_room :: "db \<Rightarrow> string \<Rightarrow> string \<Rightarrow> bool" where
  "can_use_plan_room s plan user \<longleftrightarrow>
     (\<exists>p\<in>set (t_plans s). pl_id p = plan \<and> pl_host p = user)
     \<or> (\<exists>x\<in>set (t_participants s). pp_plan x = plan \<and> pp_user x = user \<and> pp_status x = PartConfirmed)"

definition pinned_message_id :: "chat_db \<Rightarrow> string \<Rightarrow> string" where
  "pinned_message_id c room = (case room_by_id c room of None \<Rightarrow> '''' | Some r \<Rightarrow> coalesce (cr_pinned r))"

definition create_room ::
  "db \<Rightarrow> chat_db \<Rightarrow> int \<Rightarrow> string \<Rightarrow> string \<Rightarrow> string \<Rightarrow> string \<Rightarrow> (chat_db, string \<times> string) outcome" where
  "create_room s c now nid plan caller role =
    (if plan = '''' \<or> caller = '''' then (c, Inl (Chat ChatInvalidInput))
     else if \<not> is_admin_role role \<and> \<not> can_use_plan_room s plan caller then (c, Inl (Chat ChatNotAMember))
     else case get_or_create_room c now nid plan of (c1, room) \<Rightarrow>
       let c2 = (if is_admin_role role then c1 else add_member c1 now room caller)
       in (c2, Inr (room, pinned_message_id c2 room)))"

definition create_ad_hoc_room_with_members ::
  "chat_db \<Rightarrow> int \<Rightarrow> string \<Rightarrow> string list \<Rightarrow> (chat_db, string) outcome" where
  "create_ad_hoc_room_with_members c now nid users =
    (if users = [] then (c, Inl (Chat ChatInvalidInput))
     else case create_ad_hoc_room c now nid of (c1, room) \<Rightarrow>
       (fold (\<lambda>u c. add_member c now room u) users c1, Inr room))"

definition add_room_member :: "chat_db \<Rightarrow> int \<Rightarrow> string \<Rightarrow> string \<Rightarrow> (chat_db, unit) outcome" where
  "add_room_member c now room user =
    (if room = '''' \<or> user = '''' then (c, Inl (Chat ChatInvalidInput)) else (add_member c now room user, Inr ()))"

definition room_host_id :: "db \<Rightarrow> chat_db \<Rightarrow> string \<Rightarrow> string" where
  "room_host_id s c room =
    (case room_by_id c room of
       None \<Rightarrow> ''''
     | Some r \<Rightarrow> (case cr_plan r of None \<Rightarrow> '''' | Some k \<Rightarrow>
         (case plan_by_id s k of None \<Rightarrow> '''' | Some p \<Rightarrow> pl_host p)))"

definition require_room_host :: "db \<Rightarrow> chat_db \<Rightarrow> string \<Rightarrow> string \<Rightarrow> string \<Rightarrow> go_error + unit" where
  "require_room_host s c room user role =
    (if is_admin_role role then Inr ()
     else let host = room_host_id s c room
          in if host = '''' \<or> host \<noteq> user then Inl (Chat ChatNotHost) else Inr ())"

section \<open>Messages\<close>

text \<open>What the client sends; the type as text, the uploads by id.\<close>

record message_in =
  mi_room :: string
  mi_sender :: string
  mi_body :: string
  mi_type :: string
  mi_media :: "string list"
  mi_location :: "(rat \<times> rat \<times> string) option"
  mi_duration :: int

definition max_body_len :: nat where "max_body_len = 2000"
definition max_media :: nat where "max_media = 10"

definition location_ok :: "(rat \<times> rat \<times> string) option \<Rightarrow> bool" where
  "location_ok l = (case l of None \<Rightarrow> False
     | Some (lat, lng, label) \<Rightarrow> - 90 \<le> lat \<and> lat \<le> 90 \<and> - 180 \<le> lng \<and> lng \<le> 180 \<and> length label \<le> 200)"

definition validate_message :: "message_in \<Rightarrow> message_type option" where
  "validate_message m =
    (let t = (if mi_type m = '''' then ''text'' else mi_type m);
         written = (trim_space (mi_body m) \<noteq> '''' \<and> mi_media m = [] \<and> mi_location m = None)
     in if mi_room m = '''' \<or> mi_sender m = '''' \<or> max_body_len < length (mi_body m) then None
        else if t = ''text'' then (if written then Some MsgText else None)
        else if t = ''announcement'' then (if written then Some MsgAnnouncement else None)
        else if t = ''image'' then
          (if length (mi_media m) < 1 \<or> max_media < length (mi_media m) then None else Some MsgImage)
        else if t = ''location'' then (if location_ok (mi_location m) then Some MsgLocation else None)
        else None)"

definition dm_blocked :: "db \<Rightarrow> chat_db \<Rightarrow> string \<Rightarrow> string \<Rightarrow> bool" where
  "dm_blocked s c room sender \<longleftrightarrow> is_dm c room \<and> (\<exists>m\<in>set (other_members c room sender). blocked s sender (cm_user m))"

fun screen_loop :: "string list \<Rightarrow> string list \<Rightarrow> string \<times> string \<Rightarrow> go_error + string \<times> string" where
  "screen_loop words [] acc = Inr acc"
| "screen_loop words (t # ts) acc =
     (if t = '''' then screen_loop words ts acc
      else case screen words t of (sev, why) \<Rightarrow>
        if sev = ''severe'' then Inl (Chat ChatContentRejected)
        else screen_loop words ts (if sev = ''review'' then (sev, why) else acc))"

definition flag_message ::
  "chat_world \<Rightarrow> string \<times> string \<Rightarrow> string \<Rightarrow> string \<Rightarrow> string \<times> string \<Rightarrow> chat_world" where
  "flag_message w ids msg sender verdict =
    (if fst verdict = ''review''
     then w\<lparr>cw_mod := fst (auto_flag_for_subject (cw_mod w) ids ''message'' msg sender (fst verdict) (snd verdict))\<rparr>
     else w)"

definition message_event :: "string \<Rightarrow> message_row \<Rightarrow> event" where
  "message_event u m =
    (let trimmed = trim_space (ms_body m);
         body = (if 80 < length trimmed then take 80 trimmed @ [CHR 0xE2, CHR 0x80, CHR 0xA6] else trimmed)
     in \<lparr>ev_user = u, ev_actor = ms_sender m, ev_type = ''chat_message'', ev_target = ms_room m,
         ev_title = ''{actor} sent you a message'', ev_body = (if body = '''' then ''Sent an attachment'' else body),
         ev_link = ''hivemind://chat/'' @ ms_room m, ev_dedupe = ''chat:'' @ ms_room m\<rparr>)"

definition notify_dm :: "chat_world \<Rightarrow> int \<Rightarrow> message_row \<Rightarrow> chat_world" where
  "notify_dm w now m =
    (let to = (if is_dm (cw_chat w) (ms_room m)
               then map cm_user (filter (\<lambda>x. \<not> cm_muted x) (other_members (cw_chat w) (ms_room m) (ms_sender m))) else [])
     in w\<lparr>cw_db := fold (\<lambda>u s. fst (emit s now (message_event u m))) to (cw_db w)\<rparr>)"

definition insert_message :: "chat_db \<Rightarrow> message_row \<Rightarrow> chat_db" where
  "insert_message c m = c\<lparr>ch_messages := ch_messages c @ [m]\<rparr>"

definition claim_media :: "chat_config \<Rightarrow> message_in \<Rightarrow> go_error + media_asset list" where
  "claim_media cf m =
    (if mi_media m = [] then Inr []
     else case cc_media cf of
         None \<Rightarrow> Inl (Chat ChatMediaUnavailable)
       | Some claim \<Rightarrow>
           (case claim (mi_sender m) (mi_media m) of
              Inl e \<Rightarrow> Inl (if e = Media MediaNotFound then Chat ChatInvalidInput else e)
            | Inr assets \<Rightarrow> Inr assets))"

definition send_message ::
  "chat_config \<Rightarrow> chat_world \<Rightarrow> int \<Rightarrow> string \<Rightarrow> string \<times> string \<Rightarrow> string \<Rightarrow> message_in \<Rightarrow> (chat_world, message_row) outcome" where
  "send_message cf w now nid ids role m =
    (case validate_message m of
       None \<Rightarrow> (w, Inl (Chat ChatInvalidInput))
     | Some t \<Rightarrow>
         if \<not> is_member (cw_chat w) (mi_room m) (mi_sender m) then (w, Inl (Chat ChatNotAMember))
         else if dm_blocked (cw_db w) (cw_chat w) (mi_room m) (mi_sender m) then (w, Inl (Chat ChatNotAMember))
         else case (if t = MsgAnnouncement then require_room_host (cw_db w) (cw_chat w) (mi_room m) (mi_sender m) role
                    else Inr ()) of
             Inl e \<Rightarrow> (w, Inl e)
           | Inr _ \<Rightarrow>
               (case screen_loop (cc_words cf) [mi_body m] ('''', '''') of
                  Inl e \<Rightarrow> (w, Inl e)
                | Inr verdict \<Rightarrow>
                    (case claim_media cf m of
                       Inl e \<Rightarrow> (w, Inl e)
                     | Inr assets \<Rightarrow>
                         let r = \<lparr>ms_id = nid, ms_room = mi_room m, ms_sender = mi_sender m, ms_body = mi_body m,
                               ms_type = t, ms_location = mi_location m, ms_duration = mi_duration m,
                               ms_media = assets, ms_sent = now\<rparr>;
                             w1 = w\<lparr>cw_chat := insert_message (cw_chat w) r\<rparr>
                         in (notify_dm (flag_message w1 ids nid (mi_sender m) verdict) now r, Inr r))))"

section \<open>Polls\<close>

record poll_view =
  pv_id :: string
  pv_question :: string
  pv_options :: "(string \<times> string \<times> int) list"
  pv_mine :: string
  pv_total :: int

definition votes_for :: "chat_db \<Rightarrow> string \<Rightarrow> int" where
  "votes_for c opt = cnt (\<lambda>v. snd (snd v) = opt) (ch_votes c)"

definition my_vote :: "chat_db \<Rightarrow> string \<Rightarrow> string \<Rightarrow> string" where
  "my_vote c poll viewer = (case find (\<lambda>v. fst v = poll \<and> fst (snd v) = viewer) (ch_votes c) of
     None \<Rightarrow> '''' | Some (p, u, opt) \<Rightarrow> opt)"

definition poll_view_of :: "chat_db \<Rightarrow> string \<Rightarrow> poll_row \<Rightarrow> poll_view option" where
  "poll_view_of c viewer p =
    (if po_options p = [] then None
     else Some \<lparr>pv_id = po_id p, pv_question = po_question p,
       pv_options = map (\<lambda>(k, label). (k, label, votes_for c k)) (po_options p), pv_mine = my_vote c (po_id p) viewer,
       pv_total = sum_list (map (\<lambda>(k, label). votes_for c k) (po_options p))\<rparr>)"

definition get_poll :: "chat_db \<Rightarrow> string \<Rightarrow> string \<Rightarrow> go_error + poll_view" where
  "get_poll c poll viewer =
    (case Option.bind (find (\<lambda>p. po_id p = poll) (ch_polls c)) (poll_view_of c viewer) of
       None \<Rightarrow> Inl (Chat ChatPollNotFound) | Some v \<Rightarrow> Inr v)"

definition poll_room :: "chat_db \<Rightarrow> string \<Rightarrow> go_error + string" where
  "poll_room c poll =
    (case find (\<lambda>p. po_id p = poll) (ch_polls c) of
       None \<Rightarrow> Inl (Chat ChatPollNotFound)
     | Some p \<Rightarrow> (case find (\<lambda>m. ms_id m = po_message p) (ch_messages c) of
           None \<Rightarrow> Inl (Chat ChatPollNotFound) | Some m \<Rightarrow> Inr (ms_room m)))"

text \<open>The upsert; the composite foreign key refuses an option of another poll.\<close>

definition repo_vote :: "chat_db \<Rightarrow> string \<Rightarrow> string \<Rightarrow> string \<Rightarrow> (chat_db, unit) outcome" where
  "repo_vote c poll user opt =
    (if \<not> (\<exists>p\<in>set (ch_polls c). po_id p = poll \<and> opt \<in> fst ` set (po_options p)) then (c, Inl (Chat ChatInvalidInput))
     else (c\<lparr>ch_votes := (if \<exists>v\<in>set (ch_votes c). fst v = poll \<and> fst (snd v) = user
              then upd (\<lambda>v. fst v = poll \<and> fst (snd v) = user) (\<lambda>v. (poll, user, opt)) (ch_votes c)
              else ch_votes c @ [(poll, user, opt)])\<rparr>, Inr ()))"

definition poll_message :: "string \<Rightarrow> string \<Rightarrow> string \<Rightarrow> string \<Rightarrow> int \<Rightarrow> message_row" where
  "poll_message nid room sender question now = \<lparr>ms_id = nid, ms_room = room, ms_sender = sender, ms_body = question,
     ms_type = MsgPoll, ms_location = None, ms_duration = 0, ms_media = [], ms_sent = now\<rparr>"

definition repo_create_poll ::
  "chat_db \<Rightarrow> int \<Rightarrow> string \<Rightarrow> string \<Rightarrow> (nat \<Rightarrow> string) \<Rightarrow> string \<Rightarrow> string \<Rightarrow> string \<Rightarrow> string list \<Rightarrow> chat_db \<times> message_row" where
  "repo_create_poll c now nid poll opt_id room sender question options =
    (let m = poll_message nid room sender question now
     in ((insert_message c m)\<lparr>ch_polls := ch_polls c @ [\<lparr>po_id = poll, po_message = nid, po_question = question,
           po_options = map (\<lambda>i. (opt_id i, options ! i)) [0..<length options]\<rparr>]\<rparr>, m))"

fun clean_options :: "string list \<Rightarrow> string list \<Rightarrow> string list option" where
  "clean_options seen [] = Some []"
| "clean_options seen (x # xs) =
     (let y = trim_space x; low = map to_lower y
      in if y = '''' \<or> 100 < length y \<or> low \<in> set seen then None
         else map_option (Cons y) (clean_options (low # seen) xs))"

definition create_poll ::
  "chat_config \<Rightarrow> chat_world \<Rightarrow> int \<Rightarrow> string \<Rightarrow> string \<Rightarrow> (nat \<Rightarrow> string) \<Rightarrow> string \<times> string \<Rightarrow> string \<Rightarrow> string \<Rightarrow> string
    \<Rightarrow> string list \<Rightarrow> (chat_world, message_row) outcome" where
  "create_poll cf w now nid poll opt_id ids room sender text options =
    (let question = trim_space text
     in if room = '''' \<or> sender = '''' \<or> question = '''' \<or> 300 < length question \<or> length options < 2 \<or> 6 < length options
        then (w, Inl (Chat ChatInvalidInput))
        else case clean_options [] options of
            None \<Rightarrow> (w, Inl (Chat ChatInvalidInput))
          | Some clean \<Rightarrow>
              if \<not> is_member (cw_chat w) room sender then (w, Inl (Chat ChatNotAMember))
              else case screen_loop (cc_words cf) (question # clean) ('''', '''') of
                  Inl e \<Rightarrow> (w, Inl e)
                | Inr verdict \<Rightarrow>
                    (case repo_create_poll (cw_chat w) now nid poll opt_id room sender question clean of
                       (c1, m) \<Rightarrow> (flag_message (w\<lparr>cw_chat := c1\<rparr>) ids nid sender verdict, Inr m)))"

definition vote_poll :: "chat_db \<Rightarrow> string \<Rightarrow> string \<Rightarrow> string \<Rightarrow> (chat_db, poll_view) outcome" where
  "vote_poll c poll opt user =
    (if poll = '''' \<or> opt = '''' \<or> user = '''' then (c, Inl (Chat ChatInvalidInput))
     else case poll_room c poll of
         Inl e \<Rightarrow> (c, Inl e)
       | Inr room \<Rightarrow>
           if \<not> is_member c room user then (c, Inl (Chat ChatNotAMember))
           else and_then (repo_vote c poll user opt) (\<lambda>_ c1. (c1, get_poll c1 poll user)))"

section \<open>Reading\<close>

text \<open>What a viewer sees of a room: no message of somebody they have a block with.\<close>

definition visible_messages :: "db \<Rightarrow> chat_db \<Rightarrow> string \<Rightarrow> string \<Rightarrow> message_row list" where
  "visible_messages s c room viewer = filter (\<lambda>m. ms_room m = room \<and> \<not> blocked s viewer (ms_sender m)) (ch_messages c)"

definition repo_list_messages ::
  "db \<Rightarrow> chat_db \<Rightarrow> string \<Rightarrow> string \<Rightarrow> nat \<Rightarrow> int option \<Rightarrow> message_row list" where
  "repo_list_messages s c room viewer limit before =
     take limit (sort_key (\<lambda>m. - ms_sent m)
       (filter (\<lambda>m. case before of None \<Rightarrow> True | Some t \<Rightarrow> ms_sent m < t) (visible_messages s c room viewer)))"

definition get_message :: "db \<Rightarrow> chat_db \<Rightarrow> string \<Rightarrow> string \<Rightarrow> message_row option" where
  "get_message s c i viewer = find (\<lambda>m. ms_id m = i \<and> \<not> blocked s viewer (ms_sender m)) (ch_messages c)"

text \<open>\<open>hydrate\<close>: each message with its poll.\<close>

definition hydrate :: "chat_db \<Rightarrow> string \<Rightarrow> message_row \<Rightarrow> message_row \<times> poll_view option" where
  "hydrate c viewer m =
     (m, Option.bind (find (\<lambda>p. po_message p = ms_id m) (ch_polls c)) (poll_view_of c viewer))"

datatype page_token = NoToken | BadToken | Before int

definition default_message_page_size :: nat where "default_message_page_size = 50"

definition list_messages_page ::
  "db \<Rightarrow> chat_db \<Rightarrow> string \<Rightarrow> string \<Rightarrow> page_token \<Rightarrow> go_error
    + (message_row \<times> poll_view option) list \<times> (message_row \<times> poll_view option) option \<times> page_token" where
  "list_messages_page s c room caller tok =
    (if room = '''' \<or> caller = '''' then Inl (Chat ChatInvalidInput)
     else if \<not> is_member c room caller then Inl (Chat ChatNotAMember)
     else if tok = BadToken then Inl (Chat ChatInvalidInput)
     else
       let before = (case tok of Before t \<Rightarrow> Some t | _ \<Rightarrow> None);
           all = repo_list_messages s c room caller (default_message_page_size + 1) before;
           page = take default_message_page_size all;
           nxt = (if default_message_page_size < length all then Before (ms_sent (List.last page)) else NoToken);
           pin = pinned_message_id c room;
           pinned = (if before = None \<and> pin \<noteq> '''' then get_message s c pin caller else None)
       in Inr (map (hydrate c caller) page, map_option (hydrate c caller) pinned, nxt))"

definition message_room :: "chat_db \<Rightarrow> string \<Rightarrow> go_error + string" where
  "message_room c i = (case find (\<lambda>m. ms_id m = i) (ch_messages c) of
     None \<Rightarrow> Inl (Chat ChatMessageNotFound) | Some m \<Rightarrow> Inr (ms_room m))"

definition report_message ::
  "chat_world \<Rightarrow> string \<times> string \<Rightarrow> string \<Rightarrow> string \<Rightarrow> string
    \<Rightarrow> chat_world \<times> (go_error + moderation_error + string)" where
  "report_message w ids msg reporter reason =
    (if msg = '''' \<or> reporter = '''' \<or> reason = '''' then (w, Inl (Chat ChatInvalidInput))
     else case message_room (cw_chat w) msg of
         Inl e \<Rightarrow> (w, Inl e)
       | Inr room \<Rightarrow>
           if \<not> is_member (cw_chat w) room reporter then (w, Inl (Chat ChatMessageNotFound))
           else case submit_report_for_subject (cw_mod w) ids reporter ''message'' msg reason of
               (m1, r) \<Rightarrow> (w\<lparr>cw_mod := m1\<rparr>, Inr r))"

definition set_pinned :: "chat_db \<Rightarrow> string \<Rightarrow> string \<Rightarrow> (chat_db, unit) outcome" where
  "set_pinned c room msg =
    (let put = (\<lambda>v. c\<lparr>ch_rooms := upd (\<lambda>r. cr_id r = room) (\<lambda>r. r\<lparr>cr_pinned := v\<rparr>) (ch_rooms c)\<rparr>)
     in if msg = '''' then (put None, Inr ())
        else if (\<exists>r\<in>set (ch_rooms c). cr_id r = room) \<and> (\<exists>m\<in>set (ch_messages c). ms_id m = msg \<and> ms_room m = room)
        then (put (Some msg), Inr ())
        else (c, Inl (Chat ChatMessageNotFound)))"

definition pin_message ::
  "db \<Rightarrow> chat_db \<Rightarrow> string \<Rightarrow> string \<Rightarrow> bool \<Rightarrow> string \<Rightarrow> string \<Rightarrow> (chat_db, string) outcome" where
  "pin_message s c room msg unpin caller role =
    (if room = '''' \<or> caller = '''' \<or> (\<not> unpin \<and> msg = '''') then (c, Inl (Chat ChatInvalidInput))
     else if \<not> is_admin_role role \<and> \<not> is_member c room caller then (c, Inl (Chat ChatNotAMember))
     else case require_room_host s c room caller role of
         Inl e \<Rightarrow> (c, Inl e)
       | Inr _ \<Rightarrow>
           let target = (if unpin then '''' else msg)
           in and_then (set_pinned c room target) (\<lambda>_ c1. (c1, Inr target)))"

section \<open>Inbox\<close>

record chat_summary =
  sm_room :: string
  sm_kind :: room_kind
  sm_title :: string
  sm_other :: string
  sm_plan :: string
  sm_last :: string
  sm_last_at :: "int option"
  sm_muted :: bool
  sm_unread :: int
  sm_primary :: bool

definition profile_name :: "db \<Rightarrow> string \<Rightarrow> string" where
  "profile_name s u = (case find (\<lambda>p. fst p = u) (t_profiles s) of None \<Rightarrow> '''' | Some p \<Rightarrow> snd p)"

fun join_comma :: "string list \<Rightarrow> string" where
  "join_comma [] = ''''" | "join_comma [x] = x" | "join_comma (x # y # ys) = x @ '', '' @ join_comma (y # ys)"

definition room_title :: "db \<Rightarrow> chat_db \<Rightarrow> string \<Rightarrow> room_row \<Rightarrow> string \<Rightarrow> string" where
  "room_title s c user r other =
    (case cr_kind r of
       DmRoom \<Rightarrow> profile_name s other
     | PlanRoom \<Rightarrow> (case Option.bind (cr_plan r) (plan_by_id s) of None \<Rightarrow> '''' | Some p \<Rightarrow> pl_title p)
     | GroupRoom \<Rightarrow> join_comma (map (profile_name s) (take 3 (filter (\<lambda>u. u \<in> fst ` set (t_profiles s))
         (map cm_user (sort_key cm_joined (other_members c (cr_id r) user)))))))"

definition preview :: "message_row \<Rightarrow> string" where
  "preview m = (case ms_type m of
     MsgImage \<Rightarrow> [CHR 0xF0, CHR 0x9F, CHR 0x93, CHR 0xB7] @ '' Photo''
   | MsgPoll \<Rightarrow> [CHR 0xF0, CHR 0x9F, CHR 0x93, CHR 0x8A] @ '' Poll''
   | MsgLocation \<Rightarrow> [CHR 0xF0, CHR 0x9F, CHR 0x93, CHR 0x8D] @ '' Location''
   | MsgVoice \<Rightarrow> [CHR 0xF0, CHR 0x9F, CHR 0x8E, CHR 0xA4] @ '' Voice message''
   | MsgAnnouncement \<Rightarrow> [CHR 0xF0, CHR 0x9F, CHR 0x93, CHR 0xA2] @ '' '' @ take 80 (ms_body m)
   | MsgText \<Rightarrow> take 90 (ms_body m))"

definition last_message :: "chat_db \<Rightarrow> string \<Rightarrow> message_row option" where
  "last_message c room = (case sort_key (\<lambda>m. - ms_sent m) (filter (\<lambda>m. ms_room m = room) (ch_messages c)) of
     [] \<Rightarrow> None | m # _ \<Rightarrow> Some m)"

definition unread_in :: "db \<Rightarrow> chat_db \<Rightarrow> room_member \<Rightarrow> int" where
  "unread_in s c x = cnt (\<lambda>m. ms_room m = cm_room x \<and> ms_sender m \<noteq> cm_user x \<and> cm_read x < ms_sent m
     \<and> \<not> blocked s (cm_user x) (ms_sender m)) (ch_messages c)"

definition is_primary :: "db \<Rightarrow> int \<Rightarrow> room_row \<Rightarrow> bool" where
  "is_primary s now r \<longleftrightarrow> cr_kind r = DmRoom
     \<or> cr_kind r = PlanRoom \<and> (case Option.bind (cr_plan r) (plan_by_id s) of None \<Rightarrow> False
         | Some p \<Rightarrow> pl_status p \<in> {Published, Full} \<and> now < pl_ends p)"

definition summary_of :: "db \<Rightarrow> chat_db \<Rightarrow> int \<Rightarrow> room_member \<Rightarrow> room_row \<Rightarrow> string \<Rightarrow> chat_summary" where
  "summary_of s c now x r other = \<lparr>sm_room = cr_id r, sm_kind = cr_kind r, sm_title = room_title s c (cm_user x) r other,
     sm_other = other, sm_plan = coalesce (cr_plan r),
     sm_last = (case last_message c (cr_id r) of None \<Rightarrow> '''' | Some m \<Rightarrow> preview m),
     sm_last_at = map_option ms_sent (last_message c (cr_id r)), sm_muted = cm_muted x,
     sm_unread = unread_in s c x, sm_primary = is_primary s now r\<rparr>"

text \<open>The outer joins: one row per other member of a direct chat, one row for the other rooms.\<close>

definition inbox_rows :: "db \<Rightarrow> chat_db \<Rightarrow> int \<Rightarrow> room_member \<Rightarrow> (room_row \<times> chat_summary) list" where
  "inbox_rows s c now x =
    (case room_by_id c (cm_room x) of
       None \<Rightarrow> []
     | Some r \<Rightarrow>
         let others = (if cr_kind r = DmRoom then map cm_user (other_members c (cr_id r) (cm_user x)) else []);
             joined = (if others = [] then [''''] else others)
         in map (\<lambda>u. (r, summary_of s c now x r u))
              (filter (\<lambda>u. \<not> (cr_kind r = DmRoom \<and> u \<noteq> '''' \<and> blocked s (cm_user x) u)) joined))"

definition activity :: "room_row \<times> chat_summary \<Rightarrow> int \<times> int \<times> int" where
  "activity x = (case sm_last_at (snd x) of None \<Rightarrow> (1, 0, - cr_created (fst x)) | Some t \<Rightarrow> (0, - t, - cr_created (fst x)))"

definition repo_inbox :: "db \<Rightarrow> chat_db \<Rightarrow> int \<Rightarrow> string \<Rightarrow> chat_summary list" where
  "repo_inbox s c now user =
     take 200 (map snd (sort_key activity (concat (map (inbox_rows s c now) (filter (\<lambda>m. cm_user m = user) (ch_members c))))))"

definition in_tab :: "string \<Rightarrow> chat_summary \<Rightarrow> bool" where
  "in_tab tab x \<longleftrightarrow> tab = ''primary'' \<and> sm_primary x \<or> tab = ''general'' \<and> \<not> sm_primary x \<or> tab = ''all''
     \<or> tab = ''groups'' \<and> sm_kind x \<noteq> DmRoom"

text \<open>The chats of a tab, and the unread totals of the primary, general and group chats.\<close>

definition inbox_for :: "db \<Rightarrow> chat_db \<Rightarrow> int \<Rightarrow> string \<Rightarrow> string \<Rightarrow> go_error + chat_summary list \<times> int \<times> int \<times> int" where
  "inbox_for s c now user tab =
    (if user = '''' then Inl (Chat ChatInvalidInput)
     else let all = repo_inbox s c now user
          in Inr (filter (in_tab tab) all, tot sm_primary sm_unread all, tot (\<lambda>x. \<not> sm_primary x) sm_unread all,
               tot (\<lambda>x. sm_kind x \<noteq> DmRoom) sm_unread all))"

definition mark_room_read :: "chat_world \<Rightarrow> int \<Rightarrow> string \<Rightarrow> string \<Rightarrow> (chat_world, unit) outcome" where
  "mark_room_read w now room user =
    (if room = '''' \<or> user = '''' then (w, Inl (Chat ChatInvalidInput))
     else if \<not> is_member (cw_chat w) room user then (w, Inl (Chat ChatNotAMember))
     else (w\<lparr>cw_chat := (cw_chat w)\<lparr>ch_members := upd (\<lambda>m. cm_room m = room \<and> cm_user m = user)
               (\<lambda>m. m\<lparr>cm_read := now\<rparr>) (ch_members (cw_chat w))\<rparr>,
             cw_db := (cw_db w)\<lparr>t_notifications := upd (\<lambda>n. nt_user n = user \<and> nt_type n = Some ''chat_message''
                 \<and> nt_target n = Some room \<and> \<not> nt_read n) (\<lambda>n. n\<lparr>nt_read := True\<rparr>) (t_notifications (cw_db w))\<rparr>\<rparr>, Inr ()))"

section \<open>Direct chats\<close>

definition are_connected :: "db \<Rightarrow> string \<Rightarrow> string \<Rightarrow> bool" where
  "are_connected s a b \<longleftrightarrow> connected s a b \<and> \<not> blocked s a b"

definition dm_key :: "string \<Rightarrow> string \<Rightarrow> string" where
  "dm_key a b = (if b < a then b @ '':'' @ a else a @ '':'' @ b)"

definition repo_open_dm :: "chat_db \<Rightarrow> int \<Rightarrow> string \<Rightarrow> string \<Rightarrow> string \<Rightarrow> chat_db \<times> string" where
  "repo_open_dm c now nid a b =
    (let key = dm_key a b;
         (c1, room) = (case find (\<lambda>r. cr_dm r = Some key) (ch_rooms c) of
            Some r \<Rightarrow> (c, cr_id r)
          | None \<Rightarrow> (c\<lparr>ch_rooms := ch_rooms c @ [\<lparr>cr_id = nid, cr_plan = None, cr_kind = DmRoom, cr_dm = Some key,
               cr_pinned = None, cr_created = now\<rparr>]\<rparr>, nid))
     in (add_member (add_member c1 now room a) now room b, room))"

definition open_direct_chat :: "db \<Rightarrow> chat_db \<Rightarrow> int \<Rightarrow> string \<Rightarrow> string \<Rightarrow> string \<Rightarrow> (chat_db, string) outcome" where
  "open_direct_chat s c now nid user other =
    (if user = '''' \<or> other = '''' \<or> user = other then (c, Inl (Chat ChatInvalidInput))
     else if \<not> are_connected s user other then (c, Inl (Chat ChatNotConnected))
     else case repo_open_dm c now nid user other of (c1, room) \<Rightarrow> (c1, Inr room))"

lemma is_member_add: "is_member (add_member c now room u) i x \<longleftrightarrow> is_member c i x \<or> i = room \<and> x = u"
  by (auto simp: add_member_def is_member_def)

end
