(* ===== verification/Chat_Facts.thy ===== *)
theory Chat_Facts
  imports Chat
begin

text \<open>
  What the chat guarantees: who is in a room and who wrote what in every run, and that
  turning the pages of a room shows each visible message exactly once.
\<close>

section \<open>Invariant of the rooms\<close>

definition room_keys :: "chat_db \<Rightarrow> (string \<times> room_kind \<times> string option) list" where
  "room_keys c = map (\<lambda>r. (cr_id r, cr_kind r, cr_dm r)) (ch_rooms c)"

definition members_of :: "chat_db \<Rightarrow> string \<Rightarrow> string set" where
  "members_of c room = {u. is_member c room u}"

text \<open>User ids are UUIDs: no colon in them, so the key of a direct chat tells its pair.\<close>

definition plain :: "string \<Rightarrow> bool" where
  "plain u \<longleftrightarrow> CHR '':'' \<notin> set u"

definition rooms_ok :: "chat_db \<Rightarrow> bool" where
  "rooms_ok c \<longleftrightarrow> distinct (map fst (room_keys c))
     \<and> (\<forall>i k d. (i, k, d) \<in> set (room_keys c) \<longrightarrow> (k = DmRoom \<longleftrightarrow> d \<noteq> None))
     \<and> (\<forall>i k key. (i, k, Some key) \<in> set (room_keys c) \<longrightarrow>
          (\<exists>a b. a \<noteq> b \<and> plain a \<and> plain b \<and> key = dm_key a b \<and> members_of c i = {a, b}))
     \<and> (\<forall>i k j l key. (i, k, Some key) \<in> set (room_keys c) \<and> (j, l, Some key) \<in> set (room_keys c) \<longrightarrow> i = j)
     \<and> (\<forall>i. members_of c i \<noteq> {} \<longrightarrow> i \<in> fst ` set (room_keys c))"

definition voter_ok :: "chat_db \<Rightarrow> string \<times> string \<times> string \<Rightarrow> bool" where
  "voter_ok c v \<longleftrightarrow> (case v of (poll, user, opt) \<Rightarrow> \<exists>p\<in>set (ch_polls c). po_id p = poll \<and> opt \<in> fst ` set (po_options p)
     \<and> (\<exists>m\<in>set (ch_messages c). ms_id m = po_message p \<and> is_member c (ms_room m) user))"

definition posts_ok :: "chat_db \<Rightarrow> bool" where
  "posts_ok c \<longleftrightarrow> (\<forall>m\<in>set (ch_messages c). is_member c (ms_room m) (ms_sender m))
     \<and> distinct (map po_id (ch_polls c))
     \<and> distinct (map (\<lambda>v. (fst v, fst (snd v))) (ch_votes c)) \<and> (\<forall>v\<in>set (ch_votes c). voter_ok c v)"

lemma rooms_ok_cong:
  "room_keys c' = room_keys c \<Longrightarrow> members_of c' = members_of c \<Longrightarrow> rooms_ok c' = rooms_ok c"
  by (simp add: rooms_ok_def)

lemma members_add: "members_of (add_member c now room u) = (members_of c)(room := insert u (members_of c room))"
  by (auto simp: members_of_def is_member_add fun_eq_iff)

lemma add_member_fields [simp]:
  "ch_rooms (add_member c now room u) = ch_rooms c" "ch_messages (add_member c now room u) = ch_messages c"
  "ch_polls (add_member c now room u) = ch_polls c" "ch_votes (add_member c now room u) = ch_votes c"
  "room_keys (add_member c now room u) = room_keys c"
  by (simp_all add: add_member_def room_keys_def)

lemma posts_ok_more:
  assumes "posts_ok c" "\<And>i u. is_member c i u \<Longrightarrow> is_member c' i u"
    and "ch_messages c' = ch_messages c" "ch_polls c' = ch_polls c" "ch_votes c' = ch_votes c"
  shows "posts_ok c'"
  using assms by (fastforce simp: posts_ok_def voter_ok_def)

lemma posts_ok_cong:
  assumes "ch_members c' = ch_members c" "ch_messages c' = ch_messages c" "ch_polls c' = ch_polls c" "ch_votes c' = ch_votes c"
  shows "posts_ok c' = posts_ok c"
proof -
  have m: "is_member c' = is_member c" by (simp add: is_member_def fun_eq_iff assms(1))
  have "voter_ok c' = voter_ok c" by (simp add: voter_ok_def fun_eq_iff m assms(2,3))
  then show ?thesis by (simp add: posts_ok_def m assms(2-4))
qed

lemma posts_ok_add: "posts_ok c \<Longrightarrow> posts_ok (add_member c now room u)"
  by (rule posts_ok_more[of c]) (simp_all add: is_member_add)

lemma rooms_ok_pair:
  assumes "rooms_ok c" "(i, k, Some key) \<in> set (room_keys c)"
  obtains a b where "a \<noteq> b" "plain a" "plain b" "key = dm_key a b" "members_of c i = {a, b}"
  using assms(1)[unfolded rooms_ok_def, THEN conjunct2, THEN conjunct2, THEN conjunct1, rule_format, OF assms(2)] by blast

lemma rooms_ok_unique:
  assumes "rooms_ok c" "(i, k, Some key) \<in> set (room_keys c)" "(j, l, Some key) \<in> set (room_keys c)"
  shows "i = j"
  using assms(1)[unfolded rooms_ok_def, THEN conjunct2, THEN conjunct2, THEN conjunct2, THEN conjunct1] assms(2,3) by blast

lemma rooms_ok_known: "rooms_ok c \<Longrightarrow> members_of c i \<noteq> {} \<Longrightarrow> i \<in> fst ` set (room_keys c)"
  by (simp add: rooms_ok_def)

lemma add_member_rooms_ok:
  assumes "rooms_ok c" "(room, k, None) \<in> set (room_keys c)"
  shows "rooms_ok (add_member c now room u)"
proof -
  have un: "key = None" if "(room, l, key) \<in> set (room_keys c)" for l key
  proof -
    have "distinct (map fst (room_keys c))" using assms(1) by (simp add: rooms_ok_def)
    from eq_key_imp_eq_value[OF this assms(2) that] show ?thesis by simp
  qed
  have "i \<noteq> room" if "(i, l, Some key) \<in> set (room_keys c)" for i l key using un that by blast
  moreover have "room \<in> fst ` set (room_keys c)" using assms(2) by force
  ultimately show ?thesis using assms(1) unfolding rooms_ok_def by (simp add: members_add)
qed

lemma new_room_ok:
  assumes "rooms_ok c" "nid \<notin> cr_id ` set (ch_rooms c)" "ch_rooms c' = ch_rooms c @ [r]" "cr_id r = nid" "cr_dm r = None"
    "cr_kind r \<noteq> DmRoom" "ch_members c' = ch_members c"
  shows "rooms_ok c'" "(nid, cr_kind r, None) \<in> set (room_keys c')"
proof -
  have m: "members_of c' = members_of c" by (simp add: members_of_def is_member_def assms(7) fun_eq_iff)
  have k: "room_keys c' = room_keys c @ [(nid, cr_kind r, None)]" by (simp add: room_keys_def assms(3,4,5))
  have "nid \<notin> fst ` set (room_keys c)" using assms(2) by (auto simp: room_keys_def)
  with assms(1,6) show "rooms_ok c'" unfolding rooms_ok_def m k by (simp add: image_iff)
  show "(nid, cr_kind r, None) \<in> set (room_keys c')" by (simp add: k)
qed

lemma get_or_create_rooms_ok:
  assumes "rooms_ok c" "nid \<notin> cr_id ` set (ch_rooms c)" "get_or_create_room c now nid plan = (c1, room)"
    "\<forall>r\<in>set (ch_rooms c). cr_plan r \<noteq> None \<longrightarrow> cr_dm r = None"
  shows "rooms_ok c1 \<and> (\<exists>k. (room, k, None) \<in> set (room_keys c1)) \<and> ch_members c1 = ch_members c
    \<and> ch_messages c1 = ch_messages c \<and> ch_polls c1 = ch_polls c \<and> ch_votes c1 = ch_votes c
    \<and> (\<forall>r\<in>set (ch_rooms c1). cr_plan r \<noteq> None \<longrightarrow> cr_dm r = None)"
proof (cases "find (\<lambda>r. cr_plan r = Some plan) (ch_rooms c)")
  case None
  then have c1: "c1 = c\<lparr>ch_rooms := ch_rooms c @ [\<lparr>cr_id = nid, cr_plan = Some plan, cr_kind = PlanRoom, cr_dm = None,
      cr_pinned = None, cr_created = now\<rparr>]\<rparr>" "room = nid"
    using assms(3) by (auto simp: get_or_create_room_def)
  show ?thesis using new_room_ok[OF assms(1,2), of c1 "\<lparr>cr_id = nid, cr_plan = Some plan, cr_kind = PlanRoom, cr_dm = None,
      cr_pinned = None, cr_created = now\<rparr>"] assms(4) by (auto simp: c1)
next
  case (Some r)
  then have "c1 = c" "room = cr_id r" "r \<in> set (ch_rooms c)" "cr_plan r = Some plan"
    using assms(3) Some by (auto simp: get_or_create_room_def) (auto simp: find_Some_iff)
  then show ?thesis using assms(1,4) by (auto simp: room_keys_def image_iff intro!: exI[of _ "cr_kind r"] bexI[of _ r])
qed

lemma dm_key_inj:
  assumes "dm_key a b = dm_key x y" "plain a" "plain b" "plain x" "plain y"
  shows "{a, b} = {x, y}"
proof -
  have split: "p @ CHR '':'' # r = q @ CHR '':'' # t \<Longrightarrow> plain p \<Longrightarrow> plain q \<Longrightarrow> p = q \<and> r = t" for p q r t :: string
    by (induction p arbitrary: q) (case_tac q; auto simp: plain_def)+
  show ?thesis using assms by (auto simp: dm_key_def split: if_splits dest!: split)
qed

text \<open>Opening a direct chat: the room of the pair exists with its two members, or it is new.\<close>

lemma open_dm_rooms_ok:
  assumes "rooms_ok c" "nid \<notin> cr_id ` set (ch_rooms c)" "a \<noteq> b" "plain a" "plain b"
    "repo_open_dm c now nid a b = (c1, room)"
  shows "rooms_ok c1 \<and> members_of c1 room = {a, b}"
proof (cases "find (\<lambda>r. cr_dm r = Some (dm_key a b)) (ch_rooms c)")
  case (Some r)
  then have r: "r \<in> set (ch_rooms c)" "cr_dm r = Some (dm_key a b)" by (auto simp: find_Some_iff)
  then have k: "(cr_id r, cr_kind r, Some (dm_key a b)) \<in> set (room_keys c)" by (force simp: room_keys_def)
  then obtain x y where xy: "plain x" "plain y" "dm_key a b = dm_key x y" "members_of c (cr_id r) = {x, y}"
    using rooms_ok_pair[OF assms(1) k] by blast
  then have m: "members_of c (cr_id r) = {a, b}" using dm_key_inj[OF xy(3) assms(4,5) xy(1,2)] by simp
  then have "is_member c (cr_id r) a" "is_member c (cr_id r) b" by (auto simp: members_of_def)
  then have "c1 = c" "room = cr_id r"
    using assms(6) Some by (auto simp: repo_open_dm_def add_member_def)
  with m assms(1) show ?thesis by simp
next
  case None
  let ?r = "\<lparr>cr_id = nid, cr_plan = None, cr_kind = DmRoom, cr_dm = Some (dm_key a b), cr_pinned = None, cr_created = now\<rparr>"
  let ?c = "c\<lparr>ch_rooms := ch_rooms c @ [?r]\<rparr>"
  have c1: "c1 = add_member (add_member ?c now nid a) now nid b" "room = nid"
    using assms(6) None by (auto simp: repo_open_dm_def Let_def)
  have k: "room_keys c1 = room_keys c @ [(nid, DmRoom, Some (dm_key a b))]" by (simp add: c1) (simp add: room_keys_def)
  have fresh: "nid \<notin> fst ` set (room_keys c)" using assms(2) by (auto simp: room_keys_def)
  then have "members_of c nid = {}" using rooms_ok_known[OF assms(1)] by blast
  moreover have "members_of ?c = members_of c" by (simp add: members_of_def is_member_def fun_eq_iff)
  ultimately have m: "members_of c1 = (members_of c)(nid := {a, b})" by (simp add: c1 members_add insert_commute)
  have none: "(i, l, Some (dm_key a b)) \<notin> set (room_keys c)" for i l
    using None by (auto simp: room_keys_def find_None_iff)
  have ids: "i \<noteq> nid" if "(i, l, d) \<in> set (room_keys c)" for i l d using fresh that by force
  have "rooms_ok c1" unfolding rooms_ok_def k m
  proof (intro conjI allI impI)
    show "distinct (map fst (room_keys c @ [(nid, DmRoom, Some (dm_key a b))]))"
      using assms(1) fresh by (simp add: rooms_ok_def)
  next
    fix i l d assume "(i, l, d) \<in> set (room_keys c @ [(nid, DmRoom, Some (dm_key a b))])"
    then show "(l = DmRoom) = (d \<noteq> None)" using assms(1) unfolding rooms_ok_def by auto
  next
    fix i l key assume "(i, l, Some key) \<in> set (room_keys c @ [(nid, DmRoom, Some (dm_key a b))])"
    then consider "(i, l, Some key) \<in> set (room_keys c)" | "i = nid" "key = dm_key a b" by auto
    then show "\<exists>x y. x \<noteq> y \<and> plain x \<and> plain y \<and> key = dm_key x y \<and> ((members_of c)(nid := {a, b})) i = {x, y}"
    proof cases
      case 1
      then show ?thesis using rooms_ok_pair[OF assms(1) 1] ids[OF 1] by (metis fun_upd_other)
    next
      case 2
      then show ?thesis using assms(3,4,5) by auto
    qed
  next
    fix i l j l' key
    assume "(i, l, Some key) \<in> set (room_keys c @ [(nid, DmRoom, Some (dm_key a b))])
      \<and> (j, l', Some key) \<in> set (room_keys c @ [(nid, DmRoom, Some (dm_key a b))])"
    then show "i = j" using rooms_ok_unique[OF assms(1), of i l key j l'] none by auto
  next
    fix i assume "((members_of c)(nid := {a, b})) i \<noteq> {}"
    then show "i \<in> fst ` set (room_keys c @ [(nid, DmRoom, Some (dm_key a b))])"
      using rooms_ok_known[OF assms(1), of i] by (auto split: if_splits)
  qed
  with m c1(2) show ?thesis by simp
qed

section \<open>Runs\<close>

text \<open>
  The operations of the service, the membership step of the worker, and everything else
  that happens in the main database and in moderation. Generated ids are new; user ids are
  UUIDs. Members are added from outside only to rooms without a pair (group rooms).
\<close>

inductive chat_step :: "chat_config \<Rightarrow> chat_world \<Rightarrow> chat_world \<Rightarrow> bool" for cf where
  room: "nid \<notin> cr_id ` set (ch_rooms (cw_chat w)) \<Longrightarrow>
    chat_step cf w (w\<lparr>cw_chat := fst (create_room (cw_db w) (cw_chat w) now nid plan caller role)\<rparr>)"
| booked: "nid \<notin> cr_id ` set (ch_rooms (cw_chat w)) \<Longrightarrow>
    chat_step cf w (w\<lparr>cw_chat := fst (ensure_membership (cw_chat w) now nid plan user)\<rparr>)"
| group: "nid \<notin> cr_id ` set (ch_rooms (cw_chat w)) \<Longrightarrow>
    chat_step cf w (w\<lparr>cw_chat := fst (create_ad_hoc_room_with_members (cw_chat w) now nid users)\<rparr>)"
| invited: "r \<in> set (ch_rooms (cw_chat w)) \<Longrightarrow> cr_dm r = None \<Longrightarrow>
    chat_step cf w (w\<lparr>cw_chat := fst (add_room_member (cw_chat w) now (cr_id r) user)\<rparr>)"
| sent: "chat_step cf w (fst (send_message cf w now nid ids role m))"
| polled: "poll \<notin> po_id ` set (ch_polls (cw_chat w)) \<Longrightarrow>
    chat_step cf w (fst (create_poll cf w now nid poll opt_id ids room sender txt options))"
| voted: "chat_step cf w (w\<lparr>cw_chat := fst (vote_poll (cw_chat w) poll opt user)\<rparr>)"
| pinned: "chat_step cf w (w\<lparr>cw_chat := fst (pin_message (cw_db w) (cw_chat w) room msg unpin caller role)\<rparr>)"
| seen: "chat_step cf w (fst (mark_room_read w now room user))"
| direct: "nid \<notin> cr_id ` set (ch_rooms (cw_chat w)) \<Longrightarrow> plain a \<Longrightarrow> plain b \<Longrightarrow>
    chat_step cf w (w\<lparr>cw_chat := fst (open_direct_chat (cw_db w) (cw_chat w) now nid a b)\<rparr>)"
| outside: "cw_chat w' = cw_chat w \<Longrightarrow> chat_step cf w w'"

abbreviation chat_run :: "chat_config \<Rightarrow> chat_world \<Rightarrow> chat_world \<Rightarrow> bool" where
  "chat_run cf \<equiv> (chat_step cf)\<^sup>*\<^sup>*"

definition plan_rooms :: "chat_db \<Rightarrow> bool" where
  "plan_rooms c \<longleftrightarrow> (\<forall>r\<in>set (ch_rooms c). cr_plan r \<noteq> None \<longrightarrow> cr_dm r = None)"

definition chat_ok :: "chat_db \<Rightarrow> bool" where
  "chat_ok c \<longleftrightarrow> rooms_ok c \<and> plan_rooms c \<and> posts_ok c"

lemma chat_ok_same:
  assumes "chat_ok c" "map (\<lambda>r. (cr_id r, cr_kind r, cr_dm r, cr_plan r)) (ch_rooms c') = map (\<lambda>r. (cr_id r, cr_kind r, cr_dm r, cr_plan r)) (ch_rooms c)"
    and "\<And>i u. is_member c' i u = is_member c i u" "posts_ok c'"
  shows "chat_ok c'"
proof -
  have e: "room_keys x = map (\<lambda>(i, k, d, p). (i, k, d)) (map (\<lambda>r. (cr_id r, cr_kind r, cr_dm r, cr_plan r)) (ch_rooms x))" for x
    by (simp add: room_keys_def)
  have "room_keys c' = room_keys c" unfolding e assms(2) by (rule refl)
  moreover have "members_of c' = members_of c" by (simp add: members_of_def assms(3) fun_eq_iff)
  moreover have p: "plan_rooms x \<longleftrightarrow> (\<forall>(i, k, d, p)\<in>set (map (\<lambda>r. (cr_id r, cr_kind r, cr_dm r, cr_plan r)) (ch_rooms x)). p \<noteq> None \<longrightarrow> d = None)" for x
    by (simp add: plan_rooms_def)
  moreover have "plan_rooms c' = plan_rooms c" unfolding p assms(2) by (rule refl)
  ultimately show ?thesis using assms(1,4) rooms_ok_cong[of c' c] unfolding chat_ok_def by blast
qed

lemma add_member_ok:
  assumes "chat_ok c" "(room, k, None) \<in> set (room_keys c)"
  shows "chat_ok (add_member c now room u)"
  using assms add_member_rooms_ok[OF _ assms(2), of now u] posts_ok_add[of c now room u]
  by (simp add: chat_ok_def plan_rooms_def)

lemma plan_room_ok:
  assumes "chat_ok c" "nid \<notin> cr_id ` set (ch_rooms c)" "get_or_create_room c now nid plan = (c1, room)"
  shows "chat_ok c1" "chat_ok (add_member c1 now room u)"
proof -
  have g: "rooms_ok c1" "\<exists>k. (room, k, None) \<in> set (room_keys c1)" "ch_members c1 = ch_members c" "ch_messages c1 = ch_messages c"
      "ch_polls c1 = ch_polls c" "ch_votes c1 = ch_votes c" "plan_rooms c1"
    using get_or_create_rooms_ok[OF _ assms(2,3)] assms(1) by (auto simp: chat_ok_def plan_rooms_def)
  have "posts_ok c1" using assms(1) posts_ok_cong[OF g(3-6)] by (simp add: chat_ok_def)
  with g show ok: "chat_ok c1" by (simp add: chat_ok_def)
  show "chat_ok (add_member c1 now room u)" using g(2) add_member_ok[OF ok] by blast
qed

lemma create_room_ok: "chat_ok c \<Longrightarrow> nid \<notin> cr_id ` set (ch_rooms c) \<Longrightarrow> chat_ok (fst (create_room s c now nid plan caller role))"
  by (auto simp: create_room_def Let_def plan_room_ok split: prod.splits)

lemma ensure_membership_ok: "chat_ok c \<Longrightarrow> nid \<notin> cr_id ` set (ch_rooms c) \<Longrightarrow> chat_ok (fst (ensure_membership c now nid plan user))"
  by (auto simp: ensure_membership_def plan_room_ok split: prod.splits)

lemma add_members_ok:
  "chat_ok c \<Longrightarrow> (room, k, None) \<in> set (room_keys c) \<Longrightarrow> chat_ok (fold (\<lambda>u c. add_member c now room u) users c)"
  by (induction users arbitrary: c) (simp_all add: add_member_ok[where k = k])

lemma group_ok:
  assumes "chat_ok c" "nid \<notin> cr_id ` set (ch_rooms c)"
  shows "chat_ok (fst (create_ad_hoc_room_with_members c now nid users))"
proof -
  let ?c = "fst (create_ad_hoc_room c now nid)"
  let ?r = "\<lparr>cr_id = nid, cr_plan = None, cr_kind = GroupRoom, cr_dm = None, cr_pinned = None, cr_created = now\<rparr>"
  have r: "rooms_ok ?c" "(nid, GroupRoom, None) \<in> set (room_keys ?c)"
    using new_room_ok[of c nid ?c ?r] assms by (auto simp: create_ad_hoc_room_def chat_ok_def)
  moreover have "posts_ok ?c" using assms(1) posts_ok_cong[of ?c c]
    by (simp add: create_ad_hoc_room_def chat_ok_def)
  moreover have "plan_rooms ?c" using assms(1) by (simp add: create_ad_hoc_room_def chat_ok_def plan_rooms_def)
  ultimately have "chat_ok ?c" by (simp add: chat_ok_def)
  from add_members_ok[OF this r(2)] assms(1) show ?thesis
    by (auto simp: create_ad_hoc_room_with_members_def create_ad_hoc_room_def)
qed

lemma direct_ok:
  assumes "chat_ok c" "nid \<notin> cr_id ` set (ch_rooms c)" "plain a" "plain b"
  shows "chat_ok (fst (open_direct_chat s c now nid a b))"
proof (cases "a \<noteq> b")
  case True
  obtain c1 room where d: "repo_open_dm c now nid a b = (c1, room)" by fastforce
  have "rooms_ok c1" using open_dm_rooms_ok[OF _ assms(2) True assms(3,4) d] assms(1) by (simp add: chat_ok_def)
  moreover have "plan_rooms c1" using assms(1) d
    by (auto simp: chat_ok_def repo_open_dm_def plan_rooms_def Let_def split: option.splits)
  moreover have "posts_ok c1"
  proof -
    have "\<exists>c0. c1 = add_member (add_member c0 now room a) now room b \<and> ch_members c0 = ch_members c
        \<and> ch_messages c0 = ch_messages c \<and> ch_polls c0 = ch_polls c \<and> ch_votes c0 = ch_votes c"
      using d by (auto simp: repo_open_dm_def Let_def split: option.splits)
    then obtain c0 where c0: "c1 = add_member (add_member c0 now room a) now room b" "ch_members c0 = ch_members c"
        "ch_messages c0 = ch_messages c" "ch_polls c0 = ch_polls c" "ch_votes c0 = ch_votes c" by blast
    then show ?thesis using posts_ok_cong[OF c0(2-5)] assms(1) by (simp add: posts_ok_add chat_ok_def)
  qed
  ultimately show ?thesis using assms(1) d by (auto simp: open_direct_chat_def chat_ok_def)
qed (use assms(1) in \<open>simp add: open_direct_chat_def\<close>)

lemma chat_ok_posts:
  assumes "chat_ok c" "ch_rooms c' = ch_rooms c" "ch_members c' = ch_members c" "posts_ok c'"
  shows "chat_ok c'"
  using assms(1,2,4) by (rule_tac chat_ok_same[of c]) (simp_all add: is_member_def assms(3))

lemma voter_ok_more:
  assumes "voter_ok c v" "set (ch_polls c) \<subseteq> set (ch_polls c')" "set (ch_messages c) \<subseteq> set (ch_messages c')"
    and "\<And>i u. is_member c i u \<Longrightarrow> is_member c' i u"
  shows "voter_ok c' v"
  using assms unfolding voter_ok_def by (cases v) (simp, blast)

lemma insert_message_ok:
  assumes "chat_ok c" "is_member c (ms_room m) (ms_sender m)"
  shows "chat_ok (insert_message c m)"
proof (rule chat_ok_posts[OF assms(1)])
  have "is_member (insert_message c m) = is_member c" by (simp add: insert_message_def is_member_def fun_eq_iff)
  moreover have "voter_ok (insert_message c m) v" if "voter_ok c v" for v
    by (rule voter_ok_more[OF that]) (auto simp: insert_message_def is_member_def)
  moreover have "ch_messages (insert_message c m) = ch_messages c @ [m]" "ch_polls (insert_message c m) = ch_polls c"
    "ch_votes (insert_message c m) = ch_votes c" by (simp_all add: insert_message_def)
  ultimately show "posts_ok (insert_message c m)" using assms by (simp add: chat_ok_def posts_ok_def)
qed (simp_all add: insert_message_def)

lemma other_tables [simp]: "cw_chat (flag_message w ids i u v) = cw_chat w" "cw_chat (notify_dm w now m) = cw_chat w"
  by (simp_all add: flag_message_def notify_dm_def Let_def)

lemma send_ok:
  assumes "chat_ok (cw_chat w)"
  shows "chat_ok (cw_chat (fst (send_message cf w now nid ids role m)))"
  using assms by (auto simp: send_message_def Let_def intro!: insert_message_ok split: option.splits sum.splits)

lemma poll_ok:
  assumes "chat_ok (cw_chat w)" "poll \<notin> po_id ` set (ch_polls (cw_chat w))"
  shows "chat_ok (cw_chat (fst (create_poll cf w now nid poll opt_id ids room sender txt options)))"
proof -
  have "chat_ok (fst (repo_create_poll c now nid poll opt_id room sender q xs))"
    if "chat_ok c" "poll \<notin> po_id ` set (ch_polls c)" "is_member c room sender" for c q xs
  proof -
    let ?c = "insert_message c (poll_message nid room sender q now)"
    have c: "chat_ok ?c" using insert_message_ok[OF that(1)] that(3) by (simp add: poll_message_def)
    let ?p = "\<lparr>po_id = poll, po_message = nid, po_question = q, po_options = map (\<lambda>i. (opt_id i, xs ! i)) [0..<length xs]\<rparr>"
    have eq: "fst (repo_create_poll c now nid poll opt_id room sender q xs) = ?c\<lparr>ch_polls := ch_polls ?c @ [?p]\<rparr>"
      by (simp add: repo_create_poll_def Let_def insert_message_def)
    have "poll \<notin> po_id ` set (ch_polls ?c)" using that(2) by (simp add: insert_message_def)
    then have "posts_ok (?c\<lparr>ch_polls := ch_polls ?c @ [?p]\<rparr>)" using c
      by (fastforce simp: chat_ok_def posts_ok_def voter_ok_def is_member_def)
    then show ?thesis unfolding eq by (rule_tac chat_ok_posts[OF c]) simp_all
  qed
  then have made: "repo_create_poll (cw_chat w) now nid poll opt_id room sender q xs = (c1, m) \<Longrightarrow>
      is_member (cw_chat w) room sender \<Longrightarrow> chat_ok c1" for q xs c1 m
    using assms by (metis fst_conv)
  show ?thesis using assms(1) unfolding create_poll_def Let_def
    by (auto split: option.splits sum.splits prod.splits dest: made simp del: screen_loop.simps)
qed

lemma vote_ok:
  assumes "chat_ok c"
  shows "chat_ok (fst (vote_poll c poll opt user))"
proof (cases "\<exists>room. poll_room c poll = Inr room \<and> is_member c room user \<and> snd (repo_vote c poll user opt) = Inr ()")
  case False
  have "fst (repo_vote c poll user opt) = c" if "snd (repo_vote c poll user opt) = Inl e" for e
    using that by (auto simp: repo_vote_def split: if_splits)
  with False have "fst (vote_poll c poll opt user) = c"
    by (auto simp: vote_poll_def and_then_def split: sum.splits)
  with assms show ?thesis by simp
next
  case True
  then obtain room c1 where room: "poll_room c poll = Inr room" "is_member c room user" and v: "repo_vote c poll user opt = (c1, Inr ())"
    by (metis prod.collapse)
  have eq: "fst (vote_poll c poll opt user) \<in> {c, c1}" using room v by (simp add: vote_poll_def)
  obtain p where p: "p \<in> set (ch_polls c)" "po_id p = poll" "opt \<in> fst ` set (po_options p)"
    and c1: "c1 = c\<lparr>ch_votes := (if \<exists>v\<in>set (ch_votes c). fst v = poll \<and> fst (snd v) = user
              then upd (\<lambda>v. fst v = poll \<and> fst (snd v) = user) (\<lambda>v. (poll, user, opt)) (ch_votes c)
              else ch_votes c @ [(poll, user, opt)])\<rparr>"
    using v by (auto simp: repo_vote_def split: if_splits)
  have ids: "distinct (map po_id (ch_polls c))" using assms by (simp add: chat_ok_def posts_ok_def)
  have f: "find (\<lambda>p. po_id p = poll) (ch_polls c) = Some p" using find_key_unique[OF ids p(1)] p(2) by simp
  obtain m where fm: "find (\<lambda>m. ms_id m = po_message p) (ch_messages c) = Some m" "ms_room m = room"
    using room(1) f by (auto simp: poll_room_def split: option.splits)
  then have m: "m \<in> set (ch_messages c)" "ms_id m = po_message p" "ms_room m = room" by (auto simp: find_Some_iff)
  have same: "voter_ok c1 = voter_ok c" by (simp add: c1 voter_ok_def is_member_def fun_eq_iff)
  have new: "voter_ok c (poll, user, opt)" using p m room(2) by (auto simp: voter_ok_def)
  have "posts_ok c1" unfolding posts_ok_def same
  proof (intro conjI)
    show "\<forall>m\<in>set (ch_messages c1). is_member c1 (ms_room m) (ms_sender m)" "distinct (map po_id (ch_polls c1))"
      using assms by (simp_all add: c1 chat_ok_def posts_ok_def is_member_def)
    have vs: "distinct (map (\<lambda>v. (fst v, fst (snd v))) (ch_votes c))" "\<forall>v\<in>set (ch_votes c). voter_ok c v"
      using assms by (simp_all add: chat_ok_def posts_ok_def)
    show "\<forall>v\<in>set (ch_votes c1). voter_ok c v"
      using vs(2) new by (auto simp: c1 elim!: upd_memE split: if_splits)
    have "map (\<lambda>v. (fst v, fst (snd v))) (upd (\<lambda>v. fst v = poll \<and> fst (snd v) = user) (\<lambda>v. (poll, user, opt)) (ch_votes c))
        = map (\<lambda>v. (fst v, fst (snd v))) (ch_votes c)" by (rule map_upd) auto
    then show "distinct (map (\<lambda>v. (fst v, fst (snd v))) (ch_votes c1))"
      using vs(1) by (auto simp: c1)
  qed
  then have "chat_ok c1" using assms by (rule_tac chat_ok_posts[of c]) (simp_all add: c1)
  with eq assms show ?thesis by auto
qed

lemma set_pinned_ok: "chat_ok c \<Longrightarrow> chat_ok (fst (set_pinned c room msg))"
proof -
  assume ok: "chat_ok c"
  have "chat_ok (c\<lparr>ch_rooms := upd P (\<lambda>r. r\<lparr>cr_pinned := v\<rparr>) (ch_rooms c)\<rparr>)" for P v
    using ok posts_ok_cong[of "c\<lparr>ch_rooms := upd P (\<lambda>r. r\<lparr>cr_pinned := v\<rparr>) (ch_rooms c)\<rparr>" c]
    by (rule_tac chat_ok_same[OF ok]) (simp_all add: is_member_def chat_ok_def map_upd)
  with ok show ?thesis by (simp add: set_pinned_def Let_def)
qed

lemma pin_ok: "chat_ok c \<Longrightarrow> chat_ok (fst (pin_message s c room msg unpin caller role))"
proof -
  assume ok: "chat_ok c"
  then have p: "chat_ok (fst (set_pinned c room target))" for target by (rule set_pinned_ok)
  have "fst (and_then (set_pinned c room target) (\<lambda>_ c1. (c1, Inr target))) = fst (set_pinned c room target)" for target
    by (simp add: and_then_def split: sum.splits)
  with ok p show ?thesis by (simp add: pin_message_def Let_def split: sum.splits)
qed

lemma is_member_read:
  "is_member (c\<lparr>ch_members := upd P (\<lambda>m. m\<lparr>cm_read := now\<rparr>) (ch_members c)\<rparr>) i u = is_member c i u"
proof -
  have m: "is_member c i u \<longleftrightarrow> (i, u) \<in> set (map (\<lambda>m. (cm_room m, cm_user m)) (ch_members c))" for c
    by (auto simp: is_member_def)
  have "map (\<lambda>m. (cm_room m, cm_user m)) (upd P (\<lambda>m. m\<lparr>cm_read := now\<rparr>) (ch_members c)) = map (\<lambda>m. (cm_room m, cm_user m)) (ch_members c)"
    by (rule map_upd) simp
  then have e: "set (map (\<lambda>m. (cm_room m, cm_user m)) (upd P (\<lambda>m. m\<lparr>cm_read := now\<rparr>) (ch_members c)))
      = set (map (\<lambda>m. (cm_room m, cm_user m)) (ch_members c))" by (rule arg_cong)
  have s: "ch_members (c\<lparr>ch_members := xs\<rparr>) = xs" for xs by simp
  show ?thesis unfolding m s e by (rule refl)
qed

lemma seen_ok:
  assumes "chat_ok (cw_chat w)"
  shows "chat_ok (cw_chat (fst (mark_room_read w now room user)))"
proof -
  let ?c = "(cw_chat w)\<lparr>ch_members := upd (\<lambda>m. cm_room m = room \<and> cm_user m = user) (\<lambda>m. m\<lparr>cm_read := now\<rparr>) (ch_members (cw_chat w))\<rparr>"
  have "posts_ok ?c" using assms
    by (rule_tac posts_ok_more[of "cw_chat w"]) (simp_all add: chat_ok_def is_member_read)
  then have "chat_ok ?c" by (rule_tac chat_ok_same[OF assms]) (simp_all add: is_member_read)
  with assms show ?thesis by (simp add: mark_room_read_def)
qed

lemma chat_step_ok: "chat_step cf w w' \<Longrightarrow> chat_ok (cw_chat w) \<Longrightarrow> chat_ok (cw_chat w')"
proof (induction rule: chat_step.induct)
  case (invited r w now user)
  then have "(cr_id r, cr_kind r, None) \<in> set (room_keys (cw_chat w))" by (force simp: room_keys_def)
  from add_member_ok[OF invited(3) this] invited(3) show ?case by (simp add: add_room_member_def)
qed (simp_all add: create_room_ok ensure_membership_ok group_ok send_ok poll_ok vote_ok pin_ok seen_ok direct_ok)

lemma chat_run_ok: "chat_run cf w w' \<Longrightarrow> chat_ok (cw_chat w) \<Longrightarrow> chat_ok (cw_chat w')"
  by (induction rule: rtranclp_induct) (auto intro: chat_step_ok)

lemma empty_chat_ok: "chat_ok empty_chat"
  by (simp add: chat_ok_def rooms_ok_def plan_rooms_def posts_ok_def room_keys_def members_of_def is_member_def empty_chat_def)

section \<open>Who is in a room\<close>


section \<open>Turning pages\<close>

fun read_pages :: "nat \<Rightarrow> db \<Rightarrow> chat_db \<Rightarrow> string \<Rightarrow> string \<Rightarrow> page_token \<Rightarrow> message_row list" where
  "read_pages 0 s c room caller tok = []"
| "read_pages (Suc n) s c room caller tok =
     (case list_messages_page s c room caller tok of
        Inl e \<Rightarrow> []
      | Inr (page, pin, nxt) \<Rightarrow> map fst page @ (case nxt of Before t \<Rightarrow> read_pages n s c room caller (Before t) | _ \<Rightarrow> []))"

lemma filter_descending:
  fixes f :: "'a \<Rightarrow> int"
  assumes "sorted_wrt (\<lambda>a b. f b < f a) xs" "k < length xs"
  shows "filter (\<lambda>m. f m < f (xs ! k)) xs = drop (Suc k) xs"
proof -
  have split: "xs = take (Suc k) xs @ drop (Suc k) xs" by simp
  have "filter (\<lambda>m. f m < f (xs ! k)) (take (Suc k) xs) = []"
  proof (rule filter_False, rule ballI)
    fix m assume "m \<in> set (take (Suc k) xs)"
    then obtain i where "i \<le> k" "m = xs ! i" by (auto simp: in_set_conv_nth less_Suc_eq_le)
    then show "\<not> f m < f (xs ! k)"
      using sorted_wrt_nth_less[OF assms(1), of i k] assms(2) by (cases "i = k") auto
  qed
  moreover have "filter (\<lambda>m. f m < f (xs ! k)) (drop (Suc k) xs) = drop (Suc k) xs"
  proof (rule filter_True, rule ballI)
    fix m assume "m \<in> set (drop (Suc k) xs)"
    then obtain i where "i < length (drop (Suc k) xs)" "m = drop (Suc k) xs ! i" unfolding in_set_conv_nth by blast
    then have "Suc k + i < length xs" "m = xs ! (Suc k + i)" by simp_all
    then show "f m < f (xs ! k)" using sorted_wrt_nth_less[OF assms(1), of k "Suc k + i"] by simp
  qed
  ultimately show ?thesis by (metis split filter_append append_Nil)
qed

lemma sort_desc:
  assumes "distinct (map f xs)"
  shows "sorted_wrt (\<lambda>a b. f b < (f a :: int)) (sort_key (\<lambda>m. - f m) xs)"
proof -
  let ?ys = "sort_key (\<lambda>m. - f m) xs"
  have "sorted (map (\<lambda>m. - f m) ?ys)" by (rule sorted_sort_key)
  moreover have "distinct (map (\<lambda>m. - f m) ?ys)"
    using assms by (simp add: distinct_map inj_on_def)
  ultimately have "sorted_wrt (<) (map (\<lambda>m. - f m) ?ys)" by (simp add: strict_sorted_iff)
  then show ?thesis by (simp add: sorted_wrt_map)
qed

abbreviation page_start :: "message_row list \<Rightarrow> nat \<Rightarrow> page_token" where
  "page_start xs k \<equiv> (if k = 0 then NoToken else Before (ms_sent (xs ! (k - 1))))"

lemma page_from:
  assumes "sorted_wrt (\<lambda>a b. ms_sent b < ms_sent a) xs" "xs = sort_key (\<lambda>m. - ms_sent m) (visible_messages s c room caller)"
    and "room \<noteq> ''''" "caller \<noteq> ''''" "is_member c room caller" "k \<le> length xs"
  shows "\<exists>page pin. list_messages_page s c room caller (page_start xs k) = Inr (page, pin,
      if 50 < length xs - k then page_start xs (k + 50) else NoToken) \<and> map fst page = take 50 (drop k xs)"
proof -
  define before where "before = (if k = 0 then None else Some (ms_sent (xs ! (k - 1))))"
  have "filter (\<lambda>m. case before of None \<Rightarrow> True | Some t \<Rightarrow> ms_sent m < t) xs = drop k xs"
    using filter_descending[OF assms(1), of "k - 1"] assms(6) by (cases "k = 0") (simp_all add: before_def)
  then have all: "repo_list_messages s c room caller 51 before = take 51 (drop k xs)"
    by (simp add: repo_list_messages_def assms(2) filter_sort)
  have b: "(case page_start xs k of NoToken \<Rightarrow> None | BadToken \<Rightarrow> None | Before t \<Rightarrow> Some t) = before"
    by (simp add: before_def)
  have last: "ms_sent (List.last (take 50 (drop k xs))) = ms_sent (xs ! (49 + k))" if "50 < length xs - k"
    using that by (simp add: last_conv_nth add.commute)
  have more: "(50 < length (take 51 (drop k xs))) = (50 < length xs - k)" by auto
  have pg: "take 50 (take 51 (drop k xs)) = take 50 (drop k xs)" by (simp add: min_def)
  have tok: "page_start xs k \<noteq> BadToken" by simp
  have sz: "default_message_page_size = 50" "default_message_page_size + 1 = 51" by (simp_all add: default_message_page_size_def)
  show ?thesis
    using assms(3-5) last tok
    by (simp add: list_messages_page_def b all sz more pg Let_def comp_def hydrate_def del: take_take)
qed

text \<open>
  Turning the pages of a room, each from the token of the page before, shows every
  message the reader may see exactly once, newest first, as long as no two of them carry
  the same time; as many pages as fifties of messages are enough.
\<close>

theorem pages_show_everything_once:
  assumes "room \<noteq> ''''" "caller \<noteq> ''''" "is_member c room caller"
    and "distinct (map ms_sent (visible_messages s c room caller))"
    and "length (visible_messages s c room caller) \<le> 50 * n" "0 < n"
  shows "read_pages n s c room caller NoToken = sort_key (\<lambda>m. - ms_sent m) (visible_messages s c room caller)"
proof -
  define xs where "xs = sort_key (\<lambda>m. - ms_sent m) (visible_messages s c room caller)"
  have desc: "sorted_wrt (\<lambda>a b. ms_sent b < ms_sent a) xs" unfolding xs_def by (rule sort_desc[OF assms(4)])
  have "read_pages n s c room caller (page_start xs k) = drop k xs"
    if "length xs - k \<le> 50 * n" "k \<le> length xs" "0 < n" for k n
    using that
  proof (induction n arbitrary: k)
    case (Suc n)
    obtain page pin where p: "list_messages_page s c room caller (page_start xs k) = Inr (page, pin,
        if 50 < length xs - k then page_start xs (k + 50) else NoToken)" "map fst page = take 50 (drop k xs)"
      using page_from[OF desc xs_def assms(1-3) Suc.prems(2)] by blast
    show ?case
    proof (cases "50 < length xs - k")
      case True
      then have "read_pages n s c room caller (page_start xs (k + 50)) = drop (k + 50) xs"
        using Suc.prems by (intro Suc.IH) auto
      moreover have "take 50 (drop k xs) @ drop (k + 50) xs = drop k xs"
        by (metis append_take_drop_id drop_drop add.commute)
      ultimately show ?thesis using p True by simp
    next
      case False
      then show ?thesis using p by simp
    qed
  qed simp
  from this[of 0 n] assms(5,6) show ?thesis by (simp add: xs_def)
qed

section \<open>Applied\<close>

definition no_reports :: mod_db where
  "no_reports = \<lparr>md_reports = [], md_cases = [], md_ratings = [], md_tiers = []\<rparr>"

definition friends :: db where
  "friends = empty_db\<lparr>t_connections := [\<lparr>cn_id = ''c'', cn_requester = ''a'', cn_recipient = ''b'', cn_origin = '''',
     cn_status = ConnectionAccepted, cn_created = 0\<rparr>]\<rparr>"

definition quiet_world :: chat_world where
  "quiet_world = \<lparr>cw_db = friends, cw_chat = empty_chat, cw_mod = no_reports\<rparr>"

abbreviation friends_chat :: chat_db where
  "friends_chat \<equiv> fst (open_direct_chat friends empty_chat 5 ''r'' ''b'' ''a'')"

lemma friends_chat_rooms:
  "ch_rooms friends_chat = [\<lparr>cr_id = ''r'', cr_plan = None, cr_kind = DmRoom, cr_dm = Some ''a:b'', cr_pinned = None, cr_created = 5\<rparr>]"
  by code_simp


definition sample_message :: "string \<Rightarrow> int \<Rightarrow> message_row" where
  "sample_message i t = \<lparr>ms_id = i, ms_room = ''r'', ms_sender = ''a'', ms_body = ''hi'', ms_type = MsgText,
     ms_location = None, ms_duration = 0, ms_media = [], ms_sent = t\<rparr>"

definition three_messages :: chat_db where
  "three_messages = empty_chat\<lparr>ch_members := [\<lparr>cm_room = ''r'', cm_user = ''b'', cm_muted = False, cm_joined = 0, cm_read = 0\<rparr>],
     ch_messages := [sample_message ''1'' 10, sample_message ''2'' 30, sample_message ''3'' 20]\<rparr>"

lemma pages_show_everything_once_witness:
  "map ms_id (read_pages 1 empty_db three_messages ''r'' ''b'' NoToken) = [''2'', ''3'', ''1'']"
proof -
  have v: "visible_messages empty_db three_messages ''r'' ''b'' = ch_messages three_messages"
    by (simp add: visible_messages_def three_messages_def sample_message_def blocked_def empty_db_def)
  have "read_pages 1 empty_db three_messages ''r'' ''b'' NoToken = sort_key (\<lambda>m. - ms_sent m) (ch_messages three_messages)"
    using pages_show_everything_once[of "''r''" "''b''" three_messages empty_db 1] unfolding v
    by (simp add: three_messages_def sample_message_def is_member_def)
  then show ?thesis by (simp add: three_messages_def sample_message_def)
qed

section \<open>What modelling showed\<close>

text \<open>
  The next page starts strictly before the time of the last message shown: of 51 messages
  with one time the last is never shown.
\<close>

definition same_time :: chat_db where
  "same_time = three_messages\<lparr>ch_messages := map (\<lambda>i. sample_message (replicate i CHR ''x'') 10) [0..<51]\<rparr>"

lemma same_time_messages_are_lost:
  "length (visible_messages empty_db same_time ''r'' ''b'') = 51
    \<and> length (read_pages 3 empty_db same_time ''r'' ''b'' NoToken) = 50"
  by code_simp

text \<open>Cancelling a booking does not take the attendee out of the plan's chat.\<close>

lemma cancelled_attendee_stays_in_chat:
  "w_chat (fst (handle_booking_cancelled gw cfg now rid p w)) = w_chat w"
  by (auto simp: handle_booking_cancelled_def and_then_def lift_db_def analytics_record_def Let_def
      split: prod.splits sum.splits option.splits)

end
