(* ===== verification/Receipts.thy ===== *)
theory Receipts
  imports Recurrence Rupees
begin

text \<open>
  Receipts (\<^verbatim>\<open>internal/payments/receipts.go\<close>): one per captured payment, numbered by a
  database sequence within the Indian financial year, with the GST of the service fee split
  out. The first request issues the receipt, later ones return what was recorded.
\<close>

section \<open>The financial year and the tax\<close>

text \<open>\<^verbatim>\<open>time.Now()\<close> is in the process's zone. \<open>%02d\<close> pads with one zero.\<close>

definition two_digits :: "int \<Rightarrow> string" where
  "two_digits n = (if n < 10 then CHR ''0'' # format_int n else format_int n)"

definition financial_year :: "zone \<Rightarrow> int \<Rightarrow> string" where
  "financial_year z t =
    (let k = fst (civil (fst (zn_local z t)));
         y = (if k mod 12 + 1 < 4 then k div 12 - 1 else k div 12)
     in format_int y @ ''-'' @ two_digits ((y + 1) mod 100))"

text \<open>
  \<^verbatim>\<open>float64(n) * 100 / float64(100+percent)\<close>: two roundings of integers, then a quotient
  scaled to 53 bits and rounded to the nearest, ties to even.
\<close>

definition fdiv :: "int \<Rightarrow> int \<Rightarrow> double" where
  "fdiv a d =
    (let b = bits (nat (a * 2 ^ 64 div d))
     in if b \<le> 117 then (round_half_even (a * 2 ^ (117 - b)) d, 117 - b)
        else (round_half_even a (d * 2 ^ (b - 117)) * 2 ^ (b - 117), 0))"

definition split_gst :: "int \<Rightarrow> int \<Rightarrow> int \<times> int" where
  "split_gst n percent =
    (if percent \<le> 0 \<or> n \<le> 0 then (n, 0)
     else let q = fdiv (fl53 (fl53 n * 100)) (fl53 (100 + percent));
              base = round_away (fst q) (2 ^ snd q)
          in (base, int64 (n - base)))"

section \<open>Issuing a receipt\<close>

record seller =
  sl_name :: string
  sl_gstin :: string
  sl_address :: string
  sl_percent :: int

record receipt =
  rv_number :: string
  rv_issued :: int
  rv_title :: string
  rv_email :: string
  rv_price :: int
  rv_fee :: int
  rv_base :: int
  rv_gst :: int
  rv_paid :: int
  rv_currency :: string
  rv_percent :: int
  rv_name :: string
  rv_gstin :: string
  rv_address :: string

text \<open>\<^verbatim>\<open>lpad(x, 6, '0')\<close>: longer texts are cut to their first six characters.\<close>

definition lpad6 :: "string \<Rightarrow> string" where
  "lpad6 x = replicate (6 - length x) CHR ''0'' @ take 6 x"

definition receipt_number :: "string \<Rightarrow> int \<Rightarrow> string" where
  "receipt_number fy n = ''HM/'' @ fy @ ''/'' @ lpad6 (format_int n)"

text \<open>The join of a booking with its plan and its user.\<close>

definition receipt_lines :: "db \<Rightarrow> string \<Rightarrow> go_error + (int \<times> string \<times> string)" where
  "receipt_lines s bid =
    (case booking_by_id s bid of
       None \<Rightarrow> Inl DB_NoRows
     | Some b \<Rightarrow>
         (case (plan_by_id s (bk_plan b), find (\<lambda>u. us_id u = bk_user b) (t_users s)) of
            (Some p, Some u) \<Rightarrow> Inr (bk_price b, pl_title p, us_email u)
          | _ \<Rightarrow> Inl DB_NoRows))"

text \<open>
  \<^verbatim>\<open>INSERT .. ON CONFLICT (payment_id) DO NOTHING RETURNING\<close>. \<open>nextval\<close> is taken before the
  conflict is seen and never given back; a number used before violates its constraint.
\<close>

definition insert_receipt :: "db \<Rightarrow> string \<Rightarrow> receipt_row \<Rightarrow> (db, receipt_row option) outcome" where
  "insert_receipt s fy row =
    (let s1 = s\<lparr>t_receipt_seq := t_receipt_seq s + 1\<rparr>;
         row1 = row\<lparr>rp_number := receipt_number fy (t_receipt_seq s)\<rparr>
     in if \<exists>x\<in>set (t_receipts s). rp_payment x = rp_payment row then (s1, Inr None)
        else if \<exists>x\<in>set (t_receipts s). rp_number x = rp_number row1 then (s1, Inl DB_UniqueViolation)
        else (s1\<lparr>t_receipts := t_receipts s @ [row1]\<rparr>, Inr (Some row1)))"

text \<open>What there is to issue: the receipt without its number, and its row.\<close>

definition draft_receipt :: "seller \<Rightarrow> db \<Rightarrow> int \<Rightarrow> string \<Rightarrow> string \<Rightarrow> go_error + (receipt \<times> receipt_row)" where
  "draft_receipt x s now bid caller =
    (if bid = '''' \<or> caller = '''' then Inl Payments_InvalidInput
     else case get_booking_charge s bid of
       Inl e \<Rightarrow> Inl e
     | Inr (owner, due, currency, st) \<Rightarrow>
         if owner \<noteq> caller then Inl Payments_PaymentNotFound
         else case find_captured_payment s bid of
           Inl e \<Rightarrow> Inl e
         | Inr payment \<Rightarrow>
           (case receipt_lines s bid of
              Inl e \<Rightarrow> Inl e
            | Inr (price, title, email) \<Rightarrow>
                let fee = int64 (due - price);
                    (base, gst) = split_gst fee (sl_percent x)
                in Inr (\<lparr>rv_number = '''', rv_issued = 0, rv_title = title, rv_email = email,
                          rv_price = price, rv_fee = fee, rv_base = base, rv_gst = gst, rv_paid = p_amount payment,
                          rv_currency = currency, rv_percent = sl_percent x, rv_name = sl_name x,
                          rv_gstin = sl_gstin x, rv_address = sl_address x\<rparr>,
                        \<lparr>rp_payment = p_id payment, rp_number = '''', rp_issued = now, rp_price = price,
                          rp_fee = fee, rp_base = base, rp_gst = gst, rp_percent = sl_percent x,
                          rp_paid = p_amount payment\<rparr>)))"

definition recorded :: "receipt \<Rightarrow> string \<Rightarrow> receipt_row option \<Rightarrow> db \<Rightarrow> go_error + receipt" where
  "recorded r payment ins s =
    (case ins of
       Some y \<Rightarrow> Inr (r\<lparr>rv_number := rp_number y, rv_issued := rp_issued y\<rparr>)
     | None \<Rightarrow>
         (case find (\<lambda>y. rp_payment y = payment) (t_receipts s) of
            None \<Rightarrow> Inl DB_NoRows
          | Some y \<Rightarrow>
              Inr (r\<lparr>rv_number := rp_number y, rv_issued := rp_issued y, rv_price := rp_price y,
                 rv_fee := rp_fee y, rv_base := rp_base y, rv_gst := rp_gst y,
                 rv_percent := rp_percent y, rv_paid := rp_paid y\<rparr>)))"

definition get_receipt ::
  "seller \<Rightarrow> zone \<Rightarrow> db \<Rightarrow> int \<Rightarrow> string \<Rightarrow> string \<Rightarrow> (db, receipt) outcome" where
  "get_receipt x z s now bid caller =
    (case draft_receipt x s now bid caller of
       Inl e \<Rightarrow> (s, Inl e)
     | Inr (r, row) \<Rightarrow>
         and_then (insert_receipt s (financial_year z now) row) (\<lambda>ins s1. (s1, recorded r (rp_payment row) ins s1)))"

section \<open>The tax is the nearest paisa\<close>

lemma financial_year_samples:
  "financial_year utc (day * day_number (12 * 2026 + 8) 21) = ''2026-27''"
  "financial_year utc (day * day_number (12 * 2027 + 1) 1) = ''2026-27''"
  "financial_year utc (day * day_number (12 * 2027 + 3) 1) = ''2027-28''"
  "financial_year utc (day * day_number (12 * 2000) 1) = ''1999-00''"
  by code_simp+

text \<open>
  A quotient kept to more fractional bits than the divisor has rounds to the same integer
  as the exact quotient: halves are on the grid, and anything else is further away from a
  half than the rounding error.
\<close>

lemma round_scaled_quotient:
  assumes "0 < d" "0 < k" "d < 2 ^ k" "0 \<le> a"
  shows "(2 * round_half_even (a * 2 ^ k) d + 2 ^ k) div (2 * 2 ^ k) = (2 * a + d) div (2 * d)"
proof -
  let ?K = "(2::int) ^ k"
  define m where "m = round_half_even (a * ?K) d"
  define Q where "Q = (2 * a + d) div (2 * d)"
  have near: "2 * (m * d) \<le> 2 * (a * ?K) + d" "2 * (a * ?K) - d \<le> 2 * (m * d)"
    using round_half_even_near[OF assms(1), of "a * ?K"] by (simp_all add: m_def abs_le_iff)
  have "Q * (2 * d) = 2 * a + d - (2 * a + d) mod (2 * d)" by (simp add: Q_def minus_mod_eq_div_mult)
  moreover have "0 \<le> (2 * a + d) mod (2 * d)" "(2 * a + d) mod (2 * d) < 2 * d" using assms(1) by simp_all
  ultimately have Q: "(2 * Q - 1) * d \<le> 2 * a" "2 * a + 1 \<le> (2 * Q + 1) * d" by (simp_all add: algebra_simps)
  have lo: "((2 * Q - 1) * ?K - 1) * d < 2 * m * d"
  proof -
    have "(2 * Q - 1) * d * ?K \<le> 2 * a * ?K" using Q(1) by (rule mult_right_mono) simp
    with near(2) have "((2 * Q - 1) * ?K) * d - d \<le> 2 * m * d" by (simp add: algebra_simps)
    moreover have "((2 * Q - 1) * ?K) * d - d = ((2 * Q - 1) * ?K - 1) * d" by (simp add: algebra_simps)
    moreover have "((2 * Q - 1) * ?K - 1) * d \<noteq> 2 * m * d"
    proof
      assume "((2 * Q - 1) * ?K - 1) * d = 2 * m * d"
      then have m: "2 * m + 1 = (2 * Q - 1) * ?K" using assms(1) by simp
      have "even ((2 * Q - 1) * ?K)" using assms(2) by simp
      then have "even (2 * m + 1)" by (simp only: m)
      then show False by simp
    qed
    ultimately show ?thesis by linarith
  qed
  have "(2 * Q - 1) * ?K \<le> 2 * m"
    using lo assms(1) by (simp add: mult_less_cancel_right)
  moreover have "2 * m < (2 * Q + 1) * ?K"
  proof -
    have "(2 * a + 1) * ?K \<le> (2 * Q + 1) * d * ?K" using Q(2) by (rule mult_right_mono) simp
    with near(1) assms(3) have "2 * m * d < (2 * Q + 1) * ?K * d" by (simp add: algebra_simps)
    then show ?thesis using assms(1) by (simp add: mult_less_cancel_right)
  qed
  ultimately have "(2 * m + ?K) div (2 * ?K) = Q" by (intro div_pin) (simp_all add: algebra_simps)
  then show ?thesis by (simp add: m_def Q_def)
qed

lemma split_gst_nearest:
  assumes "0 < n" "n < 2 ^ 44" "0 < percent" "percent \<le> 100"
  shows "split_gst n percent = (let base = (200 * n + (100 + percent)) div (2 * (100 + percent)) in (base, n - base))"
proof -
  let ?d = "100 + percent"
  have exact: "fl53 n = n" "fl53 (n * 100) = n * 100" "fl53 ?d = ?d" using assms by (simp_all add: fl53_exact)
  define b where "b = bits (nat (n * 100 * 2 ^ 64 div ?d))"
  have "n * 100 * 2 ^ 64 div ?d \<le> n * 100 * 2 ^ 64 div 100" using assms by (intro zdiv_mono2) simp_all
  also have "\<dots> = n * 2 ^ 64" by simp
  also have "\<dots> < 2 ^ 44 * 2 ^ 64" using assms(2) by simp
  finally have "n * 100 * 2 ^ 64 div ?d < 2 ^ 108" by simp
  moreover have "0 \<le> n * 100 * 2 ^ 64 div ?d" using assms by (intro pos_imp_zdiv_nonneg_iff[THEN iffD2]) simp_all
  ultimately have "b \<le> 108" unfolding b_def by (intro bits_le) (simp add: nat_less_iff)
  then have k: "9 \<le> 117 - b" "b \<le> 117" by simp_all
  have "(2::int) ^ 9 \<le> 2 ^ (117 - b)" using k(1) by (rule power_increasing) simp
  then have K: "?d < 2 ^ (117 - b)" using assms(4) by simp
  have "0 \<le> round_half_even (n * 100 * 2 ^ (117 - b)) ?d"
  proof -
    have "0 \<le> n * 100 * 2 ^ (117 - b) div ?d" using assms by (intro pos_imp_zdiv_nonneg_iff[THEN iffD2]) simp_all
    then show ?thesis by (simp add: round_half_even_def Let_def)
  qed
  moreover have "round_away x e = (2 * x + e) div (2 * e)" if "0 \<le> x" "1 < e" for x e
    using that by (cases "x = 0") (simp_all add: round_away_def)
  moreover have "1 < (2::int) ^ (117 - b)" using K assms by linarith
  ultimately have base: "round_away (round_half_even (n * 100 * 2 ^ (117 - b)) ?d) (2 ^ (117 - b))
      = (2 * (n * 100) + ?d) div (2 * ?d)"
    using round_scaled_quotient[of ?d "117 - b" "n * 100"] assms k K by simp
  define B where "B = (2 * (n * 100) + ?d) div (2 * ?d)"
  have B: "0 \<le> B" unfolding B_def using assms by (intro pos_imp_zdiv_nonneg_iff[THEN iffD2]) simp_all
  have "0 \<le> (2 * (n * 100) + ?d) mod (2 * ?d)" by (rule pos_mod_sign) (use assms in simp)
  then have "B * (2 * ?d) \<le> 2 * (n * 100) + ?d" unfolding B_def by (simp only: minus_mod_eq_div_mult[symmetric])
  also have "\<dots> < (n + 1) * (2 * ?d)"
  proof -
    have "0 \<le> n * (percent * 2)" using assms by simp
    with assms have "0 < percent + (100 + n * (percent * 2))" by linarith
    then show ?thesis by (simp add: algebra_simps)
  qed
  finally have "B \<le> n" using assms by (simp add: mult_less_cancel_right)
  with B have "int64 (n - B) = n - B" using assms by (intro int64_id) simp_all
  have "fdiv (n * 100) ?d = (round_half_even (n * 100 * 2 ^ (117 - b)) ?d, 117 - b)"
    using k(2) by (simp only: fdiv_def Let_def b_def[symmetric] if_True)
  then have "split_gst n percent = (B, int64 (n - B))"
    using assms base exact by (simp add: split_gst_def Let_def B_def del: mult.commute)
  with \<open>int64 (n - B) = n - B\<close> show ?thesis by (simp add: B_def Let_def)
qed

section \<open>A receipt is final\<close>

text \<open>
  What happens to the receipts: anybody asks for one, and everything else in the program
  leaves the table and its sequence alone.
\<close>

inductive receipts_step :: "db \<Rightarrow> db \<Rightarrow> bool" where
  asked: "get_receipt x z s now bid caller = (s', r) \<Longrightarrow> receipts_step s s'"
| elsewhere: "t_receipts s' = t_receipts s \<Longrightarrow> t_receipt_seq s' = t_receipt_seq s \<Longrightarrow> receipts_step s s'"

definition receipt_row_ok :: "receipt_row \<Rightarrow> bool" where
  "receipt_row_ok x \<longleftrightarrow> (rp_base x, rp_gst x) = split_gst (rp_fee x) (rp_percent x)
     \<and> rp_fee x = int64 (rp_base x + rp_gst x)"

definition receipts_ok :: "db \<Rightarrow> bool" where
  "receipts_ok s \<longleftrightarrow> distinct (map rp_payment (t_receipts s)) \<and> distinct (map rp_number (t_receipts s))
     \<and> list_all receipt_row_ok (t_receipts s)"

lemma int64_int64 [simp]: "int64 (int64 x) = int64 x" "int64 (b + int64 (x - b)) = int64 x"
proof -
  show "int64 (int64 x) = int64 x" by (simp add: int64_def)
  have "take_bit 64 (b + signed_take_bit 63 (x - b)) = take_bit 64 (take_bit 64 b + take_bit 64 (signed_take_bit 63 (x - b)))"
    by (simp only: take_bit_add)
  also have "\<dots> = take_bit 64 (take_bit 64 b + take_bit 64 (x - b))"
    by (simp add: take_bit_signed_take_bit)
  also have "\<dots> = take_bit 64 x" by (simp only: take_bit_add) simp
  finally show "int64 (b + int64 (x - b)) = int64 x"
    by (simp add: int64_def signed_take_bit_eq_iff_take_bit_eq)
qed

lemma split_gst_sums: "split_gst (int64 n) p = (b, g) \<Longrightarrow> int64 n = int64 (b + g)"
  by (auto simp: split_gst_def Let_def split: if_splits)

lemma insert_receipt_cases:
  assumes "insert_receipt s fy row = (s1, res)"
  obtains (there) "res = Inr None" "t_receipts s1 = t_receipts s" "rp_payment row \<in> rp_payment ` set (t_receipts s)"
  | (clash) "res = Inl DB_UniqueViolation" "t_receipts s1 = t_receipts s"
  | (fresh) y where "res = Inr (Some y)" "t_receipts s1 = t_receipts s @ [y]" "y = row\<lparr>rp_number := rp_number y\<rparr>"
      "rp_payment y \<notin> rp_payment ` set (t_receipts s)" "rp_number y \<notin> rp_number ` set (t_receipts s)"
proof -
  define y where "y = row\<lparr>rp_number := receipt_number fy (t_receipt_seq s)\<rparr>"
  have y: "rp_payment y = rp_payment row" "rp_number y = receipt_number fy (t_receipt_seq s)" "y = row\<lparr>rp_number := rp_number y\<rparr>"
    by (simp_all add: y_def)
  note ins = assms[unfolded insert_receipt_def Let_def, folded y_def]
  show thesis
  proof (cases "rp_payment row \<in> rp_payment ` set (t_receipts s)")
    case True
    then have "\<exists>x\<in>set (t_receipts s). rp_payment x = rp_payment row" by auto
    with True ins show thesis by (intro there) auto
  next
    case False
    then have new: "\<not> (\<exists>x\<in>set (t_receipts s). rp_payment x = rp_payment row)" by (metis image_eqI)
    show thesis
    proof (cases "rp_number y \<in> rp_number ` set (t_receipts s)")
      case True
      then have "\<exists>x\<in>set (t_receipts s). rp_number x = rp_number y" by auto
      with ins new show thesis by (intro clash) auto
    next
      case fresh': False
      then have "\<not> (\<exists>x\<in>set (t_receipts s). rp_number x = rp_number y)" by (metis image_eqI)
      with ins new have "res = Inr (Some y)" "t_receipts s1 = t_receipts s @ [y]" by auto
      with fresh y False fresh' show thesis by simp
    qed
  qed
qed

text \<open>What a successful request returns: the row of the payment, as it now stands in the table.\<close>

definition shows_row :: "receipt \<Rightarrow> receipt_row \<Rightarrow> bool" where
  "shows_row r y \<longleftrightarrow> rv_number r = rp_number y \<and> rv_issued r = rp_issued y \<and> rv_price r = rp_price y
     \<and> rv_fee r = rp_fee y \<and> rv_base r = rp_base y \<and> rv_gst r = rp_gst y \<and> rv_percent r = rp_percent y
     \<and> rv_paid r = rp_paid y"

lemma draft_receipt_InrD:
  assumes "draft_receipt x s now bid caller = Inr (r, row)"
  obtains p n where "find_captured_payment s bid = Inr p" "rp_payment row = p_id p" "shows_row (r\<lparr>rv_number := '''', rv_issued := now\<rparr>) row"
    "get_booking_owner_id s bid = Inr caller"
    "(rp_base row, rp_gst row) = split_gst (rp_fee row) (rp_percent row)" "rp_fee row = int64 n"
  using assms
  by (fastforce simp: draft_receipt_def Let_def shows_row_def get_booking_charge_def get_booking_owner_id_def
      split: if_splits sum.splits prod.splits)

lemma get_receipt_InrD:
  assumes "get_receipt x z s now bid caller = (s', Inr r)"
  obtains p y where "find_captured_payment s bid = Inr p" "get_booking_owner_id s bid = Inr caller"
    "find (\<lambda>y. rp_payment y = p_id p) (t_receipts s') = Some y" "shows_row r y"
    "t_receipts s' = t_receipts s \<and> y \<in> set (t_receipts s) \<or> t_receipts s' = t_receipts s @ [y]"
proof -
  obtain r0 row where d: "draft_receipt x s now bid caller = Inr (r0, row)"
    using assms by (auto simp: get_receipt_def split: sum.splits)
  obtain p where p: "find_captured_payment s bid = Inr p" "rp_payment row = p_id p"
      "shows_row (r0\<lparr>rv_number := '''', rv_issued := now\<rparr>) row" "get_booking_owner_id s bid = Inr caller"
    using draft_receipt_InrD[OF d] by metis
  obtain s1 res where i: "insert_receipt s (financial_year z now) row = (s1, res)" by fastforce
  have g: "and_then (s1, res) (\<lambda>ins s1. (s1, recorded r0 (rp_payment row) ins s1)) = (s', Inr r)"
    using assms d i by (simp add: get_receipt_def)
  show thesis
    using i
  proof (cases rule: insert_receipt_cases)
    case there
    with g have "s' = s1" "recorded r0 (rp_payment row) None s1 = Inr r" by auto
    then obtain y where y: "find (\<lambda>y. rp_payment y = p_id p) (t_receipts s') = Some y" "shows_row r y"
      by (auto simp: recorded_def p(2) shows_row_def split: option.splits)
    moreover have "y \<in> set (t_receipts s)" using y(1) there \<open>s' = s1\<close> by (auto simp: find_Some_iff)
    ultimately show thesis using that[OF p(1,4)] there \<open>s' = s1\<close> by simp
  next
    case clash
    with g show thesis by simp
  next
    case (fresh y)
    with g have s': "s' = s1" "r = r0\<lparr>rv_number := rp_number y, rv_issued := rp_issued y\<rparr>"
      by (auto simp: recorded_def)
    have y: "rp_payment y = p_id p" by (subst fresh(3)) (simp add: p(2))
    have "rp_issued y = rp_issued row" "rp_price y = rp_price row" "rp_fee y = rp_fee row" "rp_base y = rp_base row"
      "rp_gst y = rp_gst row" "rp_percent y = rp_percent row" "rp_paid y = rp_paid row"
      by (subst fresh(3), simp)+
    then have "shows_row r y" using p(3) by (simp add: s'(2) shows_row_def)
    moreover have "rp_payment x \<noteq> p_id p" if "x \<in> set (t_receipts s)" for x
      using that fresh(4) y by force
    then have "find (\<lambda>y. rp_payment y = p_id p) (t_receipts s1) = Some y"
      using y by (simp add: fresh(2) find_append_skip)
    ultimately show thesis using that[OF p(1,4)] s' fresh(2) by simp
  qed
qed

text \<open>Every request leaves the table as it is or appends one correct row to it.\<close>

lemma get_receipt_table:
  assumes "get_receipt x z s now bid caller = (s', r)"
  shows "t_receipts s' = t_receipts s \<or> (\<exists>y. t_receipts s' = t_receipts s @ [y] \<and> receipt_row_ok y
    \<and> rp_payment y \<notin> rp_payment ` set (t_receipts s) \<and> rp_number y \<notin> rp_number ` set (t_receipts s))"
proof (cases "draft_receipt x s now bid caller")
  case (Inl e)
  with assms show ?thesis by (simp add: get_receipt_def)
next
  case (Inr d)
  obtain r0 row where d: "d = (r0, row)" by (cases d)
  obtain n where row: "(rp_base row, rp_gst row) = split_gst (rp_fee row) (rp_percent row)" "rp_fee row = int64 n"
    using draft_receipt_InrD[OF Inr[unfolded d]] by metis
  obtain s1 res where i: "insert_receipt s (financial_year z now) row = (s1, res)" by fastforce
  then have s': "s' = s1" using assms Inr d by (cases res) (simp_all add: get_receipt_def)
  show ?thesis
    using i
  proof (cases rule: insert_receipt_cases)
    case (fresh y)
    have "rp_base y = rp_base row" "rp_gst y = rp_gst row" "rp_fee y = rp_fee row" "rp_percent y = rp_percent row"
      by (subst fresh(3), simp)+
    then have "receipt_row_ok y"
      using row split_gst_sums[of n "rp_percent row" "rp_base row" "rp_gst row"] by (simp add: receipt_row_ok_def)
    with fresh s' show ?thesis by blast
  qed (simp_all add: s')
qed

lemma receipts_step_table:
  assumes "receipts_step s s'"
  shows "t_receipts s' = t_receipts s \<or> (\<exists>y. t_receipts s' = t_receipts s @ [y] \<and> receipt_row_ok y
    \<and> rp_payment y \<notin> rp_payment ` set (t_receipts s) \<and> rp_number y \<notin> rp_number ` set (t_receipts s))"
  using assms by cases (auto dest!: get_receipt_table)

lemma receipts_step_ok: "receipts_step s s' \<Longrightarrow> receipts_ok s \<Longrightarrow> receipts_ok s'"
  using receipts_step_table[of s s'] by (auto simp: receipts_ok_def)

lemma receipts_run_ok: "receipts_step\<^sup>*\<^sup>* s s' \<Longrightarrow> receipts_ok s \<Longrightarrow> receipts_ok s'"
  by (induction rule: rtranclp_induct) (auto intro: receipts_step_ok)

lemma receipts_run_appends: "receipts_step\<^sup>*\<^sup>* s s' \<Longrightarrow> \<exists>ys. t_receipts s' = t_receipts s @ ys"
  by (induction rule: rtranclp_induct) (use receipts_step_table in \<open>force+\<close>)

lemma find_append_hit: "find P xs = Some y \<Longrightarrow> find P (xs @ ys) = Some y"
  by (induction xs) (auto split: if_splits)

text \<open>
  C27. A receipt is final. In every run, whatever else happens between two requests, at
  whatever time, in whatever zone and with whatever seller and tax rate they are made, the
  second request for a captured payment returns the number, the time and the amounts of the
  first and issues nothing; base and tax are the split of the fee, and no number is given
  out twice.
\<close>

theorem receipt_final:
  assumes "receipts_step\<^sup>*\<^sup>* empty_db s"
    and "get_receipt x z s now bid caller = (s1, Inr r)"
    and "receipts_step\<^sup>*\<^sup>* s1 s2" "find_captured_payment s2 bid = find_captured_payment s bid"
    and "get_receipt x' z' s2 now' bid caller' = (s3, Inr r')"
  shows "(rv_number r', rv_issued r', rv_price r', rv_fee r', rv_base r', rv_gst r', rv_percent r', rv_paid r')
      = (rv_number r, rv_issued r, rv_price r, rv_fee r, rv_base r, rv_gst r, rv_percent r, rv_paid r)
    \<and> t_receipts s3 = t_receipts s2 \<and> distinct (map rp_number (t_receipts s3))
    \<and> (rv_base r, rv_gst r) = split_gst (rv_fee r) (rv_percent r) \<and> rv_fee r = int64 (rv_base r + rv_gst r)"
proof -
  have ok: "receipts_ok s" using receipts_run_ok[OF assms(1)] by (simp add: receipts_ok_def empty_db_def)
  have ok1: "receipts_ok s1" using receipts_step_ok[OF receipts_step.asked[OF assms(2)] ok] .
  have ok2: "receipts_ok s2" using receipts_run_ok[OF assms(3) ok1] .
  obtain p y where y: "find_captured_payment s bid = Inr p" "find (\<lambda>y. rp_payment y = p_id p) (t_receipts s1) = Some y"
      "shows_row r y"
    by (rule get_receipt_InrD[OF assms(2)])
  obtain p' y' where y': "find_captured_payment s2 bid = Inr p'" "find (\<lambda>y. rp_payment y = p_id p') (t_receipts s3) = Some y'"
      "shows_row r' y'" "t_receipts s3 = t_receipts s2 \<and> y' \<in> set (t_receipts s2) \<or> t_receipts s3 = t_receipts s2 @ [y']"
    by (rule get_receipt_InrD[OF assms(5)])
  have p: "p' = p" using y(1) y'(1) assms(4) by simp
  have old: "find (\<lambda>y. rp_payment y = p_id p) (t_receipts s2) = Some y"
    using receipts_run_appends[OF assms(3)] find_append_hit[OF y(2)] by auto
  have same: "y' = y" using y'(2,4) find_append_hit[OF old] old by (auto simp: p)
  have "t_receipts s3 = t_receipts s2"
    using receipts_step_table[OF receipts_step.asked[OF assms(5)]] y'(4) old same
    by (auto simp: find_Some_iff)
  moreover have "receipt_row_ok y" using ok1 y(2) by (auto simp: receipts_ok_def list_all_iff find_Some_iff)
  moreover have "distinct (map rp_number (t_receipts s2))" using ok2 by (simp add: receipts_ok_def)
  ultimately show ?thesis using y(3) y'(3) same by (simp add: shows_row_def receipt_row_ok_def)
qed

definition paid_booking_db :: db where
  "paid_booking_db = empty_db\<lparr>t_plans := [sample_plan\<lparr>pl_price := 20000\<rparr>], t_bookings := [sample_booking\<lparr>bk_price := 20000\<rparr>],
     t_users := [\<lparr>us_id = ''u'', us_email = ''u@x'', us_status = UserActive, us_city = None, us_created = 0\<rparr>],
     t_orders := [\<lparr>or_id = ''o'', or_booking = ''b'', or_amount = 21000, or_currency = ''INR'', or_gateway = None,
        or_status = OrderPaid, or_created = 0\<rparr>],
     t_payments := [\<lparr>py_id = ''y'', py_order = ''o'', py_amount = 21000, py_currency = ''INR'', py_status = PayCaptured,
        py_gateway = None, py_created = 0\<rparr>]\<rparr>"

definition sample_seller :: seller where
  "sample_seller = \<lparr>sl_name = ''HiveMind'', sl_gstin = ''G'', sl_address = ''A'', sl_percent = 18\<rparr>"

definition paid_row :: receipt_row where
  "paid_row = \<lparr>rp_payment = ''y'', rp_number = ''HM/1969-70/000001'', rp_issued = 0, rp_price = 20000, rp_fee = 1000,
     rp_base = 847, rp_gst = 153, rp_percent = 18, rp_paid = 21000\<rparr>"

definition paid_receipt :: receipt where
  "paid_receipt = \<lparr>rv_number = ''HM/1969-70/000001'', rv_issued = 0, rv_title = ''Hike'', rv_email = ''u@x'', rv_price = 20000,
     rv_fee = 1000, rv_base = 847, rv_gst = 153, rv_paid = 21000, rv_currency = ''INR'', rv_percent = 18,
     rv_name = ''HiveMind'', rv_gstin = ''G'', rv_address = ''A''\<rparr>"

abbreviation issued_db :: db where
  "issued_db \<equiv> paid_booking_db\<lparr>t_receipts := [paid_row], t_receipt_seq := 2\<rparr>"

lemma sample_taxes: "split_gst 1000 18 = (847, 153)" "split_gst 1000 5 = (952, 48)" "service_fee 20000 = 1000"
  using split_gst_nearest[of 1000 18] split_gst_nearest[of 1000 5] service_fee_is[of 20000] by simp_all

lemma sample_numbers:
  "receipt_number (financial_year utc 0) 1 = ''HM/1969-70/000001''"
  "receipt_number (financial_year utc day) 2 = ''HM/1969-70/000002''"
  by code_simp+

lemmas receipt_eval = get_receipt_def draft_receipt_def insert_receipt_def recorded_def get_booking_charge_def
  service_get_booking_def get_booking_def scan_booking_def receipt_lines_def find_captured_payment_def captured_for_def
  scan_payment_def paid_booking_db_def samples sample_seller_def int64_id sample_taxes sample_numbers paid_row_def paid_receipt_def

lemma first_receipt: "get_receipt sample_seller utc paid_booking_db 0 ''b'' ''u'' = (issued_db, Inr paid_receipt)"
  by (simp add: receipt_eval Let_def)

lemma second_receipt:
  "get_receipt (sample_seller\<lparr>sl_percent := 5\<rparr>) utc issued_db day ''b'' ''u''
   = (issued_db\<lparr>t_receipt_seq := 3\<rparr>, Inr paid_receipt)"
  by (simp add: receipt_eval Let_def)

lemma receipt_final_witness:
  "rv_number paid_receipt = ''HM/1969-70/000001'' \<and> rv_fee paid_receipt = 1000
   \<and> split_gst 1000 18 = (rv_base paid_receipt, rv_gst paid_receipt) \<and> distinct (map rp_number (t_receipts issued_db))"
proof -
  have "receipts_step\<^sup>*\<^sup>* empty_db paid_booking_db"
    by (intro r_into_rtranclp receipts_step.elsewhere) (simp_all add: paid_booking_db_def)
  from receipt_final[OF this first_receipt rtranclp.rtrancl_refl _ second_receipt]
  show ?thesis by (simp add: paid_receipt_def paid_booking_db_def find_captured_payment_def captured_for_def)
qed

section \<open>Numbers are neither gap-free nor unbounded\<close>

text \<open>Asking again for a receipt takes a number of the sequence with it.\<close>

lemma later_requests_burn_numbers:
  "fst (get_receipt (sample_seller\<lparr>sl_percent := 5\<rparr>) utc issued_db day ''b'' ''u'') = issued_db\<lparr>t_receipt_seq := 3\<rparr>"
  by (simp only: second_receipt fst_conv)

text \<open>From the millionth on the padding cuts the number, and a number comes twice.\<close>

lemma format_nat_snoc: "0 < n \<Longrightarrow> d < 10 \<Longrightarrow> format_nat (10 * n + d) = format_nat n @ [digit d]"
  by (subst format_nat.simps) simp

lemma millionth_receipt_clashes: "receipt_number fy 1000000 = receipt_number fy 100000"
proof -
  have "format_nat 1000000 = format_nat 100000 @ [digit 0]" using format_nat_snoc[of 100000 0] by simp
  moreover have "length (format_nat 100000) = 6" by (simp add: format_nat.simps)
  ultimately show ?thesis by (simp add: receipt_number_def lpad6_def format_int_def)
qed

end
