(* ===== verification/Communities.thy ===== *)
theory Communities
  imports Connections Moderation Subscriptions
begin

text \<open>
  Communities (\<^verbatim>\<open>internal/communities\<close>): public, private, approval and paid ones, joining
  and leaving, requests and invitations, and what strangers see of a private one. The state
  holds the package's tables beside the shared database, whose \<open>t_members\<close> (the pairs other
  packages look up) is written through \<open>set_members\<close> only.
\<close>

section \<open>State\<close>

record community =
  co_id :: string
  co_name :: string
  co_desc :: string
  co_city :: "string option"
  co_owner :: string
  co_type :: string
  co_cover :: string
  co_rules :: string
  co_category :: "string option"
  co_entitlement :: "string option"

record member_row =
  mb_community :: string
  mb_user :: string
  mb_role :: string

record comm_request =
  cq_id :: string
  cq_community :: string
  cq_user :: string
  cq_status :: request_status
  cq_invited_by :: "string option"
  cq_decided_by :: "string option"
  cq_created :: int

record comm_world =
  cm_db :: db
  cm_communities :: "community list"
  cm_members :: "member_row list"
  cm_requests :: "comm_request list"

definition empty_comm :: comm_world where
  "empty_comm = \<lparr>cm_db = empty_db, cm_communities = [], cm_members = [], cm_requests = []\<rparr>"

definition set_members :: "member_row list \<Rightarrow> comm_world \<Rightarrow> comm_world" where
  "set_members rows w = w\<lparr>cm_members := rows,
     cm_db := (cm_db w)\<lparr>t_members := map (\<lambda>r. (mb_community r, mb_user r)) rows\<rparr>\<rparr>"

definition notify :: "event \<Rightarrow> int \<Rightarrow> comm_world \<Rightarrow> comm_world" where
  "notify e now w = w\<lparr>cm_db := fst (emit (cm_db w) now e)\<rparr>"

section \<open>Repository\<close>

text \<open>What the columns select: the row with its counts, the flags still false.\<close>

record community_view =
  cv_row :: community
  cv_members :: int
  cv_plans :: int
  cv_mine :: bool
  cv_pending :: bool

definition scan_community :: "comm_world \<Rightarrow> community \<Rightarrow> community_view" where
  "scan_community w c = \<lparr>cv_row = c, cv_members = cnt (\<lambda>r. mb_community r = co_id c) (cm_members w),
     cv_plans = cnt (\<lambda>e. fst e = co_id c \<and> (\<exists>p\<in>set (t_plans (cm_db w)). pl_id p = snd e \<and> pl_status p = Published))
                  (t_events (cm_db w)),
     cv_mine = False, cv_pending = False\<rparr>"

text \<open>The constraint \<^verbatim>\<open>communities_paid_needs_entitlement\<close>.\<close>

definition repo_create_community :: "comm_world \<Rightarrow> community \<Rightarrow> (comm_world, community_view) outcome" where
  "repo_create_community w c =
    in_tx w (if co_type c = ''paid'' \<and> co_entitlement c = None then (w, Inl DB_CheckViolation)
      else let w1 = set_members (cm_members w @ [\<lparr>mb_community = co_id c, mb_user = co_owner c, mb_role = ''owner''\<rparr>])
                      (w\<lparr>cm_communities := cm_communities w @ [c]\<rparr>)
           in (w1, Inr (scan_community w1 c)))"

definition repo_get_community :: "comm_world \<Rightarrow> string \<Rightarrow> go_error + community_view" where
  "repo_get_community w i =
    (case find (\<lambda>c. co_id c = i) (cm_communities w) of
       None \<Rightarrow> Inl (Communities CommNotFound) | Some c \<Rightarrow> Inr (scan_community w c))"

definition member_role :: "comm_world \<Rightarrow> string \<Rightarrow> string \<Rightarrow> string" where
  "member_role w i u =
    (case find (\<lambda>r. mb_community r = i \<and> mb_user r = u) (cm_members w) of None \<Rightarrow> '''' | Some r \<Rightarrow> mb_role r)"

definition has_approved_invite :: "comm_world \<Rightarrow> string \<Rightarrow> string \<Rightarrow> bool" where
  "has_approved_invite w i u \<longleftrightarrow> (\<exists>q\<in>set (cm_requests w). cq_community q = i \<and> cq_user q = u
     \<and> cq_status q = ReqApproved \<and> cq_invited_by q \<noteq> None)"

definition comm_request_status :: "comm_world \<Rightarrow> string \<Rightarrow> string \<Rightarrow> request_status option" where
  "comm_request_status w i u =
     map_option cq_status (find (\<lambda>q. cq_community q = i \<and> cq_user q = u) (cm_requests w))"

definition status_text :: "request_status option \<Rightarrow> string" where
  "status_text st = (case st of None \<Rightarrow> '''' | Some ReqPending \<Rightarrow> ''pending'' | Some ReqApproved \<Rightarrow> ''approved''
     | Some ReqRejected \<Rightarrow> ''rejected'' | Some ReqCancelled \<Rightarrow> ''cancelled'')"

record membership =
  mm_community :: string
  mm_user :: string
  mm_role :: string
  mm_status :: string

text \<open>\<^verbatim>\<open>INSERT .. ON CONFLICT (community_id, user_id) DO NOTHING\<close>\<close>

definition add_member_row :: "string \<Rightarrow> string \<Rightarrow> comm_world \<Rightarrow> comm_world" where
  "add_member_row i u w =
    (if \<exists>r\<in>set (cm_members w). mb_community r = i \<and> mb_user r = u then w
     else set_members (cm_members w @ [\<lparr>mb_community = i, mb_user = u, mb_role = ''member''\<rparr>]) w)"

definition repo_join :: "comm_world \<Rightarrow> string \<Rightarrow> string \<Rightarrow> (comm_world, membership) outcome" where
  "repo_join w i u =
    (let w1 = add_member_row i u w
     in (w1, Inr \<lparr>mm_community = i, mm_user = u, mm_role = member_role w1 i u, mm_status = ''active''\<rparr>))"

definition request_community ::
  "comm_world \<Rightarrow> int \<Rightarrow> string \<Rightarrow> string \<Rightarrow> string \<Rightarrow> comm_world \<times> request_status option \<times> bool" where
  "request_community w now new_id i u =
    (if \<exists>q\<in>set (cm_requests w). cq_community q = i \<and> cq_user q = u then (w, comm_request_status w i u, False)
     else let w1 = w\<lparr>cm_requests := cm_requests w @ [\<lparr>cq_id = new_id, cq_community = i, cq_user = u,
                       cq_status = ReqPending, cq_invited_by = None, cq_decided_by = None, cq_created = now\<rparr>]\<rparr>
          in (w1, comm_request_status w1 i u, True))"

definition get_comm_request :: "comm_world \<Rightarrow> string \<Rightarrow> go_error + comm_request" where
  "get_comm_request w i =
    (case find (\<lambda>q. cq_id q = i) (cm_requests w) of None \<Rightarrow> Inl (Communities CommRequestNotFound) | Some q \<Rightarrow> Inr q)"

definition repo_list_requests :: "comm_world \<Rightarrow> string \<Rightarrow> string \<Rightarrow> nat \<Rightarrow> comm_request list" where
  "repo_list_requests w i status limit =
     take limit (sort_key (\<lambda>q. - cq_created q) (filter (\<lambda>q. cq_community q = i \<and> cq_invited_by q = None
       \<and> (status = '''' \<or> status_text (Some (cq_status q)) = status)) (cm_requests w)))"

definition decision_event :: "comm_request \<Rightarrow> string \<Rightarrow> bool \<Rightarrow> event" where
  "decision_event q by approve = \<lparr>ev_user = cq_user q, ev_actor = by,
     ev_type = (if approve then ''community_approved'' else ''community_declined''), ev_target = cq_community q,
     ev_title = (if approve then ''Your request to join the community was approved''
                 else ''{actor} declined your request to join a community''),
     ev_body = '''', ev_link = ''hivemind://communities/'' @ cq_community q, ev_dedupe = ''commdecide:'' @ cq_id q\<rparr>"

definition decide_request ::
  "comm_world \<Rightarrow> int \<Rightarrow> string \<Rightarrow> string \<Rightarrow> bool \<Rightarrow> comm_world \<times> comm_request option" where
  "decide_request w now i by approve =
    (let st = (if approve then ReqApproved else ReqRejected);
         hit = (\<lambda>q. cq_id q = i \<and> cq_status q = ReqPending);
         decided = (\<lambda>q. q\<lparr>cq_status := st, cq_decided_by := Some by\<rparr>)
     in case find hit (cm_requests w) of
          None \<Rightarrow> (w, None)
        | Some q \<Rightarrow>
            let w1 = w\<lparr>cm_requests := upd hit decided (cm_requests w)\<rparr>;
                w2 = (if approve then add_member_row (cq_community q) (cq_user q) w1 else w1)
            in (notify (decision_event (decided q) by approve) now w2, Some (decided q)))"

text \<open>The invitation of an unknown user writes no row.\<close>

definition repo_invite :: "comm_world \<Rightarrow> int \<Rightarrow> string \<Rightarrow> string \<Rightarrow> string \<Rightarrow> string \<Rightarrow> comm_world" where
  "repo_invite w now new_id i u by =
    (let mine = (\<lambda>q. cq_community q = i \<and> cq_user q = u);
         w1 = (if \<not> (\<exists>x\<in>set (t_users (cm_db w)). us_id x = u) then w
               else if \<exists>q\<in>set (cm_requests w). mine q
               then w\<lparr>cm_requests := upd mine (\<lambda>q. q\<lparr>cq_status := ReqApproved, cq_invited_by := Some by,
                        cq_decided_by := Some by\<rparr>) (cm_requests w)\<rparr>
               else w\<lparr>cm_requests := cm_requests w @ [\<lparr>cq_id = new_id, cq_community = i, cq_user = u,
                        cq_status = ReqApproved, cq_invited_by = Some by, cq_decided_by = Some by, cq_created = now\<rparr>]\<rparr>)
     in w1\<lparr>cm_db := enqueue_notify_user (cm_db w1) now u ''Community invite''
           ''You've been invited to join a community.'' (''hivemind://communities/'' @ i) ''push''\<rparr>)"

definition repo_leave :: "comm_world \<Rightarrow> string \<Rightarrow> string \<Rightarrow> comm_world" where
  "repo_leave w i u =
     set_members (filter (\<lambda>r. \<not> (mb_community r = i \<and> mb_user r = u \<and> mb_role r \<noteq> ''owner'')) (cm_members w)) w"

text \<open>\<^verbatim>\<open>name ILIKE '%' || escaped || '%'\<close> on ASCII text.\<close>

definition name_matches :: "string \<Rightarrow> string \<Rightarrow> bool" where
  "name_matches q name \<longleftrightarrow> contains (map to_lower q) (map to_lower name)"

definition is_member_of :: "comm_world \<Rightarrow> string \<Rightarrow> string \<Rightarrow> bool" where
  "is_member_of w i u \<longleftrightarrow> (\<exists>r\<in>set (cm_members w). mb_community r = i \<and> mb_user r = u)"

definition repo_list_communities ::
  "comm_world \<Rightarrow> string \<Rightarrow> string \<Rightarrow> string \<Rightarrow> string \<Rightarrow> bool \<Rightarrow> nat \<Rightarrow> community_view list" where
  "repo_list_communities w city category query viewer only_mine limit =
     take limit (sort_key (\<lambda>v. - cv_members v) (sort_key (\<lambda>v. co_name (cv_row v))
       (map (scan_community w) (filter (\<lambda>c.
          (co_type c \<noteq> ''private'' \<or> (only_mine \<and> is_member_of w (co_id c) viewer))
          \<and> (\<not> only_mine \<or> is_member_of w (co_id c) viewer)
          \<and> (city = '''' \<or> co_city c = Some city) \<and> (category = '''' \<or> co_category c = Some category)
          \<and> (query = '''' \<or> name_matches query (co_name c))) (cm_communities w)))))"

definition list_plan_ids :: "comm_world \<Rightarrow> string \<Rightarrow> bool \<Rightarrow> nat \<Rightarrow> string list" where
  "list_plan_ids w i member limit =
     take limit (map pl_id (sort_key pl_starts (List.map_filter (\<lambda>e.
       if fst e = i
       then find (\<lambda>p. pl_id p = snd e \<and> pl_status p = Published
              \<and> (pl_visibility p = VisPublic \<or> (pl_visibility p = VisCommunity \<and> member))) (t_plans (cm_db w))
       else None) (t_events (cm_db w)))))"

definition mark_membership :: "comm_world \<Rightarrow> string \<Rightarrow> community_view list \<Rightarrow> community_view list" where
  "mark_membership w viewer vs =
    (if viewer = '''' then vs
     else map (\<lambda>v. let i = co_id (cv_row v); mine = is_member_of w i viewer
            in v\<lparr>cv_mine := mine, cv_pending := (\<exists>q\<in>set (cm_requests w). cq_community q = i \<and> cq_user q = viewer
                 \<and> cq_status q = ReqPending \<and> cq_invited_by q = None) \<and> \<not> mine\<rparr>) vs)"

section \<open>Service\<close>

definition valid_types :: "string set" where
  "valid_types = {''public'', ''private'', ''approval'', ''paid''}"

definition valid_media_url :: "string \<Rightarrow> bool" where
  "valid_media_url u \<longleftrightarrow> u = '''' \<or> (take 8 u = ''https://'' \<and> length u \<le> 2048)"

definition create_community :: "comm_world \<Rightarrow> community \<Rightarrow> (comm_world, community_view) outcome" where
  "create_community w c =
    (let c1 = (if co_type c = '''' then c\<lparr>co_type := ''public''\<rparr> else c)
     in if co_name c = '''' \<or> co_owner c = '''' then (w, Inl (Communities CommInvalidInput))
        else if co_type c1 \<notin> valid_types \<or> \<not> valid_media_url (co_cover c1) \<or> 5000 < length (co_rules c1)
        then (w, Inl (Communities CommInvalidInput))
        else if co_type c1 = ''paid'' \<and> co_entitlement c1 = None then (w, Inl (Communities CommInvalidInput))
        else repo_create_community w c1)"

definition can_view_community :: "comm_world \<Rightarrow> community \<Rightarrow> string \<Rightarrow> bool" where
  "can_view_community w c u \<longleftrightarrow> co_type c \<noteq> ''private'' \<or> member_role w (co_id c) u \<noteq> '''' \<or> has_approved_invite w (co_id c) u"

definition visible_community :: "comm_world \<Rightarrow> string \<Rightarrow> string \<Rightarrow> go_error + community_view" where
  "visible_community w i u =
    (if i = '''' then Inl (Communities CommInvalidInput)
     else case repo_get_community w i of
       Inl e \<Rightarrow> Inl e
     | Inr v \<Rightarrow> if can_view_community w (cv_row v) u then Inr v else Inl (Communities CommNotFound))"

definition get_community :: "comm_world \<Rightarrow> string \<Rightarrow> string \<Rightarrow> go_error + community_view" where
  "get_community w i u =
    (case visible_community w i u of Inl e \<Rightarrow> Inl e | Inr v \<Rightarrow> Inr (hd (mark_membership w u [v])))"

definition default_plan_page_size :: nat where "default_plan_page_size = 20"

definition list_community_plans :: "comm_world \<Rightarrow> string \<Rightarrow> string \<Rightarrow> go_error + string list" where
  "list_community_plans w i u =
    (case visible_community w i u of
       Inl e \<Rightarrow> Inl e | Inr v \<Rightarrow> Inr (list_plan_ids w i (member_role w i u \<noteq> '''') default_plan_page_size))"

definition asked_event :: "community \<Rightarrow> string \<Rightarrow> event" where
  "asked_event c u = \<lparr>ev_user = co_owner c, ev_actor = u, ev_type = ''community_join_request'', ev_target = co_id c,
     ev_title = ''{actor} asked to join '' @ co_name c, ev_body = '''', ev_link = ''hivemind://communities/'' @ co_id c,
     ev_dedupe = ''commreq:'' @ co_id c @ '':'' @ u\<rparr>"

definition joined_event :: "community \<Rightarrow> string \<Rightarrow> event" where
  "joined_event c u = \<lparr>ev_user = co_owner c, ev_actor = u, ev_type = ''community_member_joined'', ev_target = co_id c,
     ev_title = ''{actor} joined '' @ co_name c, ev_body = '''', ev_link = ''hivemind://communities/'' @ co_id c,
     ev_dedupe = ''commjoin:'' @ co_id c @ '':'' @ u\<rparr>"

definition join_and_tell :: "comm_world \<Rightarrow> int \<Rightarrow> community \<Rightarrow> string \<Rightarrow> (comm_world, membership) outcome" where
  "join_and_tell w now c u =
     and_then (repo_join w (co_id c) u) (\<lambda>m w1. (notify (joined_event c u) now w1, Inr m))"

definition ask_to_join ::
  "comm_world \<Rightarrow> int \<Rightarrow> string \<Rightarrow> community \<Rightarrow> string \<Rightarrow> (comm_world, membership) outcome" where
  "ask_to_join w now new_id c u =
    (case request_community w now new_id (co_id c) u of
       (w1, st, created) \<Rightarrow>
         let w2 = (if created \<and> st = Some ReqPending then notify (asked_event c u) now w1 else w1)
         in if st = Some ReqApproved then repo_join w2 (co_id c) u
            else if st = Some ReqRejected then (w2, Inl (Communities CommJoinDeclined))
            else (w2, Inr \<lparr>mm_community = co_id c, mm_user = u, mm_role = '''', mm_status = status_text st\<rparr>))"

definition join_community ::
  "checker option \<Rightarrow> comm_world \<Rightarrow> int \<Rightarrow> string \<Rightarrow> string \<Rightarrow> string \<Rightarrow> (comm_world, membership) outcome" where
  "join_community ent w now new_id i u =
    (if i = '''' \<or> u = '''' then (w, Inl (Communities CommInvalidInput))
     else case repo_get_community w i of
       Inl e \<Rightarrow> (w, Inl e)
     | Inr v \<Rightarrow>
         let c = cv_row v; role = member_role w i u
         in if role \<noteq> '''' then (w, Inr \<lparr>mm_community = i, mm_user = u, mm_role = role, mm_status = ''active''\<rparr>)
            else if co_type c = ''approval'' then ask_to_join w now new_id c u
            else if co_type c = ''private'' then
              (if has_approved_invite w i u then join_and_tell w now c u else (w, Inl (Communities CommNotFound)))
            else if co_type c = ''paid'' then
              (case ent of
                 None \<Rightarrow> (w, Inl (Communities CommEntitlementRequired))
               | Some has \<Rightarrow>
                   (case has (cm_db w) u (coalesce (co_entitlement c)) of
                      Inl e \<Rightarrow> (w, Inl e)
                    | Inr ok \<Rightarrow> if ok then join_and_tell w now c u
                               else (w, Inl (Communities CommEntitlementRequired))))
            else join_and_tell w now c u)"

definition leave_community :: "comm_world \<Rightarrow> string \<Rightarrow> string \<Rightarrow> (comm_world, unit) outcome" where
  "leave_community w i u =
    (if i = '''' \<or> u = '''' then (w, Inl (Communities CommInvalidInput))
     else if member_role w i u = ''owner'' then (w, Inl (Communities CommOwnerCannotLeave))
     else (repo_leave w i u, Inr ()))"

definition list_communities ::
  "comm_world \<Rightarrow> string \<Rightarrow> string \<Rightarrow> string \<Rightarrow> string \<Rightarrow> bool \<Rightarrow> go_error + community_view list" where
  "list_communities w city category query viewer only_mine =
    (if only_mine \<and> viewer = '''' then Inl (Communities CommInvalidInput)
     else Inr (mark_membership w viewer (repo_list_communities w city category query viewer only_mine 50)))"

text \<open>The \<open>CommunityRoleChecker\<close> of the plan service.\<close>

definition is_community_manager :: "comm_world \<Rightarrow> string \<Rightarrow> string \<Rightarrow> go_error + bool" where
  "is_community_manager w i u = Inr (member_role w i u \<in> {''owner'', ''moderator''})"

definition require_manager :: "comm_world \<Rightarrow> string \<Rightarrow> string \<Rightarrow> go_error + unit" where
  "require_manager w i u =
    (case is_community_manager w i u of
       Inl e \<Rightarrow> Inl e | Inr ok \<Rightarrow> if ok then Inr () else Inl (Communities CommForbidden))"

definition list_comm_requests :: "comm_world \<Rightarrow> string \<Rightarrow> string \<Rightarrow> string \<Rightarrow> go_error + comm_request list" where
  "list_comm_requests w i status caller =
    (if i = '''' \<or> caller = '''' then Inl (Communities CommInvalidInput)
     else case require_manager w i caller of
       Inl e \<Rightarrow> Inl e | Inr u \<Rightarrow> Inr (repo_list_requests w i status 100))"

definition respond_comm_request ::
  "comm_world \<Rightarrow> int \<Rightarrow> string \<Rightarrow> string \<Rightarrow> bool \<Rightarrow> (comm_world, comm_request) outcome" where
  "respond_comm_request w now rid caller approve =
    (if rid = '''' \<or> caller = '''' then (w, Inl (Communities CommInvalidInput))
     else case get_comm_request w rid of
       Inl e \<Rightarrow> (w, Inl e)
     | Inr q \<Rightarrow>
         (case require_manager w (cq_community q) caller of
            Inl e \<Rightarrow> (w, Inl e)
          | Inr u \<Rightarrow>
              (case decide_request w now rid caller approve of
                 (w1, Some q1) \<Rightarrow> (w1, Inr q1)
               | (w1, None) \<Rightarrow>
                   (case get_comm_request w1 rid of
                      Inl e \<Rightarrow> (w1, Inl e)
                    | Inr cur \<Rightarrow>
                        if cq_status cur \<noteq> ReqPending \<and> ((cq_status cur = ReqApproved) = approve) then (w1, Inr cur)
                        else (w1, Inl (Communities CommAlreadyDecided))))))"

definition invite_to_community ::
  "comm_world \<Rightarrow> int \<Rightarrow> string \<Rightarrow> string \<Rightarrow> string \<Rightarrow> string \<Rightarrow> (comm_world, unit) outcome" where
  "invite_to_community w now new_id i caller u =
    (if i = '''' \<or> caller = '''' \<or> u = '''' then (w, Inl (Communities CommInvalidInput))
     else case require_manager w i caller of
       Inl e \<Rightarrow> (w, Inl e) | Inr _ \<Rightarrow> (repo_invite w now new_id i u caller, Inr ()))"

text \<open>
  What erasing an account does to these tables (\<^verbatim>\<open>internal/users/repository.go\<close>): nothing for
  the owner of a community, who is refused; otherwise the user's requests and memberships go.
\<close>

definition erase_memberships :: "string \<Rightarrow> comm_world \<Rightarrow> comm_world" where
  "erase_memberships u w =
    (if \<exists>c\<in>set (cm_communities w). co_owner c = u then w
     else set_members (filter (\<lambda>r. mb_user r \<noteq> u) (cm_members w))
            (w\<lparr>cm_requests := filter (\<lambda>q. cq_user q \<noteq> u) (cm_requests w)\<rparr>))"

end
