(* ===== verification/Community_Facts.thy ===== *)
theory Community_Facts
  imports Communities
begin

text \<open>
  What communities guarantee: in every run each membership was earned the way the type of
  the community asks for, every decision and invitation is the owner's, the owner stays,
  and the pairs the booking and plan packages look up are exactly the memberships; and a
  private community looks to strangers as if it did not exist.
\<close>

section \<open>The invariant\<close>

definition earned :: "comm_request list \<Rightarrow> community \<Rightarrow> string \<Rightarrow> bool" where
  "earned Q c u \<longleftrightarrow>
     (co_type c \<in> {''approval'', ''private''} \<longrightarrow>
       (\<exists>q\<in>set Q. cq_community q = co_id c \<and> cq_user q = u \<and> cq_status q = ReqApproved
          \<and> (co_type c = ''private'' \<longrightarrow> cq_invited_by q \<noteq> None)))"

definition member_ok :: "community list \<Rightarrow> comm_request list \<Rightarrow> member_row \<Rightarrow> bool" where
  "member_ok C Q r \<longleftrightarrow> (\<exists>c\<in>set C. co_id c = mb_community r
     \<and> (if mb_user r = co_owner c then mb_role r = ''owner'' else mb_role r = ''member'' \<and> earned Q c (mb_user r)))"

definition request_ok :: "community list \<Rightarrow> comm_request \<Rightarrow> bool" where
  "request_ok C q \<longleftrightarrow> (\<exists>c\<in>set C. co_id c = cq_community q
     \<and> (cq_invited_by q = None \<longrightarrow> co_type c = ''approval'')
     \<and> (cq_invited_by q \<noteq> None \<longrightarrow> cq_status q = ReqApproved)
     \<and> (cq_status q = ReqPending \<longleftrightarrow> cq_decided_by q = None)
     \<and> set_option (cq_decided_by q) \<union> set_option (cq_invited_by q) \<subseteq> {co_owner c})"

definition community_ok :: "member_row list \<Rightarrow> community \<Rightarrow> bool" where
  "community_ok M c \<longleftrightarrow> co_type c \<in> valid_types \<and> (co_type c = ''paid'' \<longrightarrow> co_entitlement c \<noteq> None)
     \<and> (\<exists>r\<in>set M. mb_community r = co_id c \<and> mb_user r = co_owner c)"

abbreviation member_key :: "member_row \<Rightarrow> string \<times> string" where
  "member_key r \<equiv> (mb_community r, mb_user r)"

definition tables_ok :: "community list \<Rightarrow> member_row list \<Rightarrow> comm_request list \<Rightarrow> bool" where
  "tables_ok C M Q \<longleftrightarrow> distinct (map co_id C) \<and> distinct (map member_key M) \<and> distinct (map cq_id Q)
     \<and> list_all (community_ok M) C \<and> list_all (member_ok C Q) M \<and> list_all (request_ok C) Q"

definition comm_ok :: "comm_world \<Rightarrow> bool" where
  "comm_ok w \<longleftrightarrow> tables_ok (cm_communities w) (cm_members w) (cm_requests w)
     \<and> t_members (cm_db w) = map member_key (cm_members w)"

lemmas tables_okD = tables_ok_def[THEN iffD1, THEN conjunct1]
  tables_ok_def[THEN iffD1, THEN conjunct2, THEN conjunct1]
  tables_ok_def[THEN iffD1, THEN conjunct2, THEN conjunct2, THEN conjunct1]
  tables_ok_def[THEN iffD1, THEN conjunct2, THEN conjunct2, THEN conjunct2, THEN conjunct1]
  tables_ok_def[THEN iffD1, THEN conjunct2, THEN conjunct2, THEN conjunct2, THEN conjunct2, THEN conjunct1]
  tables_ok_def[THEN iffD1, THEN conjunct2, THEN conjunct2, THEN conjunct2, THEN conjunct2, THEN conjunct2]

section \<open>What each change of the tables keeps\<close>

lemma member_ok_in: "tables_ok C M Q \<Longrightarrow> r \<in> set M \<Longrightarrow> member_ok C Q r"
  using tables_okD(5) by (auto simp: list_all_iff)

lemma community_ok_in: "tables_ok C M Q \<Longrightarrow> c \<in> set C \<Longrightarrow> community_ok M c"
  using tables_okD(4) by (auto simp: list_all_iff)

lemma request_ok_in: "tables_ok C M Q \<Longrightarrow> q \<in> set Q \<Longrightarrow> request_ok C q"
  using tables_okD(6) by (auto simp: list_all_iff)

lemma member_ok_mono:
  assumes "member_ok C Q r" "set C \<subseteq> set C'" "\<And>c. earned Q c (mb_user r) \<Longrightarrow> co_id c = mb_community r \<Longrightarrow> earned Q' c (mb_user r)"
  shows "member_ok C' Q' r"
  using assms by (auto simp: member_ok_def split: if_splits)

lemma member_row_added:
  assumes "tables_ok C M Q" "c \<in> set C" "\<not> (\<exists>r\<in>set M. mb_community r = co_id c \<and> mb_user r = u)" "earned Q c u"
  shows "tables_ok C (M @ [\<lparr>mb_community = co_id c, mb_user = u, mb_role = ''member''\<rparr>]) Q"
proof -
  have "u \<noteq> co_owner c" using community_ok_in[OF assms(1,2)] assms(3) by (auto simp: community_ok_def)
  then have "member_ok C Q \<lparr>mb_community = co_id c, mb_user = u, mb_role = ''member''\<rparr>"
    using assms(2,4) by (auto simp: member_ok_def)
  moreover have "list_all (community_ok (M @ [\<lparr>mb_community = co_id c, mb_user = u, mb_role = ''member''\<rparr>])) C"
    using tables_okD(4)[OF assms(1)] by (auto simp: list_all_iff community_ok_def)
  ultimately show ?thesis using tables_okD[OF assms(1)] assms(3) by (auto simp: tables_ok_def)
qed

lemma new_community_ok:
  assumes "tables_ok C M Q" "co_id c \<notin> co_id ` set C" "co_type c \<in> valid_types" "co_type c = ''paid'' \<longrightarrow> co_entitlement c \<noteq> None"
  shows "tables_ok (C @ [c]) (M @ [\<lparr>mb_community = co_id c, mb_user = co_owner c, mb_role = ''owner''\<rparr>]) Q"
proof -
  have "mb_community r \<noteq> co_id c" if "r \<in> set M" for r
    using member_ok_in[OF assms(1) that] assms(2) by (auto simp: member_ok_def) (metis image_eqI)
  then have "distinct (map member_key (M @ [\<lparr>mb_community = co_id c, mb_user = co_owner c, mb_role = ''owner''\<rparr>]))"
    using tables_okD(2)[OF assms(1)] by fastforce
  moreover have "list_all (member_ok (C @ [c]) Q) M"
    using member_ok_mono[OF member_ok_in[OF assms(1)], of _ "C @ [c]" Q] by (auto simp: list_all_iff)
  moreover have "list_all (request_ok (C @ [c])) Q"
    using request_ok_in[OF assms(1)] by (auto simp: list_all_iff request_ok_def)
  ultimately show ?thesis
    using tables_okD[OF assms(1)] assms(2-4)
    by (auto simp: tables_ok_def list_all_iff community_ok_def member_ok_def)
qed

lemma filter_members_ok:
  assumes "tables_ok C M Q" "\<And>r c. r \<in> set M \<Longrightarrow> c \<in> set C \<Longrightarrow> mb_community r = co_id c \<Longrightarrow> mb_user r = co_owner c \<Longrightarrow> P r"
  shows "tables_ok C (filter P M) Q"
proof -
  have "community_ok (filter P M) c" if c: "c \<in> set C" for c
  proof -
    obtain r where "r \<in> set M" "mb_community r = co_id c" "mb_user r = co_owner c"
      using community_ok_in[OF assms(1) c] by (auto simp: community_ok_def)
    then show ?thesis using community_ok_in[OF assms(1) c] assms(2)[OF _ c] by (auto simp: community_ok_def)
  qed
  moreover have "distinct (map member_key (filter P M))" using tables_okD(2)[OF assms(1)] by (simp add: distinct_map_filter)
  ultimately show ?thesis using tables_okD[OF assms(1)] by (auto simp: tables_ok_def list_all_iff)
qed

text \<open>A change of the requests that leaves approvals and invitations in force.\<close>

lemma requests_ok:
  assumes "tables_ok C M Q" "distinct (map cq_id Q')" "list_all (request_ok C) Q'"
    and "\<And>c r. r \<in> set M \<Longrightarrow> earned Q c (mb_user r) \<Longrightarrow> earned Q' c (mb_user r)"
  shows "tables_ok C M Q'"
proof -
  have "member_ok C Q' r" if "r \<in> set M" for r
    by (rule member_ok_mono[OF member_ok_in[OF assms(1) that] subset_refl assms(4)[OF that]])
  then show ?thesis using assms tables_okD[OF assms(1)] by (simp add: tables_ok_def list_all_iff)
qed

lemma earned_append: "earned Q c u \<Longrightarrow> earned (Q @ Q') c u"
  by (auto simp: earned_def)

lemma earned_upd:
  assumes "earned Q c u" "\<And>q. q \<in> set Q \<Longrightarrow> P q \<Longrightarrow> cq_community (f q) = cq_community q \<and> cq_user (f q) = cq_user q
     \<and> (cq_status q = ReqApproved \<longrightarrow> cq_status (f q) = ReqApproved) \<and> (cq_invited_by q \<noteq> None \<longrightarrow> cq_invited_by (f q) \<noteq> None)"
  shows "earned (upd P f Q) c u"
  unfolding earned_def
proof
  assume "co_type c \<in> {''approval'', ''private''}"
  then obtain q where q: "q \<in> set Q" "cq_community q = co_id c" "cq_user q = u" "cq_status q = ReqApproved"
      "co_type c = ''private'' \<longrightarrow> cq_invited_by q \<noteq> None"
    using assms(1) by (auto simp: earned_def)
  have "(if P q then f q else q) \<in> set (upd P f Q)" using q(1) by (auto simp: set_upd)
  then show "\<exists>q\<in>set (upd P f Q). cq_community q = co_id c \<and> cq_user q = u \<and> cq_status q = ReqApproved
      \<and> (co_type c = ''private'' \<longrightarrow> cq_invited_by q \<noteq> None)"
    using q assms(2)[OF q(1)] by (intro bexI[of _ "if P q then f q else q"]) (auto split: if_splits)
qed

section \<open>Operations keep it\<close>

lemma comm_ok_tables: "comm_ok w \<Longrightarrow> tables_ok (cm_communities w) (cm_members w) (cm_requests w)"
  by (simp add: comm_ok_def)

lemma comm_ok_db [simp]: "comm_ok (w\<lparr>cm_db := s\<rparr>) \<longleftrightarrow>
    tables_ok (cm_communities w) (cm_members w) (cm_requests w) \<and> t_members s = map member_key (cm_members w)"
  by (simp add: comm_ok_def)

lemma emit_members [simp]: "t_members (fst (emit s now e)) = t_members s"
  by (simp add: emit_def)

lemma notify_comm [simp]:
  "comm_ok (notify e now w) = comm_ok w" "cm_communities (notify e now w) = cm_communities w"
  "cm_members (notify e now w) = cm_members w" "cm_requests (notify e now w) = cm_requests w"
  by (simp_all add: notify_def comm_ok_def)

lemma set_members_fields [simp]:
  "cm_communities (set_members M w) = cm_communities w" "cm_members (set_members M w) = M"
  "cm_requests (set_members M w) = cm_requests w"
  "comm_ok (set_members M w) = tables_ok (cm_communities w) M (cm_requests w)"
  by (simp_all add: set_members_def comm_ok_def)

lemma add_member_row_ok:
  assumes "comm_ok w" "c \<in> set (cm_communities w)" "earned (cm_requests w) c u"
  shows "comm_ok (add_member_row (co_id c) u w)"
  using assms member_row_added[OF comm_ok_tables[OF assms(1)] assms(2) _ assms(3)] by (auto simp: add_member_row_def)

lemma join_and_tell_ok:
  assumes "comm_ok w" "c \<in> set (cm_communities w)" "earned (cm_requests w) c u"
  shows "comm_ok (fst (join_and_tell w now c u))"
  using add_member_row_ok[OF assms] by (simp add: join_and_tell_def repo_join_def Let_def)

lemma repo_get_communityD:
  "repo_get_community w i = Inr v \<Longrightarrow> cv_row v \<in> set (cm_communities w) \<and> co_id (cv_row v) = i"
  by (auto simp: repo_get_community_def scan_community_def find_Some_iff split: option.splits)

lemma request_community_ok:
  assumes "comm_ok w" "c \<in> set (cm_communities w)" "co_type c = ''approval''" "new_id \<notin> cq_id ` set (cm_requests w)"
    and "request_community w now new_id (co_id c) u = (w1, st, created)"
  shows "comm_ok w1 \<and> cm_communities w1 = cm_communities w \<and> (st = Some ReqApproved \<longrightarrow> earned (cm_requests w1) c u)"
proof (cases "\<exists>q\<in>set (cm_requests w). cq_community q = co_id c \<and> cq_user q = u")
  case True
  with assms(5) have "w1 = w" "st = comm_request_status w (co_id c) u" by (auto simp: request_community_def)
  with assms(1,3) show ?thesis
    by (auto simp: comm_request_status_def earned_def find_Some_iff)
next
  case False
  let ?q = "\<lparr>cq_id = new_id, cq_community = co_id c, cq_user = u, cq_status = ReqPending, cq_invited_by = None,
    cq_decided_by = None, cq_created = now\<rparr>"
  have none: "find (\<lambda>q. cq_community q = co_id c \<and> cq_user q = u) (cm_requests w) = None"
    using False by (auto simp: find_None)
  have w1: "w1 = w\<lparr>cm_requests := cm_requests w @ [?q]\<rparr>" "st = Some ReqPending"
    using assms(5) False none
    by (auto simp: request_community_def Let_def comm_request_status_def find_append_skip)
  have "request_ok (cm_communities w) ?q" using assms(2,3) by (auto simp: request_ok_def)
  then have "tables_ok (cm_communities w) (cm_members w) (cm_requests w @ [?q])"
    using assms(4) tables_okD(3,6)[OF comm_ok_tables[OF assms(1)]]
    by (intro requests_ok[OF comm_ok_tables[OF assms(1)]] earned_append) auto
  with assms(1) w1 show ?thesis by (simp add: comm_ok_def)
qed

lemma ask_to_join_ok:
  assumes "comm_ok w" "c \<in> set (cm_communities w)" "co_type c = ''approval''" "new_id \<notin> cq_id ` set (cm_requests w)"
  shows "comm_ok (fst (ask_to_join w now new_id c u))"
proof -
  obtain w1 st created where r: "request_community w now new_id (co_id c) u = (w1, st, created)" by (metis prod_cases3)
  from request_community_ok[OF assms r] assms(2) show ?thesis
    by (auto simp: ask_to_join_def r Let_def repo_join_def intro!: add_member_row_ok)
qed

lemma join_community_ok:
  assumes "comm_ok w" "new_id \<notin> cq_id ` set (cm_requests w)"
  shows "comm_ok (fst (join_community ent w now new_id i u))"
proof (cases "repo_get_community w i")
  case (Inl e)
  with assms show ?thesis by (simp add: join_community_def)
next
  case (Inr v)
  note c = repo_get_communityD[OF Inr]
  have open_join: "comm_ok (fst (join_and_tell w now (cv_row v) u))"
    if "co_type (cv_row v) \<notin> {''approval'', ''private''}"
    using that assms(1) c by (intro join_and_tell_ok) (auto simp: earned_def)
  have invited: "comm_ok (fst (join_and_tell w now (cv_row v) u))"
    if "co_type (cv_row v) = ''private''" "has_approved_invite w i u"
    using that assms(1) c by (intro join_and_tell_ok) (auto simp: earned_def has_approved_invite_def)
  show ?thesis
    using assms Inr c open_join invited ask_to_join_ok[OF assms(1) _ _ assms(2)]
    by (simp add: join_community_def Let_def split: option.splits sum.splits)
qed

lemma leave_community_ok: "comm_ok w \<Longrightarrow> comm_ok (fst (leave_community w i u))"
proof -
  assume w: "comm_ok w"
  have "tables_ok (cm_communities w)
     (filter (\<lambda>r. \<not> (mb_community r = i \<and> mb_user r = u \<and> mb_role r \<noteq> ''owner'')) (cm_members w)) (cm_requests w)"
  proof (rule filter_members_ok[OF comm_ok_tables[OF w]])
    fix r c assume r: "r \<in> set (cm_members w)" "c \<in> set (cm_communities w)" "mb_community r = co_id c" "mb_user r = co_owner c"
    have "mb_role r = ''owner''"
      using member_ok_in[OF comm_ok_tables[OF w] r(1)] r key_inj[OF tables_okD(1)[OF comm_ok_tables[OF w]] _ r(2)]
      by (force simp: member_ok_def)
    then show "\<not> (mb_community r = i \<and> mb_user r = u \<and> mb_role r \<noteq> ''owner'')" by simp
  qed
  with w show ?thesis by (simp add: leave_community_def repo_leave_def)
qed

lemma create_community_ok:
  assumes "comm_ok w" "co_id c \<notin> co_id ` set (cm_communities w)"
  shows "comm_ok (fst (create_community w c))"
  using assms new_community_ok[OF comm_ok_tables[OF assms(1)] assms(2)]
    new_community_ok[OF comm_ok_tables[OF assms(1)], of "c\<lparr>co_type := ''public''\<rparr>"]
  by (auto simp: create_community_def repo_create_community_def Let_def)

text \<open>In the runs of the program the managers of a community are its owner alone.\<close>

lemma managerD:
  assumes "comm_ok w" "require_manager w i u = Inr x"
  obtains c where "c \<in> set (cm_communities w)" "co_id c = i" "co_owner c = u"
proof -
  obtain r where r: "r \<in> set (cm_members w)" "mb_community r = i" "mb_user r = u" "mb_role r \<in> {''owner'', ''moderator''}"
    using assms(2) by (auto simp: require_manager_def is_community_manager_def member_role_def find_Some_iff
        split: if_splits option.splits) (metis nth_mem)+
  then show thesis using member_ok_in[OF comm_ok_tables[OF assms(1)] r(1)] that by (auto simp: member_ok_def split: if_splits)
qed

lemma decide_request_ok:
  assumes "comm_ok w" "c \<in> set (cm_communities w)"
    and "\<And>q. q \<in> set (cm_requests w) \<Longrightarrow> cq_id q = rid \<Longrightarrow> cq_community q = co_id c"
  shows "comm_ok (fst (decide_request w now rid (co_owner c) approve))"
proof -
  let ?hit = "\<lambda>q. cq_id q = rid \<and> cq_status q = ReqPending"
  let ?f = "\<lambda>q. q\<lparr>cq_status := if approve then ReqApproved else ReqRejected, cq_decided_by := Some (co_owner c)\<rparr>"
  let ?Q = "upd ?hit ?f (cm_requests w)"
  note T = comm_ok_tables[OF assms(1)]
  have ok: "request_ok (cm_communities w) (?f q)" if q: "q \<in> set (cm_requests w)" "?hit q" for q
  proof -
    obtain d where d: "d \<in> set (cm_communities w)" "co_id d = cq_community q" "cq_invited_by q = None" "co_type d = ''approval''"
      using request_ok_in[OF T q(1)] q(2) by (auto simp: request_ok_def)
    have "d = c" using key_inj[OF tables_okD(1)[OF T] d(1) assms(2)] d(2) assms(3)[OF q(1)] q(2) by simp
    with d assms(2) show ?thesis by (auto simp: request_ok_def)
  qed
  have "tables_ok (cm_communities w) (cm_members w) ?Q"
  proof (rule requests_ok[OF T])
    show "distinct (map cq_id ?Q)" using tables_okD(3)[OF T] by (subst map_upd) auto
    show "list_all (request_ok (cm_communities w)) ?Q"
      using ok request_ok_in[OF T] by (auto simp: list_all_iff elim!: upd_memE)
  qed (auto intro!: earned_upd)
  then have upd: "comm_ok (w\<lparr>cm_requests := ?Q\<rparr>)" using assms(1) by (simp add: comm_ok_def)
  show ?thesis
  proof (cases "find ?hit (cm_requests w)")
    case None
    with assms(1) show ?thesis by (simp add: decide_request_def Let_def)
  next
    case (Some q)
    then have q: "q \<in> set (cm_requests w)" "?hit q" by (auto simp: find_Some_iff)
    have "comm_ok (add_member_row (cq_community q) (cq_user q) (w\<lparr>cm_requests := ?Q\<rparr>))" if approve
    proof -
      have "co_type c = ''approval''"
        using request_ok_in[OF T q(1)] q(2) key_inj[OF tables_okD(1)[OF T] _ assms(2)] assms(3)[OF q(1)]
        by (force simp: request_ok_def)
      moreover have "?f q \<in> set ?Q" using q by (auto simp: set_upd)
      ultimately have "earned ?Q c (cq_user q)" using that assms(3)[OF q(1)] q(2)
        by (auto simp: earned_def intro!: bexI[of _ "?f q"])
      then show ?thesis using add_member_row_ok[OF upd, of c "cq_user q"] assms(2) assms(3)[OF q(1)] q(2) by simp
    qed
    with upd Some show ?thesis by (cases approve) (simp_all add: decide_request_def Let_def)
  qed
qed

lemma respond_ok: "comm_ok w \<Longrightarrow> comm_ok (fst (respond_comm_request w now rid caller approve))"
proof (cases "get_comm_request w rid")
  case (Inl e)
  assume "comm_ok w"
  with Inl show ?thesis by (simp add: respond_comm_request_def)
next
  case (Inr q)
  assume w: "comm_ok w"
  have q: "q \<in> set (cm_requests w)" "cq_id q = rid"
    using Inr by (auto simp: get_comm_request_def find_Some_iff split: option.splits)
  show ?thesis
  proof (cases "require_manager w (cq_community q) caller")
    case (Inl e)
    with w Inr show ?thesis by (simp add: respond_comm_request_def)
  next
    case m: (Inr x)
    obtain c where c: "c \<in> set (cm_communities w)" "co_id c = cq_community q" "co_owner c = caller"
      using managerD[OF w m] .
    have "comm_ok (fst (decide_request w now rid caller approve))"
      using decide_request_ok[OF w c(1), of rid] key_inj[OF tables_okD(3)[OF comm_ok_tables[OF w]] _ q(1)] q(2) c by metis
    then show ?thesis using w Inr m
      by (auto simp: respond_comm_request_def split: prod.splits option.splits sum.splits)
  qed
qed

lemma invite_ok:
  assumes "comm_ok w" "new_id \<notin> cq_id ` set (cm_requests w)"
  shows "comm_ok (fst (invite_to_community w now new_id i caller u))"
proof (cases "require_manager w i caller")
  case (Inl e)
  with assms show ?thesis by (simp add: invite_to_community_def)
next
  case (Inr x)
  note T = comm_ok_tables[OF assms(1)]
  obtain c where c: "c \<in> set (cm_communities w)" "co_id c = i" "co_owner c = caller" using managerD[OF assms(1) Inr] .
  let ?q = "\<lparr>cq_id = new_id, cq_community = i, cq_user = u, cq_status = ReqApproved, cq_invited_by = Some caller,
    cq_decided_by = Some caller, cq_created = now\<rparr>"
  let ?mine = "\<lambda>q. cq_community q = i \<and> cq_user q = u"
  let ?f = "\<lambda>q. q\<lparr>cq_status := ReqApproved, cq_invited_by := Some caller, cq_decided_by := Some caller\<rparr>"
  have "request_ok (cm_communities w) ?q" using c by (auto simp: request_ok_def)
  then have new: "tables_ok (cm_communities w) (cm_members w) (cm_requests w @ [?q])"
    using assms(2) tables_okD(3,6)[OF T] by (intro requests_ok[OF T] earned_append) auto
  have "list_all (request_ok (cm_communities w)) (upd ?mine ?f (cm_requests w))"
    using request_ok_in[OF T] c by (auto simp: list_all_iff request_ok_def elim!: upd_memE)
  moreover have "distinct (map cq_id (upd ?mine ?f (cm_requests w)))" using tables_okD(3)[OF T] by (subst map_upd) auto
  ultimately have old: "tables_ok (cm_communities w) (cm_members w) (upd ?mine ?f (cm_requests w))"
    by (intro requests_ok[OF T]) (auto intro!: earned_upd)
  have "t_members (cm_db w) = map member_key (cm_members w)" using assms(1) by (simp add: comm_ok_def)
  with T new old Inr assms show ?thesis
    by (simp add: invite_to_community_def repo_invite_def Let_def enqueue_defs)
qed

lemma erase_ok: "comm_ok w \<Longrightarrow> comm_ok (erase_memberships u w)"
proof (cases "\<exists>c\<in>set (cm_communities w). co_owner c = u")
  case False
  assume w: "comm_ok w"
  note T = comm_ok_tables[OF w]
  let ?M = "filter (\<lambda>r. mb_user r \<noteq> u) (cm_members w)" and ?Q = "filter (\<lambda>q. cq_user q \<noteq> u) (cm_requests w)"
  have M: "tables_ok (cm_communities w) ?M (cm_requests w)" using False by (intro filter_members_ok[OF T]) auto
  have "tables_ok (cm_communities w) ?M ?Q"
  proof (rule requests_ok[OF M])
    show "distinct (map cq_id ?Q)" using tables_okD(3)[OF T] by (simp add: distinct_map_filter)
    show "list_all (request_ok (cm_communities w)) ?Q" using tables_okD(6)[OF T] by (auto simp: list_all_iff)
    show "earned ?Q c (mb_user r)" if "r \<in> set ?M" "earned (cm_requests w) c (mb_user r)" for c r
      using that by (auto simp: earned_def)
  qed
  with False show ?thesis by (simp add: erase_memberships_def)
qed (simp add: erase_memberships_def)

section \<open>Runs\<close>

text \<open>
  The operations of the package with arbitrary callers, times and fresh ids, erasures, and
  whatever the rest of the program does to its tables.
\<close>

inductive comm_step :: "comm_world \<Rightarrow> comm_world \<Rightarrow> bool" where
  created: "co_id c \<notin> co_id ` set (cm_communities w) \<Longrightarrow> create_community w c = (w', v) \<Longrightarrow> comm_step w w'"
| joined: "new_id \<notin> cq_id ` set (cm_requests w) \<Longrightarrow> join_community ent w now new_id i u = (w', m) \<Longrightarrow> comm_step w w'"
| left: "leave_community w i u = (w', r) \<Longrightarrow> comm_step w w'"
| responded: "respond_comm_request w now rid caller approve = (w', q) \<Longrightarrow> comm_step w w'"
| invited: "new_id \<notin> cq_id ` set (cm_requests w) \<Longrightarrow> invite_to_community w now new_id i caller u = (w', r)
    \<Longrightarrow> comm_step w w'"
| erased: "comm_step w (erase_memberships u w)"
| elsewhere: "t_members s = t_members (cm_db w) \<Longrightarrow> comm_step w (w\<lparr>cm_db := s\<rparr>)"

lemma comm_step_ok: "comm_step w w' \<Longrightarrow> comm_ok w \<Longrightarrow> comm_ok w'"
proof (induction rule: comm_step.induct)
  case (created c w w' v)
  then show ?case using create_community_ok[of w c] by simp
next
  case (joined new_id w ent now i u w' m)
  then show ?case using join_community_ok[of w new_id ent now i u] by simp
next
  case (left w i u w' r)
  then show ?case using leave_community_ok[of w i u] by simp
next
  case (responded w now rid caller approve w' q)
  then show ?case using respond_ok[of w now rid caller approve] by simp
next
  case (invited new_id w now i caller u w' r)
  then show ?case using invite_ok[of w new_id now i caller u] by simp
next
  case (erased w u)
  then show ?case by (rule erase_ok)
next
  case (elsewhere s w)
  then show ?case by (simp add: comm_ok_def)
qed

lemma comm_run_ok: "comm_step\<^sup>*\<^sup>* w w' \<Longrightarrow> comm_ok w \<Longrightarrow> comm_ok w'"
  by (induction rule: rtranclp_induct) (auto intro: comm_step_ok)

lemma empty_comm_ok: "comm_ok empty_comm"
  by (simp add: comm_ok_def tables_ok_def empty_comm_def empty_db_def)

text \<open>
  C28. Memberships are earned. In every run a community has a valid type, a paid one names
  its entitlement, and its owner is in it as its owner. Whoever else the booking and plan
  packages look up as a member is a plain member, and of an approval community only with
  a request its owner approved, of a private one only with its owner's invitation.
\<close>

theorem memberships_are_earned:
  assumes "comm_step\<^sup>*\<^sup>* empty_comm w" "c \<in> set (cm_communities w)" "(co_id c, u) \<in> set (t_members (cm_db w))"
  shows "co_type c \<in> valid_types \<and> \<not> (co_type c = ''paid'' \<and> co_entitlement c = None)
    \<and> member_role w (co_id c) (co_owner c) = ''owner''
    \<and> member_role w (co_id c) u = (if u = co_owner c then ''owner'' else ''member'')
    \<and> (u = co_owner c \<or> co_type c \<notin> {''approval'', ''private''}
       \<or> (\<exists>q\<in>set (cm_requests w). cq_community q = co_id c \<and> cq_user q = u \<and> cq_status q = ReqApproved
            \<and> cq_decided_by q = Some (co_owner c)
            \<and> cq_invited_by q \<in> (if co_type c = ''private'' then {Some (co_owner c)} else {None, Some (co_owner c)})))"
proof -
  have w: "comm_ok w" using comm_run_ok[OF assms(1) empty_comm_ok] .
  note T = comm_ok_tables[OF w]
  have same: "d = c" if "d \<in> set (cm_communities w)" "co_id d = co_id c" for d
    using key_inj[OF tables_okD(1)[OF T] that(1) assms(2) that(2)] .
  have role: "member_role w (co_id c) v = mb_role r" if "r \<in> set (cm_members w)" "member_key r = (co_id c, v)" for v r
    using find_key_unique[OF tables_okD(2)[OF T] that] by (simp add: member_role_def)
  obtain ro where ro: "ro \<in> set (cm_members w)" "member_key ro = (co_id c, co_owner c)"
    using community_ok_in[OF T assms(2)] by (auto simp: community_ok_def)
  have owner: "mb_role ro = ''owner''" using member_ok_in[OF T ro(1)] ro(2) same by (force simp: member_ok_def)
  obtain r where r: "r \<in> set (cm_members w)" "member_key r = (co_id c, u)"
    using assms(3) w by (auto simp: comm_ok_def)
  have m: "if u = co_owner c then mb_role r = ''owner'' else mb_role r = ''member'' \<and> earned (cm_requests w) c u"
  proof -
    obtain d where d: "d \<in> set (cm_communities w)" "co_id d = co_id c"
        "if u = co_owner d then mb_role r = ''owner'' else mb_role r = ''member'' \<and> earned (cm_requests w) d u"
      using member_ok_in[OF T r(1)] r(2) by (auto simp: member_ok_def)
    show ?thesis using d(3) unfolding same[OF d(1,2)] .
  qed
  have "\<exists>q\<in>set (cm_requests w). cq_community q = co_id c \<and> cq_user q = u \<and> cq_status q = ReqApproved
            \<and> cq_decided_by q = Some (co_owner c)
            \<and> cq_invited_by q \<in> (if co_type c = ''private'' then {Some (co_owner c)} else {None, Some (co_owner c)})"
    if "u \<noteq> co_owner c" "co_type c \<in> {''approval'', ''private''}"
  proof -
    note other = that
    obtain q where q: "q \<in> set (cm_requests w)" "cq_community q = co_id c" "cq_user q = u" "cq_status q = ReqApproved"
        "co_type c = ''private'' \<longrightarrow> cq_invited_by q \<noteq> None"
      using m other unfolding earned_def by (metis (no_types, lifting))
    obtain d where "d \<in> set (cm_communities w)" "co_id d = cq_community q" "cq_decided_by q \<noteq> None"
        "set_option (cq_decided_by q) \<union> set_option (cq_invited_by q) \<subseteq> {co_owner d}"
      using request_ok_in[OF T q(1)] q(4) by (auto simp: request_ok_def)
    with same q(2) have "cq_decided_by q = Some (co_owner c)" "cq_invited_by q \<in> {None, Some (co_owner c)}"
      by (cases "cq_invited_by q"; auto)+
    with q show ?thesis by (intro bexI[of _ q]) auto
  qed
  moreover have "co_type c \<in> valid_types" "\<not> (co_type c = ''paid'' \<and> co_entitlement c = None)"
    using community_ok_in[OF T assms(2)] by (auto simp: community_ok_def)
  ultimately show ?thesis using role[OF ro] owner role[OF r] m by (auto split: if_splits)
qed

definition sample_club :: community where
  "sample_club = \<lparr>co_id = ''c'', co_name = ''Chess'', co_desc = '''', co_city = None, co_owner = ''h'', co_type = ''approval'',
     co_cover = '''', co_rules = '''', co_category = None, co_entitlement = None\<rparr>"

text \<open>A club, somebody who asks to join it, and its owner's answer.\<close>

abbreviation club_1 :: comm_world where
  "club_1 \<equiv> fst (create_community empty_comm sample_club)"

abbreviation club_2 :: comm_world where
  "club_2 \<equiv> fst (join_community None club_1 5 ''q'' ''c'' ''v'')"

abbreviation club_3 :: comm_world where
  "club_3 \<equiv> fst (respond_comm_request club_2 6 ''q'' ''h'' True)"

lemmas club_eval = create_community_def repo_create_community_def sample_club_def empty_comm_def empty_db_def
  valid_types_def valid_media_url_def scan_community_def set_members_def join_community_def repo_get_community_def
  ask_to_join_def request_community_def comm_request_status_def member_role_def notify_def emit_def emit_allowed_def
  respond_comm_request_def get_comm_request_def require_manager_def is_community_manager_def decide_request_def
  add_member_row_def asked_event_def decision_event_def

lemma club_members: "t_members (cm_db club_3) = [(''c'', ''h''), (''c'', ''v'')]" "cm_communities club_3 = [sample_club]"
  "cm_requests club_1 = []"
  by (simp_all add: club_eval Let_def)

lemma memberships_are_earned_witness:
  "member_role club_3 ''c'' ''v'' = ''member'' \<and> member_role club_3 ''c'' ''h'' = ''owner''"
proof -
  have "comm_step empty_comm club_1"
    by (rule comm_step.created[of sample_club]) (simp_all add: empty_comm_def prod_eq_iff)
  moreover have "comm_step club_1 club_2"
    by (rule comm_step.joined[of "''q''"]) (simp_all add: club_members prod_eq_iff)
  moreover have "comm_step club_2 club_3" by (rule comm_step.responded) (simp add: prod_eq_iff)
  ultimately have "comm_step\<^sup>*\<^sup>* empty_comm club_3" by (meson r_into_rtranclp rtranclp_trans)
  from memberships_are_earned[OF this, of sample_club "''v''"] show ?thesis
    unfolding club_members by (simp add: sample_club_def)
qed

section \<open>Private communities\<close>

text \<open>The world in which the community never existed.\<close>

definition without_community :: "string \<Rightarrow> comm_world \<Rightarrow> comm_world" where
  "without_community i w = w\<lparr>cm_communities := filter (\<lambda>c. co_id c \<noteq> i) (cm_communities w)\<rparr>"

lemma without_community_fields [simp]:
  "cm_db (without_community i w) = cm_db w" "cm_members (without_community i w) = cm_members w"
  "cm_requests (without_community i w) = cm_requests w"
  "cm_communities (without_community i w) = filter (\<lambda>c. co_id c \<noteq> i) (cm_communities w)"
  by (simp_all add: without_community_def)

lemma without_community_reads [simp]:
  "member_role (without_community i w) j u = member_role w j u"
  "is_member_of (without_community i w) j u = is_member_of w j u"
  "scan_community (without_community i w) c = scan_community w c"
  "mark_membership (without_community i w) u vs = mark_membership w u vs"
  "require_manager (without_community i w) j u = require_manager w j u"
  "repo_list_requests (without_community i w) j st n = repo_list_requests w j st n"
  by (simp_all add: repo_list_requests_def member_role_def is_member_of_def scan_community_def mark_membership_def require_manager_def
      is_community_manager_def)

lemma list_plan_ids_without [simp]: "list_plan_ids (without_community i w) j b n = list_plan_ids w j b n"
  unfolding list_plan_ids_def without_community_fields by (rule refl)

text \<open>
  C29. A private community looks to somebody who is neither in it nor invited as if it did
  not exist: opening it, listing its plans, joining, leaving, listing its requests and
  inviting to it give the answers they give when it does not exist, and no listing differs.
\<close>

theorem private_community_looks_missing:
  assumes "distinct (map co_id (cm_communities w))" "c \<in> set (cm_communities w)" "co_id c = i" "co_type c = ''private''"
    and "\<not> is_member_of w i u" "\<not> has_approved_invite w i u"
  shows "get_community w i u = get_community (without_community i w) i u
    \<and> list_community_plans w i u = list_community_plans (without_community i w) i u
    \<and> snd (join_community ent w now k i u) = snd (join_community ent (without_community i w) now k i u)
    \<and> snd (leave_community w i u) = snd (leave_community (without_community i w) i u)
    \<and> list_comm_requests w i st u = list_comm_requests (without_community i w) i st u
    \<and> snd (invite_to_community w now k i u v) = snd (invite_to_community (without_community i w) now k i u v)
    \<and> list_communities w city cat q u mine = list_communities (without_community i w) city cat q u mine"
proof -
  have role: "member_role w i u = ''''"
    using assms(5) by (auto simp: member_role_def is_member_of_def find_Some_iff split: option.splits)
  have here: "repo_get_community w i = Inr (scan_community w c)"
    using find_key_unique[OF assms(1-3)] by (simp add: repo_get_community_def)
  have "find (\<lambda>c. co_id c = i) (filter (\<lambda>c. co_id c \<noteq> i) (cm_communities w)) = None" by (auto simp: find_None)
  then have there: "repo_get_community (without_community i w) i = Inl (Communities CommNotFound)"
    by (simp add: repo_get_community_def)
  have hidden: "visible_community w i u = visible_community (without_community i w) i u"
    using role assms(3,4,6) by (simp add: visible_community_def here there can_view_community_def scan_community_def)
  have refused: "snd (join_community ent w now k i u) = snd (join_community ent (without_community i w) now k i u)"
    using role assms(3,4,6) by (simp add: join_community_def here there scan_community_def Let_def)
  have strip: "filter P (cm_communities w) = filter P (filter (\<lambda>d. co_id d \<noteq> i) (cm_communities w))" if "\<not> P c" for P
  proof -
    have "co_id d \<noteq> i" if "d \<in> set (cm_communities w)" "P d" for d
      using key_inj[OF assms(1) that(1) assms(2)] assms(3) \<open>\<not> P c\<close> that(2) by auto
    then show ?thesis by (auto intro: filter_cong)
  qed
  have "repo_list_communities w city cat q u mine n = repo_list_communities (without_community i w) city cat q u mine n" for n
    unfolding repo_list_communities_def without_community_fields without_community_reads
    by (subst strip) (use assms(3-5) in simp_all)
  then have "list_communities w city cat q u mine = list_communities (without_community i w) city cat q u mine"
    by (simp add: list_communities_def)
  moreover have "get_community w i u = get_community (without_community i w) i u"
      "list_community_plans w i u = list_community_plans (without_community i w) i u"
    unfolding get_community_def list_community_plans_def hidden by (simp_all only: without_community_reads list_plan_ids_without)
  moreover have "list_comm_requests w i st u = list_comm_requests (without_community i w) i st u"
    by (cases "require_manager w i u") (simp_all add: list_comm_requests_def)
  moreover have "snd (invite_to_community w now k i u v) = snd (invite_to_community (without_community i w) now k i u v)"
    by (cases "require_manager w i u") (simp_all add: invite_to_community_def)
  moreover have "snd (leave_community w i u) = snd (leave_community (without_community i w) i u)"
    by (simp add: leave_community_def)
  ultimately show ?thesis using refused by blast
qed

lemma private_community_looks_missing_witness:
  "get_community (club_3\<lparr>cm_communities := [sample_club\<lparr>co_type := ''private''\<rparr>]\<rparr>) ''c'' ''x''
     = Inl (Communities CommNotFound)"
proof -
  let ?w = "club_3\<lparr>cm_communities := [sample_club\<lparr>co_type := ''private''\<rparr>]\<rparr>"
  have "\<not> is_member_of ?w ''c'' ''x''" "\<not> has_approved_invite ?w ''c'' ''x''"
    by (simp_all add: club_eval Let_def is_member_of_def has_approved_invite_def)
  from private_community_looks_missing[of ?w "sample_club\<lparr>co_type := ''private''\<rparr>", OF _ _ _ _ this]
  show ?thesis by (simp add: sample_club_def get_community_def visible_community_def repo_get_community_def)
qed

end
