(* ===== verification/Smart_Groups.thy ===== *)
theory Smart_Groups
  imports Chat
begin

text \<open>
  Smart groups (\<^verbatim>\<open>internal/smartgroups\<close>): the confirmed participants of a plan are dealt into
  balanced groups, each with a chat room of its own. Rooms come from the \<open>RoomCreator\<close> the
  package declares, stated here as a locale and provided by the chat.
\<close>

section \<open>Dealing (balance.go)\<close>

record participant =
  sp_user :: string
  sp_interests :: "string list"

fun deal :: "nat \<Rightarrow> nat \<Rightarrow> 'a list \<Rightarrow> 'a list list \<Rightarrow> 'a list list" where
  "deal n i [] groups = groups"
| "deal n i (p # ps) groups = deal n (Suc i) ps (groups[i mod n := groups ! (i mod n) @ [p]])"

text \<open>
  \<^verbatim>\<open>sort.Slice\<close> by the joined interests; it may order equal ones either way, and nothing below
  depends on it.
\<close>

definition build_groups :: "participant list \<Rightarrow> nat \<Rightarrow> participant list list" where
  "build_groups ps target =
    (if ps = [] \<or> target = 0 then []
     else let sorted = sort_key (\<lambda>p. join_with CHR '','' (sp_interests p)) ps;
              n = (length sorted + target - 1) div target;
              n = (if n < 1 then 1 else n)
          in deal n 0 sorted (replicate n []))"

section \<open>Repository\<close>

record group_row =
  pg_id :: string
  pg_plan :: string
  pg_room :: string
  pg_label :: string

record 'c groups_db =
  gd_groups :: "group_row list"
  gd_members :: "(string \<times> string) list"
  gd_rooms :: 'c

record smart_group =
  sg_id :: string
  sg_plan :: string
  sg_room :: string
  sg_label :: string
  sg_members :: "string list"

text \<open>Interests and preference tags come from profile tables: an argument, per user.\<close>

definition confirmed_with_interests :: "(string \<Rightarrow> string list) \<Rightarrow> db \<Rightarrow> string \<Rightarrow> participant list" where
  "confirmed_with_interests tags s plan =
     map (\<lambda>r. \<lparr>sp_user = pp_user r, sp_interests = tags (pp_user r)\<rparr>)
       (filter (\<lambda>r. pp_plan r = plan \<and> pp_status r = PartConfirmed) (t_participants s))"

definition is_confirmed_participant :: "db \<Rightarrow> string \<Rightarrow> string \<Rightarrow> bool" where
  "is_confirmed_participant s plan u \<longleftrightarrow>
     (\<exists>r\<in>set (t_participants s). pp_plan r = plan \<and> pp_user r = u \<and> pp_status r = PartConfirmed)"

text \<open>The unique indexes: one label per plan, one row per group and user.\<close>

definition create_group ::
  "'c groups_db \<Rightarrow> string \<Rightarrow> string \<Rightarrow> string \<Rightarrow> string \<Rightarrow> string list \<Rightarrow> ('c groups_db, string) outcome" where
  "create_group g gid plan room label users =
    in_tx g (if \<exists>r\<in>set (gd_groups g). pg_plan r = plan \<and> pg_label r = label then (g, Inl DB_UniqueViolation)
      else if \<not> distinct users then (g, Inl DB_UniqueViolation)
      else (g\<lparr>gd_groups := gd_groups g @ [\<lparr>pg_id = gid, pg_plan = plan, pg_room = room, pg_label = label\<rparr>],
              gd_members := gd_members g @ map (\<lambda>u. (gid, u)) users\<rparr>, Inr gid))"

text \<open>
  The rows of the join in the order of label and user, \<^verbatim>\<open>NULL\<close> users (groups without
  members) last, gathered by group in the order of their first row.
\<close>

definition group_rows :: "'c groups_db \<Rightarrow> string \<Rightarrow> (group_row \<times> string option) list" where
  "group_rows g plan =
    (let gs = filter (\<lambda>r. pg_plan r = plan) (gd_groups g);
         users = (\<lambda>r. map snd (filter (\<lambda>m. fst m = pg_id r) (gd_members g)))
     in sort_key (\<lambda>x. pg_label (fst x))
          (sort_key (\<lambda>x. coalesce (snd x)) (concat (map (\<lambda>r. map (\<lambda>u. (r, Some u)) (users r)) gs))
           @ map (\<lambda>r. (r, None)) (filter (\<lambda>r. users r = []) gs)))"

definition list_groups :: "'c groups_db \<Rightarrow> string \<Rightarrow> smart_group list" where
  "list_groups g plan =
    (let rows = group_rows g plan
     in map (\<lambda>i. let r = fst (hd (filter (\<lambda>x. pg_id (fst x) = i) rows))
          in \<lparr>sg_id = i, sg_plan = plan, sg_room = pg_room r, sg_label = pg_label r,
              sg_members = List.map_filter snd (filter (\<lambda>x. pg_id (fst x) = i) rows)\<rparr>)
        (rev (remdups (rev (map (\<lambda>x. pg_id (fst x)) rows)))))"

section \<open>Service\<close>

definition default_group_target_size :: nat where "default_group_target_size = 6"
definition max_groupable_participants :: nat where "max_groupable_participants = 60"

text \<open>\<^verbatim>\<open>fmt.Sprintf("Group %c", 'A'+i)\<close>\<close>

definition group_label :: "nat \<Rightarrow> string" where
  "group_label i = ''Group '' @ [char_of (65 + i)]"

type_synonym 'c creator = "string list \<Rightarrow> 'c \<Rightarrow> ('c, string) outcome"

fun make_groups ::
  "'c creator \<Rightarrow> (nat \<Rightarrow> string) \<Rightarrow> string \<Rightarrow> nat \<Rightarrow> participant list list \<Rightarrow> 'c groups_db
    \<Rightarrow> ('c groups_db, smart_group list) outcome" where
  "make_groups rooms gid plan i [] g = (g, Inr [])"
| "make_groups rooms gid plan i (cluster # rest) g =
    (let users = map sp_user cluster
     in case rooms users (gd_rooms g) of
          (c1, Inl e) \<Rightarrow> (g\<lparr>gd_rooms := c1\<rparr>, Inl e)
        | (c1, Inr room) \<Rightarrow>
            and_then (create_group (g\<lparr>gd_rooms := c1\<rparr>) (gid i) plan room (group_label i) users) (\<lambda>k g1.
              and_then (make_groups rooms gid plan (Suc i) rest g1) (\<lambda>out g2.
                (g2, Inr (\<lparr>sg_id = k, sg_plan = plan, sg_room = room, sg_label = group_label i,
                           sg_members = users\<rparr> # out)))))"

definition generate_smart_groups ::
  "(string \<Rightarrow> go_error + string) \<Rightarrow> 'c creator \<Rightarrow> (string \<Rightarrow> string list) \<Rightarrow> db \<Rightarrow> 'c groups_db \<Rightarrow> (nat \<Rightarrow> string)
    \<Rightarrow> string \<Rightarrow> string \<Rightarrow> string \<Rightarrow> ('c groups_db, smart_group list) outcome" where
  "generate_smart_groups hosts rooms tags s g gid plan caller role =
    (if plan = '''' \<or> caller = '''' then (g, Inl (Smart_Groups GroupsInvalidInput))
     else case hosts plan of
       Inl e \<Rightarrow> (g, Inl e)
     | Inr host \<Rightarrow>
         if host \<noteq> caller \<and> \<not> is_admin_role role then (g, Inl (Smart_Groups GroupsForbidden))
         else if list_groups g plan \<noteq> [] then (g, Inr (list_groups g plan))
         else let ps = confirmed_with_interests tags s plan
           in if max_groupable_participants < length ps then (g, Inl (Smart_Groups GroupsTooManyPeople))
              else make_groups rooms gid plan 0 (build_groups ps default_group_target_size) g)"

definition list_smart_groups ::
  "(string \<Rightarrow> go_error + string) \<Rightarrow> db \<Rightarrow> 'c groups_db \<Rightarrow> string \<Rightarrow> string \<Rightarrow> string \<Rightarrow> go_error + smart_group list" where
  "list_smart_groups hosts s g plan caller role =
    (if plan = '''' \<or> caller = '''' then Inl (Smart_Groups GroupsInvalidInput)
     else case hosts plan of
       Inl e \<Rightarrow> Inl e
     | Inr host \<Rightarrow>
         if host \<noteq> caller \<and> \<not> is_admin_role role \<and> \<not> is_confirmed_participant s plan caller
         then Inl (Smart_Groups GroupsForbidden) else Inr (list_groups g plan))"

section \<open>Groups are balanced\<close>

lemma length_deal [simp]: "length (deal n i ps groups) = length groups"
  by (induction ps arbitrary: i groups) simp_all

lemma mset_concat_update:
  "k < length xss \<Longrightarrow> mset (concat (xss[k := xss ! k @ [x]])) = add_mset x (mset (concat xss))"
  by (induction xss arbitrary: k) (auto split: nat.splits)

lemma mset_deal:
  "length groups = n \<Longrightarrow> 0 < n \<Longrightarrow> mset (concat (deal n i ps groups)) = mset (concat groups) + mset ps"
proof (induction ps arbitrary: i groups)
  case (Cons p ps)
  then show ?case
    using Cons.IH[of "groups[i mod n := groups ! (i mod n) @ [p]]" "Suc i"]
      mset_concat_update[of "i mod n" groups p] by simp
qed simp

text \<open>After \<open>i\<close> participants, group \<open>k\<close> of \<open>n\<close> holds \<open>(i + n - 1 - k) div n\<close> of them.\<close>

lemma share_step:
  assumes "k < n"
  shows "(Suc i + n - 1 - k) div n = (i + n - 1 - k) div n + (if i mod n = k then 1 else (0::nat))"
proof -
  define a where "a = i + n - 1 - k"
  have a: "Suc a = i + (n - k)" "Suc i + n - 1 - k = Suc a" using assms by (simp_all add: a_def)
  have n: "0 < n" using assms by simp
  have "Suc a mod n = (i mod n + (n - k)) mod n" by (simp add: a mod_add_left_eq)
  also have "\<dots> = 0 \<longleftrightarrow> i mod n = k"
  proof (cases "i mod n < k")
    case True
    then have "i mod n + (n - k) < n" "0 < i mod n + (n - k)" using assms by simp_all
    then show ?thesis using True assms by simp
  next
    case False
    then have "(i mod n + (n - k)) = n + (i mod n - k)" using assms by simp
    moreover have "i mod n - k < n" using n by (simp add: less_imp_diff_less)
    ultimately show ?thesis using False by (simp only: mod_add_self1) simp
  qed
  finally have "Suc a mod n = 0 \<longleftrightarrow> i mod n = k" .
  then show ?thesis unfolding a(2) a_def[symmetric] by (simp add: div_Suc)
qed

lemma length_dealt:
  assumes "length groups = n" "0 < n" "\<And>k. k < n \<Longrightarrow> length (groups ! k) = (i + n - 1 - k) div n" "k < n"
  shows "length (deal n i ps groups ! k) = (i + length ps + n - 1 - k) div n"
  using assms
proof (induction ps arbitrary: i groups)
  case (Cons p ps)
  let ?g = "groups[i mod n := groups ! (i mod n) @ [p]]"
  have "length (?g ! j) = (Suc i + n - 1 - j) div n" if "j < n" for j
    using that Cons.prems(1,2) Cons.prems(3)[OF that] share_step[OF that, of i] by (simp add: nth_list_update)
  then have "length (deal n (Suc i) ps ?g ! k) = (Suc i + length ps + n - 1 - k) div n"
    using Cons.prems by (intro Cons.IH) simp_all
  then show ?case by simp
qed simp

lemma build_groups_balanced:
  assumes "ps \<noteq> []" "0 < target"
  shows "length (build_groups ps target) = (length ps + target - 1) div target"
    "mset (concat (build_groups ps target)) = mset ps"
    "\<And>g. g \<in> set (build_groups ps target) \<Longrightarrow> g \<noteq> [] \<and> length g \<le> target
       \<and> length g - 1 \<le> length ps div length (build_groups ps target)
       \<and> length ps div length (build_groups ps target) \<le> length g"
proof -
  define n where "n = (length ps + target - 1) div target"
  have "target \<le> length ps + target - 1" using assms by (cases ps) simp_all
  then have n: "0 < n" unfolding n_def using assms(2) by (simp add: div_greater_zero_iff)
  have bg: "build_groups ps target = deal n 0 (sort_key (\<lambda>p. join_with CHR '','' (sp_interests p)) ps) (replicate n [])"
    using assms n by (simp add: build_groups_def n_def Let_def)
  show len: "length (build_groups ps target) = (length ps + target - 1) div target" by (simp add: bg n_def)
  show "mset (concat (build_groups ps target)) = mset ps" using n by (simp add: bg mset_deal)
  have enough: "length ps \<le> n * target"
  proof -
    have "length ps + target - 1 = n * target + (length ps + target - 1) mod target" by (simp add: n_def)
    moreover have "(length ps + target - 1) mod target < target" using assms(2) by simp
    ultimately show ?thesis by linarith
  qed
  have few: "n \<le> length ps"
  proof -
    have "n * target \<le> length ps + target - 1" by (simp add: n_def)
    moreover have "1 \<le> length ps" using assms(1) by (cases ps) simp_all
    moreover have "length ps * target = length ps + length ps * (target - 1)" using assms(2) by (cases target) simp_all
    moreover have "target - 1 \<le> length ps * (target - 1)" using \<open>1 \<le> length ps\<close> by simp
    ultimately have "n * target \<le> length ps * target" using assms(2) by linarith
    then show ?thesis using assms(2) by simp
  qed
  fix g assume "g \<in> set (build_groups ps target)"
  then obtain k where k: "k < n" "g = build_groups ps target ! k" using len by (auto simp: in_set_conv_nth n_def)
  have g: "length g = (length ps + n - 1 - k) div n"
    using length_dealt[of "replicate n []" n 0 k "sort_key (\<lambda>p. join_with CHR '','' (sp_interests p)) ps"] n k by (simp add: bg)
  have lo: "length ps div n \<le> length g" unfolding g using k(1) by (intro div_le_mono) simp
  have "1 \<le> length ps div n" using few n by (simp add: Suc_le_eq div_greater_zero_iff)
  with lo have "g \<noteq> []" by auto
  moreover have "length g \<le> length ps div n + 1"
  proof -
    have "length g \<le> (length ps + n) div n" unfolding g by (intro div_le_mono) simp
    then show ?thesis using n by simp
  qed
  moreover have "length g \<le> target"
  proof -
    have "length g \<le> (n * target + n - 1) div n" unfolding g using enough by (intro div_le_mono) simp
    also have "\<dots> < target + 1" using n by (subst less_mult_imp_div_less[where n = n]) (simp_all add: algebra_simps)
    finally show ?thesis by simp
  qed
  ultimately show "g \<noteq> [] \<and> length g \<le> target \<and> length g - 1 \<le> length ps div length (build_groups ps target)
       \<and> length ps div length (build_groups ps target) \<le> length g"
    unfolding len n_def[symmetric] using lo by simp
qed

section \<open>The room creator\<close>

text \<open>
  What the package relies on: a room is made for any nonempty list of people, nobody was in
  it before, exactly these people are in it after, and no other room changes.
\<close>

locale room_creator =
  fixes create :: "string list \<Rightarrow> 'c \<Rightarrow> ('c, string) outcome"
    and inside :: "'c \<Rightarrow> string \<Rightarrow> string set"
  assumes creates: "us \<noteq> [] \<Longrightarrow> \<exists>c' room. create us c = (c', Inr room) \<and> inside c room = {} \<and> inside c' room = set us
    \<and> (\<forall>k. k \<noteq> room \<longrightarrow> inside c' k = inside c k)"
begin

lemma make_groups_rooms:
  assumes "\<And>cl. cl \<in> set clusters \<Longrightarrow> cl \<noteq> []" "distinct (map sp_user (concat clusters))" "i + length clusters \<le> 26"
    and "\<And>r j. r \<in> set (gd_groups g) \<Longrightarrow> pg_plan r = plan \<Longrightarrow> i \<le> j \<Longrightarrow> j < 26 \<Longrightarrow> pg_label r \<noteq> group_label j"
  shows "\<exists>g' out. make_groups create gid plan i clusters g = (g', Inr out) \<and> map sg_members out = map (map sp_user) clusters
    \<and> map sg_id out = map gid [i..<i + length clusters]
    \<and> gd_groups g' = gd_groups g @ map (\<lambda>x. \<lparr>pg_id = sg_id x, pg_plan = plan, pg_room = sg_room x, pg_label = sg_label x\<rparr>) out
    \<and> gd_members g' = gd_members g @ concat (map (\<lambda>x. map (\<lambda>u. (sg_id x, u)) (sg_members x)) out)
    \<and> (\<forall>x\<in>set out. inside (gd_rooms g') (sg_room x) = set (sg_members x))
    \<and> (\<forall>k. inside (gd_rooms g) k \<noteq> {} \<longrightarrow> inside (gd_rooms g') k = inside (gd_rooms g) k)"
  using assms
proof (induction clusters arbitrary: i g)
  case (Cons cl rest)
  let ?us = "map sp_user cl"
  obtain c1 room where c: "create ?us (gd_rooms g) = (c1, Inr room)" "inside (gd_rooms g) room = {}" "inside c1 room = set ?us"
      "\<And>k. k \<noteq> room \<Longrightarrow> inside c1 k = inside (gd_rooms g) k"
    using creates[of ?us "gd_rooms g"] Cons.prems(1) by fastforce
  let ?row = "\<lparr>pg_id = gid i, pg_plan = plan, pg_room = room, pg_label = group_label i\<rparr>"
  let ?g = "g\<lparr>gd_rooms := c1, gd_groups := gd_groups g @ [?row], gd_members := gd_members g @ map (\<lambda>u. (gid i, u)) ?us\<rparr>"
  have "\<not> (\<exists>r\<in>set (gd_groups g). pg_plan r = plan \<and> pg_label r = group_label i)" "distinct ?us"
    using Cons.prems(2-4) by (auto simp: distinct_map)
  then have made: "create_group (g\<lparr>gd_rooms := c1\<rparr>) (gid i) plan room (group_label i) ?us = (?g, Inr (gid i))"
    by (simp add: create_group_def)
  have labels: "group_label j \<noteq> group_label i" if "i < j" "j < 26" for j
    using that by (simp add: group_label_def char_of_eq_iff[symmetric])
  have "\<exists>g' out. make_groups create gid plan (Suc i) rest ?g = (g', Inr out) \<and> map sg_members out = map (map sp_user) rest
    \<and> map sg_id out = map gid [Suc i..<Suc i + length rest]
    \<and> gd_groups g' = gd_groups ?g @ map (\<lambda>x. \<lparr>pg_id = sg_id x, pg_plan = plan, pg_room = sg_room x, pg_label = sg_label x\<rparr>) out
    \<and> gd_members g' = gd_members ?g @ concat (map (\<lambda>x. map (\<lambda>u. (sg_id x, u)) (sg_members x)) out)
    \<and> (\<forall>x\<in>set out. inside (gd_rooms g') (sg_room x) = set (sg_members x))
    \<and> (\<forall>k. inside (gd_rooms ?g) k \<noteq> {} \<longrightarrow> inside (gd_rooms g') k = inside (gd_rooms ?g) k)"
  proof (rule Cons.IH)
    show "pg_label r \<noteq> group_label j" if "r \<in> set (gd_groups ?g)" "pg_plan r = plan" "Suc i \<le> j" "j < 26" for r j
      using that Cons.prems(4)[of r j] labels[of j] by (cases "r = ?row") simp_all
  qed (use Cons.prems in auto)
  then obtain g' out where rest: "make_groups create gid plan (Suc i) rest ?g = (g', Inr out)"
      "map sg_members out = map (map sp_user) rest" "map sg_id out = map gid [Suc i..<Suc i + length rest]"
      "gd_groups g' = gd_groups ?g @ map (\<lambda>x. \<lparr>pg_id = sg_id x, pg_plan = plan, pg_room = sg_room x, pg_label = sg_label x\<rparr>) out"
      "gd_members g' = gd_members ?g @ concat (map (\<lambda>x. map (\<lambda>u. (sg_id x, u)) (sg_members x)) out)"
      "\<forall>x\<in>set out. inside (gd_rooms g') (sg_room x) = set (sg_members x)"
      "\<And>k. inside c1 k \<noteq> {} \<Longrightarrow> inside (gd_rooms g') k = inside c1 k"
    by auto
  have "inside c1 room \<noteq> {}" using c(3) Cons.prems(1) by simp
  then have "inside (gd_rooms g') room = set ?us" using rest(7) c(3) by simp
  moreover have "inside (gd_rooms g') k = inside (gd_rooms g) k" if "inside (gd_rooms g) k \<noteq> {}" for k
    using that c(2) c(4)[of k] rest(7)[of k] by (cases "k = room") auto
  moreover have "make_groups create gid plan i (cl # rest) g
      = (g', Inr (\<lparr>sg_id = gid i, sg_plan = plan, sg_room = room, sg_label = group_label i, sg_members = ?us\<rparr> # out))"
    using made rest(1) by (simp add: c(1) Let_def)
  ultimately show ?case using rest(2-6) by (auto simp: upt_rec[of i])
qed simp

end

text \<open>The chat provides it, with ids no room and no member uses yet.\<close>

definition fresh_room :: "chat_db \<Rightarrow> string" where
  "fresh_room c = replicate (Suc (sum_list (map (\<lambda>r. length (cr_id r)) (ch_rooms c))
     + sum_list (map (\<lambda>m. length (cm_room m)) (ch_members c)))) CHR ''r''"

definition chat_creator :: "int \<Rightarrow> chat_db creator" where
  "chat_creator now us c = create_ad_hoc_room_with_members c now (fresh_room c) us"

definition chat_inside :: "chat_db \<Rightarrow> string \<Rightarrow> string set" where
  "chat_inside c room = {u. is_member c room u}"

lemma fresh_room_new: "\<not> is_member c (fresh_room c) u"
proof
  assume "is_member c (fresh_room c) u"
  then obtain m where m: "m \<in> set (ch_members c)" "cm_room m = fresh_room c" by (auto simp: is_member_def)
  from m(1) have "length (cm_room m) \<le> sum_list (map (\<lambda>m. length (cm_room m)) (ch_members c))"
    by (intro member_le_sum_list) simp_all
  with m(2) show False by (simp add: fresh_room_def)
qed

lemma is_member_add_all:
  "is_member (fold (\<lambda>v c. add_member c now room v) vs c) k u \<longleftrightarrow> is_member c k u \<or> (k = room \<and> u \<in> set vs)"
  by (induction vs arbitrary: c) (auto simp: is_member_add)

lemma create_ad_hoc_members:
  assumes "us \<noteq> []" "create_ad_hoc_room_with_members c now nid us = (c', r)"
  shows "r = Inr nid" "is_member c' k u \<longleftrightarrow> is_member c k u \<or> (k = nid \<and> u \<in> set us)"
proof -
  show "r = Inr nid" using assms by (auto simp: create_ad_hoc_room_with_members_def create_ad_hoc_room_def)
  have "is_member c' k u \<longleftrightarrow> is_member (fst (create_ad_hoc_room c now nid)) k u \<or> (k = nid \<and> u \<in> set us)"
    using assms by (auto simp: create_ad_hoc_room_with_members_def create_ad_hoc_room_def is_member_add_all)
  then show "is_member c' k u \<longleftrightarrow> is_member c k u \<or> (k = nid \<and> u \<in> set us)"
    by (simp add: create_ad_hoc_room_def is_member_def)
qed

interpretation chat_rooms: room_creator "chat_creator now" chat_inside
proof
  fix us :: "string list" and c :: chat_db
  assume us: "us \<noteq> []"
  obtain c' r where c: "create_ad_hoc_room_with_members c now (fresh_room c) us = (c', r)" by fastforce
  note facts = create_ad_hoc_members[OF us c]
  show "\<exists>c' room. chat_creator now us c = (c', Inr room) \<and> chat_inside c room = {}
      \<and> chat_inside c' room = set us \<and> (\<forall>k. k \<noteq> room \<longrightarrow> chat_inside c' k = chat_inside c k)"
    using c facts fresh_room_new[of c] by (auto simp: chat_inside_def chat_creator_def)
qed

section \<open>What the plan sees\<close>

lemma group_rows_set:
  "set (group_rows g plan) = {(r, Some u) | r u. r \<in> set (gd_groups g) \<and> pg_plan r = plan \<and> (pg_id r, u) \<in> set (gd_members g)}
     \<union> {(r, None) | r. r \<in> set (gd_groups g) \<and> pg_plan r = plan \<and> (\<forall>u. (pg_id r, u) \<notin> set (gd_members g))}"
  by (force simp: group_rows_def Let_def filter_empty_conv)

lemma group_rows_groups: "(\<exists>u. (r, u) \<in> set (group_rows g plan)) \<longleftrightarrow> r \<in> set (gd_groups g) \<and> pg_plan r = plan"
  unfolding group_rows_set by blast

lemma list_groups_empty: "list_groups g plan = [] \<longleftrightarrow> (\<forall>r\<in>set (gd_groups g). pg_plan r \<noteq> plan)"
proof -
  have "list_groups g plan = [] \<longleftrightarrow> set (group_rows g plan) = {}" by (simp add: list_groups_def Let_def)
  also have "\<dots> \<longleftrightarrow> (\<forall>r\<in>set (gd_groups g). pg_plan r \<noteq> plan)"
  proof -
    have "set (group_rows g plan) = {} \<longleftrightarrow> (\<forall>r. \<not> (\<exists>u. (r, u) \<in> set (group_rows g plan)))"
      by (metis all_not_in_conv surj_pair)
    then show ?thesis unfolding group_rows_groups by blast
  qed
  finally show ?thesis .
qed

lemma list_groups_shows:
  assumes "distinct (map pg_id (gd_groups g))"
  shows "(\<lambda>x. (sg_id x, sg_room x, sg_label x, set (sg_members x))) ` set (list_groups g plan)
    = (\<lambda>r. (pg_id r, pg_room r, pg_label r, {u. (pg_id r, u) \<in> set (gd_members g)}))
        ` {r \<in> set (gd_groups g). pg_plan r = plan}"
proof -
  define rows where "rows = group_rows g plan"
  define shown where "shown i = (let r = fst (hd (filter (\<lambda>x. pg_id (fst x) = i) rows))
     in \<lparr>sg_id = i, sg_plan = plan, sg_room = pg_room r, sg_label = pg_label r,
         sg_members = List.map_filter snd (filter (\<lambda>x. pg_id (fst x) = i) rows)\<rparr>)" for i
  have ids: "set (list_groups g plan) = shown ` pg_id ` {r \<in> set (gd_groups g). pg_plan r = plan}"
  proof -
    have "(\<lambda>x. pg_id (fst x)) ` set rows = pg_id ` {r \<in> set (gd_groups g). pg_plan r = plan}"
      using group_rows_groups[of _ g plan] unfolding rows_def by (force simp: image_iff)
    then show ?thesis by (simp add: list_groups_def Let_def rows_def[symmetric] shown_def[unfolded Let_def] image_image[symmetric])
  qed
  have "(sg_id (shown (pg_id r)), sg_room (shown (pg_id r)), sg_label (shown (pg_id r)), set (sg_members (shown (pg_id r))))
      = (pg_id r, pg_room r, pg_label r, {u. (pg_id r, u) \<in> set (gd_members g)})"
    if r: "r \<in> set (gd_groups g)" "pg_plan r = plan" for r
  proof -
    let ?mine = "filter (\<lambda>x. pg_id (fst x) = pg_id r) rows"
    have same: "fst x = r" if "x \<in> set ?mine" for x
    proof -
      have x: "(fst x, snd x) \<in> set (group_rows g plan)" "pg_id (fst x) = pg_id r" using that by (simp_all add: rows_def)
      then have "fst x \<in> set (gd_groups g)" using group_rows_groups[of "fst x" g plan] by blast
      then show ?thesis using key_inj[OF assms _ r(1) x(2)] by simp
    qed
    obtain u where "(r, u) \<in> set rows" using group_rows_groups[of r g plan] r unfolding rows_def by blast
    then have "(r, u) \<in> set ?mine" by simp
    then have "?mine \<noteq> []" by (metis empty_iff list.set(1))
    then have hd: "fst (hd ?mine) = r" by (rule same[OF hd_in_set])
    have "set (List.map_filter snd ?mine) = {u. (r, Some u) \<in> set rows}"
    proof -
      have "x \<in> set ?mine \<longleftrightarrow> x \<in> set rows \<and> fst x = r" for x using same[of x] by auto
      then show ?thesis by (simp only: List.map_filter_def set_map set_filter) force
    qed
    also have "\<dots> = {u. (pg_id r, u) \<in> set (gd_members g)}" using r by (auto simp: rows_def group_rows_set)
    finally show ?thesis by (simp add: shown_def Let_def hd)
  qed
  then show ?thesis unfolding ids by (simp add: image_image)
qed

lemma listed_groups:
  assumes "gd_groups g' = gd_groups g
        @ map (\<lambda>x. \<lparr>pg_id = sg_id x, pg_plan = plan, pg_room = sg_room x, pg_label = sg_label x\<rparr>) out"
    and "gd_members g' = gd_members g @ concat (map (\<lambda>x. map (\<lambda>u. (sg_id x, u)) (sg_members x)) out)"
    and "\<forall>r\<in>set (gd_groups g). pg_plan r \<noteq> plan" "distinct (map pg_id (gd_groups g))" "distinct (map sg_id out)"
    and "sg_id ` set out \<inter> pg_id ` set (gd_groups g) = {}" "sg_id ` set out \<inter> fst ` set (gd_members g) = {}"
  shows "(\<lambda>x. (sg_id x, sg_room x, sg_label x, set (sg_members x))) ` set (list_groups g' plan)
      = (\<lambda>x. (sg_id x, sg_room x, sg_label x, set (sg_members x))) ` set out"
proof -
  have "distinct (map pg_id (gd_groups g'))" using assms(4,5,6) by (auto simp: assms(1) comp_def)
  note seen = list_groups_shows[OF this, of plan]
  have "{u. (sg_id x, u) \<in> set (gd_members g')} = set (sg_members x)" if x: "x \<in> set out" for x
  proof -
    have one: "y = x" if "y \<in> set out" "sg_id y = sg_id x" for y using key_inj[OF assms(5) that(1) x that(2)] .
    have "(sg_id x, u) \<notin> set (gd_members g)" for u using x assms(7) by force
    then have "(sg_id x, u) \<in> set (gd_members g') \<longleftrightarrow> (\<exists>y\<in>set out. sg_id x = sg_id y \<and> u \<in> set (sg_members y))" for u
      unfolding assms(2) by (auto simp: image_iff)
    moreover have "(\<exists>y\<in>set out. sg_id x = sg_id y \<and> u \<in> set (sg_members y)) \<longleftrightarrow> u \<in> set (sg_members x)" for u
      using one x by metis
    ultimately show ?thesis by simp
  qed
  moreover have "{r \<in> set (gd_groups g'). pg_plan r = plan}
      = (\<lambda>x. \<lparr>pg_id = sg_id x, pg_plan = plan, pg_room = sg_room x, pg_label = sg_label x\<rparr>) ` set out"
    using assms(3) by (auto simp: assms(1))
  ultimately show ?thesis unfolding seen by (simp add: image_image)
qed

lemma member_sizes:
  assumes "map sg_members out = map (map sp_user) gs" "x \<in> set out"
    and "\<And>c. c \<in> set gs \<Longrightarrow> P (length c)"
  shows "P (length (sg_members x))"
proof -
  have "sg_members x \<in> set (map (map sp_user) gs)" using assms(1,2) by (metis image_eqI list.set_map)
  with assms(3) show ?thesis by auto
qed

text \<open>
  C30. Generating smart groups for a plan with confirmed participants partitions them: as
  many groups as six to a group need, none empty, none of more than six, sizes at most one
  apart, everybody in exactly one, and the chat room of each group has exactly its people
  in it. Every listing afterwards shows these groups, and generating again changes nothing.
\<close>

theorem smart_groups_partition:
  assumes "plan \<noteq> ''''" "caller \<noteq> ''''" "hosts plan = Inr host" "host = caller \<or> is_admin_role role"
    and "\<forall>r\<in>set (gd_groups g). pg_plan r \<noteq> plan" "distinct (map pg_id (gd_groups g))"
    and "ps = confirmed_with_interests tags s plan" "distinct (map sp_user ps)" "ps \<noteq> []" "length ps \<le> 60"
    and "inj gid" "range gid \<inter> pg_id ` set (gd_groups g) = {}" "range gid \<inter> fst ` set (gd_members g) = {}"
  shows "\<exists>g' out. generate_smart_groups hosts (chat_creator now) tags s g gid plan caller role = (g', Inr out)
    \<and> mset (concat (map sg_members out)) = mset (map sp_user ps) \<and> length out = (length ps + 5) div 6
    \<and> (\<forall>x\<in>set out. sg_members x \<noteq> [] \<and> length (sg_members x) \<le> 6
         \<and> chat_inside (gd_rooms g') (sg_room x) = set (sg_members x)
         \<and> (\<forall>y\<in>set out. length (sg_members x) \<le> length (sg_members y) + 1))
    \<and> (\<lambda>x. (sg_id x, sg_room x, sg_label x, set (sg_members x))) ` set (list_groups g' plan)
        = (\<lambda>x. (sg_id x, sg_room x, sg_label x, set (sg_members x))) ` set out
    \<and> generate_smart_groups hosts (chat_creator now) tags s g' gid plan caller role = (g', Inr (list_groups g' plan))"
proof -
  define gs where "gs = build_groups ps 6"
  note bal = build_groups_balanced[OF assms(9), of 6, folded gs_def]
  have n: "length gs = (length ps + 5) div 6" "length gs \<le> 10" using bal(1) assms(10) by simp_all
  have all: "mset (map sp_user (concat gs)) = mset (map sp_user ps)"
    using arg_cong[OF bal(2), of "image_mset sp_user"] by simp
  then have dist: "distinct (map sp_user (concat gs))" using assms(8) mset_eq_imp_distinct_iff[OF all] by simp
  have "\<exists>g' out. make_groups (chat_creator now) gid plan 0 gs g = (g', Inr out) \<and> map sg_members out = map (map sp_user) gs
    \<and> map sg_id out = map gid [0..<0 + length gs]
    \<and> gd_groups g' = gd_groups g @ map (\<lambda>x. \<lparr>pg_id = sg_id x, pg_plan = plan, pg_room = sg_room x, pg_label = sg_label x\<rparr>) out
    \<and> gd_members g' = gd_members g @ concat (map (\<lambda>x. map (\<lambda>u. (sg_id x, u)) (sg_members x)) out)
    \<and> (\<forall>x\<in>set out. chat_inside (gd_rooms g') (sg_room x) = set (sg_members x))
    \<and> (\<forall>k. chat_inside (gd_rooms g) k \<noteq> {} \<longrightarrow> chat_inside (gd_rooms g') k = chat_inside (gd_rooms g) k)"
    using bal(3) dist n(2) assms(5) by (intro chat_rooms.make_groups_rooms) simp_all
  then obtain g' out where g': "make_groups (chat_creator now) gid plan 0 gs g = (g', Inr out)" "map sg_members out = map (map sp_user) gs"
      "map sg_id out = map gid [0..<length gs]"
      "gd_groups g' = gd_groups g @ map (\<lambda>x. \<lparr>pg_id = sg_id x, pg_plan = plan, pg_room = sg_room x, pg_label = sg_label x\<rparr>) out"
      "gd_members g' = gd_members g @ concat (map (\<lambda>x. map (\<lambda>u. (sg_id x, u)) (sg_members x)) out)"
      "\<forall>x\<in>set out. chat_inside (gd_rooms g') (sg_room x) = set (sg_members x)"
    by auto
  have len: "length out = length gs" using arg_cong[OF g'(2), of length] by simp
  have sizes: "sg_members x \<noteq> [] \<and> length (sg_members x) \<le> 6 \<and> length (sg_members x) - 1 \<le> length ps div length gs
      \<and> length ps div length gs \<le> length (sg_members x)" if "x \<in> set out" for x
    using member_sizes[OF g'(2) that, of "\<lambda>n. n \<noteq> 0 \<and> n \<le> 6 \<and> n - 1 \<le> length ps div length gs \<and> length ps div length gs \<le> n"] bal(3)
    by simp
  have some: "gs \<noteq> []" using n(1) assms(9) by (cases ps) auto
  have empty: "list_groups g plan = []" using assms(5) by (simp add: list_groups_empty)
  have gen: "generate_smart_groups hosts (chat_creator now) tags s g gid plan caller role = (g', Inr out)"
    using assms(1-4,7,10) empty g'(1)
    by (simp add: generate_smart_groups_def default_group_target_size_def max_groupable_participants_def gs_def Let_def)
  have "out \<noteq> []" using len some by auto
  then have "\<exists>r\<in>set (gd_groups g'). pg_plan r = plan" by (cases out) (auto simp: g'(4))
  then have "list_groups g' plan \<noteq> []" unfolding list_groups_empty by blast
  then have again: "generate_smart_groups hosts (chat_creator now) tags s g' gid plan caller role = (g', Inr (list_groups g' plan))"
    using assms(1-4) by (simp add: generate_smart_groups_def)
  have ids: "distinct (map sg_id out)" using assms(11) by (simp add: g'(3) distinct_map inj_on_def)
  have new: "sg_id ` set out \<subseteq> range gid" using arg_cong[OF g'(3), of set] by auto
  have listed: "(\<lambda>x. (sg_id x, sg_room x, sg_label x, set (sg_members x))) ` set (list_groups g' plan)
      = (\<lambda>x. (sg_id x, sg_room x, sg_label x, set (sg_members x))) ` set out"
    by (rule listed_groups[OF g'(4,5) assms(5,6) ids]) (use new assms(12,13) in blast)+
  have placed: "mset (concat (map sg_members out)) = mset (map sp_user ps)"
    unfolding g'(2) using all by (simp add: map_concat)
  have "length (sg_members x) \<le> length (sg_members y) + 1" if "x \<in> set out" "y \<in> set out" for x y
    using sizes[OF that(1)] sizes[OF that(2)] by linarith
  then have each: "\<forall>x\<in>set out. sg_members x \<noteq> [] \<and> length (sg_members x) \<le> 6
       \<and> chat_inside (gd_rooms g') (sg_room x) = set (sg_members x)
       \<and> (\<forall>y\<in>set out. length (sg_members x) \<le> length (sg_members y) + 1)"
    using sizes g'(6) by (intro ballI conjI) simp_all
  have "length out = (length ps + 5) div 6" using len n(1) by simp
  then show ?thesis
    by (intro exI[of _ g'] exI[of _ out] conjI gen again listed each placed)
qed

definition party_db :: db where
  "party_db = empty_db\<lparr>t_participants := map (\<lambda>u. \<lparr>pp_plan = ''p'', pp_user = u, pp_booking = None,
     pp_status = PartConfirmed, pp_joined = 0, pp_checked_in = None\<rparr>) [''a'', ''b'', ''c'', ''d'', ''e'', ''f'', ''g'']\<rparr>"

lemma smart_groups_partition_witness:
  "\<exists>g' out. generate_smart_groups (\<lambda>_. Inr ''h'') (chat_creator 0) (\<lambda>_. []) party_db
       \<lparr>gd_groups = [], gd_members = [], gd_rooms = empty_chat\<rparr> (\<lambda>i. replicate i CHR ''g'') ''p'' ''h'' ''user'' = (g', Inr out)
     \<and> length out = 2"
proof -
  have "confirmed_with_interests (\<lambda>_. []) party_db ''p''
      = map (\<lambda>u. \<lparr>sp_user = u, sp_interests = []\<rparr>) [''a'', ''b'', ''c'', ''d'', ''e'', ''f'', ''g'']"
    by (simp add: confirmed_with_interests_def party_db_def)
  moreover have "inj (\<lambda>i. replicate i CHR ''g'')" by (rule inj_on_inverseI[where g = length]) simp
  ultimately show ?thesis
    using smart_groups_partition[of "''p''" "''h''" "\<lambda>_. Inr ''h''" "''h''" "''user''"
        "\<lparr>gd_groups = [], gd_members = [], gd_rooms = empty_chat\<rparr>" _ "\<lambda>_. []" party_db "\<lambda>i. replicate i CHR ''g''" 0]
    by auto
qed

end
