(* ===== verification/Availability.thy ===== *)
theory Availability
  imports Smart_Groups
begin

text \<open>
  Who is free (\<^verbatim>\<open>internal/availability\<close>): windows of time with an activity, finding
  overlapping ones of other people, and accepting a match, which opens a chat room. The
  distance between two people and their interests are arguments.
\<close>

section \<open>Repository\<close>

datatype window_status = WinOpen | WinMatched | WinCancelled | WinExpired

record window_row =
  aw_id :: string
  aw_user :: string
  aw_activity :: string
  aw_starts :: int
  aw_ends :: int
  aw_status :: window_status
  aw_matched :: "string option"
  aw_room :: "string option"

record 'c avail_db =
  ad_windows :: "window_row list"
  ad_rooms :: 'c

abbreviation window_by_id :: "'c avail_db \<Rightarrow> string \<Rightarrow> window_row option" where
  "window_by_id a i \<equiv> find (\<lambda>w. aw_id w = i) (ad_windows a)"

definition create_window :: "'c avail_db \<Rightarrow> string \<Rightarrow> window_row \<Rightarrow> ('c avail_db, window_row) outcome" where
  "create_window a new_id w =
    (let out = w\<lparr>aw_id := new_id, aw_status := WinOpen, aw_matched := None, aw_room := None\<rparr>
     in if \<not> aw_starts w < aw_ends w then (a, Inl DB_CheckViolation)
        else (a\<lparr>ad_windows := ad_windows a @ [out]\<rparr>, Inr out))"

definition get_window :: "'c avail_db \<Rightarrow> string \<Rightarrow> go_error + window_row" where
  "get_window a i = (case window_by_id a i of None \<Rightarrow> Inl (Availability AvailWindowNotFound) | Some w \<Rightarrow> Inr w)"

definition repo_cancel_window :: "'c avail_db \<Rightarrow> string \<Rightarrow> 'c avail_db" where
  "repo_cancel_window a i = a\<lparr>ad_windows := upd (\<lambda>w. aw_id w = i) (\<lambda>w. w\<lparr>aw_status := WinCancelled\<rparr>) (ad_windows a)\<rparr>"

text \<open>\<open>near caller other\<close>: both locations are known and within ten kilometres.\<close>

definition repo_find_matches ::
  "(string \<Rightarrow> string \<Rightarrow> bool) \<Rightarrow> (string \<Rightarrow> string list) \<Rightarrow> db \<Rightarrow> 'c avail_db \<Rightarrow> string \<Rightarrow> window_row \<Rightarrow> nat
    \<Rightarrow> (string \<times> string) list" where
  "repo_find_matches near interests s a caller w limit =
     take limit (map (\<lambda>x. (aw_id x, aw_user x))
       (sort_key (\<lambda>x. - int (card (set (interests (aw_user x)) \<inter> set (interests caller))))
         (filter (\<lambda>x. (\<exists>u\<in>set (t_users s). us_id u = aw_user x) \<and> aw_status x = WinOpen \<and> aw_user x \<noteq> caller
             \<and> map to_lower (aw_activity x) = map to_lower (aw_activity w)
             \<and> aw_starts x < aw_ends w \<and> aw_starts w < aw_ends x \<and> near caller (aw_user x)) (ad_windows a))))"

definition match_window :: "string \<Rightarrow> string \<Rightarrow> string \<Rightarrow> 'c avail_db \<Rightarrow> 'c avail_db" where
  "match_window i other room a = a\<lparr>ad_windows := upd (\<lambda>w. aw_id w = i)
     (\<lambda>w. w\<lparr>aw_status := WinMatched, aw_matched := Some other, aw_room := Some room\<rparr>) (ad_windows a)\<rparr>"

definition accept_match :: "'c avail_db \<Rightarrow> string \<Rightarrow> string \<Rightarrow> string \<Rightarrow> ('c avail_db, unit) outcome" where
  "accept_match a mine theirs room =
    in_tx a (case window_by_id a mine of
       None \<Rightarrow> (a, Inl (Availability AvailWindowNotFound))
     | Some m \<Rightarrow>
         (case window_by_id a theirs of
            None \<Rightarrow> (a, Inl (Availability AvailWindowNotFound))
          | Some t \<Rightarrow>
              if aw_status m \<noteq> WinOpen \<or> aw_status t \<noteq> WinOpen then (a, Inl (Availability AvailNotOpen))
              else (match_window theirs (aw_user m) room (match_window mine (aw_user t) room a), Inr ())))"

section \<open>Service\<close>

definition default_match_limit :: nat where "default_match_limit = 20"

definition set_availability :: "'c avail_db \<Rightarrow> string \<Rightarrow> window_row \<Rightarrow> ('c avail_db, window_row) outcome" where
  "set_availability a new_id w =
    (if aw_user w = '''' \<or> aw_activity w = '''' \<or> \<not> aw_starts w < aw_ends w then (a, Inl (Availability AvailInvalidInput))
     else create_window a new_id w)"

definition own_window :: "'c avail_db \<Rightarrow> string \<Rightarrow> string \<Rightarrow> go_error + window_row" where
  "own_window a i caller =
    (if i = '''' \<or> caller = '''' then Inl (Availability AvailInvalidInput)
     else case get_window a i of
       Inl e \<Rightarrow> Inl e | Inr w \<Rightarrow> if aw_user w \<noteq> caller then Inl (Availability AvailForbidden) else Inr w)"

definition cancel_availability :: "'c avail_db \<Rightarrow> string \<Rightarrow> string \<Rightarrow> ('c avail_db, unit) outcome" where
  "cancel_availability a i caller =
    (case own_window a i caller of Inl e \<Rightarrow> (a, Inl e) | Inr w \<Rightarrow> (repo_cancel_window a i, Inr ()))"

definition find_activity_matches ::
  "(string \<Rightarrow> string \<Rightarrow> bool) \<Rightarrow> (string \<Rightarrow> string list) \<Rightarrow> db \<Rightarrow> 'c avail_db \<Rightarrow> string \<Rightarrow> string
    \<Rightarrow> go_error + (string \<times> string) list" where
  "find_activity_matches near interests s a i caller =
    (case own_window a i caller of
       Inl e \<Rightarrow> Inl e | Inr w \<Rightarrow> Inr (repo_find_matches near interests s a caller w default_match_limit))"

definition accept_activity_match ::
  "'c creator \<Rightarrow> 'c avail_db \<Rightarrow> string \<Rightarrow> string \<Rightarrow> string \<Rightarrow> ('c avail_db, string) outcome" where
  "accept_activity_match rooms a mine theirs caller =
    (if mine = '''' \<or> theirs = '''' \<or> caller = '''' \<or> mine = theirs then (a, Inl (Availability AvailInvalidInput))
     else case own_window a mine caller of
       Inl e \<Rightarrow> (a, Inl e)
     | Inr m \<Rightarrow>
         (case get_window a theirs of
            Inl e \<Rightarrow> (a, Inl e)
          | Inr t \<Rightarrow>
              (case rooms [aw_user m, aw_user t] (ad_rooms a) of
                 (c, Inl e) \<Rightarrow> (a\<lparr>ad_rooms := c\<rparr>, Inl e)
               | (c, Inr room) \<Rightarrow>
                   and_then (accept_match (a\<lparr>ad_rooms := c\<rparr>) mine theirs room) (\<lambda>_ a1. (a1, Inr room)))))"

section \<open>Matches are for good\<close>

text \<open>
  What happens to windows: their owners set and cancel them and accept matches, and the
  chat's rooms gain members elsewhere.
\<close>

inductive avail_step :: "chat_db avail_db \<Rightarrow> chat_db avail_db \<Rightarrow> bool" where
  set_up: "i \<notin> aw_id ` set (ad_windows a) \<Longrightarrow> set_availability a i w = (a', r) \<Longrightarrow> avail_step a a'"
| cancelled: "cancel_availability a i caller = (a', r) \<Longrightarrow> avail_step a a'"
| accepted: "accept_activity_match (chat_creator now) a mine theirs caller = (a', r) \<Longrightarrow> avail_step a a'"
| elsewhere: "(\<And>k. chat_inside (ad_rooms a) k \<subseteq> chat_inside c k) \<Longrightarrow> avail_step a (a\<lparr>ad_rooms := c\<rparr>)"

definition window_ok :: "chat_db \<Rightarrow> window_row \<Rightarrow> bool" where
  "window_ok c w \<longleftrightarrow> aw_starts w < aw_ends w
     \<and> (case (aw_matched w, aw_room w) of
          (None, None) \<Rightarrow> aw_status w \<in> {WinOpen, WinCancelled}
        | (Some u, Some r) \<Rightarrow> aw_status w \<in> {WinMatched, WinCancelled} \<and> aw_user w \<in> chat_inside c r \<and> u \<in> chat_inside c r
        | _ \<Rightarrow> False)"

definition avail_ok :: "chat_db avail_db \<Rightarrow> bool" where
  "avail_ok a \<longleftrightarrow> distinct (map aw_id (ad_windows a)) \<and> list_all (window_ok (ad_rooms a)) (ad_windows a)"

text \<open>What a window may become: its people, activity and times stay; a match and a cancellation are final.\<close>

definition follows :: "window_row \<Rightarrow> window_row \<Rightarrow> bool" where
  "follows w w' \<longleftrightarrow> (aw_id w', aw_user w', aw_activity w', aw_starts w', aw_ends w')
      = (aw_id w, aw_user w, aw_activity w, aw_starts w, aw_ends w)
     \<and> (aw_status w = WinOpen \<or> (aw_matched w' = aw_matched w \<and> aw_room w' = aw_room w
          \<and> aw_status w' \<in> {aw_status w, WinCancelled}))"

lemma follows_refl [simp]: "follows w w" by (simp add: follows_def)

lemma follows_trans: "follows w w' \<Longrightarrow> follows w' w'' \<Longrightarrow> window_ok c w \<Longrightarrow> window_ok c' w' \<Longrightarrow> follows w w''"
  by (auto simp: follows_def)

lemma window_ok_mono: "window_ok c w \<Longrightarrow> (\<And>k. chat_inside c k \<subseteq> chat_inside c' k) \<Longrightarrow> window_ok c' w"
  by (auto simp: window_ok_def split: option.splits)

lemma window_by_idD: "window_by_id a i = Some w \<Longrightarrow> w \<in> set (ad_windows a) \<and> aw_id w = i"
  by (auto simp: find_Some_iff)

lemma accept_match_error: "accept_match a mine theirs room = (a', Inl e) \<Longrightarrow> a' = a"
  unfolding accept_match_def by (rule in_tx_error)

lemma accept_match_InrD:
  assumes "accept_match a mine theirs room = (a', Inr ())"
  obtains m t where "window_by_id a mine = Some m" "window_by_id a theirs = Some t" "aw_status m = WinOpen" "aw_status t = WinOpen"
    "a' = match_window theirs (aw_user m) room (match_window mine (aw_user t) room a)"
  using assms by (auto simp: accept_match_def in_tx_eq_Inr split: option.splits if_splits)

text \<open>Every step keeps the windows in order and lets each only follow its course.\<close>

definition keeps_windows :: "chat_db avail_db \<Rightarrow> chat_db avail_db \<Rightarrow> bool" where
  "keeps_windows a a' \<longleftrightarrow> avail_ok a' \<and> (\<forall>k. chat_inside (ad_rooms a) k \<subseteq> chat_inside (ad_rooms a') k)
     \<and> (\<forall>w\<in>set (ad_windows a). \<exists>w'\<in>set (ad_windows a'). follows w w')"

lemma keeps_windows_upd:
  assumes "avail_ok a" "\<And>k. chat_inside (ad_rooms a) k \<subseteq> chat_inside (ad_rooms a') k" "ad_windows a' = map f (ad_windows a)"
    and "\<And>w. w \<in> set (ad_windows a) \<Longrightarrow> follows w (f w) \<and> window_ok (ad_rooms a') (f w)"
  shows "keeps_windows a a'"
proof -
  have "map aw_id (ad_windows a') = map aw_id (ad_windows a)" using assms(4) by (auto simp: assms(3) follows_def)
  then have "distinct (map aw_id (ad_windows a'))" using assms(1) by (simp add: avail_ok_def)
  moreover have "list_all (window_ok (ad_rooms a')) (ad_windows a')" using assms(4) by (auto simp: assms(3) list_all_iff)
  ultimately show ?thesis using assms(2,4) by (auto simp: keeps_windows_def avail_ok_def assms(3))
qed

lemma keeps_windows_same:
  assumes "avail_ok a" "\<And>k. chat_inside (ad_rooms a) k \<subseteq> chat_inside c k"
  shows "keeps_windows a (a\<lparr>ad_rooms := c\<rparr>)"
proof (rule keeps_windows_upd[OF assms(1), where f = id])
  fix w assume "w \<in> set (ad_windows a)"
  then have "window_ok (ad_rooms a) w" using assms(1) by (auto simp: avail_ok_def list_all_iff)
  then show "follows w (id w) \<and> window_ok (ad_rooms (a\<lparr>ad_rooms := c\<rparr>)) (id w)"
    using window_ok_mono assms(2) by fastforce
qed (use assms(2) in auto)

lemma creator_grows:
  assumes "us \<noteq> []" "chat_creator now us c = (c', r)"
  obtains room where "r = Inr room" "chat_inside c room = {}" "chat_inside c' room = set us"
    "\<And>k. chat_inside c k \<subseteq> chat_inside c' k"
proof -
  obtain room where room: "r = Inr room" "chat_inside c room = {}" "chat_inside c' room = set us"
      "\<forall>k. k \<noteq> room \<longrightarrow> chat_inside c' k = chat_inside c k"
    using chat_rooms.creates[OF assms(1), of now c] assms(2) by auto
  have "chat_inside c k \<subseteq> chat_inside c' k" for k using room by (cases "k = room") auto
  with room that show thesis by blast
qed

lemma accepting_keeps:
  assumes "avail_ok a" "accept_activity_match (chat_creator now) a mine theirs caller = (a', r)"
  shows "keeps_windows a a'"
proof (cases "a' = a")
  case True
  with keeps_windows_same[OF assms(1), of "ad_rooms a"] show ?thesis by simp
next
  case False
  then obtain m t where own: "mine \<noteq> theirs" "own_window a mine caller = Inr m" "get_window a theirs = Inr t"
    using assms(2) by (auto simp: accept_activity_match_def split: if_splits sum.splits)
  obtain c rr where create: "chat_creator now [aw_user m, aw_user t] (ad_rooms a) = (c, rr)" by fastforce
  from creator_grows[OF _ this] obtain room where room: "rr = Inr room" "chat_inside c room = {aw_user m, aw_user t}"
      "\<And>k. chat_inside (ad_rooms a) k \<subseteq> chat_inside c k" by auto
  have "a' = fst (accept_match (a\<lparr>ad_rooms := c\<rparr>) mine theirs room)"
  proof -
    have "theirs \<noteq> []" "mine \<noteq> []" "caller \<noteq> []"
      using assms(2) False by (auto simp: accept_activity_match_def)
    then have "and_then (accept_match (a\<lparr>ad_rooms := c\<rparr>) mine theirs room) (\<lambda>_ a1. (a1, Inr room)) = (a', r)"
      using assms(2) own create room(1) by (simp add: accept_activity_match_def)
    then show ?thesis by (cases "snd (accept_match (a\<lparr>ad_rooms := c\<rparr>) mine theirs room)") (auto simp: and_then_def)
  qed
  moreover have "keeps_windows a (fst (accept_match (a\<lparr>ad_rooms := c\<rparr>) mine theirs room))"
  proof (cases "snd (accept_match (a\<lparr>ad_rooms := c\<rparr>) mine theirs room)")
    case (Inl e)
    then have "fst (accept_match (a\<lparr>ad_rooms := c\<rparr>) mine theirs room) = a\<lparr>ad_rooms := c\<rparr>"
      using accept_match_error prod.collapse by metis
    then show ?thesis using keeps_windows_same[OF assms(1) room(3)] by simp
  next
    case (Inr u)
    then have "accept_match (a\<lparr>ad_rooms := c\<rparr>) mine theirs room
        = (fst (accept_match (a\<lparr>ad_rooms := c\<rparr>) mine theirs room), Inr ())" by (simp add: prod_eq_iff)
    then obtain m' t' where mt: "window_by_id a mine = Some m'" "window_by_id a theirs = Some t'" "aw_status m' = WinOpen"
        "aw_status t' = WinOpen" "fst (accept_match (a\<lparr>ad_rooms := c\<rparr>) mine theirs room)
           = match_window theirs (aw_user m') room (match_window mine (aw_user t') room (a\<lparr>ad_rooms := c\<rparr>))"
      by (elim accept_match_InrD) simp
    have eq: "m' = m" "t' = t" using own mt(1,2) by (auto simp: own_window_def get_window_def split: if_splits option.splits)
    have wm: "m \<in> set (ad_windows a)" "aw_id m = mine" "t \<in> set (ad_windows a)" "aw_id t = theirs"
      using window_by_idD[OF mt(1)] window_by_idD[OF mt(2)] eq by simp_all
    define set_w where "set_w other w = w\<lparr>aw_status := WinMatched, aw_matched := Some other, aw_room := Some room\<rparr>"
      for other and w :: window_row
    define f where "f w = (if aw_id w = mine then set_w (aw_user t) w else if aw_id w = theirs then set_w (aw_user m) w else w)" for w
    have uniq: "w = v" if "w \<in> set (ad_windows a)" "v \<in> set (ad_windows a)" "aw_id w = aw_id v" for w v
      using key_inj[OF _ that] assms(1) by (simp add: avail_ok_def)
    show ?thesis
    proof (rule keeps_windows_upd[OF assms(1), where f = f])
      show "ad_windows (fst (accept_match (a\<lparr>ad_rooms := c\<rparr>) mine theirs room)) = map f (ad_windows a)"
        unfolding mt(5) eq using own(1) by (auto simp: match_window_def upd_def f_def set_w_def)
      show "chat_inside (ad_rooms a) k \<subseteq> chat_inside (ad_rooms (fst (accept_match (a\<lparr>ad_rooms := c\<rparr>) mine theirs room))) k" for k
        unfolding mt(5) using room(3) by (simp add: match_window_def)
      fix w assume w: "w \<in> set (ad_windows a)"
      then have ok: "window_ok (ad_rooms a) w" using assms(1) by (auto simp: avail_ok_def list_all_iff)
      have rooms: "ad_rooms (fst (accept_match (a\<lparr>ad_rooms := c\<rparr>) mine theirs room)) = c"
        unfolding mt(5) by (simp add: match_window_def)
      have tm: "t \<noteq> m" using own(1) wm(2,4) by auto
      consider "w = m" | "w = t" "t \<noteq> m" | "aw_id w \<noteq> mine" "aw_id w \<noteq> theirs"
        using uniq[OF w wm(1)] uniq[OF w wm(3)] wm(2,4) tm by metis
      then show "follows w (f w) \<and> window_ok (ad_rooms (fst (accept_match (a\<lparr>ad_rooms := c\<rparr>) mine theirs room))) (f w)"
      proof cases
        case 1
        with ok mt(3) eq wm room(2) rooms show ?thesis by (simp add: f_def set_w_def follows_def window_ok_def)
      next
        case 2
        with ok mt(4) eq wm own(1) room(2) rooms show ?thesis by (simp add: f_def set_w_def follows_def window_ok_def)
      next
        case 3
        with window_ok_mono[OF ok room(3)] rooms show ?thesis by (simp add: f_def)
      qed
    qed
  qed
  ultimately show ?thesis by simp
qed

lemma avail_step_keeps: "avail_step a a' \<Longrightarrow> avail_ok a \<Longrightarrow> keeps_windows a a'"
proof (induction rule: avail_step.induct)
  case (set_up i a w a' r)
  show ?case
  proof (cases "a' = a")
    case True
    with keeps_windows_same[OF set_up(3), of "ad_rooms a"] show ?thesis by simp
  next
    case False
    let ?w = "w\<lparr>aw_id := i, aw_status := WinOpen, aw_matched := None, aw_room := None\<rparr>"
    have a': "a' = a\<lparr>ad_windows := ad_windows a @ [?w]\<rparr>" "aw_starts w < aw_ends w"
      using set_up(2) False by (auto simp: set_availability_def create_window_def Let_def split: if_splits)
    moreover have "window_ok (ad_rooms a) ?w" using a'(2) by (simp add: window_ok_def)
    ultimately show ?thesis using set_up(1,3)
      by (auto simp: keeps_windows_def avail_ok_def intro: follows_refl)
  qed
next
  case (cancelled a i caller a' r)
  show ?case
  proof (cases "a' = a")
    case True
    with keeps_windows_same[OF cancelled(2), of "ad_rooms a"] show ?thesis by simp
  next
    case False
    then have a': "a' = repo_cancel_window a i"
      using cancelled(1) by (auto simp: cancel_availability_def split: sum.splits)
    show ?thesis
    proof (rule keeps_windows_upd[OF cancelled(2), where f = "\<lambda>w. if aw_id w = i then w\<lparr>aw_status := WinCancelled\<rparr> else w"])
      fix w assume "w \<in> set (ad_windows a)"
      then have "window_ok (ad_rooms a) w" using cancelled(2) by (auto simp: avail_ok_def list_all_iff)
      then show "follows w (if aw_id w = i then w\<lparr>aw_status := WinCancelled\<rparr> else w)
          \<and> window_ok (ad_rooms a') (if aw_id w = i then w\<lparr>aw_status := WinCancelled\<rparr> else w)"
        by (auto simp: a' repo_cancel_window_def follows_def window_ok_def split: option.splits)
    qed (simp_all add: a' repo_cancel_window_def upd_def)
  qed
next
  case (accepted now a mine theirs caller a' r)
  then show ?case using accepting_keeps by blast
next
  case (elsewhere a c)
  then show ?case using keeps_windows_same by blast
qed

lemma avail_run_keeps: "avail_step\<^sup>*\<^sup>* a a' \<Longrightarrow> avail_ok a \<Longrightarrow> keeps_windows a a'"
proof (induction rule: rtranclp_induct)
  case base
  then show ?case using keeps_windows_same[of a "ad_rooms a"] by simp
next
  case (step b c)
  from step.IH[OF step.prems] have ab: "keeps_windows a b" .
  then have bc: "keeps_windows b c" using avail_step_keeps[OF step.hyps(2)] by (simp add: keeps_windows_def)
  have "\<exists>w''\<in>set (ad_windows c). follows w w''" if w: "w \<in> set (ad_windows a)" for w
  proof -
    obtain w' where w': "w' \<in> set (ad_windows b)" "follows w w'" using ab w by (auto simp: keeps_windows_def)
    obtain w'' where w'': "w'' \<in> set (ad_windows c)" "follows w' w''" using bc w'(1) by (auto simp: keeps_windows_def)
    have "window_ok (ad_rooms a) w" "window_ok (ad_rooms b) w'"
      using w w'(1) step.prems ab by (auto simp: keeps_windows_def avail_ok_def list_all_iff)
    with w'' w'(2) show ?thesis using follows_trans by blast
  qed
  with ab bc show ?case by (auto simp: keeps_windows_def) blast
qed


definition sample_window :: window_row where
  "sample_window = \<lparr>aw_id = ''w'', aw_user = ''a'', aw_activity = ''chess'', aw_starts = 0, aw_ends = 5, aw_status = WinOpen,
     aw_matched = None, aw_room = None\<rparr>"

abbreviation free_1 :: "chat_db avail_db" where
  "free_1 \<equiv> fst (set_availability \<lparr>ad_windows = [], ad_rooms = empty_chat\<rparr> ''w'' sample_window)"

abbreviation free_2 :: "chat_db avail_db" where
  "free_2 \<equiv> fst (set_availability free_1 ''x'' (sample_window\<lparr>aw_user := ''b'', aw_activity := ''golf'', aw_starts := 7, aw_ends := 9\<rparr>))"

abbreviation free_3 :: "chat_db avail_db" where
  "free_3 \<equiv> fst (accept_activity_match (chat_creator 1) free_2 ''w'' ''x'' ''a'')"

lemmas avail_eval = set_availability_def create_window_def sample_window_def accept_activity_match_def own_window_def
  get_window_def chat_creator_def create_ad_hoc_room_with_members_def create_ad_hoc_room_def fresh_room_def empty_chat_def
  add_member_def is_member_def accept_match_def match_window_def

lemma free_windows:
  "map aw_id (ad_windows free_1) = [''w'']"
  "ad_windows free_3 = [sample_window\<lparr>aw_status := WinMatched, aw_matched := Some ''b'', aw_room := Some ''r''\<rparr>,
     sample_window\<lparr>aw_id := ''x'', aw_user := ''b'', aw_activity := ''golf'', aw_starts := 7, aw_ends := 9,
       aw_status := WinMatched, aw_matched := Some ''a'', aw_room := Some ''r''\<rparr>]"
  by (simp_all add: avail_eval Let_def)


section \<open>What accepting does not ask\<close>

text \<open>
  Nobody asks the other person, and nothing compares the windows: chess from 0 to 5 was
  matched with golf from 7 to 9.
\<close>

lemma accepting_compares_nothing:
  "map aw_activity (ad_windows free_3) = [''chess'', ''golf''] \<and> map aw_status (ad_windows free_3) = [WinMatched, WinMatched]"
  unfolding free_windows by (simp add: sample_window_def)

text \<open>An acceptance that comes too late leaves its room behind.\<close>

lemma late_acceptance_leaves_room:
  "snd (accept_activity_match (chat_creator 2) free_3 ''w'' ''x'' ''a'') = Inl (Availability AvailNotOpen)
   \<and> length (ch_rooms (ad_rooms (fst (accept_activity_match (chat_creator 2) free_3 ''w'' ''x'' ''a'')))) = 2"
  by (simp add: avail_eval Let_def)

end
