(* ===== verification/Safety.thy ===== *)
theory Safety
  imports Recurrence Moderation
begin

text \<open>
  Safety (\<^verbatim>\<open>internal/safety\<close>): the emergency contact and the SOS button, which records an
  event and mails the contact. Parsing of mail addresses (\<^verbatim>\<open>net/mail\<close>) and the mail
  provider are arguments.
\<close>

section \<open>State\<close>

record contact =
  ec_name :: string
  ec_email :: string
  ec_phone :: string
  ec_relation :: string

record sos_row =
  so_id :: string
  so_user :: string
  so_plan :: "string option"
  so_lat :: "rat option"
  so_lng :: "rat option"
  so_note :: string
  so_delivery :: string
  so_error :: string
  so_created :: int

text \<open>
  \<open>sf_mails\<close> is what was handed to the provider: for which event, to whom, the subject and
  the body, and whether the provider took it.
\<close>

record safety_db =
  sf_db :: db
  sf_verified :: "(string \<times> string) list"
  sf_contacts :: "(string \<times> contact) list"
  sf_sos :: "sos_row list"
  sf_mails :: "(string \<times> string \<times> string \<times> string \<times> bool) list"

section \<open>Repository\<close>

text \<open>The checks of \<^verbatim>\<open>emergency_contacts\<close> and of \<^verbatim>\<open>sos_events\<close> (migration 0044).\<close>

definition contact_checks :: "contact \<Rightarrow> bool" where
  "contact_checks c \<longleftrightarrow> length (ec_name c) \<in> {1..100} \<and> length (ec_email c) \<le> 254
     \<and> length (ec_phone c) \<le> 20 \<and> length (ec_relation c) \<le> 50"

definition between :: "rat \<Rightarrow> rat option \<Rightarrow> bool" where
  "between b x = (case x of None \<Rightarrow> True | Some v \<Rightarrow> - b \<le> v \<and> v \<le> b)"

definition repo_set_contact :: "safety_db \<Rightarrow> string \<Rightarrow> contact \<Rightarrow> (safety_db, unit) outcome" where
  "repo_set_contact s u c =
    (if \<not> contact_checks c then (s, Inl DB_CheckViolation)
     else (s\<lparr>sf_contacts := filter (\<lambda>x. fst x \<noteq> u) (sf_contacts s) @ [(u, c)]\<rparr>, Inr ()))"

definition repo_get_contact :: "safety_db \<Rightarrow> string \<Rightarrow> go_error + contact" where
  "repo_get_contact s u =
    (case find (\<lambda>x. fst x = u) (sf_contacts s) of None \<Rightarrow> Inl (Safety SafetyNoContact) | Some x \<Rightarrow> Inr (snd x))"

definition repo_delete_contact :: "safety_db \<Rightarrow> string \<Rightarrow> safety_db" where
  "repo_delete_contact s u = s\<lparr>sf_contacts := filter (\<lambda>x. fst x \<noteq> u) (sf_contacts s)\<rparr>"

record center =
  sc_verification :: string
  sc_has_contact :: bool
  sc_blocked :: int

definition repo_center :: "safety_db \<Rightarrow> string \<Rightarrow> center" where
  "repo_center s u = \<lparr>sc_verification = (case find (\<lambda>x. fst x = u) (sf_verified s) of None \<Rightarrow> ''unverified'' | Some x \<Rightarrow> snd x),
     sc_has_contact = (\<exists>x\<in>set (sf_contacts s). fst x = u), sc_blocked = cnt (\<lambda>x. fst x = u) (t_blocks (sf_db s))\<rparr>"

text \<open>The title, the venue's name or nothing, and the start of a plan the caller hosts or attends.\<close>

definition plan_context :: "safety_db \<Rightarrow> string \<Rightarrow> string \<Rightarrow> go_error + (string \<times> string \<times> int)" where
  "plan_context s plan u =
    (case plan_by_id (sf_db s) plan of
       None \<Rightarrow> Inl (Safety SafetyPlanNotAllowed)
     | Some p \<Rightarrow>
         if pl_host p = u \<or> (\<exists>r\<in>set (t_participants (sf_db s)). pp_plan r = plan \<and> pp_user r = u \<and> pp_status r = PartConfirmed)
         then Inr (pl_title p,
                (case pl_venue p of None \<Rightarrow> ''''
                 | Some v \<Rightarrow> (case find (\<lambda>r. fst r = v) (t_venues (sf_db s)) of None \<Rightarrow> '''' | Some r \<Rightarrow> fst (snd r))),
                pl_starts p)
         else Inl (Safety SafetyPlanNotAllowed))"

definition sos_name :: "safety_db \<Rightarrow> string \<Rightarrow> string" where
  "sos_name s u = (case find (\<lambda>p. fst p = u) (t_profiles (sf_db s)) of
     None \<Rightarrow> ''A HiveMind user'' | Some p \<Rightarrow> if snd p = '''' then ''A HiveMind user'' else snd p)"

record sos_input =
  si_user :: string
  si_plan :: string
  si_lat :: "rat option"
  si_lng :: "rat option"
  si_note :: string

definition sos_dedupe :: int where "sos_dedupe = minute"

definition record_sos :: "safety_db \<Rightarrow> sos_input \<Rightarrow> int \<Rightarrow> string \<Rightarrow> (safety_db, string \<times> bool) outcome" where
  "record_sos s i now new_id =
    in_tx s (case sort_key (\<lambda>r. - so_created r)
                 (filter (\<lambda>r. so_user r = si_user i \<and> now - sos_dedupe < so_created r) (sf_sos s)) of
        r # _ \<Rightarrow> (s, Inr (so_id r, False))
      | [] \<Rightarrow>
          if \<not> between 90 (si_lat i) \<or> \<not> between 180 (si_lng i) then (s, Inl DB_CheckViolation)
          else (s\<lparr>sf_sos := sf_sos s @ [\<lparr>so_id = new_id, so_user = si_user i, so_plan = nullif (si_plan i),
                   so_lat = si_lat i, so_lng = si_lng i, so_note = si_note i, so_delivery = ''no_contact'',
                   so_error = '''', so_created = now\<rparr>]\<rparr>, Inr (new_id, True)))"

definition set_delivery :: "safety_db \<Rightarrow> string \<Rightarrow> string \<Rightarrow> string \<Rightarrow> safety_db" where
  "set_delivery s i delivery err =
     s\<lparr>sf_sos := upd (\<lambda>r. so_id r = i) (\<lambda>r. r\<lparr>so_delivery := delivery, so_error := err\<rparr>) (sf_sos s)\<rparr>"

section \<open>The mail\<close>

definition disclaimer :: string where
  "disclaimer = ''HiveMind does not contact police, ambulance or fire services. If you are in danger, call your local emergency number now.''"

text \<open>\<open>html.EscapeString\<close>\<close>

definition escape_char :: "char \<Rightarrow> string" where
  "escape_char c = (if c = CHR ''&'' then ''&amp;'' else if c = CHR 0x27 then ''&#39;'' else if c = CHR ''<'' then ''&lt;''
     else if c = CHR ''>'' then ''&gt;'' else if c = CHR 0x22 then ''&#34;'' else [c])"

definition escape_html :: "string \<Rightarrow> string" where
  "escape_html s = concat (map escape_char s)"

definition venue_suffix :: "string \<Rightarrow> string" where
  "venue_suffix v = (if v = '''' then '''' else '' at '' @ escape_html v)"

text \<open>\<^verbatim>\<open>Format("2 Jan 2006 15:04 MST")\<close> in UTC.\<close>

definition month_names :: "string list" where
  "month_names = [''Jan'', ''Feb'', ''Mar'', ''Apr'', ''May'', ''Jun'', ''Jul'', ''Aug'', ''Sep'', ''Oct'', ''Nov'', ''Dec'']"

definition two_places :: "int \<Rightarrow> string" where
  "two_places n = (if n < 10 then CHR ''0'' # format_int n else format_int n)"

definition format_utc :: "int \<Rightarrow> string" where
  "format_utc t =
    (let (k, d) = civil (t div day); m = (t mod day) div minute
     in format_int d @ '' '' @ month_names ! nat (k mod 12) @ '' '' @ format_int (k div 12) @ '' ''
        @ two_places (m div 60) @ '':'' @ two_places (m mod 60) @ '' UTC'')"

text \<open>\<^verbatim>\<open>%.6f\<close>: the exact value rounded to six decimals, halves to even; a negative number keeps its sign.\<close>

definition format_degrees :: "rat \<Rightarrow> string" where
  "format_degrees x =
    (let (n, d) = quotient_of (\<bar>x\<bar> * 1000000);
         q = (let q = n div d; r = n mod d in if 2 * r < d \<or> (2 * r = d \<and> even q) then q else q + 1);
         frac = format_int (q mod 1000000)
     in (if x < 0 then ''-'' else '''') @ format_int (q div 1000000) @ ''.'' @ replicate (6 - length frac) CHR ''0'' @ frac)"

definition sos_body :: "string \<Rightarrow> contact \<Rightarrow> sos_input \<Rightarrow> (string \<times> string \<times> int) option \<Rightarrow> string" where
  "sos_body name c i plan =
     ''<p>Hi '' @ escape_html (ec_name c) @ '',</p><p><b>'' @ escape_html name
       @ ''</b> pressed the SOS button in HiveMind and listed you as an emergency contact.</p>''
     @ (case plan of None \<Rightarrow> ''''
        | Some (title, venue, starts) \<Rightarrow> ''<p>Plan: '' @ escape_html title @ venue_suffix venue @ '', starting ''
            @ format_utc starts @ ''.</p>'')
     @ (case (si_lat i, si_lng i) of
          (Some lat, Some lng) \<Rightarrow> ''<p>Last shared location: <a href='' @ [CHR 0x22] @ ''https://maps.google.com/?q=''
            @ format_degrees lat @ '','' @ format_degrees lng @ [CHR 0x22] @ ''>open in maps</a>.</p>''
        | _ \<Rightarrow> '''')
     @ (if si_note i = '''' then '''' else ''<p>Their note: '' @ escape_html (si_note i) @ ''</p>'')
     @ ''<p>Please try to reach them. '' @ escape_html disclaimer @ ''</p>''"

section \<open>Service\<close>

text \<open>\<open>unicode.IsDigit\<close> on ASCII text.\<close>

definition valid_phone :: "string \<Rightarrow> bool" where
  "valid_phone p \<longleftrightarrow> p = '''' \<or>
     (list_all (\<lambda>c. is_digit c \<or> c \<in> {CHR ''+'', CHR '' '', CHR ''-''}) p
      \<and> length (filter is_digit p) \<in> {7..15})"

definition set_contact :: "(string \<Rightarrow> string option) \<Rightarrow> safety_db \<Rightarrow> string \<Rightarrow> contact \<Rightarrow> (safety_db, unit) outcome" where
  "set_contact parse_address s u c =
    (let c1 = c\<lparr>ec_name := trim_space (ec_name c), ec_relation := trim_space (ec_relation c)\<rparr>
     in case parse_address (trim_space (ec_email c)) of
          None \<Rightarrow> (s, Inl (Safety SafetyInvalidInput))
        | Some addr \<Rightarrow>
            if u = '''' \<or> ec_name c1 = '''' \<or> 100 < length (ec_name c1) \<or> 50 < length (ec_relation c1)
               \<or> \<not> valid_phone (ec_phone c1)
            then (s, Inl (Safety SafetyInvalidInput)) else repo_set_contact s u (c1\<lparr>ec_email := addr\<rparr>))"

definition get_contact :: "safety_db \<Rightarrow> string \<Rightarrow> go_error + contact" where
  "get_contact s u = (if u = '''' then Inl (Safety SafetyInvalidInput) else repo_get_contact s u)"

definition delete_contact :: "safety_db \<Rightarrow> string \<Rightarrow> (safety_db, unit) outcome" where
  "delete_contact s u =
    (if u = '''' then (s, Inl (Safety SafetyInvalidInput)) else (repo_delete_contact s u, Inr ()))"

definition guidelines :: "string list" where
  "guidelines = [''Meet in public places and tell someone where you're going.'',
     ''Trust your instincts '' @ [CHR 0xE2, CHR 0x80, CHR 0x94] @ '' leave if something feels wrong.'',
     ''Keep payments and personal details inside the app.'',
     ''Report or block anyone who makes you uncomfortable.'']"

definition emergency_number :: "string \<Rightarrow> string" where
  "emergency_number configured = (if configured = '''' then ''112'' else configured)"

definition safety_center :: "string \<Rightarrow> safety_db \<Rightarrow> string \<Rightarrow> go_error + (center \<times> string list \<times> string \<times> string)" where
  "safety_center number s u =
    (if u = '''' then Inl (Safety SafetyInvalidInput)
     else Inr (repo_center s u, guidelines, emergency_number number, disclaimer))"

record sos_result =
  sr_id :: string
  sr_notified :: bool
  sr_number :: string
  sr_disclaimer :: string

text \<open>
  The provider answers a recipient, a subject and a body with \<open>None\<close> (taken) or its error;
  no provider at all is \<open>None\<close>.
\<close>

type_synonym mail_sender = "string \<Rightarrow> string \<Rightarrow> string \<Rightarrow> string option"

definition mail_contact ::
  "mail_sender option \<Rightarrow> safety_db \<Rightarrow> string \<Rightarrow> contact \<Rightarrow> sos_input \<Rightarrow> (string \<times> string \<times> int) option \<Rightarrow> safety_db \<times> bool" where
  "mail_contact sender s sid c i plan =
    (case sender of
       None \<Rightarrow> (set_delivery s sid ''failed'' ''email provider not configured'', False)
     | Some send \<Rightarrow>
         let name = sos_name s (si_user i); subject = name @ '' sent an SOS alert''; body = sos_body name c i plan
         in case send (ec_email c) subject body of
              Some err \<Rightarrow>
                (set_delivery (s\<lparr>sf_mails := sf_mails s @ [(sid, ec_email c, subject, body, False)]\<rparr>) sid ''failed'' err, False)
            | None \<Rightarrow>
                (set_delivery (s\<lparr>sf_mails := sf_mails s @ [(sid, ec_email c, subject, body, True)]\<rparr>) sid ''sent'' '''', True))"

definition location_valid :: "sos_input \<Rightarrow> bool" where
  "location_valid i \<longleftrightarrow> (case si_lat i of None \<Rightarrow> True
     | Some lat \<Rightarrow> - 90 \<le> lat \<and> lat \<le> 90 \<and> (case si_lng i of None \<Rightarrow> False | Some lng \<Rightarrow> - 180 \<le> lng \<and> lng \<le> 180))"

definition trigger_sos ::
  "mail_sender option \<Rightarrow> string \<Rightarrow> safety_db \<Rightarrow> int \<Rightarrow> string \<Rightarrow> sos_input \<Rightarrow> bool \<Rightarrow> (safety_db, sos_result) outcome" where
  "trigger_sos sender number s now new_id i confirmed =
    (if si_user i = '''' \<or> 500 < length (si_note i) then (s, Inl (Safety SafetyInvalidInput))
     else if \<not> confirmed then (s, Inl (Safety SafetyNotConfirmed))
     else if \<not> location_valid i then (s, Inl (Safety SafetyInvalidInput))
     else case (if si_plan i = '''' then Inr None else map_sum id Some (plan_context s (si_plan i) (si_user i))) of
       Inl e \<Rightarrow> (s, Inl e)
     | Inr plan \<Rightarrow>
         and_then (record_sos s i now new_id) (\<lambda>(sid, fresh) s1.
           let res = \<lparr>sr_id = sid, sr_notified = False, sr_number = emergency_number number, sr_disclaimer = disclaimer\<rparr>
           in if \<not> fresh
              then (s1, Inr (res\<lparr>sr_notified := (case find (\<lambda>r. so_id r = sid) (sf_sos s1) of
                              None \<Rightarrow> False | Some r \<Rightarrow> so_delivery r = ''sent'')\<rparr>))
              else case repo_get_contact s1 (si_user i) of
                Inl e \<Rightarrow> (s1, Inr res)
              | Inr c \<Rightarrow> (case mail_contact sender s1 sid c i plan of (s2, ok) \<Rightarrow> (s2, Inr (res\<lparr>sr_notified := ok\<rparr>)))))"

section \<open>Alarms are recorded once and mailed once\<close>

lemma sos_text_samples:
  "escape_html ''<b>&'' = ''&lt;b&gt;&amp;''"
  "format_utc (day * day_number (12 * 2026 + 8) 5 + 9 * hour + 7 * minute) = ''5 Sep 2026 09:07 UTC''"
  by code_simp+

text \<open>
  What happens here: people manage their contacts and raise alarms, at times the clocks of
  the servers give in any order; everything else leaves the events and the mails alone.
\<close>

inductive safety_step :: "safety_db \<Rightarrow> safety_db \<Rightarrow> bool" where
  contact_set: "set_contact parse s u c = (s', r) \<Longrightarrow> safety_step s s'"
| contact_deleted: "delete_contact s u = (s', r) \<Longrightarrow> safety_step s s'"
| raised: "new_id \<notin> so_id ` set (sf_sos s) \<Longrightarrow> trigger_sos sender number s now new_id i confirmed = (s', r) \<Longrightarrow> safety_step s s'"
| elsewhere: "sf_sos s' = sf_sos s \<Longrightarrow> sf_mails s' = sf_mails s \<Longrightarrow> safety_step s s'"

definition apart :: "sos_row list \<Rightarrow> bool" where
  "apart rs \<longleftrightarrow> (\<forall>x\<in>set rs. \<forall>y\<in>set rs. so_id x \<noteq> so_id y \<longrightarrow> so_user x = so_user y
     \<longrightarrow> sos_dedupe \<le> \<bar>so_created x - so_created y\<bar>)"

definition delivery_ok :: "(string \<times> string \<times> string \<times> string \<times> bool) list \<Rightarrow> sos_row \<Rightarrow> bool" where
  "delivery_ok ms r \<longleftrightarrow> (so_delivery r = ''sent'') = (\<exists>m\<in>set ms. fst m = so_id r \<and> snd (snd (snd (snd m))))
     \<and> so_delivery r \<in> {''sent'', ''failed'', ''no_contact''}"

definition safety_ok :: "safety_db \<Rightarrow> bool" where
  "safety_ok s \<longleftrightarrow> distinct (map so_id (sf_sos s)) \<and> distinct (map fst (sf_mails s))
     \<and> fst ` set (sf_mails s) \<subseteq> so_id ` set (sf_sos s) \<and> apart (sf_sos s)
     \<and> list_all (delivery_ok (sf_mails s)) (sf_sos s)"

lemma record_sos_cases:
  assumes "record_sos s i now new_id = (s1, Inr (sid, fresh))"
  obtains (old) "s1 = s" "\<not> fresh" "sid \<in> so_id ` set (sf_sos s)"
  | (new) row where "fresh" "sid = new_id" "s1 = s\<lparr>sf_sos := sf_sos s @ [row]\<rparr>" "so_id row = new_id"
      "so_user row = si_user i" "so_created row = now" "so_delivery row = ''no_contact''"
      "\<forall>r\<in>set (sf_sos s). so_user r = si_user i \<longrightarrow> so_created r \<le> now - sos_dedupe"
proof (cases "sort_key (\<lambda>r. - so_created r) (filter (\<lambda>r. so_user r = si_user i \<and> now - sos_dedupe < so_created r) (sf_sos s))")
  case Nil
  then have "filter (\<lambda>r. so_user r = si_user i \<and> now - sos_dedupe < so_created r) (sf_sos s) = []"
    by (metis set_empty set_sort)
  then have "\<forall>r\<in>set (sf_sos s). so_user r = si_user i \<longrightarrow> so_created r \<le> now - sos_dedupe"
    by (auto simp: filter_empty_conv not_less)
  with Nil assms new show thesis by (auto simp: record_sos_def split: if_splits)
next
  case (Cons r rs)
  then have "r \<in> set (filter (\<lambda>r. so_user r = si_user i \<and> now - sos_dedupe < so_created r) (sf_sos s))"
    by (metis list.set_intros(1) set_sort)
  with Cons assms old show thesis by (auto simp: record_sos_def)
qed

lemma record_sos_recent:
  assumes "record_sos s i now new_id = (s1, Inr (sid, False))"
  shows "\<exists>e\<in>set (sf_sos s). so_id e = sid \<and> so_user e = si_user i \<and> now - sos_dedupe < so_created e"
proof -
  let ?recent = "filter (\<lambda>r. so_user r = si_user i \<and> now - sos_dedupe < so_created r) (sf_sos s)"
  obtain r rs where "sort_key (\<lambda>r. - so_created r) ?recent = r # rs" "sid = so_id r"
    using assms by (auto simp: record_sos_def in_tx_eq_Inr split: list.splits if_splits)
  then have "r \<in> set ?recent" "sid = so_id r" by (metis list.set_intros(1) set_sort, simp)
  then show ?thesis by auto
qed

lemma record_sos_error: "record_sos s i now new_id = (s1, Inl e) \<Longrightarrow> s1 = s"
  unfolding record_sos_def by (rule in_tx_error)

lemma safety_ok_set_delivery:
  assumes "distinct (map so_id rs)" "distinct (map fst ms)" "fst ` set ms \<subseteq> so_id ` set rs" "apart rs"
    and "\<And>r. r \<in> set rs \<Longrightarrow> so_id r \<noteq> i \<Longrightarrow> delivery_ok ms r"
    and "(d = ''sent'') = (\<exists>m\<in>set ms. fst m = i \<and> snd (snd (snd (snd m))))" "d \<in> {''sent'', ''failed'', ''no_contact''}"
  shows "safety_ok (set_delivery (s\<lparr>sf_sos := rs, sf_mails := ms\<rparr>) i d e)"
proof -
  let ?rs = "upd (\<lambda>r. so_id r = i) (\<lambda>r. r\<lparr>so_delivery := d, so_error := e\<rparr>) rs"
  have ids: "map so_id ?rs = map so_id rs" "map (\<lambda>r. (so_id r, so_user r, so_created r)) ?rs = map (\<lambda>r. (so_id r, so_user r, so_created r)) rs"
    by (auto simp: upd_def)
  have "apart ?rs"
    unfolding apart_def
  proof (intro ballI impI)
    fix x y assume x: "x \<in> set ?rs" "y \<in> set ?rs" "so_id x \<noteq> so_id y" "so_user x = so_user y"
    have same: "\<exists>z\<in>set rs. so_id z = so_id w \<and> so_user z = so_user w \<and> so_created z = so_created w" if "w \<in> set ?rs" for w
      using that by (auto elim!: upd_memE)
    from same[OF x(1)] same[OF x(2)] x(3,4) assms(4) show "sos_dedupe \<le> \<bar>so_created x - so_created y\<bar>"
      unfolding apart_def by metis
  qed
  moreover have "delivery_ok ms r" if "r \<in> set ?rs" for r
    using that
  proof (cases rule: upd_memE)
    case (1 r')
    with assms(6,7) show ?thesis by (simp add: delivery_ok_def)
  next
    case 2
    with assms(5) show ?thesis by simp
  qed
  moreover have "so_id ` set ?rs = so_id ` set rs" using ids(1) by (metis set_map)
  ultimately show ?thesis using assms(1-3) by (simp add: safety_ok_def set_delivery_def ids(1) list_all_iff)
qed

text \<open>The ways an accepted press of the button goes.\<close>

lemma trigger_error: "trigger_sos sender number s now new_id i confirmed = (s', Inl e) \<Longrightarrow> s' = s"
  by (auto simp: trigger_sos_def and_then_def Let_def dest: record_sos_error split: if_splits sum.splits prod.splits)
    (metis record_sos_error prod.collapse)+

lemma trigger_InrE:
  assumes "trigger_sos sender number s now new_id i confirmed = (s', Inr res)"
  obtains (repeated) sid where "record_sos s i now new_id = (s', Inr (sid, False))" "sr_id res = sid" "sr_disclaimer res = disclaimer"
      "sr_notified res = (case find (\<lambda>r. so_id r = sid) (sf_sos s') of None \<Rightarrow> False | Some r \<Rightarrow> so_delivery r = ''sent'')"
  | (nobody) sid where "record_sos s i now new_id = (s', Inr (sid, True))" "sr_id res = sid" "sr_disclaimer res = disclaimer"
      "\<not> sr_notified res"
  | (told) s1 sid c plan where "record_sos s i now new_id = (s1, Inr (sid, True))" "sr_id res = sid" "sr_disclaimer res = disclaimer"
      "mail_contact sender s1 sid c i plan = (s', sr_notified res)"
proof -
  obtain plan where go: "and_then (record_sos s i now new_id) (\<lambda>(sid, fresh) s1.
           let res = \<lparr>sr_id = sid, sr_notified = False, sr_number = emergency_number number, sr_disclaimer = disclaimer\<rparr>
           in if \<not> fresh
              then (s1, Inr (res\<lparr>sr_notified := (case find (\<lambda>r. so_id r = sid) (sf_sos s1) of
                              None \<Rightarrow> False | Some r \<Rightarrow> so_delivery r = ''sent'')\<rparr>))
              else case repo_get_contact s1 (si_user i) of
                Inl e \<Rightarrow> (s1, Inr res)
              | Inr c \<Rightarrow> (case mail_contact sender s1 sid c i plan of (s2, ok) \<Rightarrow> (s2, Inr (res\<lparr>sr_notified := ok\<rparr>)))) = (s', Inr res)"
    using assms by (auto simp: trigger_sos_def split: if_splits sum.splits)
  then obtain s1 sid fresh where rec: "record_sos s i now new_id = (s1, Inr (sid, fresh))"
    by (auto simp: and_then_eq_Inr)
  show thesis
  proof (cases fresh)
    case False
    with go rec repeated[of sid] show thesis by (auto simp: Let_def)
  next
    case True
    show thesis
    proof (cases "repo_get_contact s1 (si_user i)")
      case (Inl e)
      with True go rec nobody[of sid] show thesis by (auto simp: Let_def)
    next
      case (Inr c)
      obtain s2 ok where m: "mail_contact sender s1 sid c i plan = (s2, ok)" by fastforce
      with True go rec Inr told[of s1 sid c plan] show thesis by (auto simp: Let_def)
    qed
  qed
qed

lemma recorded_alarm:
  assumes "safety_ok s" "new_id \<notin> so_id ` set (sf_sos s)" "record_sos s i now new_id = (s1, Inr (sid, fresh))"
  shows "safety_ok s1" "\<exists>e\<in>set (sf_sos s1). so_id e = sid \<and> so_user e = si_user i \<and> now - sos_dedupe < so_created e"
    "fresh \<Longrightarrow> \<not> (\<exists>m\<in>set (sf_mails s1). fst m = sid)"
  using assms(3)
proof (atomize (full), cases rule: record_sos_cases)
  case old
  then show "safety_ok s1 \<and> (\<exists>e\<in>set (sf_sos s1). so_id e = sid \<and> so_user e = si_user i \<and> now - sos_dedupe < so_created e)
    \<and> (fresh \<longrightarrow> \<not> (\<exists>m\<in>set (sf_mails s1). fst m = sid))"
    using assms(1,3) record_sos_recent[of s i now new_id s1 sid] by auto
next
  case (new row)
  let ?rs = "sf_sos s @ [row]"
  have far: "apart ?rs"
    using assms(1) new(5,6,8) by (auto simp: safety_ok_def apart_def sos_dedupe_def time_defs abs_if)
  have none: "\<not> (\<exists>m\<in>set (sf_mails s). fst m = new_id)" using assms(1,2) by (auto simp: safety_ok_def)
  then have "delivery_ok (sf_mails s) row" using new(4,7) by (auto simp: delivery_ok_def)
  then have "safety_ok s1" using far assms(1,2) new(4) by (auto simp: new(3) safety_ok_def)
  then show "safety_ok s1 \<and> (\<exists>e\<in>set (sf_sos s1). so_id e = sid \<and> so_user e = si_user i \<and> now - sos_dedupe < so_created e)
    \<and> (fresh \<longrightarrow> \<not> (\<exists>m\<in>set (sf_mails s1). fst m = sid))"
    using new none by (auto simp: sos_dedupe_def time_defs)
qed

lemma mailing:
  assumes "safety_ok s" "sid \<in> so_id ` set (sf_sos s)" "\<not> (\<exists>m\<in>set (sf_mails s). fst m = sid)"
    and "mail_contact sender s sid c i plan = (s', ok)"
  shows "safety_ok s'" "map so_id (sf_sos s') = map so_id (sf_sos s)"
    "map (\<lambda>r. (so_id r, so_user r, so_created r)) (sf_sos s') = map (\<lambda>r. (so_id r, so_user r, so_created r)) (sf_sos s)"
    "ok = (\<exists>m\<in>set (sf_mails s'). fst m = sid \<and> snd (snd (snd (snd m))))"
proof -
  note ids = assms(1)[unfolded safety_ok_def, THEN conjunct1]
  have ok: "distinct (map fst (sf_mails s))" "fst ` set (sf_mails s) \<subseteq> so_id ` set (sf_sos s)" "apart (sf_sos s)"
      "\<And>r. r \<in> set (sf_sos s) \<Longrightarrow> delivery_ok (sf_mails s) r"
    using assms(1) by (auto simp: safety_ok_def list_all_iff)
  have old: "delivery_ok (sf_mails s @ [(sid, to, sub, body, b)]) r" if "r \<in> set (sf_sos s)" "so_id r \<noteq> sid" for r to sub body b
    using ok(4)[OF that(1)] that(2) by (auto simp: delivery_ok_def)
  have mailed: "safety_ok (set_delivery (s\<lparr>sf_sos := sf_sos s, sf_mails := sf_mails s @ [(sid, to, sub, body, b)]\<rparr>) sid
      (if b then ''sent'' else ''failed'') e)" for to sub body b e
    using ids ok old assms(2,3) by (intro safety_ok_set_delivery) (auto simp: image_iff split: if_splits)
  have unmailed: "safety_ok (set_delivery (s\<lparr>sf_sos := sf_sos s, sf_mails := sf_mails s\<rparr>) sid ''failed'' e)" for e
    using ids ok assms(3) by (intro safety_ok_set_delivery) auto
  show "safety_ok s'" using mailed[where b = True] mailed[where b = False] unmailed assms(4)
    by (auto simp: mail_contact_def Let_def split: option.splits)
  show "map so_id (sf_sos s') = map so_id (sf_sos s)"
    "map (\<lambda>r. (so_id r, so_user r, so_created r)) (sf_sos s') = map (\<lambda>r. (so_id r, so_user r, so_created r)) (sf_sos s)"
    using assms(4) by (auto simp: mail_contact_def Let_def set_delivery_def upd_def split: option.splits)
  show "ok = (\<exists>m\<in>set (sf_mails s'). fst m = sid \<and> snd (snd (snd (snd m))))"
    using assms(3,4) by (auto simp: mail_contact_def Let_def set_delivery_def split: option.splits)
qed

lemma trigger_ok:
  assumes "safety_ok s" "new_id \<notin> so_id ` set (sf_sos s)" "trigger_sos sender number s now new_id i confirmed = (s', r)"
  shows "safety_ok s'"
proof (cases r)
  case (Inl e)
  with assms(1,3) trigger_error show ?thesis by blast
next
  case (Inr res)
  from assms(3)[unfolded Inr] show ?thesis
  proof (cases rule: trigger_InrE)
    case (repeated sid)
    then show ?thesis using recorded_alarm(1)[OF assms(1,2)] by blast
  next
    case (nobody sid)
    then show ?thesis using recorded_alarm(1)[OF assms(1,2)] by blast
  next
    case (told s1 sid c plan)
    note rec = recorded_alarm[OF assms(1,2) told(1)]
    from rec(2) have "sid \<in> so_id ` set (sf_sos s1)" by auto
    from mailing(1)[OF rec(1) this rec(3) told(4)] show ?thesis by simp
  qed
qed

lemma safety_step_ok: "safety_step s s' \<Longrightarrow> safety_ok s \<Longrightarrow> safety_ok s'"
proof (induction rule: safety_step.induct)
  case (contact_set parse s u c s' r)
  then have "sf_sos s' = sf_sos s" "sf_mails s' = sf_mails s"
    by (auto simp: set_contact_def repo_set_contact_def Let_def split: option.splits if_splits)
  with contact_set show ?case by (simp add: safety_ok_def)
next
  case (contact_deleted s u s' r)
  then have "sf_sos s' = sf_sos s" "sf_mails s' = sf_mails s"
    by (auto simp: delete_contact_def repo_delete_contact_def split: if_splits)
  with contact_deleted show ?case by (simp add: safety_ok_def)
next
  case (raised new_id s sender number now i confirmed s' r)
  then show ?case using trigger_ok by blast
next
  case (elsewhere s' s)
  then show ?case by (simp add: safety_ok_def)
qed

lemma safety_run_ok: "safety_step\<^sup>*\<^sup>* s s' \<Longrightarrow> safety_ok s \<Longrightarrow> safety_ok s'"
  by (induction rule: rtranclp_induct) (auto intro: safety_step_ok)

definition empty_safety :: safety_db where
  "empty_safety = \<lparr>sf_db = empty_db, sf_verified = [], sf_contacts = [], sf_sos = [], sf_mails = []\<rparr>"

text \<open>
  C32. Alarms are honest. In every run, whatever the clocks say, two alarms of one person
  are at least a minute apart and each is mailed at most once; an accepted press of the
  button returns an event of the caller, and says that the contact was notified exactly if
  the provider took the mail of that event.
\<close>

theorem sos_honest:
  assumes "safety_step\<^sup>*\<^sup>* empty_safety s" "new_id \<notin> so_id ` set (sf_sos s)"
    and "trigger_sos sender number s now new_id i confirmed = (s', Inr res)"
  shows "(\<exists>e\<in>set (sf_sos s'). so_id e = sr_id res \<and> so_user e = si_user i \<and> now - sos_dedupe < so_created e
      \<and> sr_notified res = (\<exists>m\<in>set (sf_mails s'). fst m = so_id e \<and> snd (snd (snd (snd m)))))
    \<and> apart (sf_sos s') \<and> distinct (map fst (sf_mails s')) \<and> sr_disclaimer res = disclaimer"
proof -
  have s: "safety_ok s" using safety_run_ok[OF assms(1)] by (simp add: safety_ok_def empty_safety_def apart_def)
  have s': "safety_ok s'" using trigger_ok[OF s assms(2,3)] .
  have mailed: "(case find (\<lambda>r. so_id r = so_id e) (sf_sos s') of None \<Rightarrow> False | Some r \<Rightarrow> so_delivery r = ''sent'')
      = (\<exists>m\<in>set (sf_mails s'). fst m = so_id e \<and> snd (snd (snd (snd m))))" if "e \<in> set (sf_sos s')" for e
    using that s' find_key_unique[of so_id "sf_sos s'" e] by (auto simp: safety_ok_def list_all_iff delivery_ok_def)
  have "(\<exists>e\<in>set (sf_sos s'). so_id e = sr_id res \<and> so_user e = si_user i \<and> now - sos_dedupe < so_created e
      \<and> sr_notified res = (\<exists>m\<in>set (sf_mails s'). fst m = so_id e \<and> snd (snd (snd (snd m))))) \<and> sr_disclaimer res = disclaimer"
    using assms(3)
  proof (cases rule: trigger_InrE)
    case (repeated sid)
    with recorded_alarm(2)[OF s assms(2) repeated(1)] mailed show ?thesis by fastforce
  next
    case (nobody sid)
    with recorded_alarm(2,3)[OF s assms(2) nobody(1)] show ?thesis by fastforce
  next
    case (told s1 sid c plan)
    note rec = recorded_alarm[OF s assms(2) told(1)]
    from rec(2) obtain e where e: "e \<in> set (sf_sos s1)" "so_id e = sid" "so_user e = si_user i" "now - sos_dedupe < so_created e" by auto
    then have "sid \<in> so_id ` set (sf_sos s1)" by auto
    note mail = mailing[OF rec(1) this rec(3) told(4)]
    from e(1) have "(so_id e, so_user e, so_created e) \<in> set (map (\<lambda>r. (so_id r, so_user r, so_created r)) (sf_sos s1))"
      by auto
    then have "(so_id e, so_user e, so_created e) \<in> set (map (\<lambda>r. (so_id r, so_user r, so_created r)) (sf_sos s'))"
      by (simp only: mail(3))
    then obtain e' where "e' \<in> set (sf_sos s')" "so_id e' = so_id e" "so_user e' = so_user e" "so_created e' = so_created e" by auto
    with e mail(4) told(2,3) show ?thesis by (intro conjI bexI[of _ e']) simp_all
  qed
  with s' show ?thesis by (simp add: safety_ok_def)
qed

definition alarm :: sos_input where
  "alarm = \<lparr>si_user = ''u'', si_plan = '''', si_lat = None, si_lng = None, si_note = ''help''\<rparr>"

definition friend :: contact where
  "friend = \<lparr>ec_name = ''Ann'', ec_email = ''a@x'', ec_phone = '''', ec_relation = ''''\<rparr>"

abbreviation alarm_1 :: safety_db where
  "alarm_1 \<equiv> fst (set_contact Some empty_safety ''u'' friend)"

lemma alarm_values:
  "sf_sos alarm_1 = []"
  "snd (trigger_sos (Some (\<lambda>_ _ _. None)) '''' alarm_1 hour ''s'' alarm True)
     = Inr \<lparr>sr_id = ''s'', sr_notified = True, sr_number = ''112'', sr_disclaimer = disclaimer\<rparr>"
proof -
  have a: "alarm_1 = empty_safety\<lparr>sf_contacts := [(''u'', friend)]\<rparr>"
    by (simp add: set_contact_def friend_def valid_phone_def trim_space_def is_space_def repo_set_contact_def contact_checks_def
        empty_safety_def Let_def)
  then show "sf_sos alarm_1 = []" by (simp add: empty_safety_def)
  show "snd (trigger_sos (Some (\<lambda>_ _ _. None)) '''' alarm_1 hour ''s'' alarm True)
     = Inr \<lparr>sr_id = ''s'', sr_notified = True, sr_number = ''112'', sr_disclaimer = disclaimer\<rparr>"
    unfolding a by (simp add: trigger_sos_def alarm_def location_valid_def record_sos_def between_def empty_safety_def
        repo_get_contact_def mail_contact_def Let_def emergency_number_def)
qed

lemma sos_honest_witness:
  "\<exists>m\<in>set (sf_mails (fst (trigger_sos (Some (\<lambda>_ _ _. None)) '''' alarm_1 hour ''s'' alarm True))). fst m = ''s''"
proof -
  have "safety_step empty_safety alarm_1" by (rule safety_step.contact_set[of Some _ "''u''" friend]) (simp add: prod_eq_iff)
  then have run: "safety_step\<^sup>*\<^sup>* empty_safety alarm_1" by blast
  have t: "trigger_sos (Some (\<lambda>_ _ _. None)) '''' alarm_1 hour ''s'' alarm True
      = (fst (trigger_sos (Some (\<lambda>_ _ _. None)) '''' alarm_1 hour ''s'' alarm True),
         Inr \<lparr>sr_id = ''s'', sr_notified = True, sr_number = ''112'', sr_disclaimer = disclaimer\<rparr>)"
    by (simp only: prod_eq_iff alarm_values(2) fst_conv snd_conv simp_thms)
  from sos_honest[OF run _ t] alarm_values(1) show ?thesis by (simp del: split_paired_Ex) metis
qed

section \<open>Inputs that pass the checks and fail in the database\<close>

text \<open>A longitude without a latitude is not looked at, and the alarm is lost.\<close>

lemma lone_longitude_loses_alarm:
  "snd (trigger_sos None '''' empty_safety 0 ''s'' (alarm\<lparr>si_lng := Some 500\<rparr>) True) = Inl DB_CheckViolation"
  by (simp add: trigger_sos_def alarm_def location_valid_def record_sos_def between_def empty_safety_def)

text \<open>A phone number may have any number of spaces and dashes, but the column holds twenty characters.\<close>

lemma spaced_phone_fails:
  "valid_phone ''+91 - 98 - 76 - 54 - 32''
   \<and> snd (set_contact Some empty_safety ''u'' (friend\<lparr>ec_phone := ''+91 - 98 - 76 - 54 - 32''\<rparr>)) = Inl DB_CheckViolation"
  by (simp add: set_contact_def friend_def valid_phone_def trim_space_def is_space_def repo_set_contact_def contact_checks_def
      is_digit_def Let_def)

end
