(* ===== verification/Reviews.thy ===== *)
theory Reviews
  imports Lifecycle Moderation
begin

text \<open>
  Reviews of plans (\<^verbatim>\<open>internal/reviews\<close>): one per attended booking, by its owner. The average
  is the exact quotient the database computes, before it becomes a \<^verbatim>\<open>float64\<close>.
\<close>

section \<open>Repository\<close>

record review_row =
  vw_id :: string
  vw_booking :: string
  vw_plan :: string
  vw_user :: string
  vw_rating :: int
  vw_comment :: string
  vw_created :: int

text \<open>The shared database's \<open>t_reviews\<close> lists the reviewed bookings for the booking package.\<close>

record review_db =
  rd_db :: db
  rd_reviews :: "review_row list"

definition get_by_booking :: "review_db \<Rightarrow> string \<Rightarrow> go_error + review_row" where
  "get_by_booking s bid = (case find (\<lambda>r. vw_booking r = bid) (rd_reviews s) of None \<Rightarrow> Inl DB_NoRows | Some r \<Rightarrow> Inr r)"

definition review_event :: "review_row \<Rightarrow> plan_row \<Rightarrow> event" where
  "review_event r p = \<lparr>ev_user = pl_host p, ev_actor = vw_user r, ev_type = ''review_received'', ev_target = vw_plan r,
     ev_title = ''{actor} rated your plan '' @ format_int (vw_rating r) @ [CHR 0xE2, CHR 0x98, CHR 0x85],
     ev_body = pl_title p, ev_link = ''hivemind://plans/'' @ vw_plan r, ev_dedupe = ''review:'' @ vw_id r\<rparr>"

definition repo_create_review ::
  "review_db \<Rightarrow> int \<Rightarrow> string \<Rightarrow> string \<Rightarrow> string \<Rightarrow> string \<Rightarrow> int \<Rightarrow> string \<Rightarrow> (review_db, review_row) outcome" where
  "repo_create_review s now new_id bid plan user rating comment =
    (if \<exists>r\<in>set (rd_reviews s). vw_booking r = bid then (s, get_by_booking s bid)
     else let r = \<lparr>vw_id = new_id, vw_booking = bid, vw_plan = plan, vw_user = user, vw_rating = rating,
                   vw_comment = comment, vw_created = now\<rparr>;
              d = (rd_db s)\<lparr>t_reviews := t_reviews (rd_db s) @ [bid]\<rparr>
          in (\<lparr>rd_db = (case plan_by_id d plan of None \<Rightarrow> d | Some p \<Rightarrow> fst (emit d now (review_event r p))),
               rd_reviews = rd_reviews s @ [r]\<rparr>, Inr r))"

definition list_reviews_for_plan :: "review_db \<Rightarrow> string \<Rightarrow> nat \<Rightarrow> review_row list \<times> rat" where
  "list_reviews_for_plan s plan limit =
    (let mine = filter (\<lambda>r. vw_plan r = plan) (rd_reviews s)
     in (take limit (sort_key (\<lambda>r. - vw_created r) mine), average (map vw_rating mine)))"

section \<open>Service\<close>

definition create_review ::
  "review_db \<Rightarrow> int \<Rightarrow> string \<Rightarrow> string \<Rightarrow> string \<Rightarrow> int \<Rightarrow> string \<Rightarrow> (review_db, review_row) outcome" where
  "create_review s now new_id bid caller rating comment =
    (if bid = '''' \<or> caller = '''' \<or> rating < 1 \<or> 5 < rating then (s, Inl (Reviews ReviewsInvalidInput))
     else case get_booking_for_review (rd_db s) bid of
       Inl e \<Rightarrow> (s, Inl e)
     | Inr (plan, user, st) \<Rightarrow>
         if user \<noteq> caller then (s, Inl (Reviews ReviewsForbidden))
         else if st \<noteq> Attended then (s, Inl (Reviews ReviewsNotAttended))
         else repo_create_review s now new_id bid plan user rating comment)"

definition get_plan_reviews :: "review_db \<Rightarrow> string \<Rightarrow> go_error + (review_row list \<times> rat)" where
  "get_plan_reviews s plan =
    (if plan = '''' then Inl (Reviews ReviewsInvalidInput) else Inr (list_reviews_for_plan s plan 50))"

section \<open>Only attendees review, once\<close>

text \<open>Reviews are written between the steps of the booking package.\<close>

inductive review_step :: "review_db \<Rightarrow> review_db \<Rightarrow> bool" where
  reviewing: "create_review s now new_id bid caller rating comment = (s', r) \<Longrightarrow> review_step s s'"
| booking: "booking_step d d' \<Longrightarrow> rd_db s = d \<Longrightarrow> review_step s (s\<lparr>rd_db := d'\<rparr>)"

definition review_ok :: "db \<Rightarrow> review_row \<Rightarrow> bool" where
  "review_ok d r \<longleftrightarrow> 1 \<le> vw_rating r \<and> vw_rating r \<le> 5
     \<and> (\<exists>b\<in>set (t_bookings d). bk_id b = vw_booking r \<and> bk_plan b = vw_plan r \<and> bk_user b = vw_user r \<and> bk_status b = Attended)"

definition reviews_ok :: "review_db \<Rightarrow> bool" where
  "reviews_ok s \<longleftrightarrow> bookings_inv (rd_db s) \<and> distinct (map vw_booking (rd_reviews s)) \<and> list_all (review_ok (rd_db s)) (rd_reviews s)"

lemma attended_stays:
  assumes "evolves d d'" "b \<in> set (t_bookings d)" "bk_status b = Attended"
  shows "\<exists>b'\<in>set (t_bookings d'). bk_id b' = bk_id b \<and> bk_plan b' = bk_plan b \<and> bk_user b' = bk_user b \<and> bk_status b' = Attended"
proof -
  obtain bs new where t: "t_bookings d' = bs @ new" "list_all2 row_step (t_bookings d) bs"
    using assms(1) by (auto simp: evolves_def)
  obtain i where "i < length (t_bookings d)" "b = t_bookings d ! i" using assms(2) by (auto simp: in_set_conv_nth)
  with t(2) have "bs ! i \<in> set bs \<and> row_step b (bs ! i)" by (simp add: list_all2_conv_all_nth)
  then obtain b' where "b' \<in> set bs" "row_step b b'" by blast
  moreover have "\<not> edge Attended st" for st using no_edge_from_final[of Attended st] by blast
  ultimately show ?thesis using assms(3) t(1) by (intro bexI[of _ b']) (auto simp: row_step_def)
qed

lemma review_ok_evolves: "evolves d d' \<Longrightarrow> review_ok d r \<Longrightarrow> review_ok d' r"
  using attended_stays unfolding review_ok_def by fastforce

lemma emit_wf: "wf_db (fst (emit s now e)) = wf_db s"
  by (simp add: wf_db_def)

lemma bookings_inv_reviews: "bookings_inv d \<Longrightarrow> bookings_inv (d\<lparr>t_reviews := x\<rparr>)"
  by (rule bookings_inv_cong[of d]) (simp_all add: bookings_inv_def wf_db_def)

lemma bookings_inv_emit: "bookings_inv d \<Longrightarrow> bookings_inv (fst (emit d now e))"
  by (rule bookings_inv_cong[of d]) (simp_all add: bookings_inv_def emit_wf)

lemma review_step_ok: "review_step s s' \<Longrightarrow> reviews_ok s \<Longrightarrow> reviews_ok s'"
proof (induction rule: review_step.induct)
  case (reviewing s now new_id bid caller rating comment s' r)
  show ?case
  proof (cases "s' = s")
    case True
    with reviewing show ?thesis by simp
  next
    case False
    obtain plan where new: "get_booking_for_review (rd_db s) bid = Inr (plan, caller, Attended)" "1 \<le> rating" "rating \<le> 5"
        "repo_create_review s now new_id bid plan caller rating comment = (s', r)"
      using reviewing(1) False by (auto simp: create_review_def split: if_splits sum.splits)
    have b: "\<exists>b\<in>set (t_bookings (rd_db s)). bk_id b = bid \<and> bk_plan b = plan \<and> bk_user b = caller \<and> bk_status b = Attended"
      using new(1) by (auto simp: get_booking_for_review_def service_get_booking_def get_booking_def scan_booking_def find_Some_iff
          split: if_splits sum.splits option.splits)
    let ?d = "(rd_db s)\<lparr>t_reviews := t_reviews (rd_db s) @ [bid]\<rparr>"
    let ?r = "\<lparr>vw_id = new_id, vw_booking = bid, vw_plan = plan, vw_user = caller, vw_rating = rating,
                   vw_comment = comment, vw_created = now\<rparr>"
    obtain d' where d': "s' = \<lparr>rd_db = d', rd_reviews = rd_reviews s @ [?r]\<rparr>" "d' = ?d \<or> (\<exists>e. d' = fst (emit ?d now e))"
        "bid \<notin> vw_booking ` set (rd_reviews s)"
      using new(4) False by (auto simp: repo_create_review_def Let_def split: if_splits option.splits)
    have same: "t_bookings d' = t_bookings (rd_db s)" using d'(2) by auto
    have "bookings_inv d'" using d'(2) reviewing(2)
      by (auto simp: reviews_ok_def intro: bookings_inv_reviews bookings_inv_emit)
    moreover have "review_ok d' x" if "x \<in> set (rd_reviews s @ [?r])" for x
      using that b new(2,3) reviewing(2) by (auto simp: reviews_ok_def list_all_iff review_ok_def same)
    ultimately show ?thesis using reviewing(2) d'(1,3) by (auto simp: reviews_ok_def list_all_iff)
  qed
next
  case (booking d d' s)
  then have "evolves d d'" "bookings_inv d'"
    using booking_step_evolves inv_wf booking_step_inv by (auto simp: reviews_ok_def)
  with booking show ?case using review_ok_evolves by (auto simp: reviews_ok_def list_all_iff)
qed

lemma average_bounds:
  assumes "xs \<noteq> []" "\<forall>x\<in>set xs. a \<le> x \<and> x \<le> b"
  shows "of_int a \<le> average xs \<and> average xs \<le> of_int b"
proof -
  have "int (length xs) * a \<le> sum_list xs \<and> sum_list xs \<le> int (length xs) * b"
    using assms(2) by (induction xs) (auto simp: algebra_simps)
  then have "of_int (int (length xs) * a) \<le> (of_int (sum_list xs) :: rat) \<and> of_int (sum_list xs) \<le> (of_int (int (length xs) * b) :: rat)"
    by (simp only: of_int_le_iff)
  with assms(1) show ?thesis by (simp add: average_def field_simps)
qed

text \<open>
  C33. Reviews come from the people who were there: after any interleaving of reviews with
  the steps of the booking package, the page of a plan holds at most fifty reviews, newest
  first, each by the owner of a booking of that plan that stands attended and with one
  review per booking, every rating from 1 to 5; the average is 0 for an unreviewed plan and
  between 1 and 5 otherwise.
\<close>

theorem reviews_by_attendees:
  assumes "review_step\<^sup>*\<^sup>* s s'" "reviews_ok s" "get_plan_reviews s' plan = Inr (page, avg)"
  shows "length page \<le> 50 \<and> sorted (map (\<lambda>r. - vw_created r) page) \<and> distinct (map vw_booking page)
    \<and> (\<forall>r\<in>set page. 1 \<le> vw_rating r \<and> vw_rating r \<le> 5 \<and> vw_plan r = plan
         \<and> (\<exists>b\<in>set (t_bookings (rd_db s')). bk_id b = vw_booking r \<and> bk_plan b = plan \<and> bk_user b = vw_user r \<and> bk_status b = Attended))
    \<and> (if page = [] then avg = 0 else 1 \<le> avg \<and> avg \<le> 5)"
proof -
  have ok: "reviews_ok s'" using assms(1,2) by (induction rule: rtranclp_induct) (auto intro: review_step_ok)
  let ?mine = "filter (\<lambda>r. vw_plan r = plan) (rd_reviews s')"
  let ?sorted = "sort_key (\<lambda>r. - vw_created r) ?mine"
  have pg: "page = take 50 ?sorted" and av: "avg = average (map vw_rating ?mine)"
    using assms(3) by (auto simp: get_plan_reviews_def list_reviews_for_plan_def Let_def split: if_splits)
  have mine: "\<forall>r\<in>set ?mine. review_ok (rd_db s') r \<and> vw_plan r = plan"
    using ok by (auto simp: reviews_ok_def list_all_iff)
  have "set page \<subseteq> set ?mine" unfolding pg using set_take_subset[of 50 ?sorted] by simp
  with mine have rows: "\<forall>r\<in>set page. review_ok (rd_db s') r \<and> vw_plan r = plan" by blast
  have "distinct (map vw_booking ?mine)" using ok distinct_map_filter unfolding reviews_ok_def by blast
  then have "distinct (map vw_booking ?sorted)" by (simp add: distinct_map)
  then have d: "distinct (map vw_booking page)" unfolding pg by (simp add: take_map[symmetric])
  have so: "sorted (map (\<lambda>r. - vw_created r) page)" unfolding pg by (simp add: take_map[symmetric] sorted_wrt_take)
  have empty: "page = [] \<longleftrightarrow> ?mine = []" unfolding pg by (metis length_0_conv length_sort take_eq_Nil zero_neq_numeral)
  have "if page = [] then avg = 0 else 1 \<le> avg \<and> avg \<le> 5"
  proof (cases "?mine = []")
    case True
    then show ?thesis using empty by (simp add: av average_def)
  next
    case False
    then have "map vw_rating ?mine \<noteq> []" by simp
    moreover have "\<forall>x\<in>set (map vw_rating ?mine). 1 \<le> x \<and> x \<le> 5" using mine unfolding review_ok_def set_map by blast
    ultimately have "of_int 1 \<le> avg \<and> avg \<le> of_int 5" unfolding av by (rule average_bounds)
    then show ?thesis using empty False by simp
  qed
  moreover have "length page \<le> 50" by (simp add: pg)
  moreover have "1 \<le> vw_rating r \<and> vw_rating r \<le> 5 \<and> vw_plan r = plan \<and> (\<exists>b\<in>set (t_bookings (rd_db s')).
      bk_id b = vw_booking r \<and> bk_plan b = plan \<and> bk_user b = vw_user r \<and> bk_status b = Attended)" if "r \<in> set page" for r
  proof -
    have "review_ok (rd_db s') r" and p: "vw_plan r = plan" using rows that by blast+
    then show ?thesis unfolding review_ok_def p by simp
  qed
  ultimately show ?thesis by (intro conjI ballI d so) blast+
qed

lemma reviews_by_attendees_witness:
  "let s = \<lparr>rd_db = empty_db\<lparr>t_plans := [sample_plan\<lparr>pl_confirmed := 1\<rparr>], t_bookings := [sample_booking\<lparr>bk_status := Attended\<rparr>]\<rparr>,
            rd_reviews = []\<rparr>;
       s' = fst (create_review s 7 ''r1'' ''b'' ''u'' 4 ''Lovely'')
   in map vw_rating (fst (list_reviews_for_plan s' ''p'' 50)) = [4] \<and> 1 \<le> snd (list_reviews_for_plan s' ''p'' 50)"
proof -
  define s where "s = \<lparr>rd_db = empty_db\<lparr>t_plans := [sample_plan\<lparr>pl_confirmed := 1\<rparr>],
      t_bookings := [sample_booking\<lparr>bk_status := Attended\<rparr>]\<rparr>, rd_reviews = []\<rparr>"
  define s' where "s' = fst (create_review s 7 ''r1'' ''b'' ''u'' 4 ''Lovely'')"
  have run: "review_step\<^sup>*\<^sup>* s s'" unfolding s'_def by (metis prod.collapse r_into_rtranclp reviewing)
  have ok: "reviews_ok s" by (simp add: s_def reviews_ok_def bookings_inv_def wf_db_def seats_ok_def seat_count_def samples)
  have read: "get_booking_for_review (rd_db s) ''b'' = Inr (''p'', ''u'', Attended)" "rd_reviews s = []"
    by (simp_all add: s_def get_booking_for_review_def service_get_booking_def get_booking_def scan_booking_def samples)
  have "rd_reviews s' = [\<lparr>vw_id = ''r1'', vw_booking = ''b'', vw_plan = ''p'', vw_user = ''u'', vw_rating = 4,
      vw_comment = ''Lovely'', vw_created = 7\<rparr>]"
    by (simp add: s'_def create_review_def read repo_create_review_def Let_def)
  then have one: "map vw_rating (fst (list_reviews_for_plan s' ''p'' 50)) = [4]"
    by (simp add: list_reviews_for_plan_def)
  then have "fst (list_reviews_for_plan s' ''p'' 50) \<noteq> []" by auto
  then have "1 \<le> snd (list_reviews_for_plan s' ''p'' 50)"
    using reviews_by_attendees[OF run ok, of "''p''" "fst (list_reviews_for_plan s' ''p'' 50)" "snd (list_reviews_for_plan s' ''p'' 50)"]
    by (simp add: get_plan_reviews_def)
  with one show ?thesis by (simp add: s'_def s_def Let_def)
qed

end
