(* ===== verification/Stories.thy ===== *)
theory Stories
  imports Moderation
begin

text \<open>
  Stories (\<^verbatim>\<open>internal/stories\<close>): pictures shown for a day to the author's connections or to one
  community, with views and likes. The media resolver, the word list of the screener and the
  test that a text is a JSON object are arguments; thumbnails and sizes of the media are not
  columns of the model.
\<close>

section \<open>State\<close>

record story_row =
  sy_id :: string
  sy_author :: string
  sy_media :: string
  sy_url :: string
  sy_kind :: string
  sy_caption :: string
  sy_audience :: string
  sy_community :: "string option"
  sy_keep :: bool
  sy_edits :: string
  sy_created :: int
  sy_expires :: int

record story_input =
  ti_author :: string
  ti_media :: string
  ti_caption :: string
  ti_audience :: string
  ti_community :: string
  ti_keep :: bool
  ti_edits :: string

record story_shown =
  tv_row :: story_row
  tv_name :: string
  tv_likes :: int
  tv_liked :: bool
  tv_viewers :: int

record story_seen =
  yv_story :: string
  yv_viewer :: string
  yv_at :: int

record stories_db =
  sd_db :: db
  sd_stories :: "story_row list"
  sd_views :: "story_seen list"
  sd_likes :: "(string \<times> string) list"

section \<open>Repository\<close>

definition story_lifetime :: int where "story_lifetime = 24 * hour"

definition scan_story :: "stories_db \<Rightarrow> string \<Rightarrow> story_row \<Rightarrow> story_shown" where
  "scan_story s v x = \<lparr>tv_row = x, tv_name = profile_name (sd_db s) (sy_author x),
     tv_likes = cnt (\<lambda>l. fst l = sy_id x) (sd_likes s), tv_liked = ((sy_id x, v) \<in> set (sd_likes s)),
     tv_viewers = cnt (\<lambda>w. yv_story w = sy_id x) (sd_views s)\<rparr>"

definition story_member :: "db \<Rightarrow> string \<Rightarrow> string \<Rightarrow> bool" where
  "story_member s c u \<longleftrightarrow> (c, u) \<in> set (t_members s)"

text \<open>The checks of the table (migration 0042).\<close>

definition repo_create_story ::
  "stories_db \<Rightarrow> int \<Rightarrow> string \<Rightarrow> story_input \<Rightarrow> media_asset \<Rightarrow> (stories_db, story_row) outcome" where
  "repo_create_story s now new_id st a =
    (let x = \<lparr>sy_id = new_id, sy_author = ti_author st, sy_media = ti_media st, sy_url = ma_url a, sy_kind = ma_kind a,
           sy_caption = ti_caption st, sy_audience = ti_audience st, sy_community = nullif (ti_community st),
           sy_keep = ti_keep st, sy_edits = ti_edits st, sy_created = now, sy_expires = now + story_lifetime\<rparr>
     in if 2048 < length (sy_url x) \<or> sy_kind x \<notin> {''image'', ''video''} \<or> 500 < length (sy_caption x)
           \<or> (sy_audience x = ''community'') \<noteq> (sy_community x \<noteq> None)
        then (s, Inl DB_CheckViolation) else (s\<lparr>sd_stories := sd_stories s @ [x]\<rparr>, Inr x))"

text \<open>\<open>visiblePred\<close>: the rule for who may see a story.\<close>

definition visible_story :: "db \<Rightarrow> string \<Rightarrow> int \<Rightarrow> story_row \<Rightarrow> bool" where
  "visible_story s v now x \<longleftrightarrow> now < sy_expires x \<and> (sy_author x = v \<or> (\<not> blocked s v (sy_author x)
     \<and> ((sy_audience x = ''connections'' \<and> connected s v (sy_author x))
        \<or> (sy_audience x = ''community'' \<and> (case sy_community x of None \<Rightarrow> False | Some c \<Rightarrow> (c, v) \<in> set (t_members s))))))"

definition repo_list_visible :: "stories_db \<Rightarrow> string \<Rightarrow> int \<Rightarrow> story_shown list" where
  "repo_list_visible s v now =
     map (scan_story s v) (sort_key (\<lambda>x. sy_author x \<noteq> v) (sort_key sy_author (sort_key sy_created
       (filter (visible_story (sd_db s) v now) (sd_stories s)))))"

definition repo_list_mine :: "stories_db \<Rightarrow> string \<Rightarrow> bool \<Rightarrow> int \<Rightarrow> story_shown list" where
  "repo_list_mine s u expired now =
     map (scan_story s u) (sort_key (\<lambda>x. - sy_created x)
       (filter (\<lambda>x. sy_author x = u \<and> (now < sy_expires x \<or> (expired \<and> sy_keep x))) (sd_stories s)))"

text \<open>Views and likes go with their story.\<close>

definition remove_stories :: "(story_row \<Rightarrow> bool) \<Rightarrow> stories_db \<Rightarrow> stories_db" where
  "remove_stories P s =
    (let gone = map sy_id (filter P (sd_stories s))
     in s\<lparr>sd_stories := filter (\<lambda>x. \<not> P x) (sd_stories s),
          sd_views := filter (\<lambda>w. yv_story w \<notin> set gone) (sd_views s),
          sd_likes := filter (\<lambda>l. fst l \<notin> set gone) (sd_likes s)\<rparr>)"

abbreviation story_by_id :: "stories_db \<Rightarrow> string \<Rightarrow> story_row option" where
  "story_by_id s i \<equiv> find (\<lambda>x. sy_id x = i) (sd_stories s)"

definition repo_delete_story :: "stories_db \<Rightarrow> string \<Rightarrow> string \<Rightarrow> (stories_db, unit) outcome" where
  "repo_delete_story s i u =
    (case story_by_id s i of
       None \<Rightarrow> (s, Inl (Stories StoriesNotFound))
     | Some x \<Rightarrow> if sy_author x \<noteq> u then (s, Inl (Stories StoriesForbidden))
                 else (remove_stories (\<lambda>x. sy_id x = i \<and> sy_author x = u) s, Inr ()))"

definition purge_expired :: "stories_db \<Rightarrow> int \<Rightarrow> stories_db \<times> int" where
  "purge_expired s now =
    (let P = (\<lambda>x. sy_expires x \<le> now \<and> \<not> sy_keep x) in (remove_stories P s, cnt P (sd_stories s)))"

definition can_see :: "stories_db \<Rightarrow> string \<Rightarrow> string \<Rightarrow> int \<Rightarrow> go_error + string" where
  "can_see s i v now = (case find (\<lambda>x. sy_id x = i \<and> visible_story (sd_db s) v now x) (sd_stories s) of
     None \<Rightarrow> Inl (Stories StoriesNotFound) | Some x \<Rightarrow> Inr (sy_author x))"

definition record_view :: "stories_db \<Rightarrow> int \<Rightarrow> string \<Rightarrow> string \<Rightarrow> stories_db \<times> bool" where
  "record_view s now i v =
    (if \<exists>w\<in>set (sd_views s). yv_story w = i \<and> yv_viewer w = v then (s, False)
     else (s\<lparr>sd_views := sd_views s @ [\<lparr>yv_story = i, yv_viewer = v, yv_at = now\<rparr>]\<rparr>, True))"

definition repo_set_like :: "stories_db \<Rightarrow> string \<Rightarrow> string \<Rightarrow> bool \<Rightarrow> stories_db \<times> int \<times> bool" where
  "repo_set_like s i u like =
    (let has = (i, u) \<in> set (sd_likes s);
         s1 = (if like then (if has then s else s\<lparr>sd_likes := sd_likes s @ [(i, u)]\<rparr>)
               else s\<lparr>sd_likes := filter (\<lambda>l. l \<noteq> (i, u)) (sd_likes s)\<rparr>)
     in (s1, cnt (\<lambda>l. fst l = i) (sd_likes s1), like \<and> \<not> has))"

record story_viewer =
  wv_user :: string
  wv_name :: string
  wv_at :: int
  wv_liked :: bool

definition repo_list_viewers :: "stories_db \<Rightarrow> string \<Rightarrow> nat \<Rightarrow> story_viewer list" where
  "repo_list_viewers s i limit =
     take limit (map (\<lambda>w. \<lparr>wv_user = yv_viewer w, wv_name = profile_name (sd_db s) (yv_viewer w), wv_at = yv_at w,
         wv_liked = ((i, yv_viewer w) \<in> set (sd_likes s))\<rparr>)
       (sort_key (\<lambda>w. - yv_at w) (filter (\<lambda>w. yv_story w = i
          \<and> (case story_by_id s i of None \<Rightarrow> True | Some x \<Rightarrow> \<not> blocked (sd_db s) (yv_viewer w) (sy_author x))) (sd_views s))))"

definition is_story_author :: "stories_db \<Rightarrow> string \<Rightarrow> string \<Rightarrow> bool" where
  "is_story_author s i u \<longleftrightarrow> (\<exists>x\<in>set (sd_stories s). sy_id x = i \<and> sy_author x = u)"

section \<open>Service\<close>

definition max_edits_bytes :: nat where "max_edits_bytes = 8192"

definition valid_edits :: "(string \<Rightarrow> bool) \<Rightarrow> string \<Rightarrow> string option" where
  "valid_edits is_object e =
    (if e = '''' then Some ''{}'' else if max_edits_bytes < length e \<or> \<not> is_object e then None else Some e)"

text \<open>A resolver that answers with no asset makes \<^verbatim>\<open>assets[0]\<close> panic.\<close>

definition create_story ::
  "media_resolver option \<Rightarrow> string list \<Rightarrow> (string \<Rightarrow> bool) \<Rightarrow> stories_db \<Rightarrow> int \<Rightarrow> string \<Rightarrow> story_input
    \<Rightarrow> (stories_db, story_row) outcome" where
  "create_story media words is_object s now new_id st =
    (case valid_edits is_object (ti_edits st) of
       None \<Rightarrow> (s, Inl (Stories StoriesInvalidInput))
     | Some edits \<Rightarrow>
         if ti_author st = '''' \<or> ti_media st = '''' \<or> 500 < length (ti_caption st) then (s, Inl (Stories StoriesInvalidInput))
         else if ti_audience st \<noteq> ''connections'' \<and> ti_audience st \<noteq> ''community'' then (s, Inl (Stories StoriesInvalidInput))
         else if (ti_audience st = ''community'') \<noteq> (ti_community st \<noteq> '''') then (s, Inl (Stories StoriesInvalidInput))
         else if ti_community st \<noteq> '''' \<and> \<not> story_member (sd_db s) (ti_community st) (ti_author st)
         then (s, Inl (Stories StoriesNotMember))
         else case media of
           None \<Rightarrow> (s, Inl (Stories StoriesMediaUnavailable))
         | Some claim \<Rightarrow>
             (case claim (ti_author st) [ti_media st] of
                Inl e \<Rightarrow> (s, Inl (if e = Media MediaNotFound then Stories StoriesInvalidInput else e))
              | Inr [] \<Rightarrow> (s, Inl (Gateway_Error ''index out of range''))
              | Inr (a # _) \<Rightarrow>
                  if fst (screen words (ti_caption st)) \<in> {''severe'', ''review''}
                  then (s, Inl (Stories StoriesContentRejected))
                  else repo_create_story s now new_id (st\<lparr>ti_edits := edits\<rparr>) a))"

record story_group =
  yg_author :: string
  yg_name :: string
  yg_stories :: "story_shown list"

fun group_loop :: "story_shown list \<Rightarrow> story_group list \<Rightarrow> story_group list" where
  "group_loop [] out = out"
| "group_loop (t # ts) out =
    (let out1 = (if out = [] \<or> yg_author (last out) \<noteq> sy_author (tv_row t)
                 then out @ [\<lparr>yg_author = sy_author (tv_row t), yg_name = tv_name t, yg_stories = []\<rparr>] else out);
         g = last out1
     in group_loop ts (butlast out1 @ [g\<lparr>yg_stories := yg_stories g @ [t]\<rparr>]))"

definition list_stories :: "stories_db \<Rightarrow> string \<Rightarrow> int \<Rightarrow> go_error + story_group list" where
  "list_stories s v now =
    (if v = '''' then Inl (Stories StoriesInvalidInput) else Inr (group_loop (repo_list_visible s v now) []))"

definition list_my_stories :: "stories_db \<Rightarrow> string \<Rightarrow> bool \<Rightarrow> int \<Rightarrow> go_error + story_shown list" where
  "list_my_stories s u expired now =
    (if u = '''' then Inl (Stories StoriesInvalidInput) else Inr (repo_list_mine s u expired now))"

definition delete_story :: "stories_db \<Rightarrow> string \<Rightarrow> string \<Rightarrow> (stories_db, unit) outcome" where
  "delete_story s i u = (if i = '''' \<or> u = '''' then (s, Inl (Stories StoriesInvalidInput)) else repo_delete_story s i u)"

definition story_event :: "string \<Rightarrow> string \<Rightarrow> string \<Rightarrow> string \<Rightarrow> string \<Rightarrow> string \<Rightarrow> event" where
  "story_event type title key author actor i = \<lparr>ev_user = author, ev_actor = actor, ev_type = type, ev_target = i,
     ev_title = title, ev_body = '''', ev_link = ''hivemind://stories/'' @ author, ev_dedupe = key @ i @ '':'' @ actor\<rparr>"

definition story_notify :: "stories_db \<Rightarrow> int \<Rightarrow> event \<Rightarrow> stories_db" where
  "story_notify s now e = s\<lparr>sd_db := fst (emit (sd_db s) now e)\<rparr>"

definition mark_viewed :: "stories_db \<Rightarrow> int \<Rightarrow> string \<Rightarrow> string \<Rightarrow> (stories_db, unit) outcome" where
  "mark_viewed s now i v =
    (if i = '''' \<or> v = '''' then (s, Inl (Stories StoriesInvalidInput))
     else case can_see s i v now of
       Inl e \<Rightarrow> (s, Inl e)
     | Inr author \<Rightarrow>
         if author = v then (s, Inr ())
         else case record_view s now i v of (s1, first) \<Rightarrow>
           (if first then story_notify s1 now (story_event ''story_view'' ''{actor} viewed your story'' ''storyview:'' author v i)
            else s1, Inr ()))"

definition like_story :: "stories_db \<Rightarrow> int \<Rightarrow> string \<Rightarrow> string \<Rightarrow> bool \<Rightarrow> (stories_db, int) outcome" where
  "like_story s now i u like =
    (if i = '''' \<or> u = '''' then (s, Inl (Stories StoriesInvalidInput))
     else case can_see s i u now of
       Inl e \<Rightarrow> (s, Inl e)
     | Inr author \<Rightarrow>
         (case repo_set_like s i u like of (s1, n, inserted) \<Rightarrow>
           (if inserted \<and> author \<noteq> u
            then story_notify s1 now (story_event ''story_like'' ''{actor} liked your story'' ''storylike:'' author u i)
            else s1, Inr n)))"

definition list_viewers :: "stories_db \<Rightarrow> string \<Rightarrow> string \<Rightarrow> go_error + story_viewer list" where
  "list_viewers s i u =
    (if i = '''' \<or> u = '''' then Inl (Stories StoriesInvalidInput)
     else if \<not> is_story_author s i u then Inl (Stories StoriesForbidden)
     else Inr (repo_list_viewers s i 200))"

section \<open>Runs\<close>

definition no_stories :: "db \<Rightarrow> stories_db" where
  "no_stories d = \<lparr>sd_db = d, sd_stories = [], sd_views = [], sd_likes = []\<rparr>"

inductive stories_step :: "stories_db \<Rightarrow> stories_db \<Rightarrow> bool" where
  created: "new_id \<notin> sy_id ` set (sd_stories s) \<Longrightarrow> create_story media words is_object s now new_id st = (s', r)
    \<Longrightarrow> stories_step s s'"
| deleted: "delete_story s i u = (s', r) \<Longrightarrow> stories_step s s'"
| purged: "purge_expired s now = (s', n) \<Longrightarrow> stories_step s s'"
| viewed: "mark_viewed s now i v = (s', r) \<Longrightarrow> stories_step s s'"
| liked: "like_story s now i u like = (s', r) \<Longrightarrow> stories_step s s'"
| elsewhere: "stories_step s (s\<lparr>sd_db := d\<rparr>)"

definition story_ok :: "story_row \<Rightarrow> bool" where
  "story_ok x \<longleftrightarrow> sy_expires x = sy_created x + story_lifetime
     \<and> (sy_audience x = ''community'') = (sy_community x \<noteq> None)"

definition stories_ok :: "stories_db \<Rightarrow> bool" where
  "stories_ok s \<longleftrightarrow> distinct (map sy_id (sd_stories s)) \<and> list_all story_ok (sd_stories s)
     \<and> distinct (map (\<lambda>w. (yv_story w, yv_viewer w)) (sd_views s)) \<and> distinct (sd_likes s)
     \<and> (\<forall>w\<in>set (sd_views s). \<exists>x\<in>set (sd_stories s). sy_id x = yv_story w \<and> sy_author x \<noteq> yv_viewer w)
     \<and> (\<forall>l\<in>set (sd_likes s). fst l \<in> sy_id ` set (sd_stories s))"

lemma story_notify_fields [simp]:
  "sd_stories (story_notify s now e) = sd_stories s" "sd_views (story_notify s now e) = sd_views s"
  "sd_likes (story_notify s now e) = sd_likes s"
  by (simp_all add: story_notify_def)

lemma stories_ok_cong:
  "sd_stories s' = sd_stories s \<Longrightarrow> sd_views s' = sd_views s \<Longrightarrow> sd_likes s' = sd_likes s \<Longrightarrow> stories_ok s' = stories_ok s"
  by (simp add: stories_ok_def)

lemma remove_fields:
  "sd_db (remove_stories P s) = sd_db s" "sd_stories (remove_stories P s) = filter (\<lambda>x. \<not> P x) (sd_stories s)"
  "sd_views (remove_stories P s) = filter (\<lambda>w. yv_story w \<notin> sy_id ` {x \<in> set (sd_stories s). P x}) (sd_views s)"
  "sd_likes (remove_stories P s) = filter (\<lambda>l. fst l \<notin> sy_id ` {x \<in> set (sd_stories s). P x}) (sd_likes s)"
  by (simp_all add: remove_stories_def Let_def)

lemma remove_ok:
  assumes "stories_ok s"
  shows "stories_ok (remove_stories P s)"
proof -
  let ?gone = "sy_id ` {x \<in> set (sd_stories s). P x}"
  have kept: "\<not> P x" if "x \<in> set (sd_stories s)" "sy_id x \<notin> ?gone" for x using that by blast
  have "\<exists>x\<in>set (sd_stories s). \<not> P x \<and> sy_id x = yv_story w \<and> sy_author x \<noteq> yv_viewer w"
    if w: "w \<in> set (sd_views s)" "yv_story w \<notin> ?gone" for w
  proof -
    from assms w(1) obtain x where "x \<in> set (sd_stories s)" "sy_id x = yv_story w" "sy_author x \<noteq> yv_viewer w"
      by (auto simp: stories_ok_def)
    with kept[of x] w(2) show ?thesis by metis
  qed
  then have v: "\<forall>w\<in>set (sd_views (remove_stories P s)).
      \<exists>x\<in>set (sd_stories (remove_stories P s)). sy_id x = yv_story w \<and> sy_author x \<noteq> yv_viewer w"
    unfolding remove_fields set_filter by blast
  have "\<exists>x\<in>set (sd_stories s). \<not> P x \<and> fst l = sy_id x" if l: "l \<in> set (sd_likes s)" "fst l \<notin> ?gone" for l
  proof -
    from assms l(1) obtain x where "x \<in> set (sd_stories s)" "fst l = sy_id x" by (auto simp: stories_ok_def)
    with kept[of x] l(2) show ?thesis by metis
  qed
  then have l: "\<forall>l\<in>set (sd_likes (remove_stories P s)). fst l \<in> sy_id ` set (sd_stories (remove_stories P s))"
    unfolding remove_fields set_filter by blast
  show ?thesis using assms v l
    unfolding stories_ok_def remove_fields by (simp add: list_all_iff distinct_map_filter)
qed

lemma find_hit: "find P xs = Some x \<Longrightarrow> x \<in> set xs \<and> P x"
  by (induction xs) (auto split: if_splits)

lemma can_see_Inr:
  assumes "can_see s i v now = Inr author"
  obtains x where "x \<in> set (sd_stories s)" "sy_id x = i" "sy_author x = author" "visible_story (sd_db s) v now x"
  using assms by (auto simp: can_see_def dest!: find_hit split: option.splits)

lemma mark_viewed_ok:
  assumes "stories_ok s" "mark_viewed s now i v = (s', r)"
  shows "stories_ok s'"
proof (cases "s' = s")
  case False
  obtain author where a: "can_see s i v now = Inr author" "author \<noteq> v" "\<not> (\<exists>w\<in>set (sd_views s). yv_story w = i \<and> yv_viewer w = v)"
      "sd_stories s' = sd_stories s" "sd_likes s' = sd_likes s"
      "sd_views s' = sd_views s @ [\<lparr>yv_story = i, yv_viewer = v, yv_at = now\<rparr>]"
    using assms(2) False by (auto simp: mark_viewed_def record_view_def split: if_splits sum.splits)
  from can_see_Inr[OF a(1)] obtain x where "x \<in> set (sd_stories s)" "sy_id x = i" "sy_author x = author" by metis
  with assms(1) a show ?thesis by (auto simp: stories_ok_def image_iff)
qed (use assms(1) in simp)

lemma like_story_effect:
  assumes "like_story s now i u like = (s', r)"
  shows "s' = s \<or> (\<exists>author. can_see s i u now = Inr author \<and> sd_stories s' = sd_stories s \<and> sd_views s' = sd_views s
    \<and> sd_likes s' = sd_likes (fst (repo_set_like s i u like)))"
proof (cases "can_see s i u now")
  case (Inr author)
  have "sd_stories (fst (repo_set_like s i u like)) = sd_stories s" "sd_views (fst (repo_set_like s i u like)) = sd_views s"
    by (simp_all add: repo_set_like_def Let_def)
  with Inr assms show ?thesis by (auto simp: like_story_def case_prod_beta split: if_splits)
qed (use assms in \<open>auto simp: like_story_def split: if_splits\<close>)

lemma like_story_ok:
  assumes "stories_ok s" "like_story s now i u like = (s', r)"
  shows "stories_ok s'"
  using like_story_effect[OF assms(2)]
proof (elim disjE exE conjE)
  fix author
  assume a: "can_see s i u now = Inr author" "sd_stories s' = sd_stories s" "sd_views s' = sd_views s"
    "sd_likes s' = sd_likes (fst (repo_set_like s i u like))"
  have c: "sd_likes s' = sd_likes s \<or> sd_likes s' = filter (\<lambda>l. l \<noteq> (i, u)) (sd_likes s)
      \<or> ((i, u) \<notin> set (sd_likes s) \<and> sd_likes s' = sd_likes s @ [(i, u)])"
    unfolding a(4) by (simp add: repo_set_like_def Let_def)
  obtain x where "x \<in> set (sd_stories s)" "sy_id x = i" using can_see_Inr[OF a(1)] by metis
  then have "i \<in> sy_id ` set (sd_stories s)" by blast
  with assms(1) c have "distinct (sd_likes s')" "\<forall>l\<in>set (sd_likes s'). fst l \<in> sy_id ` set (sd_stories s)"
    unfolding stories_ok_def by (elim disjE conjE; simp)+
  then show ?thesis using assms(1) a(2,3) by (simp add: stories_ok_def)
qed (use assms(1) in simp)

lemma create_story_ok:
  assumes "stories_ok s" "new_id \<notin> sy_id ` set (sd_stories s)" "create_story media words is_object s now new_id st = (s', r)"
  shows "stories_ok s'"
proof (cases "s' = s")
  case False
  then obtain x where "sd_stories s' = sd_stories s @ [x]" "sd_views s' = sd_views s" "sd_likes s' = sd_likes s"
      "sy_id x = new_id" "story_ok x"
    using assms(3) unfolding create_story_def repo_create_story_def Let_def
    by (auto simp: story_ok_def split: if_splits sum.splits option.splits list.splits)
  with assms(1,2) show ?thesis by (auto simp: stories_ok_def)
qed (use assms(1) in simp)

lemma stories_step_ok: "stories_step s s' \<Longrightarrow> stories_ok s \<Longrightarrow> stories_ok s'"
proof (induction rule: stories_step.induct)
  case (deleted s i u s' r)
  then have "s' = s \<or> (\<exists>P. s' = remove_stories P s)"
    by (auto simp: delete_story_def repo_delete_story_def split: if_splits option.splits)
  with deleted remove_ok show ?case by auto
next
  case (purged s now s' n)
  then show ?case using remove_ok by (auto simp: purge_expired_def Let_def)
next
  case (elsewhere s d)
  then show ?case by (simp add: stories_ok_def)
qed (auto intro: create_story_ok mark_viewed_ok like_story_ok)

lemma stories_run_ok: "stories_step\<^sup>*\<^sup>* (no_stories d) s \<Longrightarrow> stories_ok s"
proof (induction rule: rtranclp_induct)
  case base
  show ?case by (simp add: no_stories_def stories_ok_def)
qed (rule stories_step_ok)

section \<open>Grouping\<close>

text \<open>The order of the groups: the viewer's own first, then by author.\<close>

definition before :: "string \<Rightarrow> string \<Rightarrow> string \<Rightarrow> bool" where
  "before v a b \<longleftrightarrow> b \<noteq> v \<and> (a = v \<or> a < b)"

lemma before_trans: "before v a b \<Longrightarrow> before v b c \<Longrightarrow> before v a c"
  by (auto simp: before_def)

lemma group_loop_concat: "concat (map yg_stories (group_loop ts out)) = concat (map yg_stories out) @ ts"
proof (induction ts out rule: group_loop.induct)
  case (2 t ts out)
  define out1 where "out1 = (if out = [] \<or> yg_author (last out) \<noteq> sy_author (tv_row t)
                 then out @ [\<lparr>yg_author = sy_author (tv_row t), yg_name = tv_name t, yg_stories = []\<rparr>] else out)"
  have "out1 \<noteq> []" and c: "concat (map yg_stories out1) = concat (map yg_stories out)" by (auto simp: out1_def)
  then obtain init g where g: "out1 = init @ [g]" by (metis append_butlast_last_id)
  have "group_loop (t # ts) out = group_loop ts (init @ [g\<lparr>yg_stories := yg_stories g @ [t]\<rparr>])"
    unfolding group_loop.simps out1_def[symmetric] Let_def by (simp add: g)
  with 2[OF out1_def refl] c show ?case by (simp add: g)
qed simp

lemma group_loop_own:
  "(\<forall>g\<in>set out. \<forall>t\<in>set (yg_stories g). sy_author (tv_row t) = yg_author g)
    \<Longrightarrow> \<forall>g\<in>set (group_loop ts out). \<forall>t\<in>set (yg_stories g). sy_author (tv_row t) = yg_author g"
proof (induction ts out rule: group_loop.induct)
  case (2 t ts out)
  define out1 where "out1 = (if out = [] \<or> yg_author (last out) \<noteq> sy_author (tv_row t)
                 then out @ [\<lparr>yg_author = sy_author (tv_row t), yg_name = tv_name t, yg_stories = []\<rparr>] else out)"
  have "out1 \<noteq> []" and c: "\<forall>g\<in>set out1. \<forall>t\<in>set (yg_stories g). sy_author (tv_row t) = yg_author g"
      and l: "yg_author (last out1) = sy_author (tv_row t)"
    using 2(2) by (auto simp: out1_def)
  then obtain init g where g: "out1 = init @ [g]" by (metis append_butlast_last_id)
  have e: "group_loop (t # ts) out = group_loop ts (init @ [g\<lparr>yg_stories := yg_stories g @ [t]\<rparr>])"
    unfolding group_loop.simps out1_def[symmetric] Let_def by (simp add: g)
  have "\<forall>g\<in>set (init @ [g\<lparr>yg_stories := yg_stories g @ [t]\<rparr>]). \<forall>t\<in>set (yg_stories g). sy_author (tv_row t) = yg_author g"
    using c l by (auto simp: g)
  with 2(1)[OF out1_def refl] show ?case unfolding e by (simp add: g)
qed simp

lemma group_loop_sorted:
  "sorted_wrt (before v) (map yg_author out)
    \<Longrightarrow> sorted_wrt (\<lambda>a b. a = b \<or> before v a b) (map yg_author out @ map (\<lambda>t. sy_author (tv_row t)) ts)
    \<Longrightarrow> sorted_wrt (before v) (map yg_author (group_loop ts out))"
proof (induction ts out rule: group_loop.induct)
  case (2 t ts out)
  let ?a = "sy_author (tv_row t)"
  define out1 where "out1 = (if out = [] \<or> yg_author (last out) \<noteq> ?a
                 then out @ [\<lparr>yg_author = ?a, yg_name = tv_name t, yg_stories = []\<rparr>] else out)"
  have n: "out1 \<noteq> []" by (auto simp: out1_def)
  have e: "group_loop (t # ts) out = group_loop ts (butlast out1 @ [(last out1)\<lparr>yg_stories := yg_stories (last out1) @ [t]\<rparr>])"
    unfolding group_loop.simps out1_def[symmetric] Let_def by simp
  have au: "map yg_author (butlast out1 @ [(last out1)\<lparr>yg_stories := yg_stories (last out1) @ [t]\<rparr>]) = map yg_author out1"
    using n by (cases out1 rule: rev_cases) auto
  have one: "sorted_wrt (before v) (map yg_author out1)"
  proof (cases "out = [] \<or> yg_author (last out) \<noteq> ?a")
    case True
    have "before v b ?a" if b: "b \<in> set (map yg_author out)" for b
    proof -
      obtain init l where out: "out = init @ [l]" using b by (cases out rule: rev_cases) auto
      have "before v (yg_author l) ?a" using 2(3) True by (auto simp: out sorted_wrt_append)
      then show ?thesis using b 2(2) before_trans by (auto simp: out sorted_wrt_append)
    qed
    then show ?thesis using 2(2) True by (auto simp: out1_def sorted_wrt_append)
  qed (use 2(2) in \<open>simp add: out1_def\<close>)
  have "sorted_wrt (\<lambda>a b. a = b \<or> before v a b) (map yg_author out1 @ map (\<lambda>t. sy_author (tv_row t)) ts)"
    using 2(3) by (auto simp: out1_def sorted_wrt_append)
  with 2(1)[OF out1_def refl] one show ?case unfolding e au by blast
qed simp

lemma insort_bool:
  assumes "\<forall>a\<in>set as. \<not> P a" "\<forall>b\<in>set bs. P b"
  shows "insort_key P x (as @ bs) = (if P x then as @ x # bs else x # as @ bs)"
proof -
  have "insort_key P x bs = x # bs" using assms(2) by (cases bs) simp_all
  then have "P x \<Longrightarrow> insort_key P x (as @ bs) = as @ x # bs" using assms(1) by (induction as) simp_all
  moreover have "\<not> P x \<Longrightarrow> insort_key P x (as @ bs) = x # as @ bs" by (cases "as @ bs") simp_all
  ultimately show ?thesis by simp
qed

lemma sort_key_bool: "sort_key P xs = filter (\<lambda>x. \<not> P x) xs @ filter P xs"
proof (induction xs)
  case (Cons x xs)
  have "insort_key P x (filter (\<lambda>x. \<not> P x) xs @ filter P xs)
      = (if P x then filter (\<lambda>x. \<not> P x) xs @ x # filter P xs else x # filter (\<lambda>x. \<not> P x) xs @ filter P xs)"
    by (rule insort_bool) simp_all
  with Cons show ?case by simp
qed simp

lemma sorted_same: "(\<And>x. x \<in> set xs \<Longrightarrow> f x = v) \<Longrightarrow> sorted_wrt (\<lambda>a b. a = b \<or> R a b) (map f xs)"
  by (induction xs) auto

lemma before_distinct: "sorted_wrt (before v) xs \<Longrightarrow> distinct xs"
  by (induction xs) (auto simp: before_def)

text \<open>The rows of the list in their order, and the order within one author.\<close>

lemma visible_rows:
  fixes s v now
  defines "rows \<equiv> map tv_row (repo_list_visible s v now)"
  shows "set rows = {x \<in> set (sd_stories s). visible_story (sd_db s) v now x}"
    and "sorted_wrt (\<lambda>a b. a = b \<or> before v a b) (map sy_author rows)"
    and "sorted (map sy_created (filter (\<lambda>x. sy_author x = a) rows))"
proof -
  define shown where "shown = filter (visible_story (sd_db s) v now) (sd_stories s)"
  define by_author where "by_author = sort_key sy_author (sort_key sy_created shown)"
  have rows: "rows = filter (\<lambda>x. sy_author x = v) by_author @ filter (\<lambda>x. sy_author x \<noteq> v) by_author"
    unfolding rows_def repo_list_visible_def by (simp add: comp_def scan_story_def sort_key_bool by_author_def shown_def)
  show "set rows = {x \<in> set (sd_stories s). visible_story (sd_db s) v now x}"
    unfolding rows by (auto simp: by_author_def shown_def)
  have "sorted (map sy_author (filter (\<lambda>x. sy_author x \<noteq> v) by_author))"
    unfolding by_author_def by (intro sorted_filter sorted_sort_key)
  then have "sorted_wrt (\<lambda>a b. a = b \<or> before v a b) (map sy_author (filter (\<lambda>x. sy_author x \<noteq> v) by_author))"
    by (rule sorted_wrt_mono_rel[rotated]) (auto simp: before_def)
  moreover have "sorted_wrt (\<lambda>a b. a = b \<or> before v a b) (map sy_author (filter (\<lambda>x. sy_author x = v) by_author))"
    by (rule sorted_same) simp
  ultimately show "sorted_wrt (\<lambda>a b. a = b \<or> before v a b) (map sy_author rows)"
    unfolding rows by (auto simp: sorted_wrt_append before_def)
  have "filter (\<lambda>x. sy_author x = a) rows = filter (\<lambda>x. sy_author x = a) by_author"
    unfolding rows by (cases "a = v") (auto intro!: filter_cong simp: filter_empty_conv)
  also have "\<dots> = filter (\<lambda>x. sy_author x = a) (sort_key sy_created shown)"
    unfolding by_author_def by (rule sort_key_stable)
  finally show "sorted (map sy_created (filter (\<lambda>x. sy_author x = a) rows))"
    by (simp add: sorted_filter)
qed

lemma group_rows_of:
  assumes "distinct (map yg_author gs)" "\<forall>g\<in>set gs. \<forall>t\<in>set (yg_stories g). sy_author (tv_row t) = yg_author g" "g \<in> set gs"
  shows "filter (\<lambda>t. sy_author (tv_row t) = yg_author g) (concat (map yg_stories gs)) = yg_stories g"
  using assms
proof (induction gs)
  case (Cons h gs)
  have other: "filter (\<lambda>t. sy_author (tv_row t) = a) (concat (map yg_stories hs)) = []"
    if "a \<notin> set (map yg_author hs)" "\<forall>g\<in>set hs. \<forall>t\<in>set (yg_stories g). sy_author (tv_row t) = yg_author g" for a hs
    using that by (auto simp: filter_empty_conv)
  show ?case
  proof (cases "g = h")
    case True
    then show ?thesis using Cons.prems other[of "yg_author h" gs] by (auto intro: filter_True)
  next
    case False
    then have "g \<in> set gs" using Cons.prems(3) by simp
    moreover from this have "yg_author g \<noteq> yg_author h" using Cons.prems(1) by (metis distinct.simps(2) image_eqI list.set_map list.simps(9))
    ultimately show ?thesis using Cons by auto
  qed
qed simp

text \<open>
  C34. One rule decides who sees a story: in every run the groups a viewer is listed hold a
  story exactly if the rule admits it, and exactly then viewing it and liking it succeed; a
  story is never seen after its twenty-four hours. The viewer's own group comes first, no
  author has two groups, and a group holds its author's stories, oldest first.
\<close>

theorem stories_by_one_rule:
  assumes "stories_step\<^sup>*\<^sup>* (no_stories d) s" "x \<in> set (sd_stories s)" "sy_id x \<noteq> ''''" "v \<noteq> ''''"
  shows "\<exists>groups. list_stories s v now = Inr groups
    \<and> ((\<exists>g\<in>set groups. x \<in> tv_row ` set (yg_stories g)) \<longleftrightarrow> visible_story (sd_db s) v now x)
    \<and> (snd (mark_viewed s now (sy_id x) v) = Inr () \<longleftrightarrow> visible_story (sd_db s) v now x)
    \<and> ((\<exists>n. snd (like_story s now (sy_id x) v like) = Inr n) \<longleftrightarrow> visible_story (sd_db s) v now x)
    \<and> (visible_story (sd_db s) v now x \<longrightarrow> now < sy_created x + story_lifetime)
    \<and> sorted_wrt (before v) (map yg_author groups)
    \<and> (\<forall>g\<in>set groups. (\<forall>t\<in>set (yg_stories g). sy_author (tv_row t) = yg_author g)
         \<and> sorted (map (\<lambda>t. sy_created (tv_row t)) (yg_stories g)))"
proof -
  have ok: "stories_ok s" using stories_run_ok[OF assms(1)] .
  let ?vis = "visible_story (sd_db s) v now x"
  define groups where "groups = group_loop (repo_list_visible s v now) []"
  have all: "concat (map yg_stories groups) = repo_list_visible s v now" by (simp add: groups_def group_loop_concat)
  have own: "\<forall>g\<in>set groups. \<forall>t\<in>set (yg_stories g). sy_author (tv_row t) = yg_author g"
    unfolding groups_def by (rule group_loop_own) simp
  have order: "sorted_wrt (before v) (map yg_author groups)"
    unfolding groups_def by (rule group_loop_sorted) (use visible_rows(2)[of v s now] in \<open>simp_all add: comp_def\<close>)
  then have dist: "distinct (map yg_author groups)" by (rule before_distinct)
  have times: "sorted (map (\<lambda>t. sy_created (tv_row t)) (yg_stories g))" if g: "g \<in> set groups" for g
    using visible_rows(3)[of "yg_author g" s v now] group_rows_of[OF dist own g] unfolding all
    by (simp add: filter_map comp_def)
  have "(\<exists>g\<in>set groups. x \<in> tv_row ` set (yg_stories g)) \<longleftrightarrow> x \<in> tv_row ` set (concat (map yg_stories groups))" by auto
  then have listed: "(\<exists>g\<in>set groups. x \<in> tv_row ` set (yg_stories g)) \<longleftrightarrow> ?vis"
    unfolding all using visible_rows(1)[of s v now] assms(2) by auto
  have see: "(\<exists>a. can_see s (sy_id x) v now = Inr a) \<longleftrightarrow> ?vis"
  proof -
    have "y = x" if "y \<in> set (sd_stories s)" "sy_id y = sy_id x" for y
      using ok that assms(2) key_inj[of sy_id "sd_stories s" y x] by (simp add: stories_ok_def)
    then have "?vis \<longleftrightarrow> find (\<lambda>y. sy_id y = sy_id x \<and> visible_story (sd_db s) v now y) (sd_stories s) \<noteq> None"
      using assms(2) unfolding find_None by auto
    then show ?thesis by (auto simp: can_see_def split: option.splits)
  qed
  have "snd (mark_viewed s now (sy_id x) v) = Inr () \<longleftrightarrow> (\<exists>a. can_see s (sy_id x) v now = Inr a)"
    using assms(3,4) by (auto simp: mark_viewed_def case_prod_beta split: sum.splits)
  moreover have "(\<exists>n. snd (like_story s now (sy_id x) v like) = Inr n) \<longleftrightarrow> (\<exists>a. can_see s (sy_id x) v now = Inr a)"
    using assms(3,4) by (auto simp: like_story_def case_prod_beta split: sum.splits)
  moreover have "?vis \<longrightarrow> now < sy_created x + story_lifetime"
    using ok assms(2) by (auto simp: stories_ok_def list_all_iff story_ok_def visible_story_def)
  moreover have "list_stories s v now = Inr groups" using assms(4) by (simp add: list_stories_def groups_def)
  ultimately show ?thesis using listed see order own times by (intro exI[of _ groups]) simp
qed

section \<open>The hourly purge\<close>

lemma scan_kept:
  assumes "distinct (map sy_id (sd_stories s))" "x \<in> set (sd_stories s)" "\<not> P x"
  shows "scan_story (remove_stories P s) v x = scan_story s v x"
proof -
  have here: "sy_id x \<notin> sy_id ` {y \<in> set (sd_stories s). P y}"
  proof
    assume "sy_id x \<in> sy_id ` {y \<in> set (sd_stories s). P y}"
    then obtain y where "y \<in> set (sd_stories s)" "P y" "sy_id x = sy_id y" by blast
    with assms key_inj[OF assms(1), of x y] show False by simp
  qed
  have "cnt (\<lambda>w. yv_story w = sy_id x) (filter (\<lambda>w. yv_story w \<notin> sy_id ` {y \<in> set (sd_stories s). P y}) ws)
      = cnt (\<lambda>w. yv_story w = sy_id x) ws" for ws
    using here by (induction ws) auto
  moreover have "cnt (\<lambda>l. fst l = sy_id x) (filter (\<lambda>l. fst l \<notin> sy_id ` {y \<in> set (sd_stories s). P y}) ls)
      = cnt (\<lambda>l. fst l = sy_id x) ls" for ls :: "(string \<times> string) list"
    using here by (induction ls) auto
  ultimately show ?thesis using here by (simp add: scan_story_def remove_fields)
qed

lemma kept_filter:
  assumes "\<And>x. x \<in> set xs \<Longrightarrow> Q x \<Longrightarrow> \<not> P x"
  shows "filter Q (filter (\<lambda>x. \<not> P x) xs) = filter Q xs"
  unfolding filter_filter by (rule filter_cong) (use assms in auto)

text \<open>
  C35. Purging is invisible: removing the expired stories that are not archived, at any time
  up to now, changes no listing of anybody, neither what a viewer is shown nor an author's
  own stories with or without the archive, counts of views and likes included; nothing that
  could be viewed becomes unknown. It removes what it counts, and purging again removes
  nothing.
\<close>

theorem purge_unseen:
  assumes "stories_step\<^sup>*\<^sup>* (no_stories d) s" "t \<le> now" "purge_expired s t = (s', n)"
  shows "list_stories s' v now = list_stories s v now \<and> list_my_stories s' v archive now = list_my_stories s v archive now
    \<and> can_see s' i v now = can_see s i v now
    \<and> int (length (sd_stories s)) = int (length (sd_stories s')) + n \<and> purge_expired s' t = (s', 0)"
proof -
  let ?P = "\<lambda>x. sy_expires x \<le> t \<and> \<not> sy_keep x"
  have s': "s' = remove_stories ?P s" and n: "n = cnt ?P (sd_stories s)"
    using assms(3) by (auto simp: purge_expired_def Let_def)
  have ids: "distinct (map sy_id (sd_stories s))" using stories_run_ok[OF assms(1)] by (simp add: stories_ok_def)
  note scan = scan_kept[OF ids, of _ ?P, folded s']
  have db: "sd_db s' = sd_db s" and st: "sd_stories s' = filter (\<lambda>x. \<not> ?P x) (sd_stories s)"
    unfolding s' remove_fields by simp_all
  have vis: "filter (visible_story (sd_db s') v now) (sd_stories s') = filter (visible_story (sd_db s) v now) (sd_stories s)"
    unfolding db st by (rule kept_filter) (use assms(2) in \<open>auto simp: visible_story_def\<close>)
  have mine: "filter (\<lambda>x. sy_author x = v \<and> (now < sy_expires x \<or> (archive \<and> sy_keep x))) (sd_stories s')
      = filter (\<lambda>x. sy_author x = v \<and> (now < sy_expires x \<or> (archive \<and> sy_keep x))) (sd_stories s)"
    unfolding st by (rule kept_filter) (use assms(2) in auto)
  have "repo_list_visible s' v now = repo_list_visible s v now"
    unfolding repo_list_visible_def vis
    by (rule map_cong[OF refl], rule scan) (use assms(2) in \<open>auto simp: visible_story_def\<close>)
  moreover have "repo_list_mine s' v archive now = repo_list_mine s v archive now"
    unfolding repo_list_mine_def mine by (rule map_cong[OF refl], rule scan) (use assms(2) in auto)
  moreover have "can_see s' i v now = can_see s i v now"
  proof -
    have "find Q (filter (\<lambda>x. \<not> ?P x) xs) = find Q xs" if "\<And>x. Q x \<Longrightarrow> \<not> ?P x" for Q xs
      using that by (induction xs) auto
    from this[of "\<lambda>x. sy_id x = i \<and> visible_story (sd_db s) v now x"] show ?thesis
      unfolding can_see_def db st using assms(2) by (auto simp: visible_story_def)
  qed
  moreover have "int (length xs) = int (length (filter (\<lambda>x. \<not> ?P x) xs)) + cnt ?P xs" for xs by (induction xs) auto
  moreover have "purge_expired s' t = (s', 0)"
  proof -
    have "remove_stories ?P s' = s'" by (simp add: remove_stories_def st Let_def)
    moreover have "cnt ?P (sd_stories s') = 0" unfolding cnt_zero_iff st by simp
    ultimately show ?thesis by (simp add: purge_expired_def)
  qed
  ultimately show ?thesis unfolding list_stories_def list_my_stories_def n st by simp
qed

section \<open>Witnesses\<close>

definition picture :: media_resolver where
  "picture u ids = Inr [\<lparr>ma_kind = ''image'', ma_url = ''https://cdn/m''\<rparr>]"

definition sunset :: story_input where
  "sunset = \<lparr>ti_author = ''a'', ti_media = ''m'', ti_caption = ''Sunset'', ti_audience = ''community'', ti_community = ''c'',
     ti_keep = False, ti_edits = ''''\<rparr>"

abbreviation club_db :: db where "club_db \<equiv> empty_db\<lparr>t_members := [(''c'', ''a''), (''c'', ''b'')]\<rparr>"

abbreviation sunset_db :: stories_db where
  "sunset_db \<equiv> fst (create_story (Some picture) [] (\<lambda>_. True) (no_stories club_db) 100 ''y'' sunset)"

lemma sunset_row:
  "sunset_db = (no_stories club_db)\<lparr>sd_stories := [\<lparr>sy_id = ''y'', sy_author = ''a'', sy_media = ''m'', sy_url = ''https://cdn/m'',
     sy_kind = ''image'', sy_caption = ''Sunset'', sy_audience = ''community'', sy_community = Some ''c'', sy_keep = False,
     sy_edits = ''{}'', sy_created = 100, sy_expires = 100 + story_lifetime\<rparr>]\<rparr>"
proof -
  have "fst (screen [] ''Sunset'') = ''safe''" by code_simp
  then show ?thesis
    by (simp add: create_story_def sunset_def valid_edits_def story_member_def no_stories_def empty_db_def picture_def
        repo_create_story_def nullif_def Let_def)
qed

lemma sunset_run: "stories_step\<^sup>*\<^sup>* (no_stories club_db) sunset_db"
proof -
  have "''y'' \<notin> sy_id ` set (sd_stories (no_stories club_db))" by (simp add: no_stories_def)
  from created[OF this, of "Some picture" "[]" "\<lambda>_. True" 100 sunset sunset_db] show ?thesis
    by (metis prod.collapse r_into_rtranclp)
qed

lemma stories_by_one_rule_witness:
  "snd (mark_viewed sunset_db 200 ''y'' ''b'') = Inr () \<and> snd (mark_viewed sunset_db 200 ''y'' ''z'') \<noteq> Inr ()"
proof -
  obtain x where x: "x \<in> set (sd_stories sunset_db)" "sy_id x = ''y''"
      "visible_story (sd_db sunset_db) ''b'' 200 x" "\<not> visible_story (sd_db sunset_db) ''z'' 200 x"
    unfolding sunset_row
    by (simp add: no_stories_def visible_story_def blocked_def empty_db_def story_lifetime_def time_defs)
  then show ?thesis
    using stories_by_one_rule[OF sunset_run x(1), of "''b''" 200 True] stories_by_one_rule[OF sunset_run x(1), of "''z''" 200 True]
    by auto
qed

lemma purge_unseen_witness:
  "list_stories (fst (purge_expired sunset_db (100 + story_lifetime))) ''b'' (200 + story_lifetime)
      = list_stories sunset_db ''b'' (200 + story_lifetime)
   \<and> length (sd_stories (fst (purge_expired sunset_db (100 + story_lifetime)))) = 0"
proof -
  have "purge_expired sunset_db (100 + story_lifetime) = (fst (purge_expired sunset_db (100 + story_lifetime)), 1)"
    unfolding sunset_row by (simp add: purge_expired_def no_stories_def)
  moreover have "length (sd_stories sunset_db) = 1" unfolding sunset_row by simp
  ultimately show ?thesis using purge_unseen[OF sunset_run _ , of "100 + story_lifetime" "200 + story_lifetime" _ 1 "''b''"] by simp
qed

end
