(* ===== verification/Meet.thy ===== *)
theory Meet
  imports Moderation
begin

text \<open>
  Meeting people (\<^verbatim>\<open>internal/meet\<close>): the deck of profiles, swipes, matches, waves and paid
  boosts. Interests, intents, ages, photos and the daily hash of a profile are an argument,
  and so is the chat that opens a room for a match.
\<close>

section \<open>State\<close>

record swipe_row =
  sw_actor :: string
  sw_target :: string
  sw_action :: string
  sw_created :: int

record boost_row =
  bo_user :: string
  bo_starts :: int
  bo_ends :: int
  bo_cost :: int

record 'c meet_db =
  mt_db :: db
  mt_swipes :: "swipe_row list"
  mt_boosts :: "boost_row list"
  mt_chat :: 'c

definition daily_swipes :: nat where "daily_swipes = 300"
definition daily_waves :: nat where "daily_waves = 50"
definition daily_supers :: nat where "daily_supers = 5"
definition boost_duration :: int where "boost_duration = 30 * minute"
definition boost_free_every :: int where "boost_free_every = 7 * day"
definition boost_cost_minor :: int where "boost_cost_minor = 1900"
definition pass_retention :: int where "pass_retention = 30 * day"

definition wave_actions :: "string set" where "wave_actions = {''wave'', ''super''}"

abbreviation waved_at :: "swipe_row list \<Rightarrow> string \<Rightarrow> string \<Rightarrow> bool" where
  "waved_at rs a b \<equiv> \<exists>w\<in>set rs. sw_actor w = a \<and> sw_target w = b \<and> sw_action w \<in> wave_actions"

section \<open>The deck\<close>

text \<open>What the profile tables say of a person: \<open>dp_age\<close> is \<^verbatim>\<open>None\<close> without a date of birth.\<close>

record deck_profile =
  dp_interests :: "string list"
  dp_intents :: "string list"
  dp_age :: "int option"
  dp_photo :: bool
  dp_hash :: string

record card =
  dk_user :: string
  dk_name :: string
  dk_age :: int
  dk_shared :: "string list"
  dk_waved :: bool
  dk_boosted :: bool

definition shared_with :: "string list \<Rightarrow> string list \<Rightarrow> string list" where
  "shared_with theirs mine = remdups (filter (\<lambda>i. i \<in> set mine) theirs)"

definition old_enough :: "int \<Rightarrow> int \<Rightarrow> int option \<Rightarrow> bool" where
  "old_enough lo hi age = (case age of None \<Rightarrow> True | Some a \<Rightarrow> (lo = 0 \<or> lo \<le> a) \<and> (hi = 0 \<or> a \<le> hi))"

definition decided :: "'c meet_db \<Rightarrow> int \<Rightarrow> string \<Rightarrow> string \<Rightarrow> bool" where
  "decided s now a b \<longleftrightarrow> (\<exists>w\<in>set (mt_swipes s). sw_actor w = a \<and> sw_target w = b
     \<and> (sw_action w \<noteq> ''pass'' \<or> now - pass_retention < sw_created w))"

definition boosted :: "'c meet_db \<Rightarrow> int \<Rightarrow> string \<Rightarrow> bool" where
  "boosted s now u \<longleftrightarrow> (\<exists>b\<in>set (mt_boosts s). bo_user b = u \<and> bo_starts b \<le> now \<and> now < bo_ends b)"

definition deck_candidate ::
  "(string \<Rightarrow> deck_profile) \<Rightarrow> 'c meet_db \<Rightarrow> int \<Rightarrow> string \<Rightarrow> string option \<Rightarrow> int \<Rightarrow> int \<Rightarrow> user_row \<Rightarrow> bool" where
  "deck_candidate prof s now me city lo hi x \<longleftrightarrow> us_id x \<noteq> me \<and> us_status x = UserActive
     \<and> (\<exists>p\<in>set (t_profiles (mt_db s)). fst p = us_id x) \<and> 5 \<le> length (dp_interests (prof (us_id x)))
     \<and> (city = None \<or> us_city x = city) \<and> \<not> blocked (mt_db s) me (us_id x)
     \<and> \<not> (\<exists>r\<in>set (t_connections (mt_db s)). pair_row me (us_id x) r)
     \<and> \<not> decided s now me (us_id x) \<and> old_enough lo hi (dp_age (prof (us_id x)))"

definition deck_score :: "(string \<Rightarrow> deck_profile) \<Rightarrow> string \<Rightarrow> string \<Rightarrow> int" where
  "deck_score prof me u =
     int (length (shared_with (dp_interests (prof u)) (dp_interests (prof me)))) * 2
     + int (length (shared_with (dp_intents (prof u)) (dp_intents (prof me))))"

definition card_of :: "(string \<Rightarrow> deck_profile) \<Rightarrow> 'c meet_db \<Rightarrow> int \<Rightarrow> string \<Rightarrow> string \<Rightarrow> card" where
  "card_of prof s now me u = \<lparr>dk_user = u, dk_name = profile_name (mt_db s) u,
     dk_age = (case dp_age (prof u) of None \<Rightarrow> 0 | Some a \<Rightarrow> a),
     dk_shared = shared_with (dp_interests (prof u)) (dp_interests (prof me)),
     dk_waved = waved_at (mt_swipes s) u me, dk_boosted = boosted s now u\<rparr>"

definition repo_deck ::
  "(string \<Rightarrow> deck_profile) \<Rightarrow> 'c meet_db \<Rightarrow> int \<Rightarrow> string \<Rightarrow> nat \<Rightarrow> int \<Rightarrow> int \<Rightarrow> card list" where
  "repo_deck prof s now me limit lo hi =
    (case find (\<lambda>x. us_id x = me) (t_users (mt_db s)) of
       None \<Rightarrow> []
     | Some u \<Rightarrow>
         take limit (sort_key (\<lambda>c. \<not> dk_boosted c) (sort_key (\<lambda>c. \<not> dk_waved c)
           (sort_key (\<lambda>c. \<not> dp_photo (prof (dk_user c))) (sort_key (\<lambda>c. - deck_score prof me (dk_user c))
             (sort_key (\<lambda>c. dp_hash (prof (dk_user c)))
               (map (\<lambda>x. card_of prof s now me (us_id x))
                 (filter (deck_candidate prof s now me (us_city u) lo hi) (t_users (mt_db s))))))))))"

section \<open>Swiping\<close>

definition push_to :: "string \<Rightarrow> string \<Rightarrow> string \<Rightarrow> string \<Rightarrow> int \<Rightarrow> 'c meet_db \<Rightarrow> 'c meet_db" where
  "push_to u title body link now s = s\<lparr>mt_db := enqueue_notify_user (mt_db s) now u title body link ''push''\<rparr>"

definition put_swipe :: "string \<Rightarrow> string \<Rightarrow> string \<Rightarrow> int \<Rightarrow> 'c meet_db \<Rightarrow> 'c meet_db" where
  "put_swipe a b action now s =
    (let P = (\<lambda>w. sw_actor w = a \<and> sw_target w = b)
     in s\<lparr>mt_swipes := (if \<exists>w\<in>set (mt_swipes s). P w
           then upd P (\<lambda>w. w\<lparr>sw_action := action, sw_created := now\<rparr>) (mt_swipes s)
           else mt_swipes s @ [\<lparr>sw_actor = a, sw_target = b, sw_action = action, sw_created = now\<rparr>])\<rparr>)"

definition match_connect :: "string \<Rightarrow> string \<Rightarrow> string \<Rightarrow> int \<Rightarrow> 'c meet_db \<Rightarrow> 'c meet_db" where
  "match_connect new_id a b now s = s\<lparr>mt_db := (mt_db s)\<lparr>t_connections :=
     (if \<exists>r\<in>set (t_connections (mt_db s)). pair_row a b r
      then upd (pair_row a b) (\<lambda>r. r\<lparr>cn_status := ConnectionAccepted\<rparr>) (t_connections (mt_db s))
      else t_connections (mt_db s) @ [\<lparr>cn_id = new_id, cn_requester = a, cn_recipient = b, cn_origin = '''',
             cn_status = ConnectionAccepted, cn_created = now\<rparr>])\<rparr>\<rparr>"

definition wave_push :: "string \<Rightarrow> string \<Rightarrow> string \<times> string" where
  "wave_push name action =
    (if action = ''super'' then (name @ '' sent you a super wave '' @ [CHR 0xE2, CHR 0xAD, CHR 0x90],
       ''They really want to meet you '' @ [CHR 0xE2, CHR 0x80, CHR 0x94] @ '' wave back!'')
     else (name @ '' waved at you '' @ [CHR 0xF0, CHR 0x9F, CHR 0x91, CHR 0x8B], ''Wave back to start chatting.''))"

definition match_push :: "string \<Rightarrow> string \<Rightarrow> int \<Rightarrow> 'c meet_db \<Rightarrow> 'c meet_db" where
  "match_push u other = push_to u (''It's a match! '' @ [CHR 0xF0, CHR 0x9F, CHR 0x8E, CHR 0x89])
     (''You and '' @ other @ '' waved at each other '' @ [CHR 0xE2, CHR 0x80, CHR 0x94] @ '' say hi.'') ''hivemind://chats''"

definition swipes_today :: "'c meet_db \<Rightarrow> int \<Rightarrow> string \<Rightarrow> (swipe_row \<Rightarrow> bool) \<Rightarrow> nat" where
  "swipes_today s now a P = length (filter (\<lambda>w. sw_actor w = a \<and> now - day < sw_created w \<and> P w) (mt_swipes s))"

definition over_limit :: "'c meet_db \<Rightarrow> int \<Rightarrow> string \<Rightarrow> string \<Rightarrow> bool" where
  "over_limit s now a action \<longleftrightarrow> daily_swipes \<le> swipes_today s now a (\<lambda>_. True)
     \<or> (action \<noteq> ''pass'' \<and> daily_waves \<le> swipes_today s now a (\<lambda>w. sw_action w \<noteq> ''pass''))
     \<or> (action = ''super'' \<and> daily_supers \<le> swipes_today s now a (\<lambda>w. sw_action w = ''super''))"

definition repo_swipe ::
  "'c meet_db \<Rightarrow> int \<Rightarrow> string \<Rightarrow> string \<Rightarrow> string \<Rightarrow> string \<Rightarrow> ('c meet_db, bool \<times> string) outcome" where
  "repo_swipe s now new_id a b action =
    in_tx s (case find (\<lambda>u. us_id u = b) (t_users (mt_db s)) of
       None \<Rightarrow> (s, Inl (Meet MeetTargetNotFound))
     | Some u \<Rightarrow>
         if us_status u \<noteq> UserActive \<or> blocked (mt_db s) a b then (s, Inl (Meet MeetTargetNotFound))
         else if over_limit s now a action then (s, Inl (Meet MeetRateLimited))
         else let prev = (case find (\<lambda>w. sw_actor w = a \<and> sw_target w = b) (mt_swipes s) of
                            None \<Rightarrow> '''' | Some w \<Rightarrow> sw_action w);
                  unchanged = (prev = action);
                  name = profile_name (mt_db s) b;
                  my_name = profile_name (mt_db s) a;
                  s1 = put_swipe a b action now s
           in if action = ''pass'' then (s1, Inr (False, name))
              else if \<not> waved_at (mt_swipes s1) b a
              then (if unchanged then s1 else push_to b (fst (wave_push my_name action)) (snd (wave_push my_name action)) ''hivemind://waves'' now s1,
                    Inr (False, name))
              else let s2 = match_connect new_id a b now s1
                   in (if unchanged then s2 else match_push a name now (match_push b my_name now s2), Inr (True, name)))"

record wave =
  wa_user :: string
  wa_name :: string
  wa_super :: bool
  wa_matched :: bool
  wa_room :: string
  wa_created :: int

text \<open>\<open>dm_room\<close> is the direct room of two people, or nothing.\<close>

definition repo_waves :: "('c \<Rightarrow> string \<Rightarrow> string \<Rightarrow> string) \<Rightarrow> 'c meet_db \<Rightarrow> string \<Rightarrow> bool \<Rightarrow> wave list" where
  "repo_waves dm_room s u sent =
    (let other = (\<lambda>w. if sent then sw_target w else sw_actor w);
         who = (\<lambda>w. if sent then sw_actor w else sw_target w);
         rows = filter (\<lambda>w. who w = u \<and> sw_action w \<in> wave_actions
            \<and> (\<exists>x\<in>set (t_users (mt_db s)). us_id x = other w \<and> us_status x = UserActive) \<and> \<not> blocked (mt_db s) u (other w)
            \<and> (sent \<or> \<not> (\<exists>p\<in>set (mt_swipes s). sw_actor p = u \<and> sw_target p = other w \<and> sw_action p = ''pass''))) (mt_swipes s)
     in take 100 (sort_key wa_matched (sort_key (\<lambda>x. \<not> wa_super x) (sort_key (\<lambda>x. - wa_created x)
          (map (\<lambda>w. \<lparr>wa_user = other w, wa_name = profile_name (mt_db s) (other w), wa_super = (sw_action w = ''super''),
             wa_matched = waved_at (mt_swipes s) (sw_target w) (sw_actor w), wa_room = dm_room (mt_chat s) u (other w),
             wa_created = sw_created w\<rparr>) rows)))))"

section \<open>Boosts\<close>

record boost =
  bv_active :: bool
  bv_ends :: "int option"
  bv_free :: bool
  bv_again :: "int option"
  bv_balance :: int

definition greatest :: "int list \<Rightarrow> int option" where
  "greatest xs = (if xs = [] then None else Some (Max (set xs)))"

definition boost_status :: "'c meet_db \<Rightarrow> string \<Rightarrow> int \<Rightarrow> boost" where
  "boost_status s u now =
    (let ends = greatest (map bo_ends (filter (\<lambda>b. bo_user b = u \<and> now < bo_ends b) (mt_boosts s)));
         free = greatest (map bo_starts (filter (\<lambda>b. bo_user b = u \<and> bo_cost b = 0) (mt_boosts s)))
     in \<lparr>bv_active = (ends \<noteq> None), bv_ends = ends,
         bv_free = (case free of None \<Rightarrow> True | Some t \<Rightarrow> boost_free_every \<le> now - t),
         bv_again = map_option (\<lambda>t. t + boost_free_every) free,
         bv_balance = get_credit_balance (mt_db s) u\<rparr>)"

definition repo_activate_boost :: "'c meet_db \<Rightarrow> string \<Rightarrow> int \<Rightarrow> ('c meet_db, boost) outcome" where
  "repo_activate_boost s u now =
    (let b = boost_status s u now
     in if bv_active b then (s, Inl (Meet MeetAlreadyBoosted))
        else if \<not> bv_free b \<and> bv_balance b < boost_cost_minor then (s, Inl (Meet MeetInsufficientCredits))
        else let cost = (if bv_free b then 0 else boost_cost_minor);
                 s1 = (if bv_free b then s
                       else s\<lparr>mt_db := (mt_db s)\<lparr>t_ledger := t_ledger (mt_db s)
                              @ [\<lparr>cl_user = u, cl_amount = - cost, cl_reason = ''boost'', cl_order = None\<rparr>]\<rparr>\<rparr>);
                 s2 = s1\<lparr>mt_boosts := mt_boosts s1
                              @ [\<lparr>bo_user = u, bo_starts = now, bo_ends = now + boost_duration, bo_cost = cost\<rparr>]\<rparr>
             in (s2, Inr (boost_status s2 u now)))"

section \<open>Service\<close>

definition default_deck :: int where "default_deck = 10"
definition max_deck :: int where "max_deck = 30"

definition get_deck ::
  "(string \<Rightarrow> deck_profile) \<Rightarrow> 'c meet_db \<Rightarrow> int \<Rightarrow> string \<Rightarrow> int \<Rightarrow> int \<Rightarrow> int \<Rightarrow> go_error + card list" where
  "get_deck prof s now me limit lo hi =
    (if me = '''' \<or> lo < 0 \<or> hi < 0 \<or> (hi \<noteq> 0 \<and> hi < lo) \<or> 120 < hi then Inl (Meet MeetInvalidInput)
     else let n = (if limit \<le> 0 then default_deck else limit);
              n = (if max_deck < n then max_deck else n)
          in Inr (repo_deck prof s now me (nat n) lo hi))"

record swipe_outcome =
  sx_matched :: bool
  sx_room :: string
  sx_name :: string

text \<open>A room that cannot be opened is no error.\<close>

definition open_room ::
  "(string \<Rightarrow> string \<Rightarrow> 'c \<Rightarrow> ('c, string) outcome) option \<Rightarrow> string \<Rightarrow> string \<Rightarrow> bool \<Rightarrow> 'c meet_db \<Rightarrow> 'c meet_db \<times> string" where
  "open_room dm u target matched s =
    (case dm of
       None \<Rightarrow> (s, '''')
     | Some opens \<Rightarrow>
         if \<not> matched then (s, '''')
         else case opens u target (mt_chat s) of (c, r) \<Rightarrow>
           (s\<lparr>mt_chat := c\<rparr>, (case r of Inl _ \<Rightarrow> '''' | Inr room \<Rightarrow> room)))"

definition swipe ::
  "(string \<Rightarrow> string \<Rightarrow> 'c \<Rightarrow> ('c, string) outcome) option \<Rightarrow> 'c meet_db \<Rightarrow> int \<Rightarrow> string \<Rightarrow> string \<Rightarrow> string \<Rightarrow> string
    \<Rightarrow> ('c meet_db, swipe_outcome) outcome" where
  "swipe dm s now new_id u target action =
    (if u = '''' \<or> target = '''' \<or> u = target \<or> (action \<noteq> ''pass'' \<and> action \<noteq> ''wave'' \<and> action \<noteq> ''super'')
     then (s, Inl (Meet MeetInvalidInput))
     else and_then (repo_swipe s now new_id u target action) (\<lambda>(matched, name) s1.
       case open_room dm u target matched s1 of
         (s2, room) \<Rightarrow> (s2, Inr \<lparr>sx_matched = matched, sx_room = room, sx_name = name\<rparr>)))"

definition list_waves :: "('c \<Rightarrow> string \<Rightarrow> string \<Rightarrow> string) \<Rightarrow> 'c meet_db \<Rightarrow> string \<Rightarrow> bool \<Rightarrow> go_error + wave list" where
  "list_waves dm_room s u sent = (if u = '''' then Inl (Meet MeetInvalidInput) else Inr (repo_waves dm_room s u sent))"

definition get_boost_status :: "'c meet_db \<Rightarrow> string \<Rightarrow> int \<Rightarrow> go_error + boost" where
  "get_boost_status s u now = (if u = '''' then Inl (Meet MeetInvalidInput) else Inr (boost_status s u now))"

definition activate_boost :: "'c meet_db \<Rightarrow> string \<Rightarrow> int \<Rightarrow> ('c meet_db, boost) outcome" where
  "activate_boost s u now = (if u = '''' then (s, Inl (Meet MeetInvalidInput)) else repo_activate_boost s u now)"

section \<open>Runs\<close>

definition no_meeting :: "db \<Rightarrow> 'c \<Rightarrow> 'c meet_db" where
  "no_meeting d c = \<lparr>mt_db = d, mt_swipes = [], mt_boosts = [], mt_chat = c\<rparr>"

definition boost_spent :: "db \<Rightarrow> string \<Rightarrow> int" where
  "boost_spent d u = - tot (\<lambda>r. cl_user r = u \<and> cl_reason r = ''boost'') cl_amount (t_ledger d)"

text \<open>Other packages change the database, but neither break its connections nor write boosts to the ledger.\<close>

inductive meet_step :: "'c meet_db \<Rightarrow> 'c meet_db \<Rightarrow> bool" where
  swiping: "new_id \<notin> cn_id ` set (t_connections (mt_db s)) \<Longrightarrow> swipe dm s now new_id a b action = (s', r) \<Longrightarrow> meet_step s s'"
| boosting: "activate_boost s u now = (s', r) \<Longrightarrow> meet_step s s'"
| elsewhere: "conns_ok d \<Longrightarrow> (\<And>u. boost_spent d u = boost_spent (mt_db s) u) \<Longrightarrow> meet_step s (s\<lparr>mt_db := d, mt_chat := c\<rparr>)"

abbreviation swiped_pair :: "swipe_row \<Rightarrow> string \<times> string" where
  "swiped_pair w \<equiv> (sw_actor w, sw_target w)"

definition in_window :: "swipe_row list \<Rightarrow> string \<Rightarrow> int \<Rightarrow> (swipe_row \<Rightarrow> bool) \<Rightarrow> int" where
  "in_window rs a t P = cnt (\<lambda>w. sw_actor w = a \<and> t - day < sw_created w \<and> sw_created w \<le> t \<and> P w) rs"

definition limits_ok :: "swipe_row list \<Rightarrow> bool" where
  "limits_ok rs \<longleftrightarrow> (\<forall>a t. in_window rs a t (\<lambda>_. True) \<le> 300 \<and> in_window rs a t (\<lambda>w. sw_action w \<noteq> ''pass'') \<le> 50
     \<and> in_window rs a t (\<lambda>w. sw_action w = ''super'') \<le> 5)"

definition swipes_ok :: "swipe_row list \<Rightarrow> bool" where
  "swipes_ok rs \<longleftrightarrow> distinct (map swiped_pair rs) \<and> (\<forall>w\<in>set rs. sw_actor w \<noteq> sw_target w) \<and> limits_ok rs"

definition boost_after :: "boost_row \<Rightarrow> boost_row \<Rightarrow> bool" where
  "boost_after a b \<longleftrightarrow> bo_user a = bo_user b \<longrightarrow> bo_ends a \<le> bo_starts b
     \<and> (bo_cost a = 0 \<and> bo_cost b = 0 \<longrightarrow> bo_starts a + boost_free_every \<le> bo_starts b)"

definition boosts_ok :: "'c meet_db \<Rightarrow> bool" where
  "boosts_ok s \<longleftrightarrow> sorted_wrt boost_after (mt_boosts s)
     \<and> (\<forall>b\<in>set (mt_boosts s). bo_ends b = bo_starts b + boost_duration \<and> bo_cost b \<in> {0, boost_cost_minor})
     \<and> (\<forall>u. boost_spent (mt_db s) u = tot (\<lambda>b. bo_user b = u) bo_cost (mt_boosts s))"

definition meet_ok :: "'c meet_db \<Rightarrow> bool" where
  "meet_ok s \<longleftrightarrow> conns_ok (mt_db s) \<and> swipes_ok (mt_swipes s) \<and> boosts_ok s"

section \<open>What a swipe does\<close>

lemma push_fields [simp]:
  "mt_swipes (push_to u title body link now s) = mt_swipes s" "mt_boosts (push_to u title body link now s) = mt_boosts s"
  "t_connections (mt_db (push_to u title body link now s)) = t_connections (mt_db s)"
  "t_ledger (mt_db (push_to u title body link now s)) = t_ledger (mt_db s)"
  by (simp_all add: push_to_def enqueue_notify_user_def enqueue_def)

lemma match_push_fields [simp]:
  "mt_swipes (match_push u other now s) = mt_swipes s" "mt_boosts (match_push u other now s) = mt_boosts s"
  "t_connections (mt_db (match_push u other now s)) = t_connections (mt_db s)"
  "t_ledger (mt_db (match_push u other now s)) = t_ledger (mt_db s)"
  by (simp_all add: match_push_def)

lemma put_swipe_fields [simp]:
  "mt_boosts (put_swipe a b action now s) = mt_boosts s" "mt_db (put_swipe a b action now s) = mt_db s"
  by (simp_all add: put_swipe_def Let_def)

lemma match_connect_fields [simp]:
  "mt_boosts (match_connect i a b now s) = mt_boosts s" "mt_swipes (match_connect i a b now s) = mt_swipes s"
  "t_ledger (mt_db (match_connect i a b now s)) = t_ledger (mt_db s)"
  by (simp_all add: match_connect_def)

lemma match_connect_put [simp]:
  "t_connections (mt_db (match_connect i a b now (put_swipe c d action t s))) = t_connections (mt_db (match_connect i a b now s))"
  by (simp add: match_connect_def)

lemma open_room_fields [simp]:
  "mt_swipes (fst (open_room dm a b m s)) = mt_swipes s" "mt_boosts (fst (open_room dm a b m s)) = mt_boosts s"
  "mt_db (fst (open_room dm a b m s)) = mt_db s"
  by (simp_all add: open_room_def case_prod_beta split: option.split)

lemma put_swipe_rows:
  "w \<in> set (mt_swipes (put_swipe a b action now s)) \<longleftrightarrow>
     w = \<lparr>sw_actor = a, sw_target = b, sw_action = action, sw_created = now\<rparr>
     \<or> (w \<in> set (mt_swipes s) \<and> swiped_pair w \<noteq> (a, b))"
proof (cases "\<exists>w\<in>set (mt_swipes s). sw_actor w = a \<and> sw_target w = b")
  case True
  then obtain x where x: "x \<in> set (mt_swipes s)" "sw_actor x = a" "sw_target x = b" by blast
  have same: "y\<lparr>sw_action := action, sw_created := now\<rparr> = \<lparr>sw_actor = a, sw_target = b, sw_action = action, sw_created = now\<rparr>"
    if "sw_actor y = a \<and> sw_target y = b" for y using that by (cases y) simp
  have "mt_swipes (put_swipe a b action now s)
      = map (\<lambda>y. if sw_actor y = a \<and> sw_target y = b
                 then \<lparr>sw_actor = a, sw_target = b, sw_action = action, sw_created = now\<rparr> else y) (mt_swipes s)"
    using True same by (auto simp: put_swipe_def Let_def upd_def)
  then show ?thesis using x by (auto simp: image_iff)
next
  case False
  then show ?thesis by (auto simp: put_swipe_def Let_def)
qed

lemma put_swipe_distinct:
  assumes "distinct (map swiped_pair (mt_swipes s))"
  shows "distinct (map swiped_pair (mt_swipes (put_swipe a b action now s)))"
proof (cases "\<exists>w\<in>set (mt_swipes s). sw_actor w = a \<and> sw_target w = b")
  case True
  then have "map swiped_pair (mt_swipes (put_swipe a b action now s)) = map swiped_pair (mt_swipes s)"
    by (simp add: put_swipe_def Let_def map_upd)
  with assms show ?thesis by simp
next
  case False
  with assms show ?thesis by (auto simp: put_swipe_def Let_def)
qed

text \<open>A swipe adds at most one row to any count.\<close>

lemma put_swipe_cnt:
  assumes "distinct (map swiped_pair (mt_swipes s))"
  shows "cnt Q (mt_swipes (put_swipe a b action now s))
      \<le> cnt Q (mt_swipes s) + (if Q \<lparr>sw_actor = a, sw_target = b, sw_action = action, sw_created = now\<rparr> then 1 else 0)"
proof (cases "\<exists>w\<in>set (mt_swipes s). sw_actor w = a \<and> sw_target w = b")
  case True
  then obtain x where x: "x \<in> set (mt_swipes s)" "swiped_pair x = (a, b)" by auto
  have "(\<lambda>w. sw_actor w = a \<and> sw_target w = b) = (\<lambda>w. swiped_pair w = (a, b))" by auto
  then have "mt_swipes (put_swipe a b action now s)
      = upd (\<lambda>w. swiped_pair w = (a, b)) (\<lambda>w. w\<lparr>sw_action := action, sw_created := now\<rparr>) (mt_swipes s)"
    using True by (simp add: put_swipe_def Let_def)
  moreover have "x\<lparr>sw_action := action, sw_created := now\<rparr> = \<lparr>sw_actor = a, sw_target = b, sw_action = action, sw_created = now\<rparr>"
    using x(2) by (cases x) simp
  ultimately show ?thesis using cnt_upd_key[OF assms x, of Q] by simp
next
  case False
  then have "mt_swipes (put_swipe a b action now s)
      = mt_swipes s @ [\<lparr>sw_actor = a, sw_target = b, sw_action = action, sw_created = now\<rparr>]"
    by (auto simp: put_swipe_def Let_def)
  then show ?thesis by simp
qed

lemma swipe_InrE:
  assumes "swipe dm s now new_id a b action = (s', Inr out)"
  obtains "a \<noteq> b" "action \<in> {''pass'', ''wave'', ''super''}" "\<not> over_limit s now a action" "\<not> blocked (mt_db s) a b"
    "mt_swipes s' = mt_swipes (put_swipe a b action now s)" "mt_boosts s' = mt_boosts s" "t_ledger (mt_db s') = t_ledger (mt_db s)"
    "sx_matched out \<longleftrightarrow> action \<noteq> ''pass'' \<and> waved_at (mt_swipes s') b a"
    "t_connections (mt_db s') = (if sx_matched out then t_connections (mt_db (match_connect new_id a b now s)) else t_connections (mt_db s))"
proof -
  from assms have g: "a \<noteq> b" "action \<in> {''pass'', ''wave'', ''super''}"
    by (auto simp: swipe_def split: if_splits)
  have "a \<noteq> ''''" "b \<noteq> ''''" using assms by (auto simp: swipe_def split: if_splits)
  with g obtain s1 matched name where r: "repo_swipe s now new_id a b action = (s1, Inr (matched, name))"
      "s' = fst (open_room dm a b matched s1)" "sx_matched out = matched"
    using assms by (auto simp: swipe_def and_then_eq_Inr case_prod_beta)
  then have same: "mt_swipes s' = mt_swipes s1 \<and> mt_boosts s' = mt_boosts s1 \<and> mt_db s' = mt_db s1" by simp
  have "\<not> over_limit s now a action \<and> \<not> blocked (mt_db s) a b
    \<and> mt_swipes s1 = mt_swipes (put_swipe a b action now s) \<and> mt_boosts s1 = mt_boosts s \<and> t_ledger (mt_db s1) = t_ledger (mt_db s)
    \<and> (matched \<longleftrightarrow> action \<noteq> ''pass'' \<and> waved_at (mt_swipes s1) b a)
    \<and> t_connections (mt_db s1) = (if matched then t_connections (mt_db (match_connect new_id a b now s)) else t_connections (mt_db s))"
    using r(1) unfolding repo_swipe_def in_tx_eq_Inr Let_def
    by (simp split: option.splits if_splits) auto
  with g same r(3) that show ?thesis by simp
qed

lemma swipe_error: "swipe dm s now new_id a b action = (s', Inl e) \<Longrightarrow> s' = s"
proof (cases "repo_swipe s now new_id a b action")
  case (Pair s1 r)
  assume a: "swipe dm s now new_id a b action = (s', Inl e)"
  have "r = Inl x \<Longrightarrow> s1 = s" for x using Pair unfolding repo_swipe_def by (auto dest: in_tx_error)
  with a Pair show "s' = s"
    by (cases r) (auto simp: swipe_def case_prod_beta split: if_splits)
qed

section \<open>The invariant\<close>

text \<open>
  A window that gains the new row ends at or after the swipe, so what was in it already was
  counted by the swipe's own check, which looks at the last day and has no upper end.
\<close>

lemma window_after_swipe:
  assumes "distinct (map swiped_pair (mt_swipes s))" "in_window (mt_swipes s) x t P \<le> n"
    and "P \<lparr>sw_actor = a, sw_target = b, sw_action = action, sw_created = now\<rparr> \<Longrightarrow> int (swipes_today s now a P) < n"
  shows "in_window (mt_swipes (put_swipe a b action now s)) x t P \<le> n"
proof -
  let ?new = "\<lparr>sw_actor = a, sw_target = b, sw_action = action, sw_created = now\<rparr>"
  let ?Q = "\<lambda>w. sw_actor w = x \<and> t - day < sw_created w \<and> sw_created w \<le> t \<and> P w"
  note grow = put_swipe_cnt[OF assms(1), of ?Q a b action now]
  show ?thesis
  proof (cases "?Q ?new")
    case True
    then have "cnt ?Q (mt_swipes s) \<le> int (swipes_today s now a P)"
      unfolding swipes_today_def cnt_def[symmetric] by (intro cnt_mono) auto
    moreover have "int (swipes_today s now a P) < n" using assms(3) True by blast
    moreover have "cnt ?Q (mt_swipes (put_swipe a b action now s)) \<le> cnt ?Q (mt_swipes s) + 1" using grow True by simp
    ultimately show ?thesis unfolding in_window_def by linarith
  next
    case False
    with grow assms(2) show ?thesis by (simp only: in_window_def if_False)
  qed
qed

lemma swipes_ok_swipe:
  assumes "swipes_ok (mt_swipes s)" "a \<noteq> b" "\<not> over_limit s now a action"
  shows "swipes_ok (mt_swipes (put_swipe a b action now s))"
proof -
  have d: "distinct (map swiped_pair (mt_swipes s))" and l: "limits_ok (mt_swipes s)"
    using assms(1) by (simp_all add: swipes_ok_def)
  note w = window_after_swipe[OF d]
  have "limits_ok (mt_swipes (put_swipe a b action now s))"
    unfolding limits_ok_def
  proof (intro allI conjI w)
    show "in_window (mt_swipes s) x t (\<lambda>_. True) \<le> 300" "in_window (mt_swipes s) x t (\<lambda>w. sw_action w \<noteq> ''pass'') \<le> 50"
      "in_window (mt_swipes s) x t (\<lambda>w. sw_action w = ''super'') \<le> 5" for x t
      using l by (simp_all add: limits_ok_def)
  qed (use assms(3) in \<open>simp_all add: over_limit_def daily_swipes_def daily_waves_def daily_supers_def\<close>)
  moreover have "\<forall>w\<in>set (mt_swipes (put_swipe a b action now s)). sw_actor w \<noteq> sw_target w"
    using assms(1,2) by (auto simp: put_swipe_rows swipes_ok_def)
  ultimately show ?thesis using put_swipe_distinct[OF d] by (simp add: swipes_ok_def)
qed

lemma match_conns_ok:
  assumes "conns_ok d" "new_id \<notin> cn_id ` set (t_connections d)" "a \<noteq> b" "d = mt_db s"
  shows "conns_ok (mt_db (match_connect new_id a b now s))"
proof (cases "\<exists>r\<in>set (t_connections d). pair_row a b r")
  case True
  let ?rows = "upd (pair_row a b) (\<lambda>r. r\<lparr>cn_status := ConnectionAccepted\<rparr>) (t_connections d)"
  have "map cn_id ?rows = map cn_id (t_connections d)" "map pair ?rows = map pair (t_connections d)" by (rule map_upd; simp)+
  moreover have "\<forall>r\<in>set ?rows. cn_requester r \<noteq> cn_recipient r" using assms(1) by (auto simp: conns_ok_def elim!: upd_memE)
  ultimately show ?thesis using assms True by (simp add: match_connect_def conns_ok_def)
next
  case False
  then have "{a, b} \<notin> pair ` set (t_connections d)" by (auto simp: pair_row_iff)
  with False assms show ?thesis by (auto simp: match_connect_def conns_ok_def)
qed

lemma boost_spent_cong: "t_ledger d = t_ledger d' \<Longrightarrow> boost_spent d u = boost_spent d' u"
  by (simp add: boost_spent_def)

lemma greatest_None: "greatest xs = None \<longleftrightarrow> xs = []"
  by (simp add: greatest_def)

lemma greatest_Some: "greatest xs = Some m \<Longrightarrow> x \<in> set xs \<Longrightarrow> x \<le> m"
  by (auto simp: greatest_def split: if_splits)

lemma activate_InrE:
  assumes "activate_boost s u now = (s', Inr b)"
  obtains cost where "mt_boosts s' = mt_boosts s @ [\<lparr>bo_user = u, bo_starts = now, bo_ends = now + boost_duration, bo_cost = cost\<rparr>]"
    "mt_swipes s' = mt_swipes s" "t_connections (mt_db s') = t_connections (mt_db s)"
    "cost = 0 \<and> t_ledger (mt_db s') = t_ledger (mt_db s) \<or> cost = boost_cost_minor \<and> boost_cost_minor \<le> get_credit_balance (mt_db s) u
       \<and> t_ledger (mt_db s') = t_ledger (mt_db s) @ [\<lparr>cl_user = u, cl_amount = - cost, cl_reason = ''boost'', cl_order = None\<rparr>]"
    "\<forall>x\<in>set (mt_boosts s). bo_user x = u \<longrightarrow> bo_ends x \<le> now"
    "cost = 0 \<longleftrightarrow> (\<forall>x\<in>set (mt_boosts s). bo_user x = u \<and> bo_cost x = 0 \<longrightarrow> bo_starts x + boost_free_every \<le> now)"
    "b = boost_status s' u now"
proof -
  let ?b = "boost_status s u now"
  let ?frees = "map bo_starts (filter (\<lambda>b. bo_user b = u \<and> bo_cost b = 0) (mt_boosts s))"
  have a: "repo_activate_boost s u now = (s', Inr b)" and na: "\<not> bv_active ?b"
    using assms by (auto simp: activate_boost_def repo_activate_boost_def Let_def split: if_splits)
  have ended: "\<forall>x\<in>set (mt_boosts s). bo_user x = u \<longrightarrow> bo_ends x \<le> now"
    using na by (auto simp: boost_status_def Let_def greatest_None filter_empty_conv not_less)
  have free: "bv_free ?b \<longleftrightarrow> (\<forall>x\<in>set (mt_boosts s). bo_user x = u \<and> bo_cost x = 0 \<longrightarrow> bo_starts x + boost_free_every \<le> now)"
  proof (cases "greatest ?frees")
    case None
    then show ?thesis by (auto simp: boost_status_def Let_def greatest_def filter_empty_conv split: if_splits)
  next
    case (Some m)
    then have "m \<in> set ?frees" by (auto simp: greatest_def intro: Max_in split: if_splits)
    with Some greatest_Some[OF Some] show ?thesis by (fastforce simp: boost_status_def Let_def)
  qed
  have bal: "bv_balance ?b = get_credit_balance (mt_db s) u" by (simp add: boost_status_def Let_def)
  define cost where "cost = (if bv_free ?b then 0 else boost_cost_minor)"
  define s1 where "s1 = (if bv_free ?b then s else s\<lparr>mt_db := (mt_db s)\<lparr>t_ledger := t_ledger (mt_db s)
      @ [\<lparr>cl_user = u, cl_amount = - cost, cl_reason = ''boost'', cl_order = None\<rparr>]\<rparr>\<rparr>)"
  have covered: "bv_free ?b \<or> boost_cost_minor \<le> get_credit_balance (mt_db s) u"
    and s': "s' = s1\<lparr>mt_boosts := mt_boosts s1 @ [\<lparr>bo_user = u, bo_starts = now, bo_ends = now + boost_duration, bo_cost = cost\<rparr>]\<rparr>"
    and b: "b = boost_status s' u now"
    using a na unfolding repo_activate_boost_def Let_def bal cost_def s1_def by (auto split: if_split_asm)
  show thesis
  proof (rule that[of cost])
    show "mt_boosts s' = mt_boosts s @ [\<lparr>bo_user = u, bo_starts = now, bo_ends = now + boost_duration, bo_cost = cost\<rparr>]"
      "mt_swipes s' = mt_swipes s" "t_connections (mt_db s') = t_connections (mt_db s)"
      by (simp_all add: s' s1_def)
    show "cost = 0 \<longleftrightarrow> (\<forall>x\<in>set (mt_boosts s). bo_user x = u \<and> bo_cost x = 0 \<longrightarrow> bo_starts x + boost_free_every \<le> now)"
      unfolding free[symmetric] by (simp add: cost_def boost_cost_minor_def)
    show "cost = 0 \<and> t_ledger (mt_db s') = t_ledger (mt_db s) \<or> cost = boost_cost_minor \<and> boost_cost_minor \<le> get_credit_balance (mt_db s) u
       \<and> t_ledger (mt_db s') = t_ledger (mt_db s) @ [\<lparr>cl_user = u, cl_amount = - cost, cl_reason = ''boost'', cl_order = None\<rparr>]"
      using covered by (auto simp: s' s1_def cost_def)
  qed (use ended b in blast)+
qed

lemma boosts_ok_activate:
  assumes "boosts_ok s" "activate_boost s u now = (s', Inr b)"
  shows "boosts_ok s'"
  using assms(2)
proof (cases rule: activate_InrE)
  case (1 cost)
  have "sorted_wrt boost_after (mt_boosts s')"
    using assms(1) 1(1,5,6) by (auto simp: boosts_ok_def sorted_wrt_append boost_after_def)
  moreover have "boost_spent (mt_db s') v = boost_spent (mt_db s) v + (if v = u then cost else 0)" for v
    using 1(4) by (auto simp: boost_spent_def)
  ultimately show ?thesis using assms(1) 1(1,4) by (auto simp: boosts_ok_def)
qed

lemma meet_step_ok: "meet_step s s' \<Longrightarrow> meet_ok s \<Longrightarrow> meet_ok s'"
proof (induction rule: meet_step.induct)
  case (swiping new_id s dm now a b action s' r)
  show ?case
  proof (cases r)
    case (Inl e)
    with swiping swipe_error show ?thesis by blast
  next
    case (Inr out)
    with swiping(2) have "swipe dm s now new_id a b action = (s', Inr out)" by simp
    then show ?thesis
    proof (cases rule: swipe_InrE)
      case 1
      have "swipes_ok (mt_swipes s')" unfolding 1(5) using swipes_ok_swipe[OF _ 1(1,3)] swiping(3) by (simp add: meet_ok_def)
      moreover have "conns_ok (mt_db s')"
      proof (cases "sx_matched out")
        case True
        have "conns_ok (mt_db (match_connect new_id a b now s))"
          using match_conns_ok[OF _ swiping(1) 1(1) refl] swiping(3) by (simp add: meet_ok_def)
        with True 1(9) show ?thesis by (simp add: conns_ok_def)
      next
        case False
        with 1(9) swiping(3) show ?thesis by (simp add: conns_ok_def meet_ok_def)
      qed
      moreover have "boosts_ok s'" using swiping(3) 1(6,7) boost_spent_cong[of "mt_db s'" "mt_db s"]
        by (simp add: boosts_ok_def meet_ok_def)
      ultimately show ?thesis by (simp add: meet_ok_def)
    qed
  qed
next
  case (boosting s u now s' r)
  show ?case
  proof (cases r)
    case (Inl e)
    then have "s' = s" using boosting(1) by (auto simp: activate_boost_def repo_activate_boost_def Let_def split: if_splits)
    with boosting show ?thesis by simp
  next
    case (Inr b)
    with boosting(1) have a: "activate_boost s u now = (s', Inr b)" by simp
    then have "mt_swipes s' = mt_swipes s \<and> t_connections (mt_db s') = t_connections (mt_db s)" by (cases rule: activate_InrE) simp
    with boosts_ok_activate[OF _ a] boosting(2) show ?thesis by (simp add: meet_ok_def conns_ok_def)
  qed
next
  case (elsewhere d s c)
  then show ?case by (simp add: meet_ok_def boosts_ok_def)
qed

lemma meet_run_ok:
  assumes "meet_step\<^sup>*\<^sup>* (no_meeting d c) s" "conns_ok d" "\<forall>u. boost_spent d u = 0"
  shows "meet_ok s"
  using assms(1)
proof (induction rule: rtranclp_induct)
  case base
  show ?case using assms(2,3) by (simp add: meet_ok_def no_meeting_def swipes_ok_def limits_ok_def in_window_def boosts_ok_def)
qed (rule meet_step_ok)

section \<open>Matches\<close>

lemma one_row_of_pair:
  assumes "conns_ok d" "r \<in> set (t_connections d)" "pair_row a b r" "cn_status r = ConnectionAccepted"
  shows "fst (connection_state d a b) = ''connected''"
proof (cases "sort_key (\<lambda>r. - cn_created r) (filter (pair_row a b) (t_connections d))")
  case Nil
  then have "filter (pair_row a b) (t_connections d) = []" by (metis set_empty set_sort)
  with assms(2,3) show ?thesis by (auto simp: filter_empty_conv)
next
  case (Cons x xs)
  have "x \<in> set (sort_key (\<lambda>r. - cn_created r) (filter (pair_row a b) (t_connections d)))" unfolding Cons by simp
  then have "x \<in> set (t_connections d)" "pair_row a b x" by auto
  then have "x = r" using assms(1-3) key_inj[of pair "t_connections d" x r] by (simp add: conns_ok_def pair_row_iff)
  with Cons assms(4) show ?thesis by (simp add: connection_state_def)
qed

lemma match_connect_row:
  "\<exists>r\<in>set (t_connections (mt_db (match_connect new_id a b now s))). pair_row a b r \<and> cn_status r = ConnectionAccepted"
proof (cases "\<exists>r\<in>set (t_connections (mt_db s)). pair_row a b r")
  case True
  then obtain r where "r \<in> set (t_connections (mt_db s))" "pair_row a b r" by blast
  then show ?thesis
    by (intro bexI[of _ "r\<lparr>cn_status := ConnectionAccepted\<rparr>"]) (auto simp: match_connect_def set_upd pair_row_def)
next
  case False
  then show ?thesis by (auto simp: match_connect_def pair_row_def)
qed

lemma match_connect_others:
  "\<not> pair_row a b r \<Longrightarrow> r \<in> set (t_connections (mt_db (match_connect new_id a b now s))) \<longleftrightarrow> r \<in> set (t_connections (mt_db s))"
  by (auto simp: match_connect_def set_upd pair_row_def)

text \<open>
  C36. A match is mutual and connects. In every run, an accepted swipe records exactly its
  decision about that person; it reports a match exactly if it is a wave and the other's
  standing decision is a wave too; then both see each other connected. Without a match no
  connection changes, and those of other pairs never do. Nobody blocked is ever swiped.
\<close>

theorem match_is_mutual:
  assumes "meet_step\<^sup>*\<^sup>* (no_meeting d c) s" "conns_ok d" "\<forall>u. boost_spent d u = 0"
    and "new_id \<notin> cn_id ` set (t_connections (mt_db s))" "swipe dm s now new_id a b action = (s', Inr out)"
  shows "(\<forall>w. w \<in> set (mt_swipes s') \<longleftrightarrow> w = \<lparr>sw_actor = a, sw_target = b, sw_action = action, sw_created = now\<rparr>
        \<or> (w \<in> set (mt_swipes s) \<and> swiped_pair w \<noteq> (a, b)))
    \<and> (sx_matched out \<longleftrightarrow> waved_at (mt_swipes s') a b \<and> waved_at (mt_swipes s) b a)
    \<and> (sx_matched out \<longrightarrow> fst (connection_state (mt_db s') a b) = ''connected'' \<and> fst (connection_state (mt_db s') b a) = ''connected'')
    \<and> (\<not> sx_matched out \<longrightarrow> t_connections (mt_db s') = t_connections (mt_db s))
    \<and> (\<forall>r. \<not> pair_row a b r \<longrightarrow> r \<in> set (t_connections (mt_db s')) \<longleftrightarrow> r \<in> set (t_connections (mt_db s)))
    \<and> \<not> blocked (mt_db s) a b"
  using assms(5)
proof (cases rule: swipe_InrE)
  case 1
  have ok: "meet_ok s" using meet_run_ok[OF assms(1-3)] .
  have ok': "conns_ok (mt_db s')" using meet_step_ok[OF swiping[OF assms(4,5)] ok] by (simp add: meet_ok_def)
  have rows: "w \<in> set (mt_swipes s') \<longleftrightarrow> w = \<lparr>sw_actor = a, sw_target = b, sw_action = action, sw_created = now\<rparr>
        \<or> (w \<in> set (mt_swipes s) \<and> swiped_pair w \<noteq> (a, b))" for w
    unfolding 1(5) by (rule put_swipe_rows)
  have "w \<in> set (mt_swipes s') \<and> sw_actor w = b \<and> sw_target w = a \<longleftrightarrow> w \<in> set (mt_swipes s) \<and> sw_actor w = b \<and> sw_target w = a" for w
    unfolding rows using 1(1) by (cases w) auto
  then have "waved_at (mt_swipes s') b a = waved_at (mt_swipes s) b a" by blast
  moreover have "waved_at (mt_swipes s') a b \<longleftrightarrow> action \<noteq> ''pass''"
  proof -
    have "w \<in> set (mt_swipes s') \<and> sw_actor w = a \<and> sw_target w = b
        \<longleftrightarrow> w = \<lparr>sw_actor = a, sw_target = b, sw_action = action, sw_created = now\<rparr>" for w
      unfolding rows by (cases w) auto
    then have "waved_at (mt_swipes s') a b \<longleftrightarrow> (\<exists>w. w = \<lparr>sw_actor = a, sw_target = b, sw_action = action, sw_created = now\<rparr>
        \<and> sw_action w \<in> wave_actions)" by blast
    also have "\<dots> \<longleftrightarrow> action \<noteq> ''pass''" using 1(2) by (auto simp: wave_actions_def)
    finally show ?thesis .
  qed
  ultimately have matched: "sx_matched out \<longleftrightarrow> waved_at (mt_swipes s') a b \<and> waved_at (mt_swipes s) b a" using 1(8) by simp
  have con: "fst (connection_state (mt_db s') a b) = ''connected'' \<and> fst (connection_state (mt_db s') b a) = ''connected''"
    if m: "sx_matched out"
  proof -
    obtain r where "r \<in> set (t_connections (mt_db s'))" "pair_row a b r" "cn_status r = ConnectionAccepted"
      using match_connect_row[of new_id a b now s] 1(9) m by auto
    then show ?thesis using one_row_of_pair[OF ok'] pair_row_commute[of b a] by metis
  qed
  have oth: "r \<in> set (t_connections (mt_db s')) \<longleftrightarrow> r \<in> set (t_connections (mt_db s))" if "\<not> pair_row a b r" for r
    unfolding 1(9) using match_connect_others[OF that, of new_id now s] by simp
  have keep: "\<not> sx_matched out \<longrightarrow> t_connections (mt_db s') = t_connections (mt_db s)" using 1(9) by simp
  show ?thesis using rows matched con oth keep 1(4) by blast
qed

text \<open>
  Daily limits: in every run and for every span of twenty-four hours, of the standing
  decisions of one person at most 300 were made in it, at most 50 of them waves, at most
  five of these super waves, whatever the clocks of the servers did.
\<close>

theorem swipes_bounded:
  assumes "meet_step\<^sup>*\<^sup>* (no_meeting d c) s" "conns_ok d" "\<forall>u. boost_spent d u = 0"
  shows "in_window (mt_swipes s) a t (\<lambda>_. True) \<le> 300 \<and> in_window (mt_swipes s) a t (\<lambda>w. sw_action w \<noteq> ''pass'') \<le> 50
    \<and> in_window (mt_swipes s) a t (\<lambda>w. sw_action w = ''super'') \<le> 5"
  using meet_run_ok[OF assms] by (simp add: meet_ok_def swipes_ok_def limits_ok_def)


section \<open>The deck\<close>

text \<open>
  The deck shows at most thirty different people, boosted ones first: active, with five
  interests, of the ages asked for, neither blocked nor blocking, without any connection to
  the caller, and none the caller decided about, for good on a wave and for thirty days on a
  pass.
\<close>

theorem deck_of_strangers:
  assumes "get_deck prof s now me limit lo hi = Inr cards" "distinct (map us_id (t_users (mt_db s)))"
  shows "length cards \<le> 30 \<and> distinct (map dk_user cards) \<and> sorted (map (\<lambda>c. \<not> dk_boosted c) cards)
    \<and> (\<forall>c\<in>set cards. dk_user c \<noteq> me \<and> (\<exists>x\<in>set (t_users (mt_db s)). us_id x = dk_user c \<and> us_status x = UserActive)
         \<and> 5 \<le> length (dp_interests (prof (dk_user c))) \<and> old_enough lo hi (dp_age (prof (dk_user c)))
         \<and> \<not> blocked (mt_db s) me (dk_user c) \<and> connection_state (mt_db s) me (dk_user c) = (''none'', '''')
         \<and> \<not> decided s now me (dk_user c))"
proof -
  obtain n where n: "cards = repo_deck prof s now me n lo hi" "n \<le> 30"
    using assms(1) by (auto simp: get_deck_def Let_def max_deck_def default_deck_def split: if_splits)
  show ?thesis
  proof (cases "find (\<lambda>x. us_id x = me) (t_users (mt_db s))")
    case None
    with n show ?thesis by (simp add: repo_deck_def)
  next
    case (Some u)
    define found where "found = map (\<lambda>x. card_of prof s now me (us_id x))
      (filter (deck_candidate prof s now me (us_city u) lo hi) (t_users (mt_db s)))"
    define listed where "listed = sort_key (\<lambda>c. \<not> dk_waved c) (sort_key (\<lambda>c. \<not> dp_photo (prof (dk_user c)))
      (sort_key (\<lambda>c. - deck_score prof me (dk_user c)) (sort_key (\<lambda>c. dp_hash (prof (dk_user c))) found)))"
    have cards: "cards = take n (sort_key (\<lambda>c. \<not> dk_boosted c) listed)"
      unfolding n(1) repo_deck_def Some option.case listed_def found_def by (rule refl)
    have "distinct (map dk_user found)"
      using assms(2) by (simp add: found_def comp_def card_of_def distinct_map_filter)
    then have "distinct (map dk_user (sort_key (\<lambda>c. \<not> dk_boosted c) listed))" by (simp add: listed_def distinct_map)
    then have d: "distinct (map dk_user cards)" unfolding cards take_map[symmetric] by (rule distinct_take)
    have so: "sorted (map (\<lambda>c. \<not> dk_boosted c) cards)"
      unfolding cards take_map[symmetric] by (intro sorted_wrt_take sorted_sort_key)
    have "set cards \<subseteq> set found" unfolding cards using set_take_subset by (fastforce simp: listed_def)
    have each: "\<exists>x. x \<in> set (t_users (mt_db s)) \<and> dk_user c = us_id x \<and> deck_candidate prof s now me (us_city u) lo hi x"
      if "c \<in> set cards" for c
    proof -
      have "c \<in> set found" using \<open>set cards \<subseteq> set found\<close> that by blast
      then show ?thesis by (auto simp: found_def card_of_def)
    qed
    have "connection_state (mt_db s) me k = (''none'', '''')" if "\<not> (\<exists>r\<in>set (t_connections (mt_db s)). pair_row me k r)" for k
    proof -
      have "filter (pair_row me k) (t_connections (mt_db s)) = []" using that by (auto simp: filter_empty_conv)
      then show ?thesis by (simp add: connection_state_def)
    qed
    with each have "dk_user c \<noteq> me \<and> (\<exists>x\<in>set (t_users (mt_db s)). us_id x = dk_user c \<and> us_status x = UserActive)
         \<and> 5 \<le> length (dp_interests (prof (dk_user c))) \<and> old_enough lo hi (dp_age (prof (dk_user c)))
         \<and> \<not> blocked (mt_db s) me (dk_user c) \<and> connection_state (mt_db s) me (dk_user c) = (''none'', '''')
         \<and> \<not> decided s now me (dk_user c)" if "c \<in> set cards" for c
      using each[OF that] unfolding deck_candidate_def by metis
    moreover have "length cards \<le> 30" using n(2) by (simp add: cards)
    ultimately show ?thesis using d so by blast
  qed
qed

section \<open>Witnesses\<close>

abbreviation meet_start :: "unit meet_db" where "meet_start \<equiv> no_meeting conn_db ()"

abbreviation first_wave :: "unit meet_db" where
  "first_wave \<equiv> fst (swipe None meet_start 10 ''k'' ''b'' ''a'' ''wave'')"

lemma meet_start_ok: "conns_ok conn_db" "\<forall>u. boost_spent conn_db u = 0"
  by (simp_all add: conns_ok_def boost_spent_def conn_db_def empty_db_def)

lemma first_wave_state:
  "mt_swipes first_wave = [\<lparr>sw_actor = ''b'', sw_target = ''a'', sw_action = ''wave'', sw_created = 10\<rparr>]"
  "t_connections (mt_db first_wave) = []" "t_users (mt_db first_wave) = t_users conn_db" "t_blocks (mt_db first_wave) = []"
  by (simp_all add: swipe_def repo_swipe_def no_meeting_def conn_db_def empty_db_def blocked_def over_limit_def swipes_today_def
      daily_swipes_def daily_waves_def daily_supers_def put_swipe_def push_to_def enqueue_notify_user_def enqueue_def open_room_def Let_def)

lemma first_wave_run: "meet_step\<^sup>*\<^sup>* meet_start first_wave"
proof -
  have "''k'' \<notin> cn_id ` set (t_connections (mt_db meet_start))" by (simp add: no_meeting_def conn_db_def empty_db_def)
  from swiping[OF this, of None 10 "''b''" "''a''" "''wave''" first_wave] show ?thesis
    by (metis prod.collapse r_into_rtranclp)
qed

lemma wave_matches:
  assumes "a \<noteq> ''''" "b \<noteq> ''''" "a \<noteq> b" "find (\<lambda>u. us_id u = b) (t_users (mt_db s)) = Some u" "us_status u = UserActive"
    and "\<not> blocked (mt_db s) a b" "\<not> over_limit s now a ''wave''" "waved_at (mt_swipes s) b a"
  shows "\<exists>s' out. swipe None s now k a b ''wave'' = (s', Inr out) \<and> sx_matched out"
proof -
  obtain w where "w \<in> set (mt_swipes s)" "sw_actor w = b" "sw_target w = a" "sw_action w \<in> wave_actions" using assms(8) by blast
  then have "waved_at (mt_swipes (put_swipe a b ''wave'' now s)) b a"
    using assms(3) by (intro bexI[of _ w]) (simp_all add: put_swipe_rows)
  then show ?thesis using assms(1-7) unfolding swipe_def repo_swipe_def by (simp add: Let_def open_room_def) blast
qed

lemma wave_back:
  "\<exists>s' out. swipe None first_wave 20 ''k'' ''a'' ''b'' ''wave'' = (s', Inr out) \<and> sx_matched out"
proof (rule wave_matches)
  show "\<not> over_limit first_wave 20 ''a'' ''wave''"
    unfolding over_limit_def swipes_today_def first_wave_state(1) by (simp add: daily_swipes_def daily_waves_def)
  show "find (\<lambda>u. us_id u = ''b'') (t_users (mt_db first_wave))
      = Some \<lparr>us_id = ''b'', us_email = '''', us_status = UserActive, us_city = None, us_created = 0\<rparr>"
    unfolding first_wave_state by (simp add: conn_db_def)
  show "\<not> blocked (mt_db first_wave) ''a'' ''b''" unfolding blocked_def first_wave_state by simp
  show "waved_at (mt_swipes first_wave) ''b'' ''a''" unfolding first_wave_state by (simp add: wave_actions_def)
qed simp_all

lemma match_is_mutual_witness:
  "\<exists>s' out. swipe None first_wave 20 ''k'' ''a'' ''b'' ''wave'' = (s', Inr out)
     \<and> fst (connection_state (mt_db s') ''a'' ''b'') = ''connected''"
proof -
  obtain s' out where s': "swipe None first_wave 20 ''k'' ''a'' ''b'' ''wave'' = (s', Inr out)" "sx_matched out"
    using wave_back by blast
  have "''k'' \<notin> cn_id ` set (t_connections (mt_db first_wave))" unfolding first_wave_state by simp
  from match_is_mutual[OF first_wave_run meet_start_ok this s'(1)] s' show ?thesis by blast
qed

lemma swipes_bounded_witness: "in_window (mt_swipes first_wave) ''b'' 10 (\<lambda>_. True) \<le> 300"
  using swipes_bounded[OF first_wave_run meet_start_ok] by blast


lemma deck_of_strangers_witness:
  "let prof = (\<lambda>_. \<lparr>dp_interests = [''i'', ''j'', ''k'', ''l'', ''m''], dp_intents = [], dp_age = Some 30, dp_photo = True, dp_hash = ''''\<rparr>);
       s = no_meeting (conn_db\<lparr>t_profiles := [(''b'', ''Bea'')]\<rparr>) ()
   in \<exists>c. get_deck prof s 5 ''a'' 0 0 0 = Inr [c] \<and> connection_state (mt_db s) ''a'' (dk_user c) = (''none'', '''')"
proof -
  let ?prof = "\<lambda>_. \<lparr>dp_interests = [''i'', ''j'', ''k'', ''l'', ''m''], dp_intents = [], dp_age = Some 30, dp_photo = True, dp_hash = ''''\<rparr>"
  let ?s = "no_meeting (conn_db\<lparr>t_profiles := [(''b'', ''Bea'')]\<rparr>) ()"
  obtain c where c: "get_deck ?prof ?s 5 ''a'' 0 0 0 = Inr [c]"
    by (simp add: get_deck_def default_deck_def max_deck_def repo_deck_def no_meeting_def conn_db_def empty_db_def
        deck_candidate_def blocked_def decided_def old_enough_def Let_def)
  have "distinct (map us_id (t_users (mt_db ?s)))" by (simp add: no_meeting_def conn_db_def)
  from deck_of_strangers[OF c this] c show ?thesis by auto
qed

section \<open>What the limits miss\<close>

text \<open>
  "Repeating a swipe must not notify again": taking a wave back and waving again does, and the
  one row per pair keeps the count of the day at one, so no limit is ever reached.
\<close>

lemma alternating_waves_push_again:
  assumes "mt_swipes s = [\<lparr>sw_actor = a, sw_target = b, sw_action = ''wave'', sw_created = t\<rparr>]" "a \<noteq> b"
    and "find (\<lambda>u. us_id u = b) (t_users (mt_db s)) = Some u" "us_status u = UserActive" "\<not> blocked (mt_db s) a b"
  shows "\<exists>s1 s2 r1 r2. repo_swipe s now k a b ''pass'' = (s1, Inr r1) \<and> repo_swipe s1 now k a b ''wave'' = (s2, Inr r2)
    \<and> mt_swipes s2 = [\<lparr>sw_actor = a, sw_target = b, sw_action = ''wave'', sw_created = now\<rparr>]
    \<and> length (t_outbox (mt_db s2)) = length (t_outbox (mt_db s)) + 1
    \<and> t_users (mt_db s2) = t_users (mt_db s) \<and> t_blocks (mt_db s2) = t_blocks (mt_db s)"
proof -
  have "\<not> over_limit s now a ''pass''" by (simp add: over_limit_def swipes_today_def assms(1) daily_swipes_def)
  then have first: "repo_swipe s now k a b ''pass'' = (put_swipe a b ''pass'' now s, Inr (False, profile_name (mt_db s) b))"
    using assms(3-5) by (simp add: repo_swipe_def Let_def)
  let ?s1 = "put_swipe a b ''pass'' now s"
  have rows: "mt_swipes ?s1 = [\<lparr>sw_actor = a, sw_target = b, sw_action = ''pass'', sw_created = now\<rparr>]"
    using assms(1) by (simp add: put_swipe_def Let_def)
  have "\<not> over_limit ?s1 now a ''wave''" by (simp add: over_limit_def swipes_today_def rows daily_swipes_def daily_waves_def)
  moreover have rows2: "mt_swipes (put_swipe a b ''wave'' now ?s1)
      = [\<lparr>sw_actor = a, sw_target = b, sw_action = ''wave'', sw_created = now\<rparr>]"
    unfolding put_swipe_def[of a b "''wave''" now ?s1] using rows by (simp add: Let_def)
  ultimately have "repo_swipe ?s1 now k a b ''wave''
      = (push_to b (fst (wave_push (profile_name (mt_db s) a) ''wave'')) (snd (wave_push (profile_name (mt_db s) a) ''wave''))
           ''hivemind://waves'' now (put_swipe a b ''wave'' now ?s1), Inr (False, profile_name (mt_db s) b))"
    using assms(2-5) rows by (simp add: repo_swipe_def Let_def)
  note second = this
  show ?thesis
    by (rule exI, rule exI, rule exI, rule exI, rule conjI, rule first, rule conjI, rule second)
      (simp add: rows2 push_to_def enqueue_notify_user_def enqueue_def)
qed

end
