(* ===== verification/Base64.thy ===== *)
theory Base64
  imports Text
begin

text \<open>
  Go's \<^verbatim>\<open>base64.RawURLEncoding\<close>, which page tokens go through: six bits a character, no
  padding. Decoding skips line breaks and ignores unused bits at the end, as Go does.
\<close>

definition b64_alphabet :: string where
  "b64_alphabet = ''ABCDEFGHIJKLMNOPQRSTUVWXYZabcdefghijklmnopqrstuvwxyz0123456789-_''"

definition b64_digit :: "nat \<Rightarrow> char" where "b64_digit n = b64_alphabet ! n"

definition b64_value :: "char \<Rightarrow> nat option" where
  "b64_value c = (let n = length (takeWhile (\<lambda>d. d \<noteq> c) b64_alphabet) in if n < 64 then Some n else None)"

fun b64_encode :: "string \<Rightarrow> string" where
  "b64_encode [] = []"
| "b64_encode [a] = (let a = of_char a in [b64_digit (a div 4), b64_digit (a mod 4 * 16)])"
| "b64_encode [a, b] = (let a = of_char a; b = of_char b
     in [b64_digit (a div 4), b64_digit (a mod 4 * 16 + b div 16), b64_digit (b mod 16 * 4)])"
| "b64_encode (a # b # c # r) = (let a = of_char a; b = of_char b; c = of_char c
     in b64_digit (a div 4) # b64_digit (a mod 4 * 16 + b div 16) # b64_digit (b mod 16 * 4 + c div 64)
        # b64_digit (c mod 64) # b64_encode r)"

fun b64_bytes :: "nat list \<Rightarrow> string option" where
  "b64_bytes [] = Some []"
| "b64_bytes [a] = None"
| "b64_bytes [a, b] = Some [char_of (a * 4 + b div 16)]"
| "b64_bytes [a, b, c] = Some [char_of (a * 4 + b div 16), char_of (b mod 16 * 16 + c div 4)]"
| "b64_bytes (a # b # c # d # r) =
     map_option (\<lambda>s. char_of (a * 4 + b div 16) # char_of (b mod 16 * 16 + c div 4) # char_of (c mod 4 * 64 + d) # s)
       (b64_bytes r)"

definition b64_decode :: "string \<Rightarrow> string option" where
  "b64_decode s =
    (let vs = map b64_value (filter (\<lambda>c. c \<noteq> CHR 0x0A \<and> c \<noteq> CHR 0x0D) s)
     in if None \<in> set vs then None else b64_bytes (map the vs))"

lemma b64_digits: "n < 64 \<Longrightarrow> b64_value (b64_digit n) = Some n \<and> b64_digit n \<noteq> CHR 0x0A \<and> b64_digit n \<noteq> CHR 0x0D"
proof -
  have "list_all (\<lambda>n. b64_value (b64_digit n) = Some n \<and> b64_digit n \<noteq> CHR 0x0A \<and> b64_digit n \<noteq> CHR 0x0D) [0..<64]"
    by code_simp
  then show "n < 64 \<Longrightarrow> b64_value (b64_digit n) = Some n \<and> b64_digit n \<noteq> CHR 0x0A \<and> b64_digit n \<noteq> CHR 0x0D"
    by (simp add: list_all_iff)
qed

text \<open>The six-bit values of an encoding, and that they give the bytes back.\<close>

fun b64_values :: "string \<Rightarrow> nat list" where
  "b64_values [] = []"
| "b64_values [a] = [of_char a div 4, of_char a mod 4 * 16]"
| "b64_values [a, b] = [of_char a div 4, of_char a mod 4 * 16 + of_char b div 16, of_char b mod 16 * 4]"
| "b64_values (a # b # c # r) = of_char a div 4 # (of_char a mod 4 * 16 + of_char b div 16)
     # (of_char b mod 16 * 4 + of_char c div 64) # of_char c mod 64 # b64_values r"

lemma byte_less: "(of_char c :: nat) < 256"
  by (rule nat_of_char_less_256)

lemma b64_values_small: "\<forall>n\<in>set (b64_values s). n < 64"
proof (induction s rule: b64_values.induct)
  case (2 a)
  have "(of_char a :: nat) div 4 < 64" "(of_char a :: nat) mod 4 * 16 < 64" using byte_less[of a] by linarith+
  then show ?case by simp
next
  case (3 a b)
  have "(of_char a :: nat) div 4 < 64" "(of_char a :: nat) mod 4 * 16 + of_char b div 16 < 64" "(of_char b :: nat) mod 16 * 4 < 64"
    using byte_less[of a] byte_less[of b] by linarith+
  then show ?case by simp
next
  case (4 a b c r)
  have "(of_char a :: nat) div 4 < 64" "(of_char a :: nat) mod 4 * 16 + of_char b div 16 < 64"
    "(of_char b :: nat) mod 16 * 4 + of_char c div 64 < 64" "(of_char c :: nat) mod 64 < 64"
    using byte_less[of a] byte_less[of b] byte_less[of c] by linarith+
  with 4 show ?case by simp
qed simp

lemma b64_encode_values: "b64_encode s = map b64_digit (b64_values s)"
  by (induction s rule: b64_values.induct) (simp_all add: Let_def)

text \<open>Two pieces of a byte, put together again.\<close>

lemma pieces:
  fixes x k m :: nat
  assumes "k < m"
  shows "(x * m + k) div m = x" "(x * m + k) mod m = k"
  using assms by simp_all

lemma b64_triple:
  fixes a b c :: nat
  assumes "b < 256" "c < 256"
  shows "a div 4 * 4 + (a mod 4 * 16 + b div 16) div 16 = a"
    "(a mod 4 * 16 + b div 16) mod 16 * 16 + (b mod 16 * 4 + c div 64) div 4 = b"
    "(b mod 16 * 4 + c div 64) mod 4 * 64 + c mod 64 = c"
proof -
  have "b div 16 < 16" "c div 64 < 4" using assms by (simp_all add: less_mult_imp_div_less)
  note p = pieces[OF this(1), of "a mod 4"] pieces[OF this(2), of "b mod 16"]
  show "a div 4 * 4 + (a mod 4 * 16 + b div 16) div 16 = a"
    "(a mod 4 * 16 + b div 16) mod 16 * 16 + (b mod 16 * 4 + c div 64) div 4 = b"
    "(b mod 16 * 4 + c div 64) mod 4 * 64 + c mod 64 = c"
    unfolding p by (rule div_mult_mod_eq)+
qed

lemma b64_bytes_values: "b64_bytes (b64_values s) = Some s"
proof (induction s rule: b64_values.induct)
  case (2 a)
  show ?case using b64_triple(1)[where a = "of_char a" and b = 0 and c = 0] by (simp only: b64_values.simps b64_bytes.simps) simp
next
  case (3 a b)
  show ?case using b64_triple(1,2)[where a = "of_char a" and b = "of_char b" and c = 0, OF byte_less]
    by (simp only: b64_values.simps b64_bytes.simps) simp
next
  case (4 a b c r)
  show ?case using b64_triple(1,2)[where a = "of_char a" and b = "of_char b" and c = "of_char c", OF byte_less byte_less]
      b64_triple(3)[where b = "of_char b" and c = "of_char c", OF byte_less byte_less]
    by (simp only: b64_values.simps b64_bytes.simps 4 option.map) simp
qed simp

lemma b64_roundtrip: "b64_decode (b64_encode s) = Some s"
proof -
  have ok: "filter (\<lambda>c. c \<noteq> CHR 0x0A \<and> c \<noteq> CHR 0x0D) (map b64_digit ns) = map b64_digit ns
      \<and> map b64_value (map b64_digit ns) = map Some ns" if "\<forall>n\<in>set ns. n < 64" for ns
    using that b64_digits by (induction ns) auto
  note eq = ok[OF b64_values_small[of s]]
  have "map the (map Some ns) = ns" "None \<notin> set (map Some ns)" for ns :: "nat list" by (simp_all add: comp_def)
  then show ?thesis unfolding b64_decode_def b64_encode_values conjunct1[OF eq] conjunct2[OF eq] Let_def
    by (simp only: if_False b64_bytes_values)
qed

lemma b64_encode_Nil: "b64_encode s = [] \<longleftrightarrow> s = []"
  by (cases s rule: b64_encode.cases) (simp_all add: Let_def)

end
