(* ===== verification/Social.thy ===== *)
theory Social
  imports Moderation Base64 "HOL-Library.Product_Lexorder"
begin

text \<open>
  The social feed (\<^verbatim>\<open>internal/social\<close>): posts with an audience, likes, comments, saves, feeds
  with page tokens, and memories of attended plans. The media resolver, the screener's words,
  interests and local times are arguments; thumbnails and sizes of media are not columns of
  the model.
\<close>

section \<open>State\<close>

record post_row =
  pst_id :: string
  pst_author :: string
  pst_plan :: "string option"
  pst_community :: "string option"
  pst_body :: string
  pst_media :: "(string \<times> media_asset) list"
  pst_visibility :: string
  pst_created :: int

record comment_row =
  cb_id :: string
  cb_post :: string
  cb_author :: string
  cb_body :: string
  cb_created :: int

record post_input =
  pi_author :: string
  pi_plan :: string
  pi_community :: string
  pi_body :: string
  pi_media :: "string list"
  pi_visibility :: string

record post_shown =
  ps_row :: post_row
  ps_images :: "string list"
  ps_likes :: int
  ps_comments :: int
  ps_liked :: bool
  ps_saved :: bool

text \<open>\<open>so_saves\<close>: the user, the post and the time.\<close>

record social_db =
  so_db :: db
  so_mod :: mod_db
  so_posts :: "post_row list"
  so_comments :: "comment_row list"
  so_likes :: "(string \<times> string) list"
  so_saves :: "(string \<times> string \<times> int) list"

section \<open>Repository\<close>

text \<open>\<open>visibleSQL\<close>: the one definition of who may see a post.\<close>

definition post_visible :: "db \<Rightarrow> string \<Rightarrow> post_row \<Rightarrow> bool" where
  "post_visible s v p \<longleftrightarrow> pst_author p = v \<or> (\<not> blocked s v (pst_author p)
     \<and> (\<exists>u\<in>set (t_users s). us_id u = pst_author p \<and> us_status u = UserActive)
     \<and> (pst_visibility p = ''public''
        \<or> (pst_visibility p = ''connections'' \<and> connected s v (pst_author p))
        \<or> (pst_visibility p = ''community'' \<and> (case pst_community p of None \<Rightarrow> False | Some c \<Rightarrow> (c, v) \<in> set (t_members s)))))"

definition hydrate_post :: "social_db \<Rightarrow> string \<Rightarrow> post_row \<Rightarrow> post_shown" where
  "hydrate_post s v p = \<lparr>ps_row = p, ps_images = map (\<lambda>m. ma_url (snd m)) (filter (\<lambda>m. ma_kind (snd m) = ''image'') (pst_media p)),
     ps_likes = cnt (\<lambda>l. fst l = pst_id p) (so_likes s), ps_comments = cnt (\<lambda>c. cb_post c = pst_id p) (so_comments s),
     ps_liked = ((pst_id p, v) \<in> set (so_likes s)), ps_saved = (\<exists>x\<in>set (so_saves s). fst x = v \<and> fst (snd x) = pst_id p)\<rparr>"

text \<open>A \<^verbatim>\<open>timestamptz\<close> keeps microseconds. The checks are those of migration 0041.\<close>

definition db_time :: "int \<Rightarrow> int" where "db_time t = t - t mod 1000"

definition repo_create_post ::
  "social_db \<Rightarrow> int \<Rightarrow> string \<Rightarrow> post_input \<Rightarrow> media_asset list \<Rightarrow> (social_db, post_row) outcome" where
  "repo_create_post s now new_id p assets =
    in_tx s (let x = \<lparr>pst_id = new_id, pst_author = pi_author p, pst_plan = nullif (pi_plan p), pst_community = nullif (pi_community p),
           pst_body = pi_body p, pst_media = zip (pi_media p) assets, pst_visibility = pi_visibility p, pst_created = db_time now\<rparr>
     in if (pst_visibility x = ''community'') \<noteq> (pst_community x \<noteq> None)
           \<or> (\<exists>m\<in>set (pst_media x). ma_kind (snd m) \<notin> {''image'', ''video''})
        then (s, Inl DB_CheckViolation) else (s\<lparr>so_posts := so_posts s @ [x]\<rparr>, Inr x))"

definition get_visible :: "social_db \<Rightarrow> string \<Rightarrow> string \<Rightarrow> go_error + post_shown" where
  "get_visible s i v = (case find (\<lambda>p. pst_id p = i \<and> post_visible (so_db s) v p) (so_posts s) of
     None \<Rightarrow> Inl (Social SocialPostNotFound) | Some p \<Rightarrow> Inr (hydrate_post s v p))"

type_synonym cursor = "int \<times> string"

definition post_key :: "post_row \<Rightarrow> int \<times> string" where "post_key p = (pst_created p, pst_id p)"

definition after_cursor :: "cursor option \<Rightarrow> post_row \<Rightarrow> bool" where
  "after_cursor cur p = (case cur of None \<Rightarrow> True | Some c \<Rightarrow> post_key p < c)"

text \<open>\<^verbatim>\<open>ORDER BY p.created_at DESC, p.id DESC\<close>\<close>

definition newest_first :: "post_row list \<Rightarrow> post_row list" where
  "newest_first ps = rev (sort_key post_key ps)"

definition list_for_author :: "social_db \<Rightarrow> string \<Rightarrow> string \<Rightarrow> cursor option \<Rightarrow> nat \<Rightarrow> post_shown list" where
  "list_for_author s author v cur limit = map (hydrate_post s v) (take limit (newest_first
     (filter (\<lambda>p. pst_author p = author \<and> post_visible (so_db s) v p \<and> after_cursor cur p) (so_posts s))))"

definition in_scope :: "db \<Rightarrow> string \<Rightarrow> string \<Rightarrow> string \<Rightarrow> post_row \<Rightarrow> bool" where
  "in_scope s v scope community p \<longleftrightarrow>
     (if scope = ''global'' then pst_visibility p \<noteq> ''private''
      else if scope = ''connections''
      then pst_author p \<noteq> v \<and> pst_visibility p \<in> {''public'', ''connections''} \<and> connected s v (pst_author p)
      else scope = ''community'' \<longrightarrow> pst_community p = Some community)"

definition repo_feed ::
  "social_db \<Rightarrow> string \<Rightarrow> string \<Rightarrow> string \<Rightarrow> cursor option \<Rightarrow> nat \<Rightarrow> post_shown list" where
  "repo_feed s v scope community cur limit = map (hydrate_post s v) (take limit (newest_first
     (filter (\<lambda>p. post_visible (so_db s) v p \<and> in_scope (so_db s) v scope community p \<and> after_cursor cur p) (so_posts s))))"

definition post_member :: "db \<Rightarrow> string \<Rightarrow> string \<Rightarrow> bool" where
  "post_member s c u \<longleftrightarrow> (c, u) \<in> set (t_members s)"

definition repo_save_post :: "social_db \<Rightarrow> int \<Rightarrow> string \<Rightarrow> string \<Rightarrow> social_db" where
  "repo_save_post s now i u =
    (if \<exists>x\<in>set (so_saves s). fst x = u \<and> fst (snd x) = i then s
     else s\<lparr>so_saves := so_saves s @ [(u, i, now)]\<rparr>)"

definition repo_unsave_post :: "social_db \<Rightarrow> string \<Rightarrow> string \<Rightarrow> social_db" where
  "repo_unsave_post s i u = s\<lparr>so_saves := filter (\<lambda>x. \<not> (fst x = u \<and> fst (snd x) = i)) (so_saves s)\<rparr>"

definition repo_list_saved :: "social_db \<Rightarrow> string \<Rightarrow> nat \<Rightarrow> post_shown list" where
  "repo_list_saved s u limit = map (hydrate_post s u) (take limit (List.map_filter
     (\<lambda>x. find (\<lambda>p. pst_id p = fst (snd x) \<and> post_visible (so_db s) u p) (so_posts s))
     (sort_key (\<lambda>x. - snd (snd x)) (filter (\<lambda>x. fst x = u) (so_saves s)))))"

text \<open>The insert returns the id only: the time of the returned comment stays Go's zero time, \<open>no_time\<close>.\<close>

definition no_time :: int where "no_time = - 62135596800 * second"

definition repo_create_comment :: "social_db \<Rightarrow> int \<Rightarrow> string \<Rightarrow> string \<Rightarrow> string \<Rightarrow> string \<Rightarrow> social_db \<times> comment_row" where
  "repo_create_comment s now new_id i u body =
    (let c = \<lparr>cb_id = new_id, cb_post = i, cb_author = u, cb_body = body, cb_created = db_time now\<rparr>
     in (s\<lparr>so_comments := so_comments s @ [c]\<rparr>, c\<lparr>cb_created := no_time\<rparr>))"

definition repo_list_comments :: "social_db \<Rightarrow> string \<Rightarrow> string \<Rightarrow> nat \<Rightarrow> comment_row list" where
  "repo_list_comments s i v limit = take limit (sort_key (\<lambda>c. (cb_created c, cb_id c))
     (filter (\<lambda>c. cb_post c = i \<and> \<not> blocked (so_db s) v (cb_author c)) (so_comments s)))"

definition repo_like :: "social_db \<Rightarrow> string \<Rightarrow> string \<Rightarrow> social_db \<times> int \<times> bool" where
  "repo_like s i u =
    (let new = ((i, u) \<notin> set (so_likes s)); s1 = (if new then s\<lparr>so_likes := so_likes s @ [(i, u)]\<rparr> else s)
     in (s1, cnt (\<lambda>l. fst l = i) (so_likes s1), new))"

definition social_notify :: "social_db \<Rightarrow> int \<Rightarrow> event \<Rightarrow> social_db" where
  "social_notify s now e = s\<lparr>so_db := fst (emit (so_db s) now e)\<rparr>"

definition can_attach_to_plan :: "db \<Rightarrow> int \<Rightarrow> string \<Rightarrow> string \<Rightarrow> bool" where
  "can_attach_to_plan s now plan u \<longleftrightarrow> attended s now plan u \<or> (\<exists>p\<in>set (t_plans s). pl_id p = plan \<and> pl_host p = u)"

record memory =
  my_plan :: string
  my_title :: string
  my_starts :: int
  my_year :: int
  my_photos :: int
  my_people :: int

text \<open>\<open>local tz t\<close>: the wall-clock time of an instant in a named zone, in nanoseconds; city names are not columns of the model.\<close>

definition local_year :: "(string \<Rightarrow> int \<Rightarrow> int) \<Rightarrow> db \<Rightarrow> plan_row \<Rightarrow> int" where
  "local_year local s p =
    (let tz = (case find (\<lambda>c. Some (fst c) = pl_city p) (t_cities s) of None \<Rightarrow> ''UTC'' | Some c \<Rightarrow> snd c)
     in fst (civil (local tz (pl_starts p) div day)) div 12)"

definition memory_of :: "(string \<Rightarrow> int \<Rightarrow> int) \<Rightarrow> social_db \<Rightarrow> int \<Rightarrow> string \<Rightarrow> plan_row \<Rightarrow> memory" where
  "memory_of local s now u p = \<lparr>my_plan = pl_id p, my_title = pl_title p, my_starts = pl_starts p,
     my_year = local_year local (so_db s) p,
     my_photos = tot (\<lambda>x. pst_plan x = Some (pl_id p) \<and> (pst_author x = u \<or> pst_visibility x = ''public'')) (\<lambda>x. int (length (pst_media x))) (so_posts s),
     my_people = cnt (\<lambda>b. bk_plan b = pl_id p) (attended_bookings (so_db s) now)\<rparr>"

definition repo_list_memories :: "(string \<Rightarrow> int \<Rightarrow> int) \<Rightarrow> social_db \<Rightarrow> int \<Rightarrow> string \<Rightarrow> int \<Rightarrow> memory list" where
  "repo_list_memories local s now u year =
     map (memory_of local s now u) (sort_key (\<lambda>p. - pl_starts p)
       (filter (\<lambda>p. year = 0 \<or> local_year local (so_db s) p = year)
         (List.map_filter (\<lambda>b. if bk_user b = u then plan_by_id (so_db s) (bk_plan b) else None) (attended_bookings (so_db s) now))))"

text \<open>The score of a post for a viewer, over the reals; \<open>interests\<close> are profile columns.\<close>

definition for_you_score :: "(string \<Rightarrow> string list) \<Rightarrow> social_db \<Rightarrow> int \<Rightarrow> string \<Rightarrow> post_row \<Rightarrow> real" where
  "for_you_score interests s now v p =
     exp (- (of_int (now - pst_created p) / of_int second) / 86400)
     * (1 + (if connected (so_db s) v (pst_author p) then 1 else 0)
        + 0.15 * of_nat (card (set (interests (pst_author p)) \<inter> set (interests v)))
        + ln (1 + of_int (cnt (\<lambda>l. fst l = pst_id p) (so_likes s))))"

definition repo_for_you ::
  "(string \<Rightarrow> string list) \<Rightarrow> social_db \<Rightarrow> int \<Rightarrow> string \<Rightarrow> nat \<Rightarrow> nat \<Rightarrow> post_shown list" where
  "repo_for_you interests s now v offset limit = map (hydrate_post s v) (take limit (drop offset
     (rev (sort_key (\<lambda>p. (for_you_score interests s now v p, pst_id p))
       (filter (\<lambda>p. pst_author p \<noteq> v \<and> pst_visibility p \<noteq> ''private'' \<and> now - 30 * day < pst_created p \<and> post_visible (so_db s) v p)
         (so_posts s))))))"

definition count_visible_by_author :: "social_db \<Rightarrow> string \<Rightarrow> string \<Rightarrow> int" where
  "count_visible_by_author s author v = cnt (\<lambda>p. pst_author p = author \<and> post_visible (so_db s) v p) (so_posts s)"

section \<open>Service\<close>

definition max_post_body :: nat where "max_post_body = 5000"
definition max_comment_len :: nat where "max_comment_len = 2000"
definition max_post_media :: nat where "max_post_media = 10"
definition max_for_you_offset :: int where "max_for_you_offset = 200"
definition max_comments_per_post :: nat where "max_comments_per_post = 200"
definition default_post_page_size :: int where "default_post_page_size = 20"
definition valid_visibility :: "string set" where "valid_visibility = {''private'', ''public'', ''connections'', ''community''}"

definition social_flag :: "social_db \<Rightarrow> string \<times> string \<Rightarrow> string \<Rightarrow> string \<Rightarrow> string \<Rightarrow> string \<times> string \<Rightarrow> social_db" where
  "social_flag s ids type subject actor verdict =
    (if fst verdict = ''review''
     then s\<lparr>so_mod := fst (auto_flag_for_subject (so_mod s) ids type subject actor (fst verdict) (snd verdict))\<rparr> else s)"

definition claim_post_media :: "media_resolver option \<Rightarrow> post_input \<Rightarrow> go_error + media_asset list" where
  "claim_post_media media p =
    (if pi_media p = [] then Inr []
     else case media of
       None \<Rightarrow> Inl (Social SocialMediaUnavailable)
     | Some claim \<Rightarrow>
         (case claim (pi_author p) (pi_media p) of
            Inl e \<Rightarrow> Inl (if e = Media MediaNotFound then Social SocialInvalidInput else e)
          | Inr assets \<Rightarrow> Inr assets))"

definition create_post ::
  "media_resolver option \<Rightarrow> string list \<Rightarrow> social_db \<Rightarrow> int \<Rightarrow> string \<Rightarrow> string \<times> string \<Rightarrow> post_input
    \<Rightarrow> (social_db, post_row) outcome" where
  "create_post media words s now new_id ids p =
    (let p = (if pi_visibility p = '''' then p\<lparr>pi_visibility := ''private''\<rparr> else p)
     in if pi_author p = '''' \<or> max_post_body < length (pi_body p) then (s, Inl (Social SocialInvalidInput))
        else if pi_visibility p \<notin> valid_visibility \<or> (pi_visibility p = ''community'') \<noteq> (pi_community p \<noteq> '''')
        then (s, Inl (Social SocialInvalidInput))
        else if max_post_media < length (pi_media p) \<or> (trim_space (pi_body p) = '''' \<and> pi_media p = [])
        then (s, Inl (Social SocialInvalidInput))
        else case claim_post_media media p of
          Inl e \<Rightarrow> (s, Inl e)
        | Inr assets \<Rightarrow>
            if pi_community p \<noteq> '''' \<and> \<not> post_member (so_db s) (pi_community p) (pi_author p)
            then (s, Inl (Social SocialNotMember))
            else if pi_plan p \<noteq> '''' \<and> \<not> can_attach_to_plan (so_db s) now (pi_plan p) (pi_author p)
            then (s, Inl (Social SocialNotAttendee))
            else let verdict = screen words (pi_body p)
              in if fst verdict = ''severe'' then (s, Inl (Social SocialContentRejected))
                 else and_then (repo_create_post s now new_id p assets) (\<lambda>x s1.
                   (social_flag s1 ids ''post'' (pst_id x) (pi_author p) verdict, Inr x)))"

definition get_post :: "social_db \<Rightarrow> string \<Rightarrow> string \<Rightarrow> go_error + post_shown" where
  "get_post s i v = (if i = '''' \<or> v = '''' then Inl (Social SocialInvalidInput) else get_visible s i v)"

definition list_comments :: "social_db \<Rightarrow> string \<Rightarrow> string \<Rightarrow> go_error + comment_row list" where
  "list_comments s i v =
    (if i = '''' \<or> v = '''' then Inl (Social SocialInvalidInput)
     else case get_visible s i v of Inl e \<Rightarrow> Inl e | Inr _ \<Rightarrow> Inr (repo_list_comments s i v max_comments_per_post))"

definition encode_cursor :: "post_row \<Rightarrow> string" where
  "encode_cursor p = b64_encode (format_int (pst_created p div 1000) @ CHR ''|'' # pst_id p)"

definition decode_cursor :: "string \<Rightarrow> go_error + cursor option" where
  "decode_cursor tok =
    (if tok = '''' then Inr None
     else case b64_decode tok of
       None \<Rightarrow> Inl (Social SocialInvalidInput)
     | Some raw \<Rightarrow>
         let ts = takeWhile (\<lambda>c. c \<noteq> CHR ''|'') raw; i = drop (Suc (length ts)) raw
         in (case parse_int ts of
               None \<Rightarrow> Inl (Social SocialInvalidInput)
             | Some micros \<Rightarrow>
                 if CHR ''|'' \<notin> set raw \<or> i = '''' then Inl (Social SocialInvalidInput) else Inr (Some (micros * 1000, i))))"

definition page_limit :: "int \<Rightarrow> int" where
  "page_limit psize = (if psize \<le> 0 \<or> 50 < psize then default_post_page_size else psize)"

text \<open>One row more than the page was asked for: if it is there, a next page is.\<close>

definition cut_page :: "nat \<Rightarrow> post_shown list \<Rightarrow> post_shown list \<times> string" where
  "cut_page limit ps =
    (if limit < length ps then (take limit ps, encode_cursor (ps_row (take limit ps ! (limit - 1)))) else (ps, ''''))"

definition list_posts :: "social_db \<Rightarrow> string \<Rightarrow> string \<Rightarrow> int \<Rightarrow> string \<Rightarrow> go_error + post_shown list \<times> string" where
  "list_posts s author v psize tok =
    (if author = '''' \<or> v = '''' then Inl (Social SocialInvalidInput)
     else case decode_cursor tok of
       Inl e \<Rightarrow> Inl e
     | Inr cur \<Rightarrow> let limit = nat (page_limit psize) in Inr (cut_page limit (list_for_author s author v cur (limit + 1))))"

text \<open>The first \<open>n\<close> runes of UTF-8 text: a rune is a byte with its continuation bytes.\<close>

definition continues :: "char \<Rightarrow> bool" where
  "continues c \<longleftrightarrow> 128 \<le> (of_char c :: nat) \<and> (of_char c :: nat) < 192"

function runes :: "string \<Rightarrow> string list" where
  "runes [] = []"
| "runes (c # cs) = (c # takeWhile continues cs) # runes (dropWhile continues cs)"
  by pat_completeness auto

termination
  by (relation "measure length") (simp_all add: length_dropWhile_le less_Suc_eq_le)

definition snippet :: "string \<Rightarrow> nat \<Rightarrow> string" where
  "snippet s n = (let r = runes (trim_space s) in if length r \<le> n then concat r
     else concat (take n r) @ [CHR 0xE2, CHR 0x80, CHR 0xA6])"

definition comment_event :: "post_row \<Rightarrow> comment_row \<Rightarrow> event" where
  "comment_event p c = \<lparr>ev_user = pst_author p, ev_actor = cb_author c, ev_type = ''post_comment'', ev_target = pst_id p,
     ev_title = ''{actor} commented on your post'', ev_body = snippet (cb_body c) 80,
     ev_link = ''hivemind://posts/'' @ pst_id p, ev_dedupe = ''comment:'' @ cb_id c\<rparr>"

definition comment_on_post ::
  "string list \<Rightarrow> social_db \<Rightarrow> int \<Rightarrow> string \<Rightarrow> string \<times> string \<Rightarrow> string \<Rightarrow> string \<Rightarrow> string \<Rightarrow> (social_db, comment_row) outcome" where
  "comment_on_post words s now new_id ids i u body =
    (if i = '''' \<or> u = '''' \<or> trim_space body = '''' \<or> max_comment_len < length body then (s, Inl (Social SocialInvalidInput))
     else case get_visible s i u of
       Inl e \<Rightarrow> (s, Inl e)
     | Inr post \<Rightarrow>
         let verdict = screen words body
         in if fst verdict = ''severe'' then (s, Inl (Social SocialContentRejected))
            else case repo_create_comment s now new_id i u body of (s1, c) \<Rightarrow>
              (social_notify (social_flag s1 ids ''comment'' (cb_id c) u verdict) now (comment_event (ps_row post) c), Inr c))"

definition like_event :: "post_row \<Rightarrow> string \<Rightarrow> event" where
  "like_event p u = \<lparr>ev_user = pst_author p, ev_actor = u, ev_type = ''post_like'', ev_target = pst_id p,
     ev_title = ''{actor} liked your post'', ev_body = snippet (pst_body p) 80,
     ev_link = ''hivemind://posts/'' @ pst_id p, ev_dedupe = ''like:'' @ pst_id p @ '':'' @ u\<rparr>"

definition like_post :: "social_db \<Rightarrow> int \<Rightarrow> string \<Rightarrow> string \<Rightarrow> (social_db, int) outcome" where
  "like_post s now i u =
    (if i = '''' \<or> u = '''' then (s, Inl (Social SocialInvalidInput))
     else case get_visible s i u of
       Inl e \<Rightarrow> (s, Inl e)
     | Inr post \<Rightarrow>
         (case repo_like s i u of (s1, n, inserted) \<Rightarrow>
           (if inserted then social_notify s1 now (like_event (ps_row post) u) else s1, Inr n)))"

definition save_post :: "social_db \<Rightarrow> int \<Rightarrow> string \<Rightarrow> string \<Rightarrow> (social_db, unit) outcome" where
  "save_post s now i u =
    (if i = '''' \<or> u = '''' then (s, Inl (Social SocialInvalidInput))
     else case get_visible s i u of Inl e \<Rightarrow> (s, Inl e) | Inr _ \<Rightarrow> (repo_save_post s now i u, Inr ()))"

definition unsave_post :: "social_db \<Rightarrow> string \<Rightarrow> string \<Rightarrow> (social_db, unit) outcome" where
  "unsave_post s i u =
    (if i = '''' \<or> u = '''' then (s, Inl (Social SocialInvalidInput)) else (repo_unsave_post s i u, Inr ()))"

definition list_saved_posts :: "social_db \<Rightarrow> string \<Rightarrow> go_error + post_shown list" where
  "list_saved_posts s u = (if u = '''' then Inl (Social SocialInvalidInput) else Inr (repo_list_saved s u 50))"

definition share_post :: "string \<Rightarrow> social_db \<Rightarrow> string \<Rightarrow> string \<Rightarrow> go_error + string" where
  "share_post web s i u =
    (if i = '''' \<or> u = '''' then Inl (Social SocialInvalidInput)
     else case get_visible s i u of Inl e \<Rightarrow> Inl e | Inr _ \<Rightarrow> Inr (web @ ''/posts/'' @ i))"

definition for_you_page ::
  "(string \<Rightarrow> string list) \<Rightarrow> social_db \<Rightarrow> int \<Rightarrow> string \<Rightarrow> int \<Rightarrow> string \<Rightarrow> go_error + post_shown list \<times> string" where
  "for_you_page interests s now v psize tok =
    (case (if tok = '''' then Some 0
           else case parse_int tok of None \<Rightarrow> None | Some n \<Rightarrow> if n < 0 \<or> max_for_you_offset < n then None else Some n) of
       None \<Rightarrow> Inl (Social SocialInvalidInput)
     | Some offset \<Rightarrow>
         let limit = page_limit psize; posts = repo_for_you interests s now v (nat offset) (nat limit + 1)
         in Inr (if nat limit < length posts
                 then (take (nat limit) posts, if offset + limit \<le> max_for_you_offset then format_int (offset + limit) else '''')
                 else (posts, '''')))"

definition get_feed ::
  "(string \<Rightarrow> string list) \<Rightarrow> social_db \<Rightarrow> int \<Rightarrow> string \<Rightarrow> string \<Rightarrow> string \<Rightarrow> int \<Rightarrow> string
    \<Rightarrow> go_error + post_shown list \<times> string" where
  "get_feed interests s now v scope community psize tok =
    (if v = '''' \<or> scope \<notin> {''global'', ''connections'', ''community'', ''for_you''} then Inl (Social SocialInvalidInput)
     else if scope = ''for_you'' then for_you_page interests s now v psize tok
     else if (scope = ''community'') \<noteq> (community \<noteq> '''') then Inl (Social SocialInvalidInput)
     else if scope = ''community'' \<and> \<not> post_member (so_db s) community v then Inl (Social SocialPostNotFound)
     else case decode_cursor tok of
       Inl e \<Rightarrow> Inl e
     | Inr cur \<Rightarrow> let limit = nat (page_limit psize) in Inr (cut_page limit (repo_feed s v scope community cur (limit + 1))))"

record memory_year =
  ym_year :: int
  ym_memories :: "memory list"

fun year_loop :: "memory list \<Rightarrow> memory_year list \<Rightarrow> memory_year list" where
  "year_loop [] out = out"
| "year_loop (m # ms) out =
    (let out1 = (if out = [] \<or> ym_year (last out) \<noteq> my_year m then out @ [\<lparr>ym_year = my_year m, ym_memories = []\<rparr>] else out);
         y = last out1
     in year_loop ms (butlast out1 @ [y\<lparr>ym_memories := ym_memories y @ [m]\<rparr>]))"

definition list_my_memories :: "(string \<Rightarrow> int \<Rightarrow> int) \<Rightarrow> social_db \<Rightarrow> int \<Rightarrow> string \<Rightarrow> int \<Rightarrow> go_error + memory_year list" where
  "list_my_memories local s now u year =
    (if u = '''' \<or> year < 0 then Inl (Social SocialInvalidInput) else Inr (year_loop (repo_list_memories local s now u year) []))"

end
