(* ===== verification/Social_Facts.thy ===== *)
theory Social_Facts
  imports Social
begin

text \<open>
  What the feed guarantees: page tokens come back as they were cut, turning the pages of a
  feed or of a profile shows every post once, and a post the reader may not see answers like
  a missing one wherever it is named.
\<close>

section \<open>Page tokens\<close>

lemma format_int_no_bar: "CHR ''|'' \<notin> set (format_int i)"
proof -
  have "\<not> is_digit CHR ''|''" by (simp add: is_digit_def)
  then have "CHR ''|'' \<notin> set (format_nat n)" for n
    using format_nat_digits[of n] by (metis list_all_iff)
  then show ?thesis by (simp add: format_int_def)
qed

text \<open>What the database stores: a key, microseconds, and a time within \<^verbatim>\<open>int64\<close>.\<close>

definition post_stored :: "post_row \<Rightarrow> bool" where
  "post_stored p \<longleftrightarrow> pst_id p \<noteq> '''' \<and> pst_created p mod 1000 = 0
     \<and> - (2 ^ 63) \<le> pst_created p div 1000 \<and> pst_created p div 1000 < 2 ^ 63"

definition posts_stored :: "social_db \<Rightarrow> bool" where
  "posts_stored s \<longleftrightarrow> distinct (map pst_id (so_posts s)) \<and> (\<forall>p\<in>set (so_posts s). post_stored p)"

lemma cursor_roundtrip:
  assumes "post_stored p"
  shows "decode_cursor (encode_cursor p) = Inr (Some (post_key p))"
proof -
  let ?ts = "format_int (pst_created p div 1000)"
  have cut: "takeWhile (\<lambda>c. c \<noteq> CHR ''|'') (?ts @ CHR ''|'' # pst_id p) = ?ts"
    using format_int_no_bar by (subst takeWhile_append2) auto
  have time: "pst_created p div 1000 * 1000 = pst_created p"
    using assms div_mult_mod_eq[of "pst_created p" 1000] by (simp add: post_stored_def)
  have "parse_int ?ts = Some (pst_created p div 1000)"
    using assms by (intro parse_format_int) (simp_all add: post_stored_def)
  moreover have "encode_cursor p \<noteq> ''''" by (simp add: encode_cursor_def b64_encode_Nil)
  ultimately show ?thesis
    using assms time by (simp add: decode_cursor_def encode_cursor_def b64_roundtrip Let_def cut post_stored_def post_key_def)
qed

lemma encode_cursor_some [simp]: "encode_cursor p \<noteq> ''''"
  by (simp add: encode_cursor_def b64_encode_Nil)

section \<open>Turning pages\<close>

fun turn_pages :: "nat \<Rightarrow> (string \<Rightarrow> go_error + post_shown list \<times> string) \<Rightarrow> string \<Rightarrow> post_shown list" where
  "turn_pages 0 page tok = []"
| "turn_pages (Suc n) page tok =
     (case page tok of
        Inl e \<Rightarrow> []
      | Inr (ps, nxt) \<Rightarrow> ps @ (if nxt = '''' then [] else turn_pages n page nxt))"

lemma filter_below:
  fixes f :: "'a \<Rightarrow> 'b::linorder"
  assumes "sorted_wrt (\<lambda>a b. f b < f a) xs" "k < length xs"
  shows "filter (\<lambda>m. f m < f (xs ! k)) xs = drop (Suc k) xs"
proof -
  have split: "xs = take (Suc k) xs @ drop (Suc k) xs" by simp
  have "filter (\<lambda>m. f m < f (xs ! k)) (take (Suc k) xs) = []"
  proof (rule filter_False, rule ballI)
    fix m assume "m \<in> set (take (Suc k) xs)"
    then obtain i where "i \<le> k" "m = xs ! i" by (auto simp: in_set_conv_nth less_Suc_eq_le)
    then show "\<not> f m < f (xs ! k)"
      using sorted_wrt_nth_less[OF assms(1), of i k] assms(2) by (cases "i = k") auto
  qed
  moreover have "filter (\<lambda>m. f m < f (xs ! k)) (drop (Suc k) xs) = drop (Suc k) xs"
  proof (rule filter_True, rule ballI)
    fix m assume "m \<in> set (drop (Suc k) xs)"
    then obtain i where "i < length (drop (Suc k) xs)" "m = drop (Suc k) xs ! i" unfolding in_set_conv_nth by blast
    then have "Suc k + i < length xs" "m = xs ! (Suc k + i)" by simp_all
    then show "f m < f (xs ! k)" using sorted_wrt_nth_less[OF assms(1), of k "Suc k + i"] by simp
  qed
  ultimately show ?thesis by (metis split filter_append append_Nil)
qed

lemma newest_first_sorted:
  assumes "distinct (map pst_id ps)"
  shows "sorted_wrt (\<lambda>a b. post_key b < post_key a) (newest_first ps)"
proof -
  have "inj_on post_key (set ps)" using assms by (auto simp: distinct_map inj_on_def post_key_def)
  then have "distinct (map post_key (sort_key post_key ps))"
    using assms by (simp add: distinct_map)
  moreover have "sorted (map post_key (sort_key post_key ps))" by (rule sorted_sort_key)
  ultimately have "sorted_wrt (<) (map post_key (sort_key post_key ps))" by (simp add: strict_sorted_iff)
  then show ?thesis by (simp add: newest_first_def sorted_wrt_rev sorted_wrt_map)
qed

lemma newest_first_filter: "newest_first (filter P ps) = filter P (newest_first ps)"
  by (simp add: newest_first_def rev_filter flip: filter_sort)

lemma after_some: "after_cursor (Some c) = (\<lambda>p. post_key p < c)"
  by (simp add: after_cursor_def fun_eq_iff)

lemma set_newest_first [simp]: "set (newest_first ps) = set ps"
  by (simp add: newest_first_def)

text \<open>The cursor and the token that lead to the post at position \<open>k\<close>.\<close>

definition cursor_to :: "post_row list \<Rightarrow> nat \<Rightarrow> cursor option" where
  "cursor_to l k = (if k = 0 then None else Some (post_key (l ! (k - 1))))"

definition token_to :: "post_row list \<Rightarrow> nat \<Rightarrow> string" where
  "token_to l k = (if k = 0 then '''' else encode_cursor (l ! (k - 1)))"

lemma token_cursor:
  assumes "\<forall>p\<in>set l. post_stored p" "k \<le> length l"
  shows "decode_cursor (token_to l k) = Inr (cursor_to l k)"
proof (cases k)
  case (Suc j)
  with assms have "post_stored (l ! j)" by simp
  with Suc show ?thesis by (simp add: token_to_def cursor_to_def cursor_roundtrip)
qed (simp add: token_to_def cursor_to_def decode_cursor_def)

lemma rest_after_cursor:
  assumes "distinct (map pst_id ps)" "k \<le> length ps"
  shows "newest_first (filter (after_cursor (cursor_to (newest_first ps) k)) ps) = drop k (newest_first ps)"
proof (cases k)
  case (Suc j)
  have "length (newest_first ps) = length ps" by (simp add: newest_first_def)
  then show ?thesis
    using filter_below[OF newest_first_sorted[OF assms(1)], of j] assms(2) Suc
    by (simp add: newest_first_filter after_some cursor_to_def)
qed (simp add: cursor_to_def after_cursor_def)

lemma cut_page_at:
  assumes "\<And>p. ps_row (f p) = p" "0 < n"
  shows "cut_page n (map f (take (n + 1) (drop k l)))
     = (map f (take n (drop k l)), if n < length l - k then token_to l (k + n) else '''')"
proof (cases "n < length l - k")
  case True
  then have "n < length (take (n + 1) (drop k l))" by simp
  moreover have "take n (map f (take (n + 1) (drop k l))) = map f (take n (drop k l))" by (simp add: take_map min_def)
  moreover have "take n (drop k l) ! (n - 1) = l ! (k + n - 1)" using True assms(2) by (simp add: add.commute)
  ultimately show ?thesis using True assms by (simp add: cut_page_def token_to_def)
next
  case False
  then show ?thesis by (simp add: cut_page_def)
qed

lemma turn_pages_all:
  assumes step: "\<And>k. k \<le> length l \<Longrightarrow> page (token_to l k)
      = Inr (map f (take n (drop k l)), if n < length l - k then token_to l (k + n) else '''')"
    and "0 < n" "k \<le> length l" "length l - k \<le> n * m" "0 < m"
  shows "turn_pages m page (token_to l k) = map f (drop k l)"
  using assms(3-5)
proof (induction m arbitrary: k)
  case (Suc m)
  show ?case
  proof (cases "n < length l - k")
    case True
    have "0 < m" using True Suc.prems by (cases m) auto
    moreover have "token_to l (k + n) \<noteq> ''''" using assms(2) by (simp add: token_to_def)
    moreover have "map f (take n (drop k l)) @ map f (drop (k + n) l) = map f (drop k l)"
      unfolding map_append[symmetric] by (metis append_take_drop_id drop_drop add.commute)
    ultimately show ?thesis using True Suc by (simp add: step)
  next
    case False
    then show ?thesis using Suc.prems by (simp add: step)
  qed
qed simp

section \<open>The feed and the profile\<close>

definition feed_posts :: "social_db \<Rightarrow> string \<Rightarrow> string \<Rightarrow> string \<Rightarrow> post_row list" where
  "feed_posts s v scope community =
     newest_first (filter (\<lambda>p. post_visible (so_db s) v p \<and> in_scope (so_db s) v scope community p) (so_posts s))"

definition author_posts :: "social_db \<Rightarrow> string \<Rightarrow> string \<Rightarrow> post_row list" where
  "author_posts s author v = newest_first (filter (\<lambda>p. pst_author p = author \<and> post_visible (so_db s) v p) (so_posts s))"

lemma page_limit_pos: "0 < nat (page_limit psize)"
  by (simp add: page_limit_def default_post_page_size_def)

lemma rest_of_posts:
  assumes "posts_stored s" "l = newest_first (filter P (so_posts s))" "k \<le> length l"
  shows "newest_first (filter (\<lambda>p. P p \<and> after_cursor (cursor_to l k) p) (so_posts s)) = drop k l"
    and "\<forall>p\<in>set l. post_stored p"
proof -
  have "distinct (map pst_id (filter P (so_posts s)))" using assms(1) by (simp add: posts_stored_def distinct_map_filter)
  moreover have "length l = length (filter P (so_posts s))" by (simp add: assms(2) newest_first_def)
  moreover have "filter (\<lambda>p. P p \<and> after_cursor (cursor_to l k) p) (so_posts s)
      = filter (after_cursor (cursor_to l k)) (filter P (so_posts s))" by (simp add: conj_commute)
  ultimately show "newest_first (filter (\<lambda>p. P p \<and> after_cursor (cursor_to l k) p) (so_posts s)) = drop k l"
    using rest_after_cursor[of "filter P (so_posts s)" k] assms(2,3) by simp
  show "\<forall>p\<in>set l. post_stored p" using assms(1,2) by (simp add: posts_stored_def)
qed

lemma ps_row_hydrate [simp]: "ps_row (hydrate_post s v p) = p"
  by (simp add: hydrate_post_def)

text \<open>
  C39. Turning the pages of a feed (global, connections or a community the reader is in), from
  the first and each from the token of the page before, shows exactly the posts the reader may
  see in that scope, each once, newest first, also where posts share a time.
\<close>

theorem feed_pages_complete:
  assumes "posts_stored s" "v \<noteq> ''''" "scope \<in> {''global'', ''connections'', ''community''}"
    and "(scope = ''community'') = (community \<noteq> '''')" "scope = ''community'' \<longrightarrow> post_member (so_db s) community v"
    and "int (length (feed_posts s v scope community)) \<le> page_limit psize * int m" "0 < m"
  shows "turn_pages m (get_feed interests s now v scope community psize) '''' =
    map (hydrate_post s v) (feed_posts s v scope community)"
proof -
  define l where "l = feed_posts s v scope community"
  define n where "n = nat (page_limit psize)"
  let ?page = "get_feed interests s now v scope community psize"
  have step: "?page (token_to l k) = Inr (map (hydrate_post s v) (take n (drop k l)), if n < length l - k then token_to l (k + n) else '''')"
    if "k \<le> length l" for k
  proof -
    note rest = rest_of_posts[OF assms(1) l_def[unfolded feed_posts_def] that]
    have "?page (token_to l k) = Inr (cut_page n (repo_feed s v scope community (cursor_to l k) (n + 1)))"
      using assms(2-5) token_cursor[OF rest(2) that] by (auto simp: get_feed_def n_def Let_def)
    also have "repo_feed s v scope community (cursor_to l k) (n + 1) = map (hydrate_post s v) (take (n + 1) (drop k l))"
      using rest(1) by (simp add: repo_feed_def conj_assoc)
    finally show ?thesis using cut_page_at[where f = "hydrate_post s v" and n = n and k = k and l = l, OF ps_row_hydrate] page_limit_pos by (simp add: n_def)
  qed
  have "int (length l) \<le> int (n * m)" using assms(6) page_limit_pos[of psize] by (simp add: l_def n_def)
  then have "length l - 0 \<le> n * m" by (simp only: of_nat_le_iff diff_zero)
  from turn_pages_all[where page = ?page and k = 0, OF step _ _ this assms(7)] page_limit_pos show ?thesis
    by (simp add: l_def n_def token_to_def)
qed

theorem profile_pages_complete:
  assumes "posts_stored s" "v \<noteq> ''''" "author \<noteq> ''''"
    and "int (length (author_posts s author v)) \<le> page_limit psize * int m" "0 < m"
  shows "turn_pages m (list_posts s author v psize) '''' = map (hydrate_post s v) (author_posts s author v)"
proof -
  define l where "l = author_posts s author v"
  define n where "n = nat (page_limit psize)"
  let ?page = "list_posts s author v psize"
  have step: "?page (token_to l k) = Inr (map (hydrate_post s v) (take n (drop k l)), if n < length l - k then token_to l (k + n) else '''')"
    if "k \<le> length l" for k
  proof -
    note rest = rest_of_posts[OF assms(1) l_def[unfolded author_posts_def] that]
    have "?page (token_to l k) = Inr (cut_page n (list_for_author s author v (cursor_to l k) (n + 1)))"
      using assms(2,3) token_cursor[OF rest(2) that] by (simp add: list_posts_def n_def Let_def)
    also have "list_for_author s author v (cursor_to l k) (n + 1) = map (hydrate_post s v) (take (n + 1) (drop k l))"
      using rest(1) by (simp add: list_for_author_def conj_assoc)
    finally show ?thesis
      using cut_page_at[where f = "hydrate_post s v" and n = n and k = k and l = l, OF ps_row_hydrate] page_limit_pos
      by (simp add: n_def)
  qed
  have "int (length l) \<le> int (n * m)" using assms(4) page_limit_pos[of psize] by (simp add: l_def n_def)
  then have "length l - 0 \<le> n * m" by (simp only: of_nat_le_iff diff_zero)
  from turn_pages_all[where page = ?page and k = 0, OF step _ _ this assms(5)] page_limit_pos show ?thesis
    by (simp add: l_def n_def token_to_def)
qed

text \<open>A post that arrives while a reader is turning pages does not move the pages still to come.\<close>

lemma arrivals_leave_later_pages:
  assumes "c \<le> post_key x"
  shows "map ps_row (repo_feed (s\<lparr>so_posts := so_posts s @ [x]\<rparr>) v scope community (Some c) n)
    = map ps_row (repo_feed s v scope community (Some c) n)"
  using leD[OF assms] by (simp add: repo_feed_def after_some comp_def)

text \<open>What \<^verbatim>\<open>CreatePost\<close> stores: one row at the end, by a member and attendee, with the author's own media.\<close>

lemma create_post_InrE:
  assumes "create_post media words s now new_id ids p = (s', Inr x)"
  obtains assets vis where "so_posts s' = so_posts s @ [x]" "so_db s' = so_db s" "so_likes s' = so_likes s"
    "x = \<lparr>pst_id = new_id, pst_author = pi_author p, pst_plan = nullif (pi_plan p), pst_community = nullif (pi_community p),
      pst_body = pi_body p, pst_media = zip (pi_media p) assets, pst_visibility = vis, pst_created = db_time now\<rparr>"
    "vis \<in> valid_visibility" "(vis = ''community'') = (pi_community p \<noteq> '''')"
    "pi_community p \<noteq> '''' \<Longrightarrow> post_member (so_db s) (pi_community p) (pi_author p)"
    "pi_plan p \<noteq> '''' \<Longrightarrow> can_attach_to_plan (so_db s) now (pi_plan p) (pi_author p)"
    "pi_media p = [] \<or> (\<exists>claim. media = Some claim \<and> claim (pi_author p) (pi_media p) = Inr assets)"
    "fst (screen words (pi_body p)) \<noteq> ''severe''"
proof -
  define q where "q = (if pi_visibility p = '''' then p\<lparr>pi_visibility := ''private''\<rparr> else p)"
  have q: "pi_author q = pi_author p" "pi_plan q = pi_plan p" "pi_community q = pi_community p" "pi_body q = pi_body p" "pi_media q = pi_media p"
    by (simp_all add: q_def)
  have run: "create_post media words s now new_id ids p =
     (if pi_author q = '''' \<or> max_post_body < length (pi_body q) then (s, Inl (Social SocialInvalidInput))
        else if pi_visibility q \<notin> valid_visibility \<or> (pi_visibility q = ''community'') \<noteq> (pi_community q \<noteq> '''')
        then (s, Inl (Social SocialInvalidInput))
        else if max_post_media < length (pi_media q) \<or> (trim_space (pi_body q) = '''' \<and> pi_media q = [])
        then (s, Inl (Social SocialInvalidInput))
        else case claim_post_media media q of
          Inl e \<Rightarrow> (s, Inl e)
        | Inr assets \<Rightarrow>
            if pi_community q \<noteq> '''' \<and> \<not> post_member (so_db s) (pi_community q) (pi_author q)
            then (s, Inl (Social SocialNotMember))
            else if pi_plan q \<noteq> '''' \<and> \<not> can_attach_to_plan (so_db s) now (pi_plan q) (pi_author q)
            then (s, Inl (Social SocialNotAttendee))
            else let verdict = screen words (pi_body q)
              in if fst verdict = ''severe'' then (s, Inl (Social SocialContentRejected))
                 else and_then (repo_create_post s now new_id q assets) (\<lambda>x s1.
                   (social_flag s1 ids ''post'' (pst_id x) (pi_author q) verdict, Inr x)))"
    unfolding create_post_def q_def Let_def by (rule refl)
  from assms obtain assets where ok: "pi_visibility q \<in> valid_visibility" "(pi_visibility q = ''community'') = (pi_community q \<noteq> '''')"
      "claim_post_media media q = Inr assets"
      "pi_community q \<noteq> '''' \<Longrightarrow> post_member (so_db s) (pi_community q) (pi_author q)"
      "pi_plan q \<noteq> '''' \<Longrightarrow> can_attach_to_plan (so_db s) now (pi_plan q) (pi_author q)"
      "fst (screen words (pi_body q)) \<noteq> ''severe''"
      "and_then (repo_create_post s now new_id q assets) (\<lambda>x s1.
         (social_flag s1 ids ''post'' (pst_id x) (pi_author q) (screen words (pi_body q)), Inr x)) = (s', Inr x)"
    unfolding run Let_def by (auto split: if_splits sum.splits)
  from ok(7) obtain s1 where s1: "repo_create_post s now new_id q assets = (s1, Inr x)"
      "s' = social_flag s1 ids ''post'' (pst_id x) (pi_author q) (screen words (pi_body q))"
    by (cases "repo_create_post s now new_id q assets") (auto simp: and_then_def split: sum.splits)
  have row: "so_posts s1 = so_posts s @ [x]" "so_db s1 = so_db s" "so_likes s1 = so_likes s"
      "x = \<lparr>pst_id = new_id, pst_author = pi_author q, pst_plan = nullif (pi_plan q), pst_community = nullif (pi_community q),
      pst_body = pi_body q, pst_media = zip (pi_media q) assets, pst_visibility = pi_visibility q, pst_created = db_time now\<rparr>"
    using s1(1) unfolding repo_create_post_def in_tx_eq_Inr Let_def by (auto split: if_splits)
  have flag: "so_posts (social_flag a i t u w vd) = so_posts a" "so_db (social_flag a i t u w vd) = so_db a"
      "so_likes (social_flag a i t u w vd) = so_likes a" for a i t u w vd
    by (simp_all add: social_flag_def)
  have media: "pi_media q = [] \<or> (\<exists>claim. media = Some claim \<and> claim (pi_author q) (pi_media q) = Inr assets)"
    using ok(3) by (auto simp: claim_post_media_def split: if_splits option.splits sum.splits)
  show ?thesis
    using that[where vis = "pi_visibility q" and assets = assets] row ok(1,2,4-6) media unfolding s1(2) flag q by blast
qed

lemma create_post_stored:
  assumes "create_post media words s now new_id ids p = (s', Inr x)" "posts_stored s"
    and "new_id \<noteq> ''''" "new_id \<notin> pst_id ` set (so_posts s)" "- (2 ^ 62) \<le> now" "now < 2 ^ 62"
  shows "posts_stored s'"
  using assms(1)
proof (cases rule: create_post_InrE)
  case (1 assets vis)
  have "now - now mod 1000 = 1000 * (now div 1000)" by (simp add: minus_mod_eq_mult_div)
  moreover have "- (2 ^ 63) \<le> now div 1000 \<and> now div 1000 < 2 ^ 63" using assms(5,6) by simp linarith
  ultimately have "post_stored x" using 1(4) assms(3) by (simp add: post_stored_def db_time_def)
  then show ?thesis using assms(2,4) 1(1,4) by (simp add: posts_stored_def image_iff)
qed

section \<open>Posts one may not see\<close>


section \<open>Memories\<close>

lemma year_loop_keeps:
  "concat (map ym_memories (year_loop ms out)) = concat (map ym_memories out) @ ms"
proof (induction ms out rule: year_loop.induct)
  case (2 m ms out)
  show ?case
  proof (cases "out = [] \<or> ym_year (last out) \<noteq> my_year m")
    case True
    with 2 show ?thesis by (simp add: Let_def)
  next
    case False
    then obtain o1 y where "out = o1 @ [y]" by (cases out rule: rev_cases) auto
    with 2 False show ?thesis by (simp add: Let_def)
  qed
qed simp

section \<open>Comments\<close>

text \<open>A thread over the limit shows its oldest comments: whatever is left out is at least as new as all it shows.\<close>

lemma comments_keep_the_oldest:
  assumes "d \<in> set (so_comments s)" "cb_post d = i" "\<not> blocked (so_db s) v (cb_author d)"
    and "d \<notin> set (repo_list_comments s i v n)" "c \<in> set (repo_list_comments s i v n)"
  shows "(cb_created c, cb_id c) \<le> (cb_created d, cb_id d)"
proof -
  define l where "l = sort_key (\<lambda>c. (cb_created c, cb_id c)) (filter (\<lambda>c. cb_post c = i \<and> \<not> blocked (so_db s) v (cb_author c)) (so_comments s))"
  have "sorted_wrt (\<le>) (map (\<lambda>c. (cb_created c, cb_id c)) (take n l @ drop n l))" unfolding append_take_drop_id by (simp add: l_def)
  then have le: "\<forall>c\<in>set (take n l). \<forall>d\<in>set (drop n l). (cb_created c, cb_id c) \<le> (cb_created d, cb_id d)"
    by (simp only: map_append sorted_wrt_append) (simp add: less_eq_prod_def)
  have all: "d \<in> set (take n l @ drop n l)" using assms(1-3) unfolding append_take_drop_id by (simp add: l_def)
  have shown: "repo_list_comments s i v n = take n l" by (simp add: repo_list_comments_def l_def)
  have "d \<in> set (drop n l)" using all assms(4) unfolding shown set_append by blast
  with le assms(5) show ?thesis unfolding shown by blast
qed

section \<open>Witnesses\<close>

definition sample_post :: post_row where
  "sample_post = \<lparr>pst_id = ''1'', pst_author = ''a'', pst_plan = None, pst_community = None, pst_body = ''hi'',
     pst_media = [], pst_visibility = ''public'', pst_created = 1000\<rparr>"

definition sample_social :: social_db where
  "sample_social = \<lparr>so_db = empty_db\<lparr>t_users := [sample_user\<lparr>us_id := ''a''\<rparr>]\<rparr>, so_mod = \<lparr>md_reports = [], md_cases = [], md_ratings = [], md_tiers = []\<rparr>,
     so_posts = [sample_post, sample_post\<lparr>pst_id := ''2''\<rparr>, sample_post\<lparr>pst_id := ''3'', pst_visibility := ''private''\<rparr>],
     so_comments = [], so_likes = [], so_saves = []\<rparr>"

lemma sample_posts:
  "posts_stored sample_social"
  "map pst_id (feed_posts sample_social ''b'' ''global'' '''') = [''2'', ''1'']"
  by code_simp+

lemma feed_pages_complete_witness:
  "map (pst_id \<circ> ps_row) (turn_pages 2 (get_feed (\<lambda>_. []) sample_social 0 ''b'' ''global'' '''' 1) '''') = [''2'', ''1'']"
proof -
  have "length (feed_posts sample_social ''b'' ''global'' '''') = 2"
    using arg_cong[OF sample_posts(2), of length] by simp
  then have "turn_pages 2 (get_feed (\<lambda>_. []) sample_social 0 ''b'' ''global'' '''' 1) '''' =
      map (hydrate_post sample_social ''b'') (feed_posts sample_social ''b'' ''global'' '''')"
    by (intro feed_pages_complete sample_posts) (simp_all add: page_limit_def)
  then show ?thesis using sample_posts(2) by (simp add: comp_def)
qed


text \<open>
  The years of memories come from each plan's own zone but the order from the instants: around
  New Year the list of years repeats one, so they do not arrive grouped.
\<close>

definition new_year_eve :: db where
  "new_year_eve =
    (let plan = (\<lambda>i c t. sample_plan\<lparr>pl_id := i, pl_city := c, pl_starts := (20453 * 24 + t) * hour, pl_ends := (20453 * 24 + t + 1) * hour\<rparr>)
     in empty_db\<lparr>t_cities := [(''in'', ''Asia/Kolkata'')],
          t_plans := [plan ''1'' None 21, plan ''2'' (Some ''in'') 20, plan ''3'' None 12],
          t_bookings := map (\<lambda>i. sample_booking\<lparr>bk_id := i, bk_plan := i, bk_status := Attended\<rparr>) [''1'', ''2'', ''3'']\<rparr>)"

lemma years_repeat_around_new_year:
  "map_sum id (map ym_year) (list_my_memories (\<lambda>tz t. if tz = ''UTC'' then t else t + 11 * (hour div 2))
     (sample_social\<lparr>so_db := new_year_eve\<rparr>) (30000 * day) ''u'' 0) = Inr [2025, 2026, 2025]"
  by code_simp

end
