(* ===== verification/Spec2Isabelle.thy ===== *)
theory Spec2Isabelle
  imports Plan_Runs Access_Facts Referral Chat_Facts Receipts Community_Facts Availability Safety Reviews Stories Meet Social_Facts
begin

section \<open>The HiveMind backend\<close>

text \<open>
  HiveMind sells seats on plans (events people host) in India. An API process
  (\<^verbatim>\<open>cmd/api\<close>) and a worker process (\<^verbatim>\<open>cmd/worker\<close>) share one PostgreSQL
  database; the packages under \<^verbatim>\<open>internal\<close> each own some tables, with one repository
  method per transaction. What happened is written to an outbox table in the same
  transaction, published to NATS by the worker and handled there at least once. Money comes
  from the Cashfree gateway: an order is created, the payer pays, and a signed webhook or
  the payer's own call reports the capture.

  \<^bold>\<open>How the code is read.\<close> A table is a list of records, a nullable column an
  \<open>option\<close>, an id a string (\<open>''''\<close> is Go's empty string). A repository method is a function
  from the state to an \<open>outcome\<close>: the new state and either an error value, one constructor per
  error the Go packages return, or the result. A method that runs in a SQL transaction ends in
  \<open>in_tx\<close>: an error restores the state before it. Methods that do several transactions
  compose them with \<open>and_then\<close>, which keeps the changes made before an error. Times are
  \<^typ>\<open>int\<close> nanoseconds since 1970, money is \<^typ>\<open>int\<close> paise;
  where the Go code computes in \<^verbatim>\<open>float64\<close> the rounding is written out (Fee, Rupees).
  Ids, random bytes and the clock are arguments. The transactions of one method are atomic and
  serial: locking is not modelled, but any interleaving of transactions is a run.

  \<^bold>\<open>Theories.\<close> Foundations: Prelude (tables, outcomes, loops over rows), Store (the rows of
  bookings, plans and payments, and the database \<open>db\<close>), Text (Go's string functions).

  Seats (\<^verbatim>\<open>internal/bookings\<close>): Bookings is \<^verbatim>\<open>repository.go\<close>, Waitlist is
  \<^verbatim>\<open>waitlist.go\<close>, Fee and Booking_Service are \<^verbatim>\<open>service.go\<close>, \<^verbatim>\<open>access.go\<close> and
  \<^verbatim>\<open>pass.go\<close>, Pass is \<^verbatim>\<open>pkg/security/pass.go\<close>, Lifecycle has the jobs of
  \<^verbatim>\<open>lifecycle.go\<close> and the step relation of all of them. Seats proves that the stored
  \<open>confirmed_count\<close> is the number of occupied seats and within capacity through each of
  these operations, Booking_Facts what creating, confirming, cancelling and scanning do.
  Subscriptions (\<^verbatim>\<open>internal/subscriptions\<close>) provides the entitlement check access uses,
  as the interpretation of a locale.

  Money (\<^verbatim>\<open>internal/payments\<close>): Payments is \<^verbatim>\<open>repository.go\<close>, Payment_Service is
  \<^verbatim>\<open>service.go\<close> and \<^verbatim>\<open>adapters.go\<close> over a booking port and a gateway, which are
  records of functions as in the Go interfaces; Payment_Props gives the port its
  implementation by the booking package. Payment_Facts and Payment_Runs prove, over runs that
  interleave API calls, webhooks, jobs and booking operations, that refunds stay within the
  payment, that credits are returned once and that the ledger matches. Receipts is
  \<^verbatim>\<open>receipts.go\<close>. Rupees and Webhook are
  \<^verbatim>\<open>pkg/cashfree\<close> and \<^verbatim>\<open>cmd/api/webhook.go\<close>; Promotions is \<^verbatim>\<open>internal/promotions\<close>.

  Events: Outbox (\<^verbatim>\<open>pkg/eventbus\<close>), Notifications and Reminders
  (\<^verbatim>\<open>internal/notifications\<close>), Worker (\<^verbatim>\<open>cmd/worker\<close>); Delivery composes a
  cancellation, the drain, the delivery with its six attempts and the refund.

  Plans (\<^verbatim>\<open>internal/plans\<close>): Recurrence parses rules and expands them, Plans is the
  repository, the series job and the service; Plan_Facts and Plan_Runs hold what they
  guarantee.

  People: Auth (\<^verbatim>\<open>internal/auth\<close>), Referral (\<^verbatim>\<open>internal/referral\<close>), Connections
  (\<^verbatim>\<open>internal/connections\<close>), Users (\<^verbatim>\<open>internal/users\<close>), Moderation
  (\<^verbatim>\<open>internal/moderation\<close>), with their facts in Auth_Facts and Users_Facts. Access is the
  chain of interceptors in front of every call (\<^verbatim>\<open>pkg/grpcmiddleware\<close>, \<^verbatim>\<open>cmd/api/main.go\<close>).
  Chat_Store and Chat are \<^verbatim>\<open>internal/chat\<close>, with their facts in Chat_Facts. Communities and
  Community_Facts are \<^verbatim>\<open>internal/communities\<close>, whose members-only rooms are chat's;
  Smart_Groups is \<^verbatim>\<open>internal/smartgroups\<close>, which splits a plan's attendees into groups and
  opens a chat room for each. Availability is \<^verbatim>\<open>internal/availability\<close>, Safety
  \<^verbatim>\<open>internal/safety\<close> (alarms, contacts, check-ins), Reviews \<^verbatim>\<open>internal/reviews\<close>, Stories
  \<^verbatim>\<open>internal/stories\<close>, Meet \<^verbatim>\<open>internal/meet\<close> (deck, swipes, matches, paid boosts). Social is
  \<^verbatim>\<open>internal/social\<close>, its page tokens going through Base64; Social_Facts proves that turning
  the pages of a feed shows every visible post once and that a hidden post answers like a
  missing one.
\<close>

text \<open>
  \<^bold>\<open>Interfaces.\<close> Locales state what one component relies on in another, and each is
  interpreted on the model of the component that provides it: the seat accounting every
  booking operation keeps, the entitlement checker, the money tables a confirmation may not
  touch, operations that keep an invariant (loops over rows and runs inherit it), the
  rotation of sessions, and the rooms smart groups ask chat to create.

  \<^bold>\<open>Step relations.\<close> Seats, payments, receipts, plans, the gate, sessions, accounts,
  referrals, connections, chats, communities, availability, safety, reviews, stories, swipes
  and boosts each have an inductive step relation whose steps are their operations with arbitrary arguments,
  ids and times; runs are its reflexive transitive closure from the empty tables, and the
  invariants are proved by rule induction.

  \<^bold>\<open>Bounds and fuel.\<close> The recurrence job looks at 2000 candidates at most, as the code
  does; delivering an event stops after six attempts, as the consumer is configured; the pages of
  a chat or a feed are read with fuel, and the theorems say how many pages are enough. Every
  other loop is structural or has a measure.

  \<^bold>\<open>Parameters.\<close> The message authentication codes of passes and webhooks, token hashing and
  signing, OAuth verification, the gateway, the push and mail senders, the NATS
  publisher, the media resolver, the moderation word list, JSON decoding of webhooks and the
  test that text is a JSON object, distances between places, the interests of profiles, and
  the local time of an instant in a named zone.

  \<^bold>\<open>Not modelled.\<close> gRPC handlers (protobuf translation); searches, rankings and distances,
  which are PostGIS and full-text queries; media storage and image decoding; configuration,
  logging, seeding; profile forms; dashboards. The manifest lists each with its reason.
  Within the modelled packages: row locks and the interleaving of statements inside one
  transaction, foreign keys, the JSON export of personal data, ratings and photos that are
  joined for display, and the floating-point rounding of the rate limiter's tokens, which
  are rationals here.
\<close>

end
